(* ===== verification/Prelude.thy ===== *)
theory Prelude
  imports Main "HOL-Library.Char_ord" "HOL-Library.List_Lexorder" "HOL-Library.Sublist"
begin

text \<open>
  Shared vocabulary of the development: Python strings as lists of UTF-8 bytes
  (type \<^typ>\<open>string\<close>), the string methods the sources call, decimal printing and
  parsing, the outcome of one external command (\<^verbatim>\<open>subprocess.run\<close>), results of
  fallible code, and the list lemmas the components share.  Nothing here is specific to
  one component.
\<close>

named_theorems pystr "equations of the Python string methods"
named_theorems ledger "facts about the run ledger"
named_theorems merge "facts about merging a layer into a root filesystem"

section \<open>Results of fallible code\<close>

text \<open>A Python function that may raise returns \<^typ>\<open>'e + 'a\<close>: \<^const>\<open>Inl\<close> the exception,
  \<^const>\<open>Inr\<close> the returned value.\<close>

fun try_bind :: "'e + 'a \<Rightarrow> ('a \<Rightarrow> 'e + 'b) \<Rightarrow> 'e + 'b" where
  "try_bind (Inl e) f = Inl e"
| "try_bind (Inr x) f = f x"

lemma try_bind_InrD:
  assumes "try_bind m f = Inr y"
  obtains x where "m = Inr x" and "f x = Inr y"
  using assms by (cases m) auto

text \<open>A list comprehension over a function that may raise: the first exception wins.\<close>

fun try_map :: "('a \<Rightarrow> 'e + 'b) \<Rightarrow> 'a list \<Rightarrow> 'e + 'b list" where
  "try_map f [] = Inr []"
| "try_map f (x # xs) =
     (case f x of Inl e \<Rightarrow> Inl e
      | Inr y \<Rightarrow> (case try_map f xs of Inl e \<Rightarrow> Inl e | Inr ys \<Rightarrow> Inr (y # ys)))"

lemma try_map_InrD:
  "try_map f xs = Inr ys \<Longrightarrow> list_all2 (\<lambda>x y. f x = Inr y) xs ys"
  by (induction xs arbitrary: ys) (auto split: sum.splits)

lemma try_map_InlD:
  "try_map f xs = Inl e \<Longrightarrow> \<exists>x \<in> set xs. f x = Inl e"
  by (induction xs) (auto split: sum.splits)

lemma try_map_all_Inr:
  "(\<And>x. x \<in> set xs \<Longrightarrow> f x = Inr (g x)) \<Longrightarrow> try_map f xs = Inr (map g xs)"
  by (induction xs) auto

lemma try_map_result:
  "try_map f xs = Inr ys \<Longrightarrow> y \<in> set ys \<Longrightarrow> \<exists>x \<in> set xs. f x = Inr y"
  by (induction xs arbitrary: ys) (auto split: sum.splits)

lemma try_map_inverse:
  "\<forall>x \<in> set xs. f (g x) = Inr x \<Longrightarrow> try_map f (map g xs) = Inr xs"
  by (induction xs) auto

section \<open>External commands\<close>

text \<open>What one \<^verbatim>\<open>subprocess.run\<close> call gives: the exception raised before there is an exit
  status (missing binary, \<^verbatim>\<open>TimeoutExpired\<close>), or the exit status with the captured
  streams.  The programs themselves (zfs, jail, jls, pfctl, ...) are not part of the sources:
  a \<^verbatim>\<open>tool\<close> is a parameter that says what a command answers and how it changes the host.\<close>

datatype cmd_result =
    Spawn_error string
  | Completed (cmd_rc: int) (cmd_out: string) (cmd_err: string)

type_synonym 'w tool = "string list \<Rightarrow> 'w \<Rightarrow> cmd_result \<times> 'w"

text \<open>The helper every module has under the name \<^verbatim>\<open>_run_ok\<close>: no exception, -1 and the
  exception's text when there is no exit status.\<close>

definition run_ok :: "'w tool \<Rightarrow> string list \<Rightarrow> 'w \<Rightarrow> (int \<times> string \<times> string) \<times> 'w" where
  "run_ok t argv w = (case t argv w of
      (Spawn_error e, w') \<Rightarrow> ((-1, [], e), w')
    | (Completed rc out err, w') \<Rightarrow> ((rc, out, err), w'))"

text \<open>A tool that also remembers the commands it was given, newest last.\<close>

definition logged :: "'w tool \<Rightarrow> ('w \<times> string list list) tool" where
  "logged t argv s = (let (r, w) = t argv (fst s) in (r, (w, snd s @ [argv])))"

text \<open>On a host whose commands answer as \<^verbatim>\<open>f\<close> says, whether a command succeeds.\<close>

definition answers_ok :: "(string list \<Rightarrow> cmd_result) \<Rightarrow> string list \<Rightarrow> bool" where
  "answers_ok f argv \<longleftrightarrow> (case f argv of Spawn_error _ \<Rightarrow> False | Completed rc _ _ \<Rightarrow> rc = 0)"

section \<open>Characters and whitespace\<close>

definition NL :: char where "NL = CHR 0x0A"
definition CR :: char where "CR = CHR 0x0D"
definition QUOTE :: char where "QUOTE = CHR 0x27"
definition BACKSLASH :: char where "BACKSLASH = CHR 0x5C"

text \<open>The em dash of the sources' messages, as its three UTF-8 bytes.\<close>

definition em_dash :: string where
  "em_dash = [CHR 0xE2, CHR 0x80, CHR 0x94]"

text \<open>ASCII part of \<^verbatim>\<open>str.isspace\<close>.\<close>

definition is_ws :: "char \<Rightarrow> bool" where
  "is_ws c \<longleftrightarrow> (let n = of_char c :: nat in n = 32 \<or> (9 \<le> n \<and> n \<le> 13) \<or> (28 \<le> n \<and> n \<le> 31))"

definition is_digit :: "char \<Rightarrow> bool" where
  "is_digit c \<longleftrightarrow> (let n = of_char c :: nat in 48 \<le> n \<and> n \<le> 57)"

definition is_alpha :: "char \<Rightarrow> bool" where
  "is_alpha c \<longleftrightarrow> (let n = of_char c :: nat in (65 \<le> n \<and> n \<le> 90) \<or> (97 \<le> n \<and> n \<le> 122))"

definition is_alnum :: "char \<Rightarrow> bool" where
  "is_alnum c \<longleftrightarrow> is_alpha c \<or> is_digit c"

definition lower_char :: "char \<Rightarrow> char" where
  "lower_char c = (let n = of_char c :: nat in if 65 \<le> n \<and> n \<le> 90 then char_of (n + 32) else c)"

definition py_lower :: "string \<Rightarrow> string" where
  "py_lower s = map lower_char s"

section \<open>String methods\<close>

definition py_lstrip :: "string \<Rightarrow> string" where
  "py_lstrip s = dropWhile is_ws s"

definition py_rstrip :: "string \<Rightarrow> string" where
  "py_rstrip s = rev (dropWhile is_ws (rev s))"

definition py_strip :: "string \<Rightarrow> string" where
  "py_strip s = py_rstrip (py_lstrip s)"

text \<open>\<^verbatim>\<open>s.lstrip(c)\<close> and \<^verbatim>\<open>s.rstrip(c)\<close> for a one-character argument.\<close>

definition py_lstrip_char :: "char \<Rightarrow> string \<Rightarrow> string" where
  "py_lstrip_char c s = dropWhile (\<lambda>x. x = c) s"

definition py_rstrip_char :: "char \<Rightarrow> string \<Rightarrow> string" where
  "py_rstrip_char c s = rev (dropWhile (\<lambda>x. x = c) (rev s))"

text \<open>\<^verbatim>\<open>s.split(c)\<close>: never empty, one piece more than there are separators.\<close>

fun py_split :: "char \<Rightarrow> string \<Rightarrow> string list" where
  "py_split c [] = [[]]"
| "py_split c (x # xs) =
     (if x = c then [] # py_split c xs
      else (case py_split c xs of [] \<Rightarrow> [[x]] | p # ps \<Rightarrow> (x # p) # ps))"

text \<open>\<^verbatim>\<open>s.partition(c)\<close>: \<^verbatim>\<open>None\<close> when the separator is absent (Python returns
  \<^verbatim>\<open>(s, "", "")\<close> then), otherwise the text before and after its first occurrence.\<close>

fun py_cut :: "char \<Rightarrow> string \<Rightarrow> (string \<times> string) option" where
  "py_cut c [] = None"
| "py_cut c (x # xs) =
     (if x = c then Some ([], xs)
      else map_option (\<lambda>(a, b). (x # a, b)) (py_cut c xs))"

text \<open>\<^verbatim>\<open>s.rpartition(c)\<close>, split at the last occurrence.\<close>

definition py_rcut :: "char \<Rightarrow> string \<Rightarrow> (string \<times> string) option" where
  "py_rcut c s = map_option (\<lambda>(a, b). (rev b, rev a)) (py_cut c (rev s))"

text \<open>\<^verbatim>\<open>s.rsplit(c, 1)[-1]\<close>: the text after the last separator, or all of it.\<close>

definition py_after_last :: "char \<Rightarrow> string \<Rightarrow> string" where
  "py_after_last c s = (case py_rcut c s of None \<Rightarrow> s | Some (_, b) \<Rightarrow> b)"

text \<open>\<^verbatim>\<open>s.split()\<close>: the maximal runs without whitespace.\<close>

fun py_fields_aux :: "string \<Rightarrow> string \<Rightarrow> string list" where
  "py_fields_aux acc [] = (if acc = [] then [] else [rev acc])"
| "py_fields_aux acc (c # cs) =
     (if is_ws c then (if acc = [] then py_fields_aux [] cs else rev acc # py_fields_aux [] cs)
      else py_fields_aux (c # acc) cs)"

definition py_fields :: "string \<Rightarrow> string list" where
  "py_fields s = py_fields_aux [] s"

text \<open>\<^verbatim>\<open>s.splitlines()\<close> on the ASCII line boundaries.\<close>

definition is_linebreak :: "char \<Rightarrow> bool" where
  "is_linebreak c \<longleftrightarrow>
     (let n = of_char c :: nat in (10 \<le> n \<and> n \<le> 13) \<or> (28 \<le> n \<and> n \<le> 30))"

fun py_splitlines_aux :: "string \<Rightarrow> string \<Rightarrow> string list" where
  "py_splitlines_aux acc [] = (if acc = [] then [] else [rev acc])"
| "py_splitlines_aux acc (c # cs) =
     (if c = CR \<and> take 1 cs = [NL] then rev acc # py_splitlines_aux [] (drop 1 cs)
      else if is_linebreak c then rev acc # py_splitlines_aux [] cs
      else py_splitlines_aux (c # acc) cs)"

definition py_splitlines :: "string \<Rightarrow> string list" where
  "py_splitlines s = py_splitlines_aux [] s"

fun py_join :: "string \<Rightarrow> string list \<Rightarrow> string" where
  "py_join sep [] = []"
| "py_join sep [x] = x"
| "py_join sep (x # y # ys) = x @ sep @ py_join sep (y # ys)"

text \<open>\<^verbatim>\<open>needle in s\<close>.\<close>

fun py_contains :: "string \<Rightarrow> string \<Rightarrow> bool" where
  "py_contains needle [] = (needle = [])"
| "py_contains needle (x # xs) = (prefix needle (x # xs) \<or> py_contains needle xs)"

definition py_startswith :: "string \<Rightarrow> string \<Rightarrow> bool" where
  "py_startswith s p = prefix p s"

definition py_endswith :: "string \<Rightarrow> string \<Rightarrow> bool" where
  "py_endswith s p = suffix p s"

text \<open>\<^verbatim>\<open>repr(s)\<close> (the format \<^verbatim>\<open>!r\<close>) for ASCII text: single quotes unless the text has a
  single quote and no double quote; backslash, the quote, and control characters escaped.\<close>

definition hex_digit :: "nat \<Rightarrow> char" where
  "hex_digit n = (if n < 10 then char_of (48 + n) else char_of (87 + n))"

definition py_repr_char :: "char \<Rightarrow> char \<Rightarrow> string" where
  "py_repr_char q c =
     (if c = q \<or> c = BACKSLASH then [BACKSLASH, c]
      else if c = NL then [BACKSLASH, CHR ''n'']
      else if c = CR then [BACKSLASH, CHR ''r'']
      else if c = CHR 0x09 then [BACKSLASH, CHR ''t'']
      else (let n = of_char c :: nat in
              if n < 32 \<or> n = 127
              then [BACKSLASH, CHR ''x'', hex_digit (n div 16), hex_digit (n mod 16)]
              else [c]))"

definition py_repr :: "string \<Rightarrow> string" where
  "py_repr s =
     (let q = if QUOTE \<in> set s \<and> CHR 0x22 \<notin> set s then CHR 0x22 else QUOTE
      in [q] @ concat (map (py_repr_char q) s) @ [q])"

definition py_repr_opt :: "string option \<Rightarrow> string" where
  "py_repr_opt v = (case v of None \<Rightarrow> ''None'' | Some s \<Rightarrow> py_repr s)"

text \<open>\<^verbatim>\<open>os.path.join(a, b)\<close>.\<close>

definition py_path_join :: "string \<Rightarrow> string \<Rightarrow> string" where
  "py_path_join a b =
     (if prefix ''/'' b then b
      else if a = [] \<or> suffix ''/'' a then a @ b
      else a @ ''/'' @ b)"

text \<open>\<^verbatim>\<open>os.environ.get(name, default)\<close>.\<close>

definition getenv_or :: "string option \<Rightarrow> string \<Rightarrow> string" where
  "getenv_or v d = (case v of None \<Rightarrow> d | Some s \<Rightarrow> s)"

section \<open>Decimal numbers\<close>

definition digit_char :: "nat \<Rightarrow> char" where
  "digit_char d = char_of (48 + d)"

definition digit_val :: "char \<Rightarrow> nat" where
  "digit_val c = of_char c - 48"

fun show_nat :: "nat \<Rightarrow> string" where
  "show_nat n = (if n < 10 then [digit_char n] else show_nat (n div 10) @ [digit_char (n mod 10)])"

declare show_nat.simps [simp del]

definition show_int :: "int \<Rightarrow> string" where
  "show_int i = (if i < 0 then ''-'' @ show_nat (nat (- i)) else show_nat (nat i))"

definition digits_value :: "string \<Rightarrow> nat" where
  "digits_value s = foldl (\<lambda>acc c. 10 * acc + digit_val c) 0 s"

text \<open>\<^verbatim>\<open>s.isdigit()\<close> on ASCII text, and \<^verbatim>\<open>int(s)\<close> where it is guarded by it.\<close>

definition all_digits :: "string \<Rightarrow> bool" where
  "all_digits s \<longleftrightarrow> s \<noteq> [] \<and> (\<forall>c \<in> set s. is_digit c)"

definition parse_nat :: "string \<Rightarrow> nat option" where
  "parse_nat s = (if all_digits s then Some (digits_value s) else None)"

lemma digit_char_is_digit [simp]: "d < 10 \<Longrightarrow> is_digit (digit_char d)"
  by (simp add: is_digit_def digit_char_def Let_def)

lemma digit_val_char [simp]: "d < 10 \<Longrightarrow> digit_val (digit_char d) = d"
  by (simp add: digit_val_def digit_char_def)

lemma show_nat_digits: "all_digits (show_nat n)"
proof (induction n rule: show_nat.induct)
  case (1 n)
  then show ?case
    by (subst show_nat.simps) (auto simp: all_digits_def)
qed

lemma digits_value_snoc [simp]: "digits_value (s @ [c]) = 10 * digits_value s + digit_val c"
  by (simp add: digits_value_def)

lemma digits_value_show_nat [simp]: "digits_value (show_nat n) = n"
proof (induction n rule: show_nat.induct)
  case (1 n)
  show ?case
  proof (cases "n < 10")
    case True
    then show ?thesis
      by (subst show_nat.simps) (simp add: digits_value_def)
  next
    case False
    then show ?thesis
      using 1 by (subst show_nat.simps) simp
  qed
qed

lemma parse_show_nat [simp]: "parse_nat (show_nat n) = Some n"
  by (simp add: parse_nat_def show_nat_digits)

lemma show_nat_inj [simp]: "show_nat m = show_nat n \<longleftrightarrow> m = n"
  by (metis digits_value_show_nat)

lemma show_nat_not_Nil [simp]: "show_nat n \<noteq> []"
  using show_nat_digits [of n] by (simp add: all_digits_def)

lemma show_nat_hd: "0 < n \<Longrightarrow> \<not> prefix ''0'' (show_nat n)"
proof (induction n rule: show_nat.induct)
  case (1 n)
  show ?case
  proof (cases "n < 10")
    case True
    have "digit_char n \<noteq> CHR ''0''" if "n \<noteq> 0"
    proof
      assume "digit_char n = CHR ''0''"
      then have "digit_val (digit_char n) = digit_val (CHR ''0'')" by simp
      moreover have "digit_val (CHR ''0'') = 0" by (simp add: digit_val_def)
      ultimately show False using that True by simp
    qed
    then show ?thesis using True 1 by (subst show_nat.simps) simp
  next
    case False
    then have d: "0 < n div 10" by simp
    obtain c cs where c: "show_nat (n div 10) = c # cs"
      using show_nat_digits [of "n div 10"] by (cases "show_nat (n div 10)") (auto simp: all_digits_def)
    then have "c \<noteq> CHR ''0''" using 1(1) [OF False d] by simp
    then show ?thesis using False c by (subst show_nat.simps) simp
  qed
qed

lemma show_nat_length: "n < 10 ^ Suc k \<Longrightarrow> length (show_nat n) \<le> Suc k"
proof (induction k arbitrary: n)
  case 0
  then show ?case by (subst show_nat.simps) simp
next
  case (Suc k)
  then have "n div 10 < 10 ^ Suc k" by (simp add: div_less_iff_less_mult)
  then have "length (show_nat (n div 10)) \<le> Suc k" by (rule Suc.IH)
  then show ?case by (subst show_nat.simps) simp
qed

lemma is_digit_not_sep:
  "is_digit c \<Longrightarrow> c \<noteq> CHR ''.'' \<and> c \<noteq> CHR '':'' \<and> c \<noteq> CHR ''/'' \<and> c \<noteq> CHR '','' \<and> c \<noteq> CHR ''=''"
  by (auto simp: is_digit_def)

lemma show_nat_no_sep [simp]:
  "CHR ''.'' \<notin> set (show_nat n)" "CHR '':'' \<notin> set (show_nat n)" "CHR ''/'' \<notin> set (show_nat n)"
  "CHR '','' \<notin> set (show_nat n)" "CHR ''='' \<notin> set (show_nat n)"
  using show_nat_digits [of n] by (auto simp: all_digits_def dest: is_digit_not_sep)

section \<open>Lemmas on the string methods\<close>

lemma py_cut_None [pystr]: "py_cut c s = None \<longleftrightarrow> c \<notin> set s"
  by (induction s) auto

lemma py_cut_Some: "py_cut c s = Some (a, b) \<longleftrightarrow> s = a @ c # b \<and> c \<notin> set a"
proof (induction s arbitrary: a)
  case Nil
  then show ?case by simp
next
  case (Cons x xs)
  then show ?case by (cases a) auto
qed

lemma py_cut_append [simp, pystr]: "c \<notin> set a \<Longrightarrow> py_cut c (a @ c # b) = Some (a, b)"
  by (simp add: py_cut_Some)

lemma py_rcut_None [pystr]: "py_rcut c s = None \<longleftrightarrow> c \<notin> set s"
  by (simp add: py_rcut_def py_cut_None)

lemma py_rcut_Some: "py_rcut c s = Some (a, b) \<longleftrightarrow> s = a @ c # b \<and> c \<notin> set b"
proof
  assume "py_rcut c s = Some (a, b)"
  then obtain a' b' where "py_cut c (rev s) = Some (a', b')" "a = rev b'" "b = rev a'"
    by (auto simp: py_rcut_def)
  then have "rev s = a' @ c # b'" "c \<notin> set a'" by (auto simp: py_cut_Some)
  then have "s = rev (a' @ c # b')" by (metis rev_rev_ident)
  then show "s = a @ c # b \<and> c \<notin> set b"
    using \<open>a = rev b'\<close> \<open>b = rev a'\<close> \<open>c \<notin> set a'\<close> by simp
next
  assume "s = a @ c # b \<and> c \<notin> set b"
  then have "py_cut c (rev s) = Some (rev b, rev a)" by (simp add: py_cut_Some)
  then show "py_rcut c s = Some (a, b)" by (simp add: py_rcut_def)
qed

lemma py_rcut_append [simp, pystr]: "c \<notin> set b \<Longrightarrow> py_rcut c (a @ c # b) = Some (a, b)"
  by (simp add: py_rcut_Some)

lemma py_after_last_append [simp, pystr]: "c \<notin> set b \<Longrightarrow> py_after_last c (a @ c # b) = b"
  by (simp add: py_after_last_def)

lemma py_split_not_Nil [simp]: "py_split c s \<noteq> []"
  by (induction s) (auto split: list.splits)

lemma py_split_single [simp, pystr]: "c \<notin> set s \<Longrightarrow> py_split c s = [s]"
  by (induction s) auto

lemma py_split_append [simp, pystr]: "c \<notin> set a \<Longrightarrow> py_split c (a @ c # b) = a # py_split c b"
  by (induction a) auto

lemma py_split_pieces: "p \<in> set (py_split c s) \<Longrightarrow> c \<notin> set p"
  by (induction s arbitrary: p) (auto split: list.splits if_splits)

lemma py_split_join: "ps \<noteq> [] \<Longrightarrow> (\<And>p. p \<in> set ps \<Longrightarrow> c \<notin> set p) \<Longrightarrow> py_split c (py_join [c] ps) = ps"
  by (induction "[c]" ps rule: py_join.induct) auto

lemma py_join_split: "py_join [c] (py_split c s) = s"
proof (induction s)
  case Nil
  then show ?case by simp
next
  case (Cons x xs)
  obtain p ps where e: "py_split c xs = p # ps" by (metis list.exhaust py_split_not_Nil)
  with Cons show ?case by (cases ps) auto
qed

lemma py_contains_iff: "py_contains n s \<longleftrightarrow> (\<exists>a b. s = a @ n @ b)"
proof (induction s)
  case Nil
  then show ?case by auto
next
  case (Cons x xs)
  show ?case
  proof
    assume "py_contains n (x # xs)"
    then consider "prefix n (x # xs)" | "py_contains n xs" by auto
    then show "\<exists>a b. x # xs = a @ n @ b"
    proof cases
      case 1
      then show ?thesis by (metis append_Nil prefix_def)
    next
      case 2
      then show ?thesis using Cons by (metis append_Cons)
    qed
  next
    assume "\<exists>a b. x # xs = a @ n @ b"
    then obtain a b where ab: "x # xs = a @ n @ b" by blast
    show "py_contains n (x # xs)"
    proof (cases a)
      case Nil
      then show ?thesis using ab by (metis append_Nil prefixI py_contains.simps(2))
    next
      case (Cons y ys)
      then show ?thesis using ab Cons.IH by auto
    qed
  qed
qed

lemma py_strip_Nil [simp]: "py_strip [] = []"
  by (simp add: py_strip_def py_lstrip_def py_rstrip_def)

lemma py_strip_no_ws_ends:
  "s \<noteq> [] \<Longrightarrow> \<not> is_ws (hd s) \<Longrightarrow> \<not> is_ws (last s) \<Longrightarrow> py_strip s = s"
proof -
  assume a: "s \<noteq> []" "\<not> is_ws (hd s)" "\<not> is_ws (last s)"
  then have "dropWhile is_ws s = s" by (cases s) auto
  moreover have "dropWhile is_ws (rev s) = rev s" using a by (cases "rev s") (auto simp: hd_rev)
  ultimately show ?thesis by (simp add: py_strip_def py_lstrip_def py_rstrip_def)
qed

lemma dropWhile_ws_none: "(\<And>c. c \<in> set s \<Longrightarrow> \<not> is_ws c) \<Longrightarrow> dropWhile is_ws s = s"
  by (cases s) auto

lemma py_strip_no_ws: "(\<And>c. c \<in> set s \<Longrightarrow> \<not> is_ws c) \<Longrightarrow> py_strip s = s"
  using dropWhile_ws_none [of s] dropWhile_ws_none [of "rev s"]
  by (simp add: py_strip_def py_lstrip_def py_rstrip_def)

lemma set_py_join: "set (py_join sep xs) \<subseteq> set sep \<union> \<Union> (set ` set xs)"
  by (induction sep xs rule: py_join.induct) auto

text \<open>Lines joined by newlines split back into themselves.\<close>

definition line_ok :: "string \<Rightarrow> bool" where
  "line_ok s \<longleftrightarrow> (\<forall>c \<in> set s. \<not> is_linebreak c)"

lemma CR_linebreak [simp]: "is_linebreak CR" and NL_linebreak [simp]: "is_linebreak NL"
  and CR_not_NL [simp]: "CR \<noteq> NL" "NL \<noteq> CR"
  by (simp_all add: is_linebreak_def CR_def NL_def Let_def)

lemma splitlines_aux_line: "line_ok s \<Longrightarrow>
    py_splitlines_aux acc (s @ rest) = py_splitlines_aux (rev s @ acc) rest"
  by (induction s arbitrary: acc) (auto simp: line_ok_def)

lemma py_splitlines_join:
  assumes "\<And>s. s \<in> set ls \<Longrightarrow> line_ok s \<and> s \<noteq> []"
  shows "py_splitlines (py_join [NL] ls) = ls"
  using assms
proof (induction "[NL]" ls rule: py_join.induct)
  case 1
  then show ?case by (simp add: py_splitlines_def)
next
  case (2 x)
  then show ?case using splitlines_aux_line [of x "[]" "[]"] by (simp add: py_splitlines_def)
next
  case (3 x y ys)
  then show ?case
    using splitlines_aux_line [of x "[]" "NL # py_join [NL] (y # ys)"] by (simp add: py_splitlines_def)
qed

text \<open>A word: not empty, no whitespace (so also no line boundary).\<close>

definition word_ok :: "string \<Rightarrow> bool" where
  "word_ok s \<longleftrightarrow> s \<noteq> [] \<and> (\<forall>c \<in> set s. \<not> is_ws c)"

lemma linebreak_ws: "is_linebreak c \<Longrightarrow> is_ws c"
  by (auto simp: is_linebreak_def is_ws_def Let_def)

lemma word_ok_line: "word_ok s \<Longrightarrow> line_ok s \<and> s \<noteq> []"
  by (auto simp: word_ok_def line_ok_def dest: linebreak_ws)

lemma word_ok_strip [simp]: "word_ok s \<Longrightarrow> py_strip s = s"
  by (rule py_strip_no_ws_ends) (auto simp: word_ok_def)

section \<open>Lists\<close>

lemma distinct_map_filter: "distinct (map f xs) \<Longrightarrow> distinct (map f (filter P xs))"
  by (induction xs) auto

lemma map_of_filter_key:
  "map_of (map (\<lambda>x. (k x, v x)) (filter (\<lambda>x. k x \<noteq> a) xs)) b =
     (if b = a then None else map_of (map (\<lambda>x. (k x, v x)) xs) b)"
  by (induction xs) auto

end
