(* ===== verification/RunDb.thy ===== *)
theory RunDb
  imports Prelude "HOL-Library.Multiset"
begin

text \<open>
  \<^verbatim>\<open>runtime/rundb.py\<close>: the ledger of runs.  A database file holds (perhaps) the table
  \<^verbatim>\<open>runs\<close>, in rowid order, and remembers whether the late column \<^verbatim>\<open>log_path\<close> exists yet.
  \<^verbatim>\<open>RunDB\<close> is the object with its lazily opened connection.  What the operating system and
  sqlite refuse (an unwritable directory, a locked or corrupt file) is an input, the record
  \<^verbatim>\<open>db_faults\<close>.  The last section states the ledger as an interface: what the engine and the
  garbage collector rely on.
\<close>

section \<open>Rows and the two statements that write them\<close>

record run_row =
  rr_jail_name :: string
  rr_image :: string
  rr_image_digest :: string
  rr_dataset :: string
  rr_status :: string
  rr_exit_code :: "int option"
  rr_started_at :: string
  rr_ended_at :: "string option"
  rr_log_path :: "string option"

definition RUNNING :: string where "RUNNING = ''running''"
definition EXITED :: string where "EXITED = ''exited''"
definition KILLED :: string where "KILLED = ''killed''"

lemmas status_defs = RUNNING_def EXITED_def KILLED_def

text \<open>The table's \<^verbatim>\<open>CHECK(status IN (...))\<close>.\<close>

definition status_check :: "string \<Rightarrow> bool" where
  "status_check s \<longleftrightarrow> s \<in> {RUNNING, EXITED, KILLED}"

text \<open>\<^verbatim>\<open>INSERT OR REPLACE\<close>: a row with the same primary key is deleted and the new row gets a
  fresh rowid.\<close>

definition insert_or_replace :: "run_row \<Rightarrow> run_row list \<Rightarrow> run_row list" where
  "insert_or_replace r rows = filter (\<lambda>x. rr_jail_name x \<noteq> rr_jail_name r) rows @ [r]"

definition start_row ::
  "string \<Rightarrow> string \<Rightarrow> string \<Rightarrow> string \<Rightarrow> string option \<Rightarrow> string \<Rightarrow> run_row" where
  "start_row jail_name img image_digest dataset log_path now =
     \<lparr> rr_jail_name = jail_name, rr_image = img, rr_image_digest = image_digest,
       rr_dataset = dataset, rr_status = RUNNING, rr_exit_code = None,
       rr_started_at = now, rr_ended_at = None, rr_log_path = log_path \<rparr>"

text \<open>The \<^verbatim>\<open>UPDATE ... WHERE jail_name = ?\<close>: the \<^verbatim>\<open>CHECK\<close> constraint only fails when a row
  is actually updated.\<close>

definition update_exit ::
  "string \<Rightarrow> string \<Rightarrow> int option \<Rightarrow> string \<Rightarrow> run_row list \<Rightarrow> run_row list" where
  "update_exit jail_name status exit_code now rows =
     map (\<lambda>x. if rr_jail_name x = jail_name
              then x\<lparr>rr_status := status, rr_exit_code := exit_code, rr_ended_at := Some now\<rparr>
              else x) rows"

definition lookup_row :: "string \<Rightarrow> run_row list \<Rightarrow> run_row option" where
  "lookup_row n rows = List.find (\<lambda>x. rr_jail_name x = n) rows"

section \<open>The database file and the connection\<close>

record db_file =
  df_table :: "run_row list option"
  df_has_log_path :: bool

record db_faults =
  fl_makedirs :: "string option"
  fl_connect :: "string option"
  fl_create :: "string option"
  fl_alter :: "string option"
  fl_statement :: "string option"

definition no_faults :: db_faults where
  "no_faults = \<lparr> fl_makedirs = None, fl_connect = None, fl_create = None, fl_alter = None,
                 fl_statement = None \<rparr>"

record rundb =
  rd_path :: string
  rd_open :: bool
  rd_file :: db_file

definition DEFAULT_DB_PATH :: string where
  "DEFAULT_DB_PATH = ''/var/db/jailrun/runs.db''"

text \<open>\<^verbatim>\<open>RunDB.__init__\<close>: constructor argument, then \<^verbatim>\<open>JAILRUN_DB\<close>, then the default;
  nothing is opened.\<close>

definition rundb_init :: "string option \<Rightarrow> string option \<Rightarrow> db_file \<Rightarrow> rundb" where
  "rundb_init path env_JAILRUN_DB file =
     \<lparr> rd_path = (case path of Some p \<Rightarrow> p
                  | None \<Rightarrow> (case env_JAILRUN_DB of Some p \<Rightarrow> p | None \<Rightarrow> DEFAULT_DB_PATH)),
       rd_open = False, rd_file = file \<rparr>"

text \<open>\<^verbatim>\<open>os.path.dirname\<close>: up to the last slash, trailing slashes dropped unless nothing else
  is left.\<close>

definition py_dirname :: "string \<Rightarrow> string" where
  "py_dirname p =
     (case py_rcut (CHR ''/'') p of
        None \<Rightarrow> []
      | Some (a, _) \<Rightarrow> (let h = a @ ''/'' in
          if (\<forall>c \<in> set h. c = CHR ''/'') then h else py_rstrip_char (CHR ''/'') h))"

text \<open>\<^verbatim>\<open>CREATE TABLE IF NOT EXISTS\<close>, then the migration: a table that already has the column
  makes sqlite raise, and only that message is swallowed; otherwise the column is added with
  NULL in every row.\<close>

definition create_table :: "db_file \<Rightarrow> db_file" where
  "create_table f = (case df_table f of
      None \<Rightarrow> f\<lparr>df_table := Some [], df_has_log_path := True\<rparr> | Some _ \<Rightarrow> f)"

definition alter_error :: "db_faults \<Rightarrow> db_file \<Rightarrow> string option" where
  "alter_error fl f = (case fl_alter fl of
      Some e \<Rightarrow> Some e
    | None \<Rightarrow> if df_has_log_path f then Some ''duplicate column name: log_path'' else None)"

definition add_log_path :: "db_file \<Rightarrow> db_file" where
  "add_log_path f = f\<lparr>df_has_log_path := True,
                      df_table := map_option (map (\<lambda>r. r\<lparr>rr_log_path := None\<rparr>)) (df_table f)\<rparr>"

definition makedirs_error :: "db_faults \<Rightarrow> string \<Rightarrow> string option" where
  "makedirs_error fl path =
     (if path \<noteq> '':memory:'' \<and> py_dirname path \<noteq> [] then fl_makedirs fl else None)"

definition get_conn :: "db_faults \<Rightarrow> rundb \<Rightarrow> (string + unit) \<times> rundb" where
  "get_conn fl d =
     (if rd_open d then (Inr (), d)
      else case makedirs_error fl (rd_path d) of Some e \<Rightarrow> (Inl e, d)
      | None \<Rightarrow> (case fl_connect fl of Some e \<Rightarrow> (Inl e, d)
      | None \<Rightarrow> (case fl_create fl of Some e \<Rightarrow> (Inl e, d)
      | None \<Rightarrow> (let f = create_table (rd_file d) in
          case alter_error fl f of
            None \<Rightarrow> (Inr (), d\<lparr>rd_open := True, rd_file := add_log_path f\<rparr>)
          | Some e \<Rightarrow>
              if py_contains ''duplicate column name'' e
              then (Inr (), d\<lparr>rd_open := True, rd_file := f\<rparr>)
              else (Inl e, d\<lparr>rd_file := f\<rparr>)))))"

definition db_rows :: "rundb \<Rightarrow> run_row list" where
  "db_rows d = (case df_table (rd_file d) of None \<Rightarrow> [] | Some rows \<Rightarrow> rows)"

definition set_rows :: "run_row list \<Rightarrow> rundb \<Rightarrow> rundb" where
  "set_rows rows d = d\<lparr>rd_file := (rd_file d)\<lparr>df_table := Some rows\<rparr>\<rparr>"

section \<open>Operations\<close>

text \<open>The writers return the warning they logged, if any: they have no exception to return.\<close>

definition record_start ::
  "db_faults \<Rightarrow> string \<Rightarrow> string \<Rightarrow> string \<Rightarrow> string \<Rightarrow> string \<Rightarrow> string option \<Rightarrow> rundb
   \<Rightarrow> string option \<times> rundb" where
  "record_start fl now jail_name img image_digest dataset log_path d =
     (case get_conn fl d of
        (Inl e, d') \<Rightarrow> (Some e, d')
      | (Inr _, d') \<Rightarrow>
          (case fl_statement fl of
             Some e \<Rightarrow> (Some e, d')
           | None \<Rightarrow> (None, set_rows (insert_or_replace
                        (start_row jail_name img image_digest dataset log_path now)
                        (db_rows d')) d')))"

definition record_exit ::
  "db_faults \<Rightarrow> string \<Rightarrow> string \<Rightarrow> string \<Rightarrow> int option \<Rightarrow> rundb \<Rightarrow> string option \<times> rundb" where
  "record_exit fl now jail_name status exit_code d =
     (case get_conn fl d of
        (Inl e, d') \<Rightarrow> (Some e, d')
      | (Inr _, d') \<Rightarrow>
          (case fl_statement fl of
             Some e \<Rightarrow> (Some e, d')
           | None \<Rightarrow>
               if \<not> status_check status \<and> lookup_row jail_name (db_rows d') \<noteq> None
               then (Some ''CHECK constraint failed'', d')
               else (None, set_rows (update_exit jail_name status exit_code now (db_rows d')) d')))"

text \<open>\<^verbatim>\<open>ORDER BY started_at DESC\<close>; rows with the same time keep their rowid order here (SQL
  leaves it open, and no property depends on it).\<close>

definition newest_first :: "run_row list \<Rightarrow> run_row list" where
  "newest_first rows = rev (sort_key rr_started_at (rev rows))"

definition list_runs :: "db_faults \<Rightarrow> string option \<Rightarrow> rundb \<Rightarrow> (string + run_row list) \<times> rundb" where
  "list_runs fl status d =
     (case get_conn fl d of
        (Inl e, d') \<Rightarrow> (Inl e, d')
      | (Inr _, d') \<Rightarrow>
          (case fl_statement fl of
             Some e \<Rightarrow> (Inl e, d')
           | None \<Rightarrow> (Inr (newest_first (case status of
                 None \<Rightarrow> db_rows d'
               | Some s \<Rightarrow> filter (\<lambda>r. rr_status r = s) (db_rows d'))), d')))"

definition get_log_path :: "db_faults \<Rightarrow> string \<Rightarrow> rundb \<Rightarrow> (string + string option) \<times> rundb" where
  "get_log_path fl jail_name d =
     (case get_conn fl d of
        (Inl e, d') \<Rightarrow> (Inl e, d')
      | (Inr _, d') \<Rightarrow>
          (case fl_statement fl of
             Some e \<Rightarrow> (Inl e, d')
           | None \<Rightarrow> (case lookup_row jail_name (db_rows d') of
                 None \<Rightarrow> (Inr None, d')
               | Some r \<Rightarrow> (Inr (rr_log_path r), d'))))"

section \<open>The table invariant\<close>

text \<open>What the schema promises: one row per jail name, and a legal status in every row.\<close>

definition rows_ok :: "run_row list \<Rightarrow> bool" where
  "rows_ok rows \<longleftrightarrow> distinct (map rr_jail_name rows) \<and> (\<forall>r \<in> set rows. status_check (rr_status r))"

definition db_ok :: "rundb \<Rightarrow> bool" where
  "db_ok d \<longleftrightarrow> rows_ok (db_rows d) \<and> (rd_open d \<longrightarrow> df_table (rd_file d) \<noteq> None)"

lemma rows_ok_insert: "rows_ok rows \<Longrightarrow> status_check (rr_status r) \<Longrightarrow> rows_ok (insert_or_replace r rows)"
  by (auto simp: rows_ok_def insert_or_replace_def distinct_map_filter)

lemma update_exit_names [simp]:
  "map rr_jail_name (update_exit n s c now rows) = map rr_jail_name rows"
  by (induction rows) (auto simp: update_exit_def)

lemma lookup_None_iff: "lookup_row n rows = None \<longleftrightarrow> n \<notin> rr_jail_name ` set rows"
  by (auto simp: lookup_row_def find_None_iff)

lemma update_exit_absent: "lookup_row n rows = None \<Longrightarrow> update_exit n s c now rows = rows"
  by (induction rows) (auto simp: update_exit_def lookup_None_iff)

lemma rows_ok_update: "rows_ok rows \<Longrightarrow> status_check s \<Longrightarrow> rows_ok (update_exit n s c now rows)"
  unfolding rows_ok_def by (simp, auto simp: update_exit_def)

lemma rows_ok_migrated: "rows_ok rows \<Longrightarrow> rows_ok (map (\<lambda>r. r\<lparr>rr_log_path := None\<rparr>) rows)"
  by (auto simp: rows_ok_def comp_def)

lemma db_rows_set [simp]: "db_rows (set_rows rows d) = rows"
  by (simp add: db_rows_def set_rows_def)

lemma get_conn_ok:
  assumes "db_ok d"
  shows "db_ok (snd (get_conn fl d))"
  using assms
  by (auto simp: get_conn_def db_ok_def db_rows_def create_table_def add_log_path_def
      rows_ok_migrated rows_ok_def comp_def Let_def split: option.splits)

lemma get_conn_open: "fst (get_conn fl d) = Inr u \<Longrightarrow> rd_open (snd (get_conn fl d))"
  by (auto simp: get_conn_def Let_def split: option.splits if_splits)

lemma get_conn_cached [simp]: "rd_open d \<Longrightarrow> get_conn fl d = (Inr (), d)"
  by (simp add: get_conn_def)

lemma set_rows_ok: "rows_ok rows \<Longrightarrow> db_ok (set_rows rows d)"
  by (simp add: db_ok_def set_rows_def db_rows_def)

lemma db_okD: "db_ok d \<Longrightarrow> rows_ok (db_rows d)"
  by (simp add: db_ok_def)

lemma record_start_ok:
  assumes "db_ok d"
  shows "db_ok (snd (record_start fl now n i dg ds lp d))"
proof (cases "get_conn fl d")
  case (Pair r d')
  then have "db_ok d'" using get_conn_ok [OF assms, of fl] by simp
  then show ?thesis
    using Pair rows_ok_insert [OF db_okD, of d' "start_row n i dg ds lp now"]
    by (auto simp: record_start_def start_row_def status_check_def set_rows_ok
        split: sum.splits option.splits)
qed

lemma record_exit_ok:
  assumes "db_ok d"
  shows "db_ok (snd (record_exit fl now n s c d))"
proof (cases "get_conn fl d")
  case (Pair r d')
  then have "db_ok d'" using get_conn_ok [OF assms, of fl] by simp
  then show ?thesis
    using Pair rows_ok_update [OF db_okD, of d' s n c now] db_okD [of d']
    by (cases "status_check s") (auto simp: record_exit_def update_exit_absent set_rows_ok
        split: sum.splits option.splits)
qed

section \<open>Reading back what was written\<close>

lemma lookup_insert [simp]:
  "lookup_row n (insert_or_replace r rows) =
     (if n = rr_jail_name r then Some r else lookup_row n rows)"
  by (induction rows) (auto simp: lookup_row_def insert_or_replace_def)

lemma lookup_update [simp]:
  "lookup_row n (update_exit m s c now rows) =
     (if n = m
      then map_option (\<lambda>x. x\<lparr>rr_status := s, rr_exit_code := c, rr_ended_at := Some now\<rparr>) (lookup_row n rows)
      else lookup_row n rows)"
  by (induction rows) (auto simp: lookup_row_def update_exit_def)

lemma lookup_in_set: "lookup_row n rows = Some r \<Longrightarrow> r \<in> set rows \<and> rr_jail_name r = n"
  by (auto simp: lookup_row_def find_Some_iff)

lemma lookup_unique: "rows_ok rows \<Longrightarrow> r \<in> set rows \<Longrightarrow> lookup_row (rr_jail_name r) rows = Some r"
proof (induction rows)
  case Nil
  then show ?case by simp
next
  case (Cons x xs)
  then show ?case by (auto simp: lookup_row_def rows_ok_def)
qed

lemma set_newest_first [simp]: "set (newest_first rows) = set rows"
  by (simp add: newest_first_def)

lemma newest_first_sorted: "sorted (rev (map rr_started_at (newest_first rows)))"
  by (simp add: newest_first_def rev_map)

lemma lookup_perm:
  assumes ok: "rows_ok rows" and p: "mset rows' = mset rows"
  shows "lookup_row n rows' = lookup_row n rows" and "rows_ok rows'"
proof -
  have st: "set rows' = set rows" using p by (metis set_mset_mset)
  have "mset (map rr_jail_name rows') = mset (map rr_jail_name rows)"
    using p by simp
  then have "distinct (map rr_jail_name rows')"
    using ok mset_eq_imp_distinct_iff unfolding rows_ok_def by blast
  then show ok': "rows_ok rows'"
    using ok st by (simp add: rows_ok_def)
  show "lookup_row n rows' = lookup_row n rows"
  proof (cases "lookup_row n rows")
    case None
    then show ?thesis
      using lookup_None_iff [of n rows] lookup_None_iff [of n rows'] st by simp
  next
    case (Some r)
    then have "r \<in> set rows" "rr_jail_name r = n" by (auto dest: lookup_in_set)
    then show ?thesis using lookup_unique [OF ok', of r] lookup_unique [OF ok, of r] st by simp
  qed
qed

lemma mset_newest_first [simp]: "mset (newest_first rows) = mset rows"
  by (simp add: newest_first_def)

section \<open>The ledger as an interface\<close>

text \<open>What the engine and the garbage collector rely on, without a word about sqlite: opening a
  run makes its name \<^verbatim>\<open>running\<close> and touches no other name; closing a run changes the status of
  that name only, and only if it is recorded.\<close>

locale run_ledger =
  fixes inv :: "'db \<Rightarrow> bool"
    and opened :: "'row \<Rightarrow> 'db \<Rightarrow> 'db"
    and closed :: "string \<Rightarrow> string \<Rightarrow> 'db \<Rightarrow> 'db"
    and status_of :: "'db \<Rightarrow> string \<Rightarrow> string option"
    and name_of :: "'row \<Rightarrow> string"
    and fresh :: "'row \<Rightarrow> bool"
  assumes inv_opened: "inv s \<Longrightarrow> fresh r \<Longrightarrow> inv (opened r s)"
    and inv_closed: "inv s \<Longrightarrow> status_check st \<Longrightarrow> inv (closed n st s)"
    and status_opened: "fresh r \<Longrightarrow>
      status_of (opened r s) m = (if m = name_of r then Some RUNNING else status_of s m)"
    and status_closed: "status_of (closed n st s) m =
      (if m = n then map_option (\<lambda>_. st) (status_of s n) else status_of s m)"
begin

lemma open_close: "fresh r \<Longrightarrow> status_of (closed (name_of r) st (opened r s)) (name_of r) = Some st"
  by (simp add: status_opened status_closed)

lemma close_unrecorded: "status_of s n = None \<Longrightarrow> status_of (closed n st s) m = status_of s m"
  by (simp add: status_closed)

lemma close_keeps_names: "status_of (closed n st s) m = None \<longleftrightarrow> status_of s m = None"
  by (simp add: status_closed)

text \<open>A batch of closings, in any order: exactly the recorded names of the batch change.\<close>

lemma status_closed_all:
  "status_of (fold (\<lambda>n. closed n st) ns s) m =
     (if m \<in> set ns then map_option (\<lambda>_. st) (status_of s m) else status_of s m)"
proof (induction ns arbitrary: s)
  case Nil
  then show ?case by simp
next
  case (Cons n ns)
  then show ?case by (auto simp: status_closed option.map_comp comp_def)
qed

lemma inv_closed_all: "inv s \<Longrightarrow> status_check st \<Longrightarrow> inv (fold (\<lambda>n. closed n st) ns s)"
  by (induction ns arbitrary: s) (auto intro: inv_closed)

lemma closed_all_not_running:
  "st \<noteq> RUNNING \<Longrightarrow> status_of (fold (\<lambda>n. closed n st) ns s) m = Some RUNNING \<Longrightarrow>
     m \<notin> set ns \<and> status_of s m = Some RUNNING"
  by (auto simp: status_closed_all split: if_splits)

end

definition row_status :: "run_row list \<Rightarrow> string \<Rightarrow> string option" where
  "row_status rows n = map_option rr_status (lookup_row n rows)"

interpretation ledger: run_ledger rows_ok insert_or_replace
  "\<lambda>n st. update_exit n st c now" row_status rr_jail_name "\<lambda>r. rr_status r = RUNNING"
  for c :: "int option" and now :: string
proof
  fix s :: "run_row list" and r :: run_row
  assume "rows_ok s" "rr_status r = RUNNING"
  then show "rows_ok (insert_or_replace r s)"
    by (simp add: rows_ok_insert status_check_def)
qed (auto simp: rows_ok_update row_status_def option.map_comp comp_def)

lemma row_status_running: "rows_ok rows \<Longrightarrow>
    row_status rows n = Some st \<longleftrightarrow> (\<exists>r \<in> set rows. rr_jail_name r = n \<and> rr_status r = st)"
  by (auto simp: row_status_def dest: lookup_in_set lookup_unique)

section \<open>Properties\<close>

lemma get_conn_no_faults:
  "get_conn no_faults d = (Inr (), snd (get_conn no_faults d))" and
  get_conn_no_faults_open: "rd_open (snd (get_conn no_faults d))"
  by (auto simp: get_conn_def no_faults_def makedirs_error_def alter_error_def Let_def py_contains_iff
      split: option.splits)

text \<open>The rows a reader of a healthy database sees (the connection is opened first, which may
  create or migrate the table).\<close>

definition visible_rows :: "rundb \<Rightarrow> run_row list" where
  "visible_rows d = db_rows (snd (get_conn no_faults d))"

lemma fl_statement_no_faults [simp]: "fl_statement no_faults = None"
  by (simp add: no_faults_def)

lemma record_start_healthy:
  "record_start no_faults now n i dg ds lp d =
     (None, set_rows (insert_or_replace (start_row n i dg ds lp now) (visible_rows d))
              (snd (get_conn no_faults d)))"
  by (subst record_start_def, subst get_conn_no_faults) (simp add: visible_rows_def)

lemma record_exit_healthy:
  "status_check s \<Longrightarrow> record_exit no_faults now n s c d =
     (None, set_rows (update_exit n s c now (visible_rows d)) (snd (get_conn no_faults d)))"
  by (subst record_exit_def, subst get_conn_no_faults) (simp add: visible_rows_def)

lemma list_runs_healthy:
  "fst (list_runs no_faults st d) =
     Inr (newest_first (case st of None \<Rightarrow> visible_rows d
                        | Some s \<Rightarrow> filter (\<lambda>r. rr_status r = s) (visible_rows d)))"
  by (subst list_runs_def, subst get_conn_no_faults) (cases st; simp add: visible_rows_def)

lemma visible_set_rows [simp]:
  "rd_open d \<Longrightarrow> visible_rows (set_rows rows d) = rows"
  by (simp add: visible_rows_def set_rows_def db_rows_def get_conn_def)

lemma rd_open_set_rows [simp]: "rd_open (set_rows rows d) = rd_open d"
  by (simp add: set_rows_def)

text \<open>C36: The schema invariant (one row per jail name, a legal status in every row, an open
  connection has its table) is kept by every operation of the run database, whatever the
  operating system or sqlite refuses and whatever status string the caller passes.\<close>

theorem rundb_ops_keep_schema:
  assumes "db_ok d"
  shows "db_ok (snd (record_start fl now n i dg ds lp d))
    \<and> db_ok (snd (record_exit fl now n s c d))
    \<and> db_ok (snd (list_runs fl st d))
    \<and> db_ok (snd (get_log_path fl n d))"
proof (intro conjI)
  show "db_ok (snd (record_start fl now n i dg ds lp d))" using assms by (rule record_start_ok)
  show "db_ok (snd (record_exit fl now n s c d))" using assms by (rule record_exit_ok)
  show "db_ok (snd (list_runs fl st d))"
    using get_conn_ok [OF assms, of fl]
    by (auto simp: list_runs_def split: prod.splits sum.splits option.splits)
  show "db_ok (snd (get_log_path fl n d))"
    using get_conn_ok [OF assms, of fl]
    by (auto simp: get_log_path_def split: prod.splits sum.splits option.splits)
qed

lemma rundb_ops_keep_schema_witness:
  "db_ok (snd (record_exit no_faults ''t1'' ''x'' ''bogus'' None
     (rundb_init None None \<lparr>df_table = None, df_has_log_path = False\<rparr>)))"
  using rundb_ops_keep_schema [of "rundb_init None None \<lparr>df_table = None, df_has_log_path = False\<rparr>"]
  by (simp add: db_ok_def rundb_init_def db_rows_def rows_ok_def)

text \<open>C24: Reading back a recorded run.  On a healthy database, starting a run, closing it and
  looking it up gives one row with the arguments of both calls; the log path is the one given
  at the start; a second start of the same name forgets the exit; and every other run is
  untouched by all of it.\<close>

theorem rundb_run_roundtrip:
  fixes d :: rundb and s n i dg ds ta tb tc :: string and lp lp' :: "string option" and c :: "int option"
  assumes "status_check s"
  defines "d1 \<equiv> snd (record_start no_faults ta n i dg ds lp d)"
  defines "d2 \<equiv> snd (record_exit no_faults tb n s c d1)"
  defines "d3 \<equiv> snd (record_start no_faults tc n i dg ds lp' d2)"
  shows "lookup_row n (visible_rows d2) =
           Some ((start_row n i dg ds lp ta)\<lparr>rr_status := s, rr_exit_code := c, rr_ended_at := Some tb\<rparr>)
    \<and> fst (get_log_path no_faults n d2) = Inr lp
    \<and> lookup_row n (visible_rows d3) = Some (start_row n i dg ds lp' tc)
    \<and> (m \<noteq> n \<longrightarrow> lookup_row m (visible_rows d3) = lookup_row m (visible_rows d))"
proof -
  have o: "rd_open d2"
    unfolding d1_def d2_def record_start_healthy
    by (simp add: record_exit_healthy assms(1) get_conn_no_faults_open)
  have v: "visible_rows d2 = update_exit n s c tb (insert_or_replace (start_row n i dg ds lp ta) (visible_rows d))"
    unfolding d1_def d2_def record_start_healthy
    by (simp add: record_exit_healthy assms(1) get_conn_no_faults_open)
  have g: "fst (get_log_path no_faults n d2) = Inr lp"
    using o v by (simp add: get_log_path_def visible_rows_def start_row_def)
  show ?thesis
    using v g unfolding d3_def record_start_healthy
    by (simp add: get_conn_no_faults_open start_row_def)
qed

lemma rundb_run_roundtrip_witness:
  "fst (get_log_path no_faults ''jailrun-a''
     (snd (record_exit no_faults ''t1'' ''jailrun-a'' EXITED (Some 3)
       (snd (record_start no_faults ''t0'' ''jailrun-a'' ''nginx'' '''' ''jailrun/runs/a''
          (Some ''/var/log/a.log'')
          (rundb_init None None \<lparr>df_table = None, df_has_log_path = False\<rparr>)))))) = Inr (Some ''/var/log/a.log'')"
  using rundb_run_roundtrip [where s = EXITED and n = "''jailrun-a''" and ta = "''t0''" and i = "''nginx''"
      and dg = "''''" and ds = "''jailrun/runs/a''" and lp = "Some ''/var/log/a.log''" and tb = "''t1''"
      and c = "Some 3" and d = "rundb_init None None \<lparr>df_table = None, df_has_log_path = False\<rparr>"]
  by (simp add: status_check_def)

text \<open>A refused write is swallowed and a refused read is not.  When opening the database or
  executing the statement fails with \<^verbatim>\<open>e\<close>, the two writers return normally with the warning
  \<^verbatim>\<open>e\<close>, the two readers raise \<^verbatim>\<open>e\<close>, and the stored rows of a database that already has the
  current schema are unchanged.\<close>

theorem rundb_failure_policy:
  assumes "fst (get_conn fl d) = Inl e \<or> (\<exists>u. fst (get_conn fl d) = Inr u \<and> fl_statement fl = Some e)"
  shows "record_start fl now n i dg ds lp d = (Some e, snd (get_conn fl d))
    \<and> record_exit fl now n s c d = (Some e, snd (get_conn fl d))
    \<and> fst (list_runs fl st d) = Inl e \<and> fst (get_log_path fl n d) = Inl e
    \<and> (df_table (rd_file d) \<noteq> None \<and> df_has_log_path (rd_file d) \<longrightarrow>
         db_rows (snd (get_conn fl d)) = db_rows d)"
proof -
  have "df_table (rd_file d) \<noteq> None \<Longrightarrow> df_has_log_path (rd_file d) \<Longrightarrow>
     db_rows (snd (get_conn fl d)) = db_rows d"
    by (auto simp: get_conn_def db_rows_def create_table_def alter_error_def Let_def
        split: option.splits)
  then show ?thesis
    using assms
    by (auto simp: record_start_def record_exit_def list_runs_def get_log_path_def
        split: prod.splits sum.splits)
qed

lemma rundb_failure_policy_witness:
  "fst (list_runs (no_faults\<lparr>fl_connect := Some ''locked''\<rparr>) None
     (rundb_init (Some '':memory:'') None \<lparr>df_table = None, df_has_log_path = False\<rparr>)) = Inl ''locked''"
  using rundb_failure_policy [of "no_faults\<lparr>fl_connect := Some ''locked''\<rparr>"
      "rundb_init (Some '':memory:'') None \<lparr>df_table = None, df_has_log_path = False\<rparr>" "''locked''"]
  by (simp add: get_conn_def rundb_init_def makedirs_error_def no_faults_def)

end
