(* ===== verification/Gc.thy ===== *)
theory Gc
  imports RunDb
begin

text \<open>
  \<^verbatim>\<open>runtime/gc.py\<close>: the reconciliation of three sources (live jails, the run ledger, the
  datasets of the store), its repair, its report.  The host (jls, jail, zfs, the directory
  tree) is a parameter: a tool for commands, functions for \<^verbatim>\<open>os.listdir\<close> and
  \<^verbatim>\<open>shutil.rmtree\<close>.
\<close>

section \<open>Reports\<close>

record orphan =
  or_kind :: string
  or_identifier :: string
  or_detail :: string
  or_fix_action :: string

record fix_outcome =
  fo_kind :: string
  fo_identifier :: string
  fo_ok :: bool
  fo_detail :: string

record dataset_entry =
  de_run_id :: string
  de_dataset :: string

definition JAILRUN_PREFIX :: string where "JAILRUN_PREFIX = ''jailrun-''"

section \<open>Reconciliation\<close>

text \<open>\<^verbatim>\<open>{row["jail_name"]: row for row in rundb_rows}\<close>: the last row of a name wins.\<close>

definition rundb_by_name :: "run_row list \<Rightarrow> string \<Rightarrow> run_row option" where
  "rundb_by_name rows n = lookup_row n (rev rows)"

definition stale_rows :: "string list \<Rightarrow> run_row list \<Rightarrow> orphan list" where
  "stale_rows known_jails rundb_rows =
     map (\<lambda>row. \<lparr> or_kind = ''stale_rundb_row'', or_identifier = rr_jail_name row,
                  or_detail = ''rundb row status='' @ py_repr ''running'' @
                     '' but jail not present in `jls -n` (dataset='' @ py_repr (rr_dataset row) @ '')'',
                  or_fix_action = ''record_exit(jail_name, status='' @ py_repr ''killed'' @
                     '', exit_code=None)'' \<rparr>)
       (filter (\<lambda>row. rr_status row = RUNNING \<and> rr_jail_name row \<notin> set known_jails) rundb_rows)"

definition orphaned_jail :: "string \<Rightarrow> string \<Rightarrow> orphan" where
  "orphaned_jail n detail =
     \<lparr> or_kind = ''orphaned_jail'', or_identifier = n, or_detail = detail,
       or_fix_action = ''jail -r '' @ n \<rparr>"

fun orphaned_jails :: "string list \<Rightarrow> run_row list \<Rightarrow> orphan list" where
  "orphaned_jails [] rundb_rows = []"
| "orphaned_jails (n # ns) rundb_rows =
     (if \<not> py_startswith n JAILRUN_PREFIX then []
      else (case rundb_by_name rundb_rows n of
          None \<Rightarrow> [orphaned_jail n ''jail is live in `jls -n` but has no rundb row at all'']
        | Some row \<Rightarrow>
            if rr_status row \<in> {EXITED, KILLED}
            then [orphaned_jail n (''jail is live in `jls -n` but rundb row says status='' @
                                   py_repr (rr_status row))]
            else [])) @ orphaned_jails ns rundb_rows"

definition orphaned_dataset :: "dataset_entry \<Rightarrow> orphan" where
  "orphaned_dataset e =
     \<lparr> or_kind = ''orphaned_dataset'', or_identifier = de_dataset e,
       or_detail = ''dataset/run dir for run_id='' @ py_repr (de_run_id e) @
                   '' has no live jail and no running rundb row'',
       or_fix_action = ''destroy dataset/clone '' @ de_dataset e \<rparr>"

definition dataset_is_orphan :: "string list \<Rightarrow> run_row list \<Rightarrow> dataset_entry \<Rightarrow> bool" where
  "dataset_is_orphan known_jails rundb_rows e =
     (let expected_jail = JAILRUN_PREFIX @ de_run_id e in
      if expected_jail \<in> set known_jails then False
      else (case rundb_by_name rundb_rows expected_jail of
          None \<Rightarrow> True
        | Some row \<Rightarrow> rr_status row \<noteq> RUNNING))"

definition reconcile ::
  "string list option \<Rightarrow> run_row list option \<Rightarrow> dataset_entry list option \<Rightarrow> orphan list" where
  "reconcile known_jails rundb_rows known_datasets =
     (case (known_jails, rundb_rows) of
        (Some js, Some rows) \<Rightarrow>
          stale_rows js rows @ orphaned_jails js rows @
          (case known_datasets of
             None \<Rightarrow> []
           | Some ds \<Rightarrow> map orphaned_dataset (filter (dataset_is_orphan js rows) ds))
      | _ \<Rightarrow> [])"

section \<open>Enumerating the host\<close>

datatype listdir_result = Dir_missing | Dir_error string | Dir_entries "(string \<times> bool) list"

record 'w gc_env =
  ge_backend :: "string option"
  ge_zpool :: "string option"
  ge_mountpoint_base :: "string option"
  ge_db_path :: "string option"
  ge_faults :: db_faults
  ge_now :: string
  ge_tool :: "'w tool"
  ge_listdir :: "string \<Rightarrow> 'w \<Rightarrow> listdir_result"
  ge_rmtree :: "string \<Rightarrow> 'w \<Rightarrow> string option \<times> 'w"

text \<open>The host and the ledger file; \<^verbatim>\<open>RunDB()\<close> is built anew for each use.\<close>

record 'w gc_state =
  gs_host :: 'w
  gs_ledger :: db_file

definition get_backend :: "'w gc_env \<Rightarrow> string" where
  "get_backend env =
     (let v = py_lower (py_strip (getenv_or (ge_backend env) ''zfs''))
      in if v \<in> {''zfs'', ''plaindir''} then v else ''zfs'')"

definition get_zpool :: "'w gc_env \<Rightarrow> string" where
  "get_zpool env = py_strip (getenv_or (ge_zpool env) ''jailrun'')"

definition get_mountpoint_base :: "'w gc_env \<Rightarrow> string" where
  "get_mountpoint_base env = py_strip (getenv_or (ge_mountpoint_base env) ''/var/jailrun'')"

text \<open>\<^verbatim>\<open>re.search(r"\bname=(\S+)", line)\<close>; the flag says whether the previous character is a
  word character.\<close>

definition is_word :: "char \<Rightarrow> bool" where
  "is_word c \<longleftrightarrow> is_alnum c \<or> c = CHR ''_''"

fun search_name :: "bool \<Rightarrow> string \<Rightarrow> string option" where
  "search_name after_word [] = None"
| "search_name after_word (c # cs) =
     (let v = takeWhile (\<lambda>x. \<not> is_ws x) (drop 5 (c # cs)) in
      if \<not> after_word \<and> prefix ''name='' (c # cs) \<and> v \<noteq> [] then Some v
      else search_name (is_word c) cs)"

definition parse_jls :: "string \<Rightarrow> string list" where
  "parse_jls out = List.map_filter (search_name False) (py_splitlines out)"

definition list_jail_names :: "'w tool \<Rightarrow> 'w \<Rightarrow> string list option \<times> 'w" where
  "list_jail_names t w =
     (case t [''jls'', ''-n'', ''name''] w of
        (Spawn_error e, w') \<Rightarrow> (None, w')
      | (Completed rc out err, w') \<Rightarrow> (if rc \<noteq> 0 then None else Some (parse_jls out), w'))"

definition zfs_entries :: "string \<Rightarrow> string \<Rightarrow> dataset_entry list" where
  "zfs_entries runs_ds out =
     map (\<lambda>n. \<lparr> de_run_id = py_after_last (CHR ''/'') n, de_dataset = n \<rparr>)
       (filter (\<lambda>n. n \<noteq> [] \<and> n \<noteq> runs_ds) (map py_strip (py_splitlines out)))"

definition list_zfs_run_datasets ::
  "'w tool \<Rightarrow> string \<Rightarrow> 'w \<Rightarrow> dataset_entry list option \<times> 'w" where
  "list_zfs_run_datasets t runs_ds w =
     (case t [''zfs'', ''list'', ''-H'', ''-o'', ''name'', ''-r'', runs_ds] w of
        (Spawn_error e, w') \<Rightarrow> (None, w')
      | (Completed rc out err, w') \<Rightarrow>
          (if rc \<noteq> 0 then Some [] else Some (zfs_entries runs_ds out), w'))"

definition list_plaindir_run_datasets ::
  "(string \<Rightarrow> 'w \<Rightarrow> listdir_result) \<Rightarrow> string \<Rightarrow> 'w \<Rightarrow> dataset_entry list option" where
  "list_plaindir_run_datasets listdir runs_dir w =
     (case listdir runs_dir w of
        Dir_missing \<Rightarrow> Some []
      | Dir_error e \<Rightarrow> None
      | Dir_entries es \<Rightarrow>
          Some (map (\<lambda>(n, _). \<lparr> de_run_id = n, de_dataset = py_path_join runs_dir n \<rparr>)
                 (filter snd es)))"

text \<open>A fresh \<^verbatim>\<open>RunDB()\<close> on the ledger file; the in-memory path is a new, empty database each
  time and nothing of it survives.\<close>

definition open_ledger :: "'w gc_env \<Rightarrow> db_file \<Rightarrow> rundb" where
  "open_ledger env f =
     (let d = rundb_init None (ge_db_path env) f in
      if rd_path d = '':memory:'' then d\<lparr>rd_file := \<lparr>df_table = None, df_has_log_path = False\<rparr>\<rparr> else d)"

definition ledger_after :: "rundb \<Rightarrow> db_file \<Rightarrow> db_file" where
  "ledger_after d f = (if rd_path d = '':memory:'' then f else rd_file d)"

definition jls_note :: string where
  "jls_note = ''could not enumerate jails via `jls -n name` on this host '' @
     ''(not FreeBSD, or jls unavailable) '' @ em_dash @ '' skipping jail-related checks''"

definition rundb_note :: "string \<Rightarrow> string" where
  "rundb_note e = ''could not read the rundb ('' @ e @ '') '' @ em_dash @ '' skipping rundb-dependent checks''"

definition datasets_note :: "string \<Rightarrow> string" where
  "datasets_note backend = ''could not enumerate run datasets (backend='' @ py_repr backend @
     '') on this host '' @ em_dash @ '' skipping dataset checks''"

definition list_datasets :: "'w gc_env \<Rightarrow> 'w \<Rightarrow> dataset_entry list option \<times> 'w" where
  "list_datasets env w =
     (if get_backend env = ''zfs''
      then list_zfs_run_datasets (ge_tool env) (get_zpool env @ ''/runs'') w
      else (list_plaindir_run_datasets (ge_listdir env)
              (py_path_join (get_mountpoint_base env) ''runs'') w, w))"

record gc_snapshot =
  sn_jails :: "string list option"
  sn_rows :: "run_row list option"
  sn_datasets :: "dataset_entry list option"
  sn_notes :: "string list"

definition collect :: "'w gc_env \<Rightarrow> 'w gc_state \<Rightarrow> gc_snapshot \<times> 'w gc_state" where
  "collect env s =
     (let (jails, w1) = list_jail_names (ge_tool env) (gs_host s);
          (rows, d) = list_runs (ge_faults env) None (open_ledger env (gs_ledger s));
          (datasets, w2) = list_datasets env w1
      in (\<lparr> sn_jails = jails,
            sn_rows = (case rows of Inl _ \<Rightarrow> None | Inr rs \<Rightarrow> Some rs),
            sn_datasets = datasets,
            sn_notes = (if jails = None then [jls_note] else []) @
                       (case rows of Inl e \<Rightarrow> [rundb_note e] | Inr _ \<Rightarrow> []) @
                       (if datasets = None then [datasets_note (get_backend env)] else []) \<rparr>,
          \<lparr> gs_host = w2, gs_ledger = ledger_after d (gs_ledger s) \<rparr>))"

section \<open>Repair\<close>

definition first_nonempty :: "string list \<Rightarrow> string" where
  "first_nonempty ss = (case filter (\<lambda>s. s \<noteq> []) ss of [] \<Rightarrow> [] | s # _ \<Rightarrow> s)"

definition destroy_dataset :: "'w gc_env \<Rightarrow> string \<Rightarrow> 'w \<Rightarrow> (bool \<times> string) \<times> 'w" where
  "destroy_dataset env dataset w =
     (if get_backend env = ''zfs'' then
        (let ((rc, _, err), w1) = run_ok (ge_tool env) [''zfs'', ''destroy'', dataset] w in
         if rc = 0 then ((True, ''zfs destroy succeeded''), w1)
         else (let ((rc2, _, err2), w2) = run_ok (ge_tool env) [''zfs'', ''destroy'', ''-r'', dataset] w1 in
         if rc2 = 0 then ((True, ''zfs destroy -r succeeded (with children)''), w2)
         else (let ((rc3, _, err3), w3) = run_ok (ge_tool env) [''zfs'', ''destroy'', ''-f'', dataset] w2 in
         if rc3 = 0 then ((True, ''zfs destroy -f succeeded (after busy retry)''), w3)
         else ((False, ''zfs destroy failed (rc='' @ show_int rc @ ''): '' @
                  first_nonempty [py_strip err, py_strip err2, py_strip err3]), w3))))
      else
        (case ge_rmtree env dataset w of
           (None, w1) \<Rightarrow> ((True, ''rm -rf succeeded''), w1)
         | (Some e, w1) \<Rightarrow> ((False, ''rm -rf failed: '' @ e), w1)))"

definition fix_stale_row :: "'w gc_env \<Rightarrow> string \<Rightarrow> 'w gc_state \<Rightarrow> 'w gc_state" where
  "fix_stale_row env n s =
     (let (_, d) = record_exit (ge_faults env) (ge_now env) n KILLED None (open_ledger env (gs_ledger s))
      in s\<lparr>gs_ledger := ledger_after d (gs_ledger s)\<rparr>)"

definition apply_fix :: "'w gc_env \<Rightarrow> orphan \<Rightarrow> 'w gc_state \<Rightarrow> fix_outcome \<times> 'w gc_state" where
  "apply_fix env o' s =
     (let k = or_kind o'; i = or_identifier o' in
      if k = ''stale_rundb_row'' then
        (\<lparr> fo_kind = k, fo_identifier = i, fo_ok = True,
           fo_detail = ''marked '' @ py_repr ''killed'' @ '' in rundb'' \<rparr>, fix_stale_row env i s)
      else if k = ''orphaned_jail'' then
        (let ((rc, _, err), w) = run_ok (ge_tool env) [''jail'', ''-r'', i] (gs_host s) in
         (\<lparr> fo_kind = k, fo_identifier = i, fo_ok = (rc = 0),
            fo_detail = (if rc = 0 then ''jail -r succeeded''
                         else ''jail -r failed (rc='' @ show_int rc @ ''): '' @ py_strip err) \<rparr>,
          s\<lparr>gs_host := w\<rparr>))
      else if k = ''orphaned_dataset'' then
        (let ((ok, detail), w) = destroy_dataset env i (gs_host s) in
         (\<lparr> fo_kind = k, fo_identifier = i, fo_ok = ok, fo_detail = detail \<rparr>, s\<lparr>gs_host := w\<rparr>))
      else
        (\<lparr> fo_kind = k, fo_identifier = i, fo_ok = False,
           fo_detail = ''unknown orphan kind '' @ py_repr k \<rparr>, s))"

fun apply_fixes :: "'w gc_env \<Rightarrow> orphan list \<Rightarrow> 'w gc_state \<Rightarrow> fix_outcome list \<times> 'w gc_state" where
  "apply_fixes env [] s = ([], s)"
| "apply_fixes env (x # xs) s =
     (let (r, s1) = apply_fix env x s; (rs, s2) = apply_fixes env xs s1 in (r # rs, s2))"

section \<open>One run, its report and exit code\<close>

record gc_report =
  gr_orphans :: "orphan list"
  gr_fixes :: "fix_outcome list option"
  gr_notes :: "string list"

definition run_gc :: "'w gc_env \<Rightarrow> bool \<Rightarrow> 'w gc_state \<Rightarrow> gc_report \<times> 'w gc_state" where
  "run_gc env fix s =
     (let (snap, s1) = collect env s;
          orphans = reconcile (sn_jails snap) (sn_rows snap) (sn_datasets snap)
      in if fix then (let (fs, s2) = apply_fixes env orphans s1 in
           (\<lparr> gr_orphans = orphans, gr_fixes = Some fs, gr_notes = sn_notes snap \<rparr>, s2))
         else (\<lparr> gr_orphans = orphans, gr_fixes = None, gr_notes = sn_notes snap \<rparr>, s1))"

definition render_orphan :: "orphan \<Rightarrow> fix_outcome option \<Rightarrow> string list" where
  "render_orphan x f =
     [''[ORPHAN] '' @ or_kind x @ '': '' @ or_identifier x @ '' '' @ em_dash @ '' '' @ or_detail x,
      ''    Fix: '' @ or_fix_action x] @
     (case f of None \<Rightarrow> []
      | Some r \<Rightarrow> [''    '' @ (if fo_ok r then ''[FIXED]'' else ''[FIX-FAILED]'') @ '' '' @ fo_detail r])"

definition render_gc_text :: "orphan list \<Rightarrow> fix_outcome list option \<Rightarrow> string list \<Rightarrow> string" where
  "render_gc_text orphans fixes notes =
     py_join [NL]
       (map (\<lambda>n. ''[NOTE] '' @ n) notes @
        (if orphans = [] then [''no orphans found'']
         else concat (map (\<lambda>(x, f). render_orphan x f)
                (zip orphans (case fixes of None \<Rightarrow> replicate (length orphans) None
                              | Some fs \<Rightarrow> map Some fs)))))"

definition gc_exit_code :: "orphan list \<Rightarrow> fix_outcome list option \<Rightarrow> int" where
  "gc_exit_code orphans fixes =
     (case fixes of
        None \<Rightarrow> if orphans = [] then 0 else 1
      | Some fs \<Rightarrow> if \<exists>f \<in> set fs. \<not> fo_ok f then 1 else 0)"

section \<open>What reconciliation decides\<close>

lemma rundb_by_name_lookup: "rows_ok rows \<Longrightarrow> rundb_by_name rows n = lookup_row n rows"
  by (simp add: rundb_by_name_def lookup_perm(1) [of rows "rev rows"])

definition tag_of :: "orphan \<Rightarrow> string \<times> string" where
  "tag_of x = (or_kind x, or_identifier x)"

lemma status_legal: "rows_ok rows \<Longrightarrow> lookup_row n rows = Some r \<Longrightarrow> rr_status r \<in> {RUNNING, EXITED, KILLED}"
  by (auto simp: rows_ok_def status_check_def dest: lookup_in_set)

lemma orphaned_jails_tags:
  assumes "rows_ok rows"
  shows "map tag_of (orphaned_jails js rows) =
    map (\<lambda>n. (''orphaned_jail'', n))
      (filter (\<lambda>n. py_startswith n JAILRUN_PREFIX \<and> row_status rows n \<noteq> Some RUNNING) js)"
proof (induction js)
  case Nil
  then show ?case by simp
next
  case (Cons n ns)
  have "rr_status r = EXITED \<or> rr_status r = KILLED \<longleftrightarrow> rr_status r \<noteq> RUNNING"
    if "lookup_row n rows = Some r" for r
    using status_legal [OF assms that] by (auto simp: status_defs)
  with Cons show ?case
    by (auto simp: rundb_by_name_lookup [OF assms] row_status_def tag_of_def orphaned_jail_def
        split: option.splits)
qed

lemma stale_rows_tags:
  "map tag_of (stale_rows js rows) =
    map (\<lambda>r. (''stale_rundb_row'', rr_jail_name r))
      (filter (\<lambda>r. rr_status r = RUNNING \<and> rr_jail_name r \<notin> set js) rows)"
  by (simp add: stale_rows_def tag_of_def comp_def)

lemma stale_rows_ids:
  assumes "rows_ok rows"
  shows "or_identifier ` set (stale_rows js rows) = {n. row_status rows n = Some RUNNING \<and> n \<notin> set js}"
proof -
  have "or_identifier ` set (stale_rows js rows) =
      rr_jail_name ` {r \<in> set rows. rr_status r = RUNNING \<and> rr_jail_name r \<notin> set js}"
    by (simp add: stale_rows_def image_image)
  also have "\<dots> = {n. row_status rows n = Some RUNNING \<and> n \<notin> set js}"
    unfolding row_status_running [OF assms] by blast
  finally show ?thesis .
qed

lemma dataset_is_orphan_iff:
  "rows_ok rows \<Longrightarrow> dataset_is_orphan js rows e \<longleftrightarrow>
     JAILRUN_PREFIX @ de_run_id e \<notin> set js \<and> row_status rows (JAILRUN_PREFIX @ de_run_id e) \<noteq> Some RUNNING"
  by (auto simp: dataset_is_orphan_def rundb_by_name_lookup row_status_def Let_def split: option.splits)

lemma reconcile_tags:
  assumes "rows_ok rows"
  shows "((k, i) \<in> tag_of ` set (reconcile (Some js) (Some rows) (Some ds)) \<longleftrightarrow>
      (k = ''stale_rundb_row'' \<and> row_status rows i = Some RUNNING \<and> i \<notin> set js)
    \<or> (k = ''orphaned_jail'' \<and> i \<in> set js \<and> py_startswith i JAILRUN_PREFIX
         \<and> row_status rows i \<noteq> Some RUNNING)
    \<or> (k = ''orphaned_dataset'' \<and> (\<exists>e \<in> set ds. de_dataset e = i
         \<and> JAILRUN_PREFIX @ de_run_id e \<notin> set js
         \<and> row_status rows (JAILRUN_PREFIX @ de_run_id e) \<noteq> Some RUNNING)))
    \<and> reconcile None rs dd = [] \<and> reconcile jj None dd = []"
proof -
  have s: "(k, i) \<in> tag_of ` set (stale_rows js rows) \<longleftrightarrow>
      k = ''stale_rundb_row'' \<and> row_status rows i = Some RUNNING \<and> i \<notin> set js"
  proof -
    have "(k, i) \<in> tag_of ` set (stale_rows js rows) \<longleftrightarrow>
        k = ''stale_rundb_row'' \<and> (\<exists>r \<in> set rows. rr_jail_name r = i \<and> rr_status r = RUNNING) \<and> i \<notin> set js"
      using arg_cong [OF stale_rows_tags [of js rows], of set] by auto
    then show ?thesis by (simp add: row_status_running [OF assms])
  qed
  have j: "(k, i) \<in> tag_of ` set (orphaned_jails js rows) \<longleftrightarrow>
      k = ''orphaned_jail'' \<and> i \<in> set js \<and> py_startswith i JAILRUN_PREFIX
      \<and> row_status rows i \<noteq> Some RUNNING"
    using arg_cong [OF orphaned_jails_tags [OF assms, of js], of set] by auto
  have d: "(k, i) \<in> tag_of ` set (map orphaned_dataset (filter (dataset_is_orphan js rows) ds)) \<longleftrightarrow>
      k = ''orphaned_dataset'' \<and> (\<exists>e \<in> set ds. de_dataset e = i
         \<and> JAILRUN_PREFIX @ de_run_id e \<notin> set js
         \<and> row_status rows (JAILRUN_PREFIX @ de_run_id e) \<noteq> Some RUNNING)"
    by (auto simp: tag_of_def orphaned_dataset_def dataset_is_orphan_iff [OF assms] image_iff)
  show ?thesis
    using s j d by (simp add: reconcile_def image_Un split: option.splits)
qed

text \<open>C13: What the collector flags, exactly.  With all three sources at hand and a ledger that
  satisfies its schema, an orphan is a name recorded running with no live jail, a live
  \<^verbatim>\<open>jailrun-\<close> jail not recorded running, or a dataset whose \<^verbatim>\<open>jailrun-<run id>\<close> is neither
  live nor recorded running; so a live jail recorded running is never flagged, nor the dataset
  that carries its id.  Without the jails or the ledger nothing is flagged at all.\<close>

theorem reconcile_exact:
  assumes "rows_ok rows"
  shows "((k, i) \<in> tag_of ` set (reconcile (Some js) (Some rows) (Some ds)) \<longleftrightarrow>
      (k = ''stale_rundb_row'' \<and> row_status rows i = Some RUNNING \<and> i \<notin> set js)
    \<or> (k = ''orphaned_jail'' \<and> i \<in> set js \<and> py_startswith i JAILRUN_PREFIX
         \<and> row_status rows i \<noteq> Some RUNNING)
    \<or> (k = ''orphaned_dataset'' \<and> (\<exists>e \<in> set ds. de_dataset e = i
         \<and> JAILRUN_PREFIX @ de_run_id e \<notin> set js
         \<and> row_status rows (JAILRUN_PREFIX @ de_run_id e) \<noteq> Some RUNNING)))
    \<and> reconcile None rs dd = [] \<and> reconcile jj None dd = []"
  using assms by (rule reconcile_tags)

lemma reconcile_exact_witness:
  "(''orphaned_jail'', ''jailrun-a'') \<in> tag_of ` set (reconcile (Some [''jailrun-a'', ''www'']) (Some []) (Some []))"
  using reconcile_exact [where rows = "[]" and k = "''orphaned_jail''" and i = "''jailrun-a''"
      and js = "[''jailrun-a'', ''www'']" and ds = "[]"]
  by (simp add: rows_ok_def row_status_def lookup_row_def py_startswith_def JAILRUN_PREFIX_def)

text \<open>C35: The protection of running work is by the name \<^verbatim>\<open>jailrun-<run id>\<close> alone.  A run
  that is live, recorded running with its dataset, and listed, but whose jail has any other
  name (\<^verbatim>\<open>--name\<close>, or the id a detached run makes up), has its dataset flagged for
  destruction when nothing happens to be called \<^verbatim>\<open>jailrun-<run id>\<close>.\<close>

theorem gc_flags_dataset_of_renamed_run:
  assumes "rows_ok rows" and "r \<in> set rows" and "rr_status r = RUNNING"
    and "rr_jail_name r \<in> set js" and "e \<in> set ds" and "de_dataset e = rr_dataset r"
    and "JAILRUN_PREFIX @ de_run_id e \<notin> set js"
    and "JAILRUN_PREFIX @ de_run_id e \<notin> rr_jail_name ` set rows"
  shows "(''orphaned_dataset'', rr_dataset r) \<in> tag_of ` set (reconcile (Some js) (Some rows) (Some ds))"
proof -
  have "lookup_row (JAILRUN_PREFIX @ de_run_id e) rows = None"
    using assms(8) by (simp add: lookup_None_iff)
  then have "dataset_is_orphan js rows e"
    using assms(1,7) by (simp add: dataset_is_orphan_def rundb_by_name_lookup Let_def)
  then have "orphaned_dataset e \<in> set (reconcile (Some js) (Some rows) (Some ds))"
    using assms(5) by (simp add: reconcile_def)
  moreover have "tag_of (orphaned_dataset e) = (''orphaned_dataset'', rr_dataset r)"
    using assms(6) by (simp add: tag_of_def orphaned_dataset_def)
  ultimately show ?thesis by (metis image_eqI)
qed

lemma gc_flags_dataset_of_renamed_run_witness:
  "(''orphaned_dataset'', ''jailrun/runs/7f'') \<in> tag_of ` set (reconcile (Some [''web''])
     (Some [start_row ''web'' ''nginx'' '''' ''jailrun/runs/7f'' None ''t''])
     (Some [\<lparr>de_run_id = ''7f'', de_dataset = ''jailrun/runs/7f''\<rparr>]))"
  using gc_flags_dataset_of_renamed_run [where js = "[''web'']"
      and rows = "[start_row ''web'' ''nginx'' '''' ''jailrun/runs/7f'' None ''t'']"
      and r = "start_row ''web'' ''nginx'' '''' ''jailrun/runs/7f'' None ''t''"
      and e = "\<lparr>de_run_id = ''7f'', de_dataset = ''jailrun/runs/7f''\<rparr>"
      and ds = "[\<lparr>de_run_id = ''7f'', de_dataset = ''jailrun/runs/7f''\<rparr>]"]
  by (simp add: rows_ok_def start_row_def status_check_def JAILRUN_PREFIX_def)

section \<open>Parsing what the host prints\<close>

text \<open>The documented output of \<^verbatim>\<open>jls -n name\<close>, one \<^verbatim>\<open>name=<jail>\<close> line per jail.\<close>

definition jls_output :: "string list \<Rightarrow> string" where
  "jls_output ns = py_join [NL] (map (\<lambda>n. ''name='' @ n) ns)"

lemma search_name_line: "word_ok n \<Longrightarrow> search_name False (''name='' @ n) = Some n"
proof -
  assume "word_ok n"
  then have "takeWhile (\<lambda>x. \<not> is_ws x) n = n" and "n \<noteq> []"
    by (auto simp: word_ok_def takeWhile_eq_all_conv)
  then show ?thesis by (simp add: Let_def del: takeWhile_eq_all_conv)
qed

lemma name_line_ok: "word_ok n \<Longrightarrow> line_ok (''name='' @ n)"
  using word_ok_line [of n] by (auto simp: line_ok_def is_linebreak_def Let_def)

lemma parse_jls_output:
  assumes "\<forall>n \<in> set ns. word_ok n"
  shows "parse_jls (jls_output ns) = ns"
proof -
  have "py_splitlines (jls_output ns) = map (\<lambda>n. ''name='' @ n) ns"
    unfolding jls_output_def
  proof (rule py_splitlines_join)
    fix l assume "l \<in> set (map (\<lambda>n. ''name='' @ n) ns)"
    then obtain m where "m \<in> set ns" and l: "l = ''name='' @ m" by auto
    then show "line_ok l \<and> l \<noteq> []" using name_line_ok [of m] assms by simp
  qed
  moreover have "List.map_filter (search_name False) (map (\<lambda>n. ''name='' @ n) ns) = ns"
    using assms
  proof (induction ns)
    case Nil
    then show ?case by (simp add: List.map_filter_def)
  next
    case (Cons m ms)
    then show ?case using search_name_line [of m] by (simp add: List.map_filter_def)
  qed
  ultimately show ?thesis by (simp add: parse_jls_def)
qed

text \<open>Enumerating jails loses and invents nothing: parsing the output \<^verbatim>\<open>jls\<close> prints for a
  list of jail names (not empty, no whitespace) gives back that list, in order; the line of an
  unrelated parameter such as \<^verbatim>\<open>hostname=\<close> is not a name.\<close>

theorem parse_jls_roundtrip:
  assumes "\<forall>n \<in> set ns. word_ok n"
  shows "parse_jls (jls_output ns) = ns \<and> search_name False (''hostname='' @ n) = search_name True (''name='' @ n)"
  using assms by (simp add: parse_jls_output is_word_def is_alnum_def is_alpha_def)

lemma parse_jls_roundtrip_witness:
  "parse_jls (jls_output [''jailrun-1'', ''www'']) = [''jailrun-1'', ''www'']"
  using parse_jls_roundtrip [of "[''jailrun-1'', ''www'']"] by (simp add: word_ok_def is_ws_def)

lemma zfs_entries_words:
  assumes "\<forall>n \<in> set ns. word_ok n \<and> n \<noteq> runs_ds" and "word_ok runs_ds"
  shows "zfs_entries runs_ds (py_join [NL] (runs_ds # ns)) =
     map (\<lambda>n. \<lparr> de_run_id = py_after_last (CHR ''/'') n, de_dataset = n \<rparr>) ns"
proof -
  have w: "word_ok n" if "n \<in> set (runs_ds # ns)" for n using that assms by auto
  then have "py_splitlines (py_join [NL] (runs_ds # ns)) = runs_ds # ns"
    by (intro py_splitlines_join word_ok_line)
  moreover have "map py_strip (runs_ds # ns) = runs_ds # ns"
    using w by (intro map_idI) simp
  moreover have "filter (\<lambda>n. n \<noteq> [] \<and> n \<noteq> runs_ds) ns = ns"
    using assms(1) by (intro filter_True) (auto simp: word_ok_def)
  ultimately show ?thesis by (simp add: zfs_entries_def)
qed

section \<open>Repair is one attempt per orphan\<close>

lemma fix_stale_row_host [simp]: "gs_host (fix_stale_row env n s) = gs_host s"
  by (simp add: fix_stale_row_def split_beta)

lemma apply_fix_tag:
  "fo_kind (fst (apply_fix env x s)) = or_kind x" "fo_identifier (fst (apply_fix env x s)) = or_identifier x"
  by (auto simp: apply_fix_def Let_def split: prod.splits)

lemma apply_fixes_append:
  "apply_fixes env (xs @ ys) s =
     (let (a, s1) = apply_fixes env xs s; (b, s2) = apply_fixes env ys s1 in (a @ b, s2))"
  by (induction xs arbitrary: s) (auto simp: Let_def split: prod.splits)

lemma apply_fixes_tags:
  "map (\<lambda>f. (fo_kind f, fo_identifier f)) (fst (apply_fixes env xs s)) = map tag_of xs"
proof (induction xs arbitrary: s)
  case Nil
  then show ?case by simp
next
  case (Cons x xs)
  obtain r s1 where 1: "apply_fix env x s = (r, s1)" by (cases "apply_fix env x s")
  obtain rs s2 where 2: "apply_fixes env xs s1 = (rs, s2)" by (cases "apply_fixes env xs s1")
  show ?case using Cons [of s1] 1 2 apply_fix_tag [of env x s] by (simp add: tag_of_def)
qed

text \<open>Which commands an orphan may cost: the property is about a tool that keeps a log.\<close>

definition repair_commands :: "orphan \<Rightarrow> string list list" where
  "repair_commands x =
     (if or_kind x = ''orphaned_jail'' then [[''jail'', ''-r'', or_identifier x]]
      else if or_kind x = ''orphaned_dataset'' then
        [[''zfs'', ''destroy'', or_identifier x], [''zfs'', ''destroy'', ''-r'', or_identifier x],
         [''zfs'', ''destroy'', ''-f'', or_identifier x]]
      else [])"

text \<open>A host that answers every command as \<^verbatim>\<open>f\<close> says; the commands are tried until one succeeds.\<close>

fun until_ok :: "(string list \<Rightarrow> cmd_result) \<Rightarrow> string list list \<Rightarrow> string list list" where
  "until_ok f [] = []"
| "until_ok f (c # cs) = c # (if answers_ok f c then [] else until_ok f cs)"

definition repair_ok :: "(string list \<Rightarrow> cmd_result) \<Rightarrow> orphan \<Rightarrow> bool" where
  "repair_ok f x \<longleftrightarrow> or_kind x = ''stale_rundb_row'' \<or> list_ex (answers_ok f) (repair_commands x)"

definition fixed_answers :: "(string list \<Rightarrow> cmd_result) \<Rightarrow> ('w \<times> string list list) tool" where
  "fixed_answers f = logged (\<lambda>argv w. (f argv, w))"

lemma run_ok_answers:
  obtains rc x where "run_ok (fixed_answers f) argv w = ((rc, x), (fst w, snd w @ [argv]))" and "rc = 0 \<longleftrightarrow> answers_ok f argv"
  by (cases "f argv") (auto simp: run_ok_def fixed_answers_def logged_def answers_ok_def)

lemma destroy_dataset_answers:
  assumes t: "ge_tool env = fixed_answers f" and z: "get_backend env = ''zfs''"
  shows "fst (fst (destroy_dataset env d w)) \<longleftrightarrow> list_ex (answers_ok f)
      [[''zfs'', ''destroy'', d], [''zfs'', ''destroy'', ''-r'', d], [''zfs'', ''destroy'', ''-f'', d]]"
    and "snd (destroy_dataset env d w) = (fst w, snd w @ until_ok f
      [[''zfs'', ''destroy'', d], [''zfs'', ''destroy'', ''-r'', d], [''zfs'', ''destroy'', ''-f'', d]])"
proof -
  let ?c1 = "[''zfs'', ''destroy'', d]" and ?c2 = "[''zfs'', ''destroy'', ''-r'', d]" and ?c3 = "[''zfs'', ''destroy'', ''-f'', d]"
  obtain r1 x1 where 1: "run_ok (fixed_answers f) ?c1 w = ((r1, x1), (fst w, snd w @ [?c1]))" "r1 = 0 \<longleftrightarrow> answers_ok f ?c1"
    by (rule run_ok_answers)
  obtain r2 x2 where 2: "run_ok (fixed_answers f) ?c2 (fst w, snd w @ [?c1]) = ((r2, x2), (fst w, snd w @ [?c1, ?c2]))"
    "r2 = 0 \<longleftrightarrow> answers_ok f ?c2"
    by (rule run_ok_answers [of f ?c2 "(fst w, snd w @ [?c1])"]) simp
  obtain r3 x3 where 3: "run_ok (fixed_answers f) ?c3 (fst w, snd w @ [?c1, ?c2]) = ((r3, x3), (fst w, snd w @ [?c1, ?c2, ?c3]))"
    "r3 = 0 \<longleftrightarrow> answers_ok f ?c3"
    by (rule run_ok_answers [of f ?c3 "(fst w, snd w @ [?c1, ?c2])"]) simp
  show "fst (fst (destroy_dataset env d w)) \<longleftrightarrow> list_ex (answers_ok f) [?c1, ?c2, ?c3]"
    and "snd (destroy_dataset env d w) = (fst w, snd w @ until_ok f [?c1, ?c2, ?c3])"
    using 1 2 3 z by (cases x1; cases x2; cases x3; simp add: destroy_dataset_def t)+
qed

lemma apply_fix_answers:
  assumes t: "ge_tool env = fixed_answers f" and z: "get_backend env = ''zfs''"
  shows "fo_kind (fst (apply_fix env x s)) = or_kind x \<and> fo_identifier (fst (apply_fix env x s)) = or_identifier x
    \<and> fo_ok (fst (apply_fix env x s)) = repair_ok f x
    \<and> gs_host (snd (apply_fix env x s)) = (fst (gs_host s), snd (gs_host s) @ until_ok f (repair_commands x))"
proof -
  consider (stale) "or_kind x = ''stale_rundb_row''" | (jail) "or_kind x = ''orphaned_jail''"
    | (ds) "or_kind x = ''orphaned_dataset''"
    | (other) "or_kind x \<notin> {''stale_rundb_row'', ''orphaned_jail'', ''orphaned_dataset''}" by blast
  then show ?thesis
  proof cases
    case stale
    then show ?thesis by (simp add: apply_fix_def repair_commands_def repair_ok_def Let_def)
  next
    case jail
    obtain rc y where "run_ok (fixed_answers f) [''jail'', ''-r'', or_identifier x] (gs_host s)
        = ((rc, y), (fst (gs_host s), snd (gs_host s) @ [[''jail'', ''-r'', or_identifier x]]))"
      "rc = 0 \<longleftrightarrow> answers_ok f [''jail'', ''-r'', or_identifier x]" by (rule run_ok_answers)
    then show ?thesis using jail by (cases y) (simp add: apply_fix_def repair_commands_def repair_ok_def Let_def t)
  next
    case ds
    obtain ok det w where d: "destroy_dataset env (or_identifier x) (gs_host s) = ((ok, det), w)"
      by (metis prod.collapse)
    then show ?thesis
      using ds destroy_dataset_answers [OF t z, of "or_identifier x" "gs_host s"]
      by (simp add: apply_fix_def repair_commands_def repair_ok_def Let_def)
  next
    case other
    then show ?thesis by (simp add: apply_fix_def repair_commands_def repair_ok_def Let_def)
  qed
qed

text \<open>C14: Repair makes one attempt per orphan, in order, whatever fails, and reports what happened.
  On a ZFS host that answers commands as \<^verbatim>\<open>f\<close> says: the outcomes name the orphans, and each is a
  success exactly if one of its commands was (a ledger row is always marked); the only
  commands are \<^verbatim>\<open>jail -r\<close> of a flagged jail and up to three forms of \<^verbatim>\<open>zfs destroy\<close> of a flagged
  dataset, until one succeeds; and the exit code is 0 exactly if every repair succeeded.\<close>

theorem apply_fixes_complete_and_confined:
  assumes t: "ge_tool env = fixed_answers f" and z: "get_backend env = ''zfs''"
  shows "map (\<lambda>r. (fo_kind r, fo_identifier r, fo_ok r)) (fst (apply_fixes env xs s))
      = map (\<lambda>x. (or_kind x, or_identifier x, repair_ok f x)) xs
    \<and> gs_host (snd (apply_fixes env xs s))
      = (fst (gs_host s), snd (gs_host s) @ concat (map (\<lambda>x. until_ok f (repair_commands x)) xs))
    \<and> (gc_exit_code xs (Some (fst (apply_fixes env xs s))) = 0 \<longleftrightarrow> list_all (repair_ok f) xs)"
proof -
  have 1: "map (\<lambda>r. (fo_kind r, fo_identifier r, fo_ok r)) (fst (apply_fixes env xs s))
      = map (\<lambda>x. (or_kind x, or_identifier x, repair_ok f x)) xs
    \<and> gs_host (snd (apply_fixes env xs s))
      = (fst (gs_host s), snd (gs_host s) @ concat (map (\<lambda>x. until_ok f (repair_commands x)) xs))"
  proof (induction xs arbitrary: s)
    case Nil
    then show ?case by simp
  next
    case (Cons x xs)
    show ?case using apply_fix_answers [OF t z, of x s] Cons [of "snd (apply_fix env x s)"] by (simp add: split_beta)
  qed
  then have "map (\<lambda>(_, _, ok). ok) (map (\<lambda>r. (fo_kind r, fo_identifier r, fo_ok r)) (fst (apply_fixes env xs s)))
      = map (\<lambda>(_, _, ok). ok) (map (\<lambda>x. (or_kind x, or_identifier x, repair_ok f x)) xs)" by simp
  then have "map fo_ok (fst (apply_fixes env xs s)) = map (repair_ok f) xs" by (simp add: comp_def)
  then have "list_all (\<lambda>ok. ok) (map fo_ok (fst (apply_fixes env xs s))) = list_all (\<lambda>ok. ok) (map (repair_ok f) xs)"
    by simp
  then have "(\<forall>r \<in> set (fst (apply_fixes env xs s)). fo_ok r) \<longleftrightarrow> list_all (repair_ok f) xs"
    by (simp add: list_all_iff)
  then show ?thesis using 1 by (auto simp: gc_exit_code_def)
qed

section \<open>Repair converges\<close>

text \<open>The ledger as its readers see it, and a healthy one: nothing refuses, the path is a file,
  the schema holds.\<close>

definition ledger_rows :: "'w gc_env \<Rightarrow> 'w gc_state \<Rightarrow> run_row list" where
  "ledger_rows env s = visible_rows (open_ledger env (gs_ledger s))"

definition ledger_healthy :: "'w gc_env \<Rightarrow> 'w gc_state \<Rightarrow> bool" where
  "ledger_healthy env s \<longleftrightarrow> ge_faults env = no_faults
     \<and> rd_path (rundb_init None (ge_db_path env) (gs_ledger s)) \<noteq> '':memory:''
     \<and> rows_ok (ledger_rows env s)"

lemma get_conn_path [simp]: "rd_path (snd (get_conn fl d)) = rd_path d"
  by (auto simp: get_conn_def Let_def split: option.splits)

lemma rd_path_set_rows [simp]: "rd_path (set_rows rows d) = rd_path d"
  by (simp add: set_rows_def)

lemma get_conn_file:
  assumes "\<not> rd_open d"
  shows "df_has_log_path (rd_file (snd (get_conn no_faults d)))"
    and "df_table (rd_file (snd (get_conn no_faults d))) = Some (visible_rows d)"
  using assms
  by (auto simp: visible_rows_def get_conn_def no_faults_def makedirs_error_def alter_error_def
      create_table_def add_log_path_def db_rows_def py_contains_iff Let_def split: option.splits)

lemma init_closed [simp]: "\<not> rd_open (rundb_init p e f)"
  by (simp add: rundb_init_def)

lemma visible_reopened:
  assumes "df_has_log_path f" and "df_table f = Some rows"
    and "rd_path (rundb_init None (ge_db_path env) f) \<noteq> '':memory:''"
  shows "visible_rows (open_ledger env f) = rows"
  using assms
  by (auto simp: visible_rows_def open_ledger_def rundb_init_def get_conn_def no_faults_def makedirs_error_def
      alter_error_def create_table_def db_rows_def py_contains_iff Let_def split: option.splits)

lemma open_ledger_file: "rd_path (rundb_init None (ge_db_path env) f) \<noteq> '':memory:'' \<Longrightarrow>
    open_ledger env f = rundb_init None (ge_db_path env) f"
  by (simp add: open_ledger_def Let_def)

lemma healthy_open:
  assumes "ledger_healthy env s"
  shows "\<not> rd_open (open_ledger env (gs_ledger s))"
    and "rd_path (open_ledger env (gs_ledger s)) \<noteq> '':memory:''"
    and "rd_path (rundb_init None (ge_db_path env) f) \<noteq> '':memory:''"
    and "ge_faults env = no_faults" and "rows_ok (ledger_rows env s)"
  using assms by (auto simp: ledger_healthy_def open_ledger_file rundb_init_def)

lemma ledger_fix_stale:
  assumes h: "ledger_healthy env s"
  shows "ledger_rows env (fix_stale_row env n s) = update_exit n KILLED None (ge_now env) (ledger_rows env s)"
    and "ledger_healthy env (fix_stale_row env n s)"
proof -
  let ?d = "open_ledger env (gs_ledger s)"
  let ?rows = "update_exit n KILLED None (ge_now env) (visible_rows ?d)"
  have "gs_ledger (fix_stale_row env n s) = rd_file (set_rows ?rows (snd (get_conn no_faults ?d)))"
    using healthy_open [OF h]
    by (simp add: fix_stale_row_def record_exit_healthy status_check_def ledger_after_def)
  then have e: "ledger_rows env (fix_stale_row env n s) = ?rows"
    unfolding ledger_rows_def
    using get_conn_file [of ?d] healthy_open(1) [OF h]
    by (simp, intro visible_reopened) (auto simp: set_rows_def healthy_open(3) [OF h])
  then show "ledger_rows env (fix_stale_row env n s) = update_exit n KILLED None (ge_now env) (ledger_rows env s)"
    by (simp add: ledger_rows_def)
  then show "ledger_healthy env (fix_stale_row env n s)"
    using h healthy_open(3) [OF h] by (simp add: ledger_healthy_def rows_ok_update status_check_def)
qed

lemma collect_ledger:
  assumes h: "ledger_healthy env s"
  shows "sn_rows (fst (collect env s)) = Some (newest_first (ledger_rows env s))"
    and "ledger_rows env (snd (collect env s)) = ledger_rows env s"
    and "ledger_healthy env (snd (collect env s))"
proof -
  let ?d = "open_ledger env (gs_ledger s)"
  have l: "list_runs no_faults None ?d = (Inr (newest_first (visible_rows ?d)), snd (get_conn no_faults ?d))"
    by (subst list_runs_def, subst get_conn_no_faults) (simp add: visible_rows_def)
  show "sn_rows (fst (collect env s)) = Some (newest_first (ledger_rows env s))"
    using l healthy_open(4) [OF h] by (simp add: collect_def ledger_rows_def Let_def split: prod.splits)
  have "gs_ledger (snd (collect env s)) = rd_file (snd (get_conn no_faults ?d))"
    using l healthy_open [OF h] by (simp add: collect_def ledger_after_def Let_def split: prod.splits)
  then show e: "ledger_rows env (snd (collect env s)) = ledger_rows env s"
    unfolding ledger_rows_def using get_conn_file [of ?d] healthy_open [OF h]
    by (simp, intro visible_reopened) auto
  show "ledger_healthy env (snd (collect env s))"
    using e h healthy_open(3) [OF h] by (simp add: ledger_healthy_def)
qed

text \<open>A host that behaves as documented, seen through its jails and the datasets below the runs
  dataset: listings are complete, \<^verbatim>\<open>jail -r\<close> removes the jail, a \<^verbatim>\<open>zfs destroy\<close> that reports
  success removes the dataset, \<^verbatim>\<open>-r\<close> succeeds on any dataset that exists, no destroy creates
  a dataset or touches a jail.\<close>

definition gc_host :: "'w gc_env \<Rightarrow> ('w \<Rightarrow> string list) \<Rightarrow> ('w \<Rightarrow> string list) \<Rightarrow> bool" where
  "gc_host env jails dsets \<longleftrightarrow>
     get_backend env = ''zfs'' \<and> word_ok (get_zpool env @ ''/runs'')
   \<and> (\<forall>w. distinct (jails w) \<and> (\<forall>n \<in> set (jails w). word_ok n)
        \<and> ge_tool env [''jls'', ''-n'', ''name''] w = (Completed 0 (jls_output (jails w)) [], w))
   \<and> (\<forall>w. (\<forall>n \<in> set (dsets w). word_ok n \<and> n \<noteq> get_zpool env @ ''/runs'')
        \<and> ge_tool env [''zfs'', ''list'', ''-H'', ''-o'', ''name'', ''-r'', get_zpool env @ ''/runs''] w
          = (Completed 0 (py_join [NL] ((get_zpool env @ ''/runs'') # dsets w)) [], w))
   \<and> (\<forall>w n. n \<in> set (jails w) \<longrightarrow> (\<exists>out err w'. ge_tool env [''jail'', ''-r'', n] w = (Completed 0 out err, w')
        \<and> jails w' = filter (\<lambda>m. m \<noteq> n) (jails w) \<and> dsets w' = dsets w))
   \<and> (\<forall>w d fl. fl \<in> {[], [''-r''], [''-f'']} \<longrightarrow>
        (let (r, w') = run_ok (ge_tool env) ([''zfs'', ''destroy''] @ fl @ [d]) w in
           jails w' = jails w \<and> set (dsets w') \<subseteq> set (dsets w)
         \<and> (fst r = 0 \<longrightarrow> d \<notin> set (dsets w'))
         \<and> (fl = [''-r''] \<and> d \<in> set (dsets w) \<longrightarrow> fst r = 0)))"

lemma host_collect:
  assumes "gc_host env jails dsets"
  shows "sn_jails (fst (collect env s)) = Some (jails (gs_host s))"
    and "sn_datasets (fst (collect env s)) =
      Some (map (\<lambda>n. \<lparr> de_run_id = py_after_last (CHR ''/'') n, de_dataset = n \<rparr>) (dsets (gs_host s)))"
    and "gs_host (snd (collect env s)) = gs_host s"
proof -
  have j: "list_jail_names (ge_tool env) (gs_host s) = (Some (jails (gs_host s)), gs_host s)"
    using assms parse_jls_output [of "jails (gs_host s)"]
    by (simp add: gc_host_def list_jail_names_def)
  have d: "list_datasets env (gs_host s) =
     (Some (map (\<lambda>n. \<lparr> de_run_id = py_after_last (CHR ''/'') n, de_dataset = n \<rparr>) (dsets (gs_host s))), gs_host s)"
    using assms zfs_entries_words [of "dsets (gs_host s)" "get_zpool env @ ''/runs''"]
    by (simp add: gc_host_def list_datasets_def list_zfs_run_datasets_def)
  show "sn_jails (fst (collect env s)) = Some (jails (gs_host s))"
    and "sn_datasets (fst (collect env s)) =
      Some (map (\<lambda>n. \<lparr> de_run_id = py_after_last (CHR ''/'') n, de_dataset = n \<rparr>) (dsets (gs_host s)))"
    and "gs_host (snd (collect env s)) = gs_host s"
    using j d by (simp_all add: collect_def Let_def split: prod.splits)
qed

lemma host_destroy:
  assumes h: "gc_host env jails dsets" and "destroy_dataset env d w = (r, w')"
  shows "jails w' = jails w" "set (dsets w') \<subseteq> set (dsets w)" "d \<notin> set (dsets w')"
proof -
  have z: "get_backend env = ''zfs''" using h by (simp add: gc_host_def)
  have q: "\<forall>w d fl. fl \<in> {[], [''-r''], [''-f'']} \<longrightarrow>
        (let (r, w') = run_ok (ge_tool env) ([''zfs'', ''destroy''] @ fl @ [d]) w in
           jails w' = jails w \<and> set (dsets w') \<subseteq> set (dsets w)
         \<and> (fst r = 0 \<longrightarrow> d \<notin> set (dsets w'))
         \<and> (fl = [''-r''] \<and> d \<in> set (dsets w) \<longrightarrow> fst r = 0))"
    using h unfolding gc_host_def by (elim conjE) assumption
  have a: "jails w' = jails w \<and> set (dsets w') \<subseteq> set (dsets w) \<and> (fst r = 0 \<longrightarrow> d \<notin> set (dsets w'))
         \<and> (fl = [''-r''] \<and> d \<in> set (dsets w) \<longrightarrow> fst r = 0)"
    if "fl \<in> {[], [''-r''], [''-f'']}" and "run_ok (ge_tool env) ([''zfs'', ''destroy''] @ fl @ [d]) w = (r, w')"
    for fl w r w'
    using q [rule_format, OF that(1), of d w] that(2) by (simp add: Let_def)
  obtain r1 w1 where 1: "run_ok (ge_tool env) [''zfs'', ''destroy'', d] w = (r1, w1)" by (meson surj_pair)
  obtain r2 w2 where 2: "run_ok (ge_tool env) [''zfs'', ''destroy'', ''-r'', d] w1 = (r2, w2)" by (meson surj_pair)
  obtain r3 w3 where 3: "run_ok (ge_tool env) [''zfs'', ''destroy'', ''-f'', d] w2 = (r3, w3)" by (meson surj_pair)
  have b: "jails w1 = jails w \<and> set (dsets w1) \<subseteq> set (dsets w) \<and> (fst r1 = 0 \<longrightarrow> d \<notin> set (dsets w1))"
    "jails w2 = jails w1 \<and> set (dsets w2) \<subseteq> set (dsets w1) \<and> d \<notin> set (dsets w2)"
    "jails w3 = jails w2 \<and> set (dsets w3) \<subseteq> set (dsets w2)"
    using a [of "[]" w r1 w1] a [of "[''-r'']" w1 r2 w2] a [of "[''-f'']" w2 r3 w3] 1 2 3 by auto
  have w': "w' = (if fst r1 = 0 then w1 else if fst r2 = 0 then w2 else w3)"
    using assms(2) 1 2 3 z
    by (auto simp: destroy_dataset_def Let_def split: prod.splits if_splits)
  show "jails w' = jails w" "set (dsets w') \<subseteq> set (dsets w)" "d \<notin> set (dsets w')"
    using b w' by (auto split: if_splits)
qed

text \<open>The effect of a batch of repairs of one kind on the three sources.\<close>

lemma fix_stale_batch:
  assumes "\<forall>x \<in> set xs. or_kind x = ''stale_rundb_row''" and "ledger_healthy env s"
  shows "ledger_rows env (snd (apply_fixes env xs s)) =
      fold (\<lambda>n. update_exit n KILLED None (ge_now env)) (map or_identifier xs) (ledger_rows env s)
    \<and> ledger_healthy env (snd (apply_fixes env xs s)) \<and> gs_host (snd (apply_fixes env xs s)) = gs_host s"
  using assms
proof (induction xs arbitrary: s)
  case Nil
  then show ?case by simp
next
  case (Cons x xs)
  then show ?case
    using ledger_fix_stale [of env s "or_identifier x"] Cons.IH [of "fix_stale_row env (or_identifier x) s"]
    by (simp add: apply_fix_def Let_def split_beta)
qed

lemma fix_jails_batch:
  assumes h: "gc_host env jails dsets"
    and "\<forall>x \<in> set xs. or_kind x = ''orphaned_jail''" and "distinct (map or_identifier xs)"
    and "set (map or_identifier xs) \<subseteq> set (jails (gs_host s))"
  shows "gs_ledger (snd (apply_fixes env xs s)) = gs_ledger s
    \<and> dsets (gs_host (snd (apply_fixes env xs s))) = dsets (gs_host s)
    \<and> set (jails (gs_host (snd (apply_fixes env xs s)))) = set (jails (gs_host s)) - set (map or_identifier xs)"
  using assms(2-)
proof (induction xs arbitrary: s)
  case Nil
  then show ?case by simp
next
  case (Cons x xs)
  have live: "or_identifier x \<in> set (jails (gs_host s))" using Cons.prems by simp
  have jr: "\<forall>w n. n \<in> set (jails w) \<longrightarrow> (\<exists>out err w'. ge_tool env [''jail'', ''-r'', n] w = (Completed 0 out err, w')
        \<and> jails w' = filter (\<lambda>m. m \<noteq> n) (jails w) \<and> dsets w' = dsets w)"
    using h unfolding gc_host_def by (elim conjE) assumption
  obtain out err w' where e: "ge_tool env [''jail'', ''-r'', or_identifier x] (gs_host s) = (Completed 0 out err, w')"
    "jails w' = filter (\<lambda>m. m \<noteq> or_identifier x) (jails (gs_host s))" "dsets w' = dsets (gs_host s)"
    using jr live by blast
  have s1: "snd (apply_fix env x s) = s\<lparr>gs_host := w'\<rparr>"
    using Cons.prems e by (simp add: apply_fix_def run_ok_def Let_def)
  have "set (map or_identifier xs) \<subseteq> set (jails (gs_host (s\<lparr>gs_host := w'\<rparr>)))"
    using Cons.prems e by (auto simp: image_iff)
  then show ?case
    using Cons.IH [of "s\<lparr>gs_host := w'\<rparr>"] Cons.prems s1 e by (auto simp: split_beta)
qed

lemma fix_datasets_batch:
  assumes h: "gc_host env jails dsets" and "\<forall>x \<in> set xs. or_kind x = ''orphaned_dataset''"
  shows "gs_ledger (snd (apply_fixes env xs s)) = gs_ledger s
    \<and> jails (gs_host (snd (apply_fixes env xs s))) = jails (gs_host s)
    \<and> set (dsets (gs_host (snd (apply_fixes env xs s)))) \<subseteq> set (dsets (gs_host s)) - set (map or_identifier xs)"
  using assms(2)
proof (induction xs arbitrary: s)
  case Nil
  then show ?case by simp
next
  case (Cons x xs)
  obtain r w' where e: "destroy_dataset env (or_identifier x) (gs_host s) = (r, w')" by (meson surj_pair)
  have s1: "snd (apply_fix env x s) = s\<lparr>gs_host := w'\<rparr>"
    using Cons.prems e by (simp add: apply_fix_def Let_def split: prod.splits)
  show ?case
    using Cons.IH [of "s\<lparr>gs_host := w'\<rparr>"] Cons.prems s1 host_destroy [OF h e] by (auto simp: split_beta)
qed

text \<open>The three sources, abstractly: live jails, recorded statuses, datasets.  One \<^verbatim>\<open>gc --fix\<close>
  acts on them like this.\<close>

definition stale_names :: "string set \<Rightarrow> (string \<Rightarrow> string option) \<Rightarrow> string set" where
  "stale_names J R = {n. R n = Some RUNNING \<and> n \<notin> J}"

definition orphan_jail_names :: "string set \<Rightarrow> (string \<Rightarrow> string option) \<Rightarrow> string set" where
  "orphan_jail_names J R = {n \<in> J. py_startswith n JAILRUN_PREFIX \<and> R n \<noteq> Some RUNNING}"

definition orphan_dataset_names ::
  "string set \<Rightarrow> (string \<Rightarrow> string option) \<Rightarrow> string set \<Rightarrow> string set" where
  "orphan_dataset_names J R D =
     {d \<in> D. JAILRUN_PREFIX @ py_after_last (CHR ''/'') d \<notin> J
           \<and> R (JAILRUN_PREFIX @ py_after_last (CHR ''/'') d) \<noteq> Some RUNNING}"

definition gc_view ::
  "'w gc_env \<Rightarrow> ('w \<Rightarrow> string list) \<Rightarrow> ('w \<Rightarrow> string list) \<Rightarrow> 'w gc_state
   \<Rightarrow> string set \<times> (string \<Rightarrow> string option) \<times> string set" where
  "gc_view env jails dsets s =
     (set (jails (gs_host s)), row_status (ledger_rows env s), set (dsets (gs_host s)))"

text \<open>What the collector computes on a healthy host and ledger.\<close>

definition gc_orphans :: "'w gc_env \<Rightarrow> 'w gc_state \<Rightarrow> orphan list" where
  "gc_orphans env s = gr_orphans (fst (run_gc env False s))"

lemma gc_orphans_split:
  assumes h: "gc_host env jails dsets" and l: "ledger_healthy env s"
  shows "gc_orphans env s =
      stale_rows (jails (gs_host s)) (newest_first (ledger_rows env s)) @
      orphaned_jails (jails (gs_host s)) (newest_first (ledger_rows env s)) @
      map orphaned_dataset (filter (dataset_is_orphan (jails (gs_host s)) (newest_first (ledger_rows env s)))
         (map (\<lambda>n. \<lparr> de_run_id = py_after_last (CHR ''/'') n, de_dataset = n \<rparr>) (dsets (gs_host s))))"
  using host_collect [OF h, of s] collect_ledger(1) [OF l]
  by (simp add: gc_orphans_def run_gc_def reconcile_def split_beta Let_def)

lemma run_gc_fix:
  "gr_orphans (fst (run_gc env True s)) = gc_orphans env s"
  "snd (run_gc env True s) = snd (apply_fixes env (gc_orphans env s) (snd (collect env s)))"
  by (simp_all add: gc_orphans_def run_gc_def split_beta Let_def)

lemma row_status_newest: "rows_ok rows \<Longrightarrow> row_status (newest_first rows) = row_status rows"
  by (simp add: row_status_def fun_eq_iff lookup_perm(1) [of rows "newest_first rows"])

lemma rows_ok_newest: "rows_ok rows \<Longrightarrow> rows_ok (newest_first rows)"
  by (rule lookup_perm(2)) auto

lemma or_identifier_tag: "or_identifier x = snd (tag_of x)" and or_kind_tag: "or_kind x = fst (tag_of x)"
  by (simp_all add: tag_of_def)

lemma orphan_parts:
  assumes ok: "rows_ok rows"
  shows "set (map or_identifier (stale_rows js (newest_first rows))) = stale_names (set js) (row_status rows)"
    and "\<forall>x \<in> set (stale_rows js (newest_first rows)). or_kind x = ''stale_rundb_row''"
    and "map or_identifier (orphaned_jails js (newest_first rows)) =
      filter (\<lambda>n. n \<in> orphan_jail_names (set js) (row_status rows)) js"
    and "\<forall>x \<in> set (orphaned_jails js (newest_first rows)). or_kind x = ''orphaned_jail''"
    and "set (map or_identifier (map orphaned_dataset (filter (dataset_is_orphan js (newest_first rows))
         (map (\<lambda>n. \<lparr> de_run_id = py_after_last (CHR ''/'') n, de_dataset = n \<rparr>) ds)))) =
      orphan_dataset_names (set js) (row_status rows) (set ds)"
proof -
  have ok': "rows_ok (newest_first rows)" using ok by (rule rows_ok_newest)
  show "set (map or_identifier (stale_rows js (newest_first rows))) = stale_names (set js) (row_status rows)"
    using stale_rows_ids [OF ok', of js] by (simp add: stale_names_def row_status_newest [OF ok])
  show "\<forall>x \<in> set (stale_rows js (newest_first rows)). or_kind x = ''stale_rundb_row''"
    by (simp add: stale_rows_def)
  have t: "map tag_of (orphaned_jails js (newest_first rows)) =
    map (\<lambda>n. (''orphaned_jail'', n)) (filter (\<lambda>n. py_startswith n JAILRUN_PREFIX \<and> row_status rows n \<noteq> Some RUNNING) js)"
    using orphaned_jails_tags [OF ok', of js] by (simp add: row_status_newest [OF ok])
  show "map or_identifier (orphaned_jails js (newest_first rows)) =
      filter (\<lambda>n. n \<in> orphan_jail_names (set js) (row_status rows)) js"
  proof -
    have "map or_identifier (orphaned_jails js (newest_first rows)) =
        map snd (map tag_of (orphaned_jails js (newest_first rows)))" by (simp add: tag_of_def)
    also have "\<dots> = filter (\<lambda>n. n \<in> orphan_jail_names (set js) (row_status rows)) js"
      unfolding t by (simp add: comp_def orphan_jail_names_def cong: filter_cong)
    finally show ?thesis .
  qed
  show "\<forall>x \<in> set (orphaned_jails js (newest_first rows)). or_kind x = ''orphaned_jail''"
  proof
    fix x assume "x \<in> set (orphaned_jails js (newest_first rows))"
    then have "tag_of x \<in> set (map tag_of (orphaned_jails js (newest_first rows)))" by simp
    then show "or_kind x = ''orphaned_jail''" unfolding t by (auto simp: or_kind_tag)
  qed
  show "set (map or_identifier (map orphaned_dataset (filter (dataset_is_orphan js (newest_first rows))
         (map (\<lambda>n. \<lparr> de_run_id = py_after_last (CHR ''/'') n, de_dataset = n \<rparr>) ds)))) =
      orphan_dataset_names (set js) (row_status rows) (set ds)"
    by (simp add: orphan_dataset_names_def filter_map image_image comp_def orphaned_dataset_def
        dataset_is_orphan_iff [OF ok'] row_status_newest [OF ok])
qed

lemma gc_pass:
  assumes h: "gc_host env jails dsets" and l: "ledger_healthy env s"
    and v: "gc_view env jails dsets s = (J, R, D)"
  shows "\<exists>D'. D' \<subseteq> D - orphan_dataset_names J R D \<and>
      gc_view env jails dsets (snd (run_gc env True s)) =
        (J - orphan_jail_names J R, (\<lambda>n. if n \<in> stale_names J R then Some KILLED else R n), D')"
    and "ledger_healthy env (snd (run_gc env True s))"
    and "gc_orphans env s = [] \<longleftrightarrow>
      stale_names J R = {} \<and> orphan_jail_names J R = {} \<and> orphan_dataset_names J R D = {}"
proof -
  let ?rows = "newest_first (ledger_rows env s)"
  let ?js = "jails (gs_host s)"
  let ?st = "stale_rows ?js ?rows"
  let ?oj = "orphaned_jails ?js ?rows"
  let ?od = "map orphaned_dataset (filter (dataset_is_orphan ?js ?rows)
         (map (\<lambda>n. \<lparr> de_run_id = py_after_last (CHR ''/'') n, de_dataset = n \<rparr>) (dsets (gs_host s))))"
  have ok: "rows_ok (ledger_rows env s)" using l by (simp add: ledger_healthy_def)
  have JRD: "J = set ?js" "R = row_status (ledger_rows env s)" "D = set (dsets (gs_host s))"
    using v by (auto simp: gc_view_def)
  note parts = orphan_parts [OF ok, of ?js, folded JRD]
  define s1 where "s1 = snd (collect env s)"
  have 1: "gs_host s1 = gs_host s" "ledger_rows env s1 = ledger_rows env s" "ledger_healthy env s1"
    using host_collect [OF h] collect_ledger [OF l] by (simp_all add: s1_def)
  define s2 where "s2 = snd (apply_fixes env ?st s1)"
  have 2: "ledger_rows env s2 = fold (\<lambda>n. update_exit n KILLED None (ge_now env)) (map or_identifier ?st) (ledger_rows env s)"
    "ledger_healthy env s2" "gs_host s2 = gs_host s"
    using fix_stale_batch [OF parts(2) 1(3)] 1 by (simp_all add: s2_def)
  define s3 where "s3 = snd (apply_fixes env ?oj s2)"
  have 3: "gs_ledger s3 = gs_ledger s2" "dsets (gs_host s3) = dsets (gs_host s)"
    "set (jails (gs_host s3)) = J - orphan_jail_names J R"
  proof -
    have d: "distinct (jails (gs_host s))" using h by (simp add: gc_host_def)
    have "set (map or_identifier ?oj) = orphan_jail_names J R"
      unfolding parts(3) by (auto simp: JRD orphan_jail_names_def)
    moreover have "distinct (map or_identifier ?oj)" unfolding parts(3) using d by simp
    ultimately show "gs_ledger s3 = gs_ledger s2" "dsets (gs_host s3) = dsets (gs_host s)"
      "set (jails (gs_host s3)) = J - orphan_jail_names J R"
      using fix_jails_batch [OF h parts(4), of s2] 2(3)
      by (auto simp: s3_def JRD orphan_jail_names_def)
  qed
  define s4 where "s4 = snd (apply_fixes env ?od s3)"
  have 4: "gs_ledger s4 = gs_ledger s3" "jails (gs_host s4) = jails (gs_host s3)"
    "set (dsets (gs_host s4)) \<subseteq> D - orphan_dataset_names J R D"
    using fix_datasets_batch [OF h, of ?od s3] parts(5) [of "dsets (gs_host s)"] 3(2)
    by (simp_all add: s4_def JRD orphaned_dataset_def)
  have e: "snd (run_gc env True s) = s4"
    unfolding run_gc_fix gc_orphans_split [OF h l] s4_def s3_def s2_def s1_def
    by (simp add: apply_fixes_append split_beta Let_def)
  have R4: "row_status (ledger_rows env s4) = (\<lambda>n. if n \<in> stale_names J R then Some KILLED else R n)"
  proof -
    have "ledger_rows env s4 = ledger_rows env s2" using 3(1) 4(1) by (simp add: ledger_rows_def)
    then have "row_status (ledger_rows env s4) n =
        (if n \<in> set (map or_identifier ?st) then map_option (\<lambda>_. KILLED) (R n) else R n)" for n
      unfolding 2(1) JRD by (simp only: ledger.status_closed_all)
    then have "row_status (ledger_rows env s4) n =
        (if n \<in> stale_names J R then map_option (\<lambda>_. KILLED) (R n) else R n)" for n
      unfolding parts(1) .
    moreover have "\<exists>y. R n = Some y" if "n \<in> stale_names J R" for n
      using that by (auto simp: stale_names_def)
    ultimately show ?thesis by fastforce
  qed
  show "\<exists>D'. D' \<subseteq> D - orphan_dataset_names J R D \<and>
      gc_view env jails dsets (snd (run_gc env True s)) =
        (J - orphan_jail_names J R, (\<lambda>n. if n \<in> stale_names J R then Some KILLED else R n), D')"
    using 4 3(3) R4 by (simp add: e gc_view_def)
  show "ledger_healthy env (snd (run_gc env True s))"
    using 2(2) 3(1) 4(1) by (simp add: e ledger_healthy_def ledger_rows_def)
  have m: "xs = [] \<longleftrightarrow> set (map or_identifier xs) = {}" for xs :: "orphan list" by auto
  show "gc_orphans env s = [] \<longleftrightarrow>
      stale_names J R = {} \<and> orphan_jail_names J R = {} \<and> orphan_dataset_names J R D = {}"
    unfolding gc_orphans_split [OF h l] append_is_Nil_conv m [of ?st] m [of ?oj] m [of ?od]
      parts(1) parts(3) parts(5) JRD by (auto simp: orphan_jail_names_def)
qed

text \<open>C4: Repair converges.  On a host whose tools work as documented and a healthy ledger, two
  rounds of \<^verbatim>\<open>gc --fix\<close> leave nothing to collect: a third, dry run reports no orphan and exits
  with status 0.  (One round need not do: the dataset of a jail or of a running row that the
  round itself retires was still protected when the round looked.)\<close>

theorem gc_two_rounds_clean:
  assumes h: "gc_host env jails dsets" and l: "ledger_healthy env s"
  defines "s2 \<equiv> snd (run_gc env True (snd (run_gc env True s)))"
  shows "gr_orphans (fst (run_gc env False s2)) = []
    \<and> gc_exit_code (gr_orphans (fst (run_gc env False s2))) (gr_fixes (fst (run_gc env False s2))) = 0"
proof -
  obtain J R D where v: "gc_view env jails dsets s = (J, R, D)" by (metis prod_cases3)
  define s1 where "s1 = snd (run_gc env True s)"
  define J1 where "J1 = J - orphan_jail_names J R"
  define R1 where "R1 = (\<lambda>n. if n \<in> stale_names J R then Some KILLED else R n)"
  obtain D1 where v1: "gc_view env jails dsets s1 = (J1, R1, D1)" and l1: "ledger_healthy env s1"
    using gc_pass(1,2) [OF h l v] by (auto simp: s1_def J1_def R1_def)
  have st: "stale_names J1 R1 = {}"
    by (auto simp: stale_names_def J1_def R1_def orphan_jail_names_def status_defs)
  have oj: "orphan_jail_names J1 R1 = {}"
    by (auto simp: orphan_jail_names_def J1_def R1_def stale_names_def)
  obtain D2 where d2: "D2 \<subseteq> D1 - orphan_dataset_names J1 R1 D1"
    and v2: "gc_view env jails dsets s2 = (J1, R1, D2)" and l2: "ledger_healthy env s2"
    using gc_pass(1,2) [OF h l1 v1] st oj by (auto simp: s2_def s1_def)
  have od: "orphan_dataset_names J1 R1 D2 = {}"
    using d2 by (auto simp: orphan_dataset_names_def)
  have "gc_orphans env s2 = []" using gc_pass(3) [OF h l2 v2] st oj od by simp
  then show ?thesis
    by (simp add: gc_orphans_def run_gc_def gc_exit_code_def split_beta Let_def)
qed

text \<open>A concrete host: a list of jails and a list of datasets, read through a filter that makes
  every state of the type a sane one.\<close>

definition sane_names :: "string list \<Rightarrow> string list" where
  "sane_names ns = remdups (filter (\<lambda>n. word_ok n \<and> n \<noteq> ''jailrun/runs'') ns)"

definition list_host :: "(string list \<times> string list) tool" where
  "list_host argv w =
     (if argv = [''jls'', ''-n'', ''name''] then (Completed 0 (jls_output (sane_names (fst w))) [], w)
      else if argv = [''zfs'', ''list'', ''-H'', ''-o'', ''name'', ''-r'', ''jailrun/runs'']
      then (Completed 0 (py_join [NL] (''jailrun/runs'' # sane_names (snd w))) [], w)
      else if take 2 argv = [''jail'', ''-r''] then
        (Completed 0 [] [], (filter (\<lambda>m. m \<noteq> last argv) (fst w), snd w))
      else if take 2 argv = [''zfs'', ''destroy''] then
        (Completed 0 [] [], (fst w, filter (\<lambda>m. m \<noteq> last argv) (snd w)))
      else (Spawn_error ''not found'', w))"

definition list_env :: "(string list \<times> string list) gc_env" where
  "list_env = \<lparr> ge_backend = None, ge_zpool = None, ge_mountpoint_base = None, ge_db_path = None,
     ge_faults = no_faults, ge_now = ''t'', ge_tool = list_host,
     ge_listdir = (\<lambda>_ _. Dir_missing), ge_rmtree = (\<lambda>_ w. (None, w)) \<rparr>"

definition list_state :: "(string list \<times> string list) gc_state" where
  "list_state = \<lparr> gs_host = ([''jailrun-a'', ''www''], [''jailrun/runs/a'', ''jailrun/runs/b'']),
     gs_ledger = \<lparr> df_table = Some [start_row ''jailrun-b'' ''nginx'' '''' ''jailrun/runs/b'' None ''t''],
                   df_has_log_path = True \<rparr> \<rparr>"

lemma list_env_backend: "get_backend list_env = ''zfs''" "get_zpool list_env = ''jailrun''"
  by (simp_all add: get_backend_def get_zpool_def list_env_def getenv_or_def py_strip_def py_lstrip_def
      py_rstrip_def py_lower_def lower_char_def is_ws_def Let_def)

lemma sane_filter: "sane_names (filter P ns) = filter P (sane_names ns)"
proof -
  have r: "remdups (filter Q xs) = filter Q (remdups xs)" for Q and xs :: "string list"
    by (induction xs) auto
  show ?thesis by (simp add: sane_names_def r conj_ac)
qed

lemma sane_ok: "distinct (sane_names ns)" "n \<in> set (sane_names ns) \<Longrightarrow> word_ok n \<and> n \<noteq> ''jailrun/runs''"
  by (auto simp: sane_names_def)

lemma runs_word: "word_ok (''jailrun'' @ ''/runs'')"
  by (simp add: word_ok_def is_ws_def)

lemma list_env_host: "gc_host list_env (\<lambda>w. sane_names (fst w)) (\<lambda>w. sane_names (snd w))"
  unfolding gc_host_def list_env_backend
  using runs_word sane_ok by (auto simp: list_env_def list_host_def sane_filter run_ok_def)

lemma list_state_healthy: "ledger_healthy list_env list_state"
  by (simp add: ledger_healthy_def list_env_def list_state_def ledger_rows_def visible_reopened
      rundb_init_def DEFAULT_DB_PATH_def rows_ok_def start_row_def status_check_def)

lemma gc_two_rounds_clean_witness:
  "gr_orphans (fst (run_gc list_env False
     (snd (run_gc list_env True (snd (run_gc list_env True list_state)))))) = []"
  using gc_two_rounds_clean [OF list_env_host list_state_healthy] by blast

definition logged_env :: "(unit \<times> string list list) gc_env" where
  "logged_env = \<lparr> ge_backend = None, ge_zpool = None, ge_mountpoint_base = None, ge_db_path = None,
     ge_faults = no_faults, ge_now = ''t'',
     ge_tool = fixed_answers (\<lambda>argv. Completed (if argv ! 1 = ''destroy'' \<and> argv ! 2 \<noteq> ''-r'' then 1 else 0) [] []),
     ge_listdir = (\<lambda>_ _. Dir_missing), ge_rmtree = (\<lambda>_ w. (None, w)) \<rparr>"

lemma logged_env_ok:
  "ge_tool logged_env = fixed_answers (\<lambda>argv. Completed (if argv ! 1 = ''destroy'' \<and> argv ! 2 \<noteq> ''-r'' then 1 else 0) [] [])"
  "get_backend logged_env = ''zfs''"
  using list_env_backend(1) by (simp_all add: logged_env_def list_env_def get_backend_def)

lemma apply_fixes_complete_and_confined_witness:
  "snd (gs_host (snd (apply_fixes logged_env
     [orphaned_jail ''jailrun-a'' '''', orphaned_dataset \<lparr>de_run_id = ''b'', de_dataset = ''jailrun/runs/b''\<rparr>]
     \<lparr>gs_host = ((), []), gs_ledger = \<lparr>df_table = None, df_has_log_path = False\<rparr>\<rparr>)))
   = [[''jail'', ''-r'', ''jailrun-a''], [''zfs'', ''destroy'', ''jailrun/runs/b''],
      [''zfs'', ''destroy'', ''-r'', ''jailrun/runs/b'']]"
  using apply_fixes_complete_and_confined [OF logged_env_ok]
  by (simp add: repair_commands_def orphaned_jail_def orphaned_dataset_def answers_ok_def del: apply_fixes.simps)

end
