(* ===== verification/FileSys.thy ===== *)
theory FileSys
  imports Prelude "HOL-Library.AList"
begin

text \<open>
  The part of the host's file system that the store works on: a tree of real paths, the path
  resolution of the kernel (\<^verbatim>\<open>strict\<close>, every intermediate component must be a directory) and of
  \<^verbatim>\<open>Path.resolve()\<close> (not strict), and the \<^verbatim>\<open>os\<close>, \<^verbatim>\<open>pathlib\<close> and \<^verbatim>\<open>shutil\<close> calls of
  \<^verbatim>\<open>store/store.py\<close>.  A symbolic link is followed at most \<^verbatim>\<open>lim\<close> times in one resolution; a
  resolution that needs more is the loop that Python and the kernel report as an error.  The
  model has no hard links and no permissions: the store runs as root and copies file contents.
\<close>

section \<open>Paths and nodes\<close>

text \<open>A special file (FIFO, socket, device) carries the mode string \<^verbatim>\<open>stat.filemode\<close> gives for it.
  A path is the list of its components below the root directory.  \<^verbatim>\<open>pathlib\<close> drops empty
  and \<^verbatim>\<open>.\<close> components when it parses and keeps \<^verbatim>\<open>..\<close>.\<close>

type_synonym path = "string list"

definition DOTDOT :: string where "DOTDOT = ''..''"

definition components :: "string \<Rightarrow> path" where
  "components s = filter (\<lambda>c. c \<noteq> [] \<and> c \<noteq> ''.'') (py_split (CHR ''/'') s)"

definition is_absolute :: "string \<Rightarrow> bool" where
  "is_absolute s \<longleftrightarrow> prefix ''/'' s"

datatype node = Reg string | Dir | Symlink string | Special string

text \<open>The tree: the nodes by their real path (no links and no \<^verbatim>\<open>..\<close> in a key), in directory
  order.\<close>

type_synonym fs = "(path \<times> node) list"

definition look :: "fs \<Rightarrow> path \<Rightarrow> node option" where
  "look fs p = (if p = [] then Some Dir else map_of fs p)"

definition put :: "path \<Rightarrow> node \<Rightarrow> fs \<Rightarrow> fs" where
  "put p n fs = AList.update p n fs"

definition drop_node :: "path \<Rightarrow> fs \<Rightarrow> fs" where
  "drop_node p fs = AList.delete p fs"

definition drop_tree :: "path \<Rightarrow> fs \<Rightarrow> fs" where
  "drop_tree p fs = filter (\<lambda>(q, _). \<not> prefix p q) fs"

text \<open>\<^verbatim>\<open>Path.iterdir()\<close>: the entries of a directory, without \<^verbatim>\<open>.\<close> and \<^verbatim>\<open>..\<close>.\<close>

definition child_names :: "fs \<Rightarrow> path \<Rightarrow> string list" where
  "child_names fs p =
     map (last \<circ> fst) (filter (\<lambda>(q, _). q \<noteq> [] \<and> butlast q = p \<and> last q \<noteq> ''.'' \<and> last q \<noteq> DOTDOT) fs)"

lemma map_of_filter_fst:
  "map_of (filter (\<lambda>(q, _). P q) al) p = (if P p then map_of al p else None)"
  by (induction al) auto

lemma look_Nil [simp]: "look fs [] = Some Dir"
  by (simp add: look_def)

lemma look_put [simp]: "look (put p n fs) q = (if q = p \<and> p \<noteq> [] then Some n else look fs q)"
  by (simp add: look_def put_def update_conv')

lemma look_drop_node [simp]: "look (drop_node p fs) q = (if q = p \<and> p \<noteq> [] then None else look fs q)"
  by (simp add: look_def drop_node_def delete_conv')

lemma look_drop_tree [simp]: "look (drop_tree p fs) q = (if prefix p q \<and> q \<noteq> [] then None else look fs q)"
  by (simp add: look_def drop_tree_def map_of_filter_fst)

section \<open>Resolution\<close>

text \<open>\<^verbatim>\<open>resolve_from strict lim fs cur rest\<close>: follow the components \<^verbatim>\<open>rest\<close> from the real
  directory \<^verbatim>\<open>cur\<close>.  A link is replaced by its target, read from the root or from the
  directory the link is in.\<close>

function resolve_from :: "bool \<Rightarrow> nat \<Rightarrow> fs \<Rightarrow> path \<Rightarrow> path \<Rightarrow> path option" where
  "resolve_from strict lim fs cur [] = Some cur"
| "resolve_from strict lim fs cur (c # cs) =
     (if c = DOTDOT then resolve_from strict lim fs (butlast cur) cs
      else (case look fs (cur @ [c]) of
          Some (Symlink t) \<Rightarrow>
            (case lim of 0 \<Rightarrow> None
             | Suc k \<Rightarrow> resolve_from strict k fs (if is_absolute t then [] else cur) (components t @ cs))
        | found \<Rightarrow>
            if strict \<and> cs \<noteq> [] \<and> found \<noteq> Some Dir then None
            else resolve_from strict lim fs (cur @ [c]) cs))"
  by pat_completeness auto
termination
  by (relation "measures [\<lambda>(_, lim, _, _, _). lim, \<lambda>(_, _, _, _, rest). length rest]") auto

text \<open>\<^verbatim>\<open>Path.resolve()\<close>, and the place an operation that follows links works on.\<close>

definition resolve :: "nat \<Rightarrow> fs \<Rightarrow> path \<Rightarrow> path option" where
  "resolve lim fs p = resolve_from False lim fs [] p"

definition follow :: "nat \<Rightarrow> fs \<Rightarrow> path \<Rightarrow> path option" where
  "follow lim fs p = resolve_from True lim fs [] p"

text \<open>The place of an operation that does not follow a link in the last component
  (\<^verbatim>\<open>lstat\<close>, \<^verbatim>\<open>unlink\<close>, \<^verbatim>\<open>mkdir\<close>, \<^verbatim>\<open>symlink\<close>): the directory of the path must exist.\<close>

definition locate :: "nat \<Rightarrow> fs \<Rightarrow> path \<Rightarrow> path option" where
  "locate lim fs p =
     (if p = [] then Some []
      else if last p = DOTDOT then follow lim fs p
      else (case follow lim fs (butlast p) of
          None \<Rightarrow> None
        | Some d \<Rightarrow> if look fs d = Some Dir then Some (d @ [last p]) else None))"

definition stat :: "nat \<Rightarrow> fs \<Rightarrow> path \<Rightarrow> node option" where
  "stat lim fs p = (case follow lim fs p of None \<Rightarrow> None | Some q \<Rightarrow> look fs q)"

definition lstat :: "nat \<Rightarrow> fs \<Rightarrow> path \<Rightarrow> node option" where
  "lstat lim fs p = (case locate lim fs p of None \<Rightarrow> None | Some q \<Rightarrow> look fs q)"

definition path_exists :: "nat \<Rightarrow> fs \<Rightarrow> path \<Rightarrow> bool" where
  "path_exists lim fs p \<longleftrightarrow> stat lim fs p \<noteq> None"

definition path_is_symlink :: "nat \<Rightarrow> fs \<Rightarrow> path \<Rightarrow> bool" where
  "path_is_symlink lim fs p \<longleftrightarrow> (case lstat lim fs p of Some (Symlink _) \<Rightarrow> True | _ \<Rightarrow> False)"

definition path_is_dir :: "nat \<Rightarrow> fs \<Rightarrow> path \<Rightarrow> bool" where
  "path_is_dir lim fs p \<longleftrightarrow> stat lim fs p = Some Dir"

definition path_is_file :: "nat \<Rightarrow> fs \<Rightarrow> path \<Rightarrow> bool" where
  "path_is_file lim fs p \<longleftrightarrow> (case stat lim fs p of Some (Reg _) \<Rightarrow> True | _ \<Rightarrow> False)"

section \<open>Calls that change the tree\<close>

text \<open>The exceptions, and a result: the exception raised if any, with the tree as it is left.\<close>

datatype fs_error = Store_error string | Os_error string

type_synonym fs_result = "fs_error option \<times> fs"

definition fs_unlink :: "nat \<Rightarrow> path \<Rightarrow> fs \<Rightarrow> fs_result" where
  "fs_unlink lim p fs =
     (case locate lim fs p of
        None \<Rightarrow> (Some (Os_error ''ENOENT''), fs)
      | Some q \<Rightarrow>
          (case look fs q of
             None \<Rightarrow> (Some (Os_error ''ENOENT''), fs)
           | Some Dir \<Rightarrow> (Some (Os_error ''EISDIR''), fs)
           | Some _ \<Rightarrow> (None, drop_node q fs)))"

definition fs_symlink :: "nat \<Rightarrow> string \<Rightarrow> path \<Rightarrow> fs \<Rightarrow> fs_result" where
  "fs_symlink lim t p fs =
     (case locate lim fs p of
        None \<Rightarrow> (Some (Os_error ''ENOENT''), fs)
      | Some q \<Rightarrow> if look fs q \<noteq> None then (Some (Os_error ''EEXIST''), fs)
                  else (None, put q (Symlink t) fs))"

text \<open>\<^verbatim>\<open>Path.mkdir(exist_ok=True)\<close>: an existing path is accepted if it is, links followed, a
  directory.\<close>

definition fs_mkdir :: "nat \<Rightarrow> path \<Rightarrow> fs \<Rightarrow> fs_result" where
  "fs_mkdir lim p fs =
     (case locate lim fs p of
        None \<Rightarrow> (Some (Os_error ''ENOENT''), fs)
      | Some q \<Rightarrow> if look fs q \<noteq> None
                  then (if path_is_dir lim fs p then (None, fs) else (Some (Os_error ''EEXIST''), fs))
                  else (None, put q Dir fs))"

text \<open>\<^verbatim>\<open>open(p, "wb")\<close> and the write of the whole content: links in the last component are
  followed, a missing file is created where the path leads.\<close>

definition fs_write :: "nat \<Rightarrow> string \<Rightarrow> path \<Rightarrow> fs \<Rightarrow> fs_result" where
  "fs_write lim content p fs =
     (case follow lim fs p of
        None \<Rightarrow> (Some (Os_error ''ENOENT''), fs)
      | Some q \<Rightarrow>
          (case look fs q of
             Some Dir \<Rightarrow> (Some (Os_error ''EISDIR''), fs)
           | Some (Special _) \<Rightarrow> (Some (Os_error ''special file''), fs)
           | Some _ \<Rightarrow> (None, put q (Reg content) fs)
           | None \<Rightarrow> if q \<noteq> [] \<and> look fs (butlast q) = Some Dir
                     then (None, put q (Reg content) fs)
                     else (Some (Os_error ''ENOENT''), fs)))"

text \<open>\<^verbatim>\<open>shutil.copy2(src, dst)\<close>: a destination that is a directory means a file of the source's
  name inside it.\<close>

definition fs_copy2 :: "nat \<Rightarrow> string \<Rightarrow> string \<Rightarrow> path \<Rightarrow> fs \<Rightarrow> fs_result" where
  "fs_copy2 lim content name p fs =
     fs_write lim content (if path_is_dir lim fs p then p @ [name] else p) fs"

text \<open>\<^verbatim>\<open>_rm_rf\<close>.  \<^verbatim>\<open>shutil.rmtree\<close> of a path that ends in \<^verbatim>\<open>..\<close> empties the directory it
  leads to and then fails in its final \<^verbatim>\<open>rmdir\<close>, whose path went away with the content.\<close>

definition fs_rmtree :: "nat \<Rightarrow> path \<Rightarrow> fs \<Rightarrow> fs_result" where
  "fs_rmtree lim p fs =
     (case locate lim fs p of
        None \<Rightarrow> (Some (Os_error ''ENOENT''), fs)
      | Some q \<Rightarrow>
          if p \<noteq> [] \<and> last p = DOTDOT
          then (Some (Os_error ''ENOENT''), filter (\<lambda>(r, _). \<not> strict_prefix q r) fs)
          else (None, drop_tree q fs))"

definition rm_rf :: "nat \<Rightarrow> path \<Rightarrow> fs \<Rightarrow> fs_result" where
  "rm_rf lim p fs =
     (if path_is_symlink lim fs p \<or> path_is_file lim fs p then fs_unlink lim p fs
      else if path_is_dir lim fs p then fs_rmtree lim p fs
      else (None, fs))"

section \<open>Facts about resolution\<close>

text \<open>One step, by what the next component is; and the induction that goes with it.\<close>

lemma resolve_from_up [simp]: "resolve_from s lim fs cur (DOTDOT # cs) = resolve_from s lim fs (butlast cur) cs"
  by simp

lemma resolve_from_link:
  "c \<noteq> DOTDOT \<Longrightarrow> look fs (cur @ [c]) = Some (Symlink t) \<Longrightarrow>
   resolve_from s lim fs cur (c # cs) = (case lim of 0 \<Rightarrow> None
     | Suc k \<Rightarrow> resolve_from s k fs (if is_absolute t then [] else cur) (components t @ cs))"
  by simp

lemma resolve_from_other:
  "c \<noteq> DOTDOT \<Longrightarrow> \<forall>t. look fs (cur @ [c]) \<noteq> Some (Symlink t) \<Longrightarrow>
   resolve_from s lim fs cur (c # cs) =
     (if s \<and> cs \<noteq> [] \<and> look fs (cur @ [c]) \<noteq> Some Dir then None
      else resolve_from s lim fs (cur @ [c]) cs)"
  by (auto split: option.splits node.splits)

declare resolve_from.simps(2) [simp del]

lemma resolve_induct [case_names Nil Up Stuck Link Step]:
  assumes nil: "\<And>lim cur. P lim cur []"
    and up: "\<And>lim cur cs. P lim (butlast cur) cs \<Longrightarrow> P lim cur (DOTDOT # cs)"
    and stuck: "\<And>cur c cs t. c \<noteq> DOTDOT \<Longrightarrow> look fs (cur @ [c]) = Some (Symlink t) \<Longrightarrow> P 0 cur (c # cs)"
    and link: "\<And>lim cur c cs t. c \<noteq> DOTDOT \<Longrightarrow> look fs (cur @ [c]) = Some (Symlink t) \<Longrightarrow>
        P lim (if is_absolute t then [] else cur) (components t @ cs) \<Longrightarrow> P (Suc lim) cur (c # cs)"
    and other: "\<And>lim cur c cs. c \<noteq> DOTDOT \<Longrightarrow> \<forall>t. look fs (cur @ [c]) \<noteq> Some (Symlink t) \<Longrightarrow>
        P lim (cur @ [c]) cs \<Longrightarrow> P lim cur (c # cs)"
  shows "P lim cur rest"
proof (induction lim arbitrary: cur rest)
  case (0 cur rest)
  show ?case
  proof (induction rest arbitrary: cur)
    case Nil
    then show ?case by (rule nil)
  next
    case (Cons c cs)
    then show ?case using up stuck other by (metis (full_types))
  qed
next
  case (Suc lim cur rest)
  note IH = Suc
  show ?case
  proof (induction rest arbitrary: cur)
    case Nil
    then show ?case by (rule nil)
  next
    case (Cons c cs)
    then show ?case using up link other IH by (metis (full_types))
  qed
qed

text \<open>The kernel and \<^verbatim>\<open>Path.resolve()\<close> agree wherever the kernel gets through, and a longer
  allowance of links changes no answer.\<close>

lemma strict_imp_resolve:
  "resolve_from True lim fs cur p = Some q \<Longrightarrow> resolve_from False lim fs cur p = Some q"
  by (induction lim cur p rule: resolve_induct [of _ fs])
    (auto simp: resolve_from_link resolve_from_other split: if_splits)

lemma resolve_from_more_links:
  "resolve_from s lim fs cur p = Some q \<Longrightarrow> lim \<le> lim' \<Longrightarrow> resolve_from s lim' fs cur p = Some q"
proof (induction lim cur p arbitrary: lim' rule: resolve_induct [of _ fs])
  case (Link lim cur c cs t)
  then show ?case by (cases lim') (auto simp: resolve_from_link)
qed (auto simp: resolve_from_link resolve_from_other split: if_splits)

text \<open>Directories all the way down to \<^verbatim>\<open>root\<close>: what a resolved root is.\<close>

definition real_dir :: "fs \<Rightarrow> path \<Rightarrow> bool" where
  "real_dir fs root \<longleftrightarrow> DOTDOT \<notin> set root \<and> (\<forall>p. prefix p root \<longrightarrow> look fs p = Some Dir)"

lemma resolve_from_dirs:
  "DOTDOT \<notin> set p \<Longrightarrow> (\<forall>r. prefix r p \<longrightarrow> look fs (cur @ r) = Some Dir) \<Longrightarrow>
   resolve_from s lim fs cur (p @ rest) = resolve_from s lim fs (cur @ p) rest"
proof (induction p arbitrary: cur)
  case Nil
  then show ?case by simp
next
  case (Cons c cs)
  have "look fs (cur @ [c]) = Some Dir" using Cons.prems(2) by (metis append_Cons append_Nil prefixI)
  moreover have "\<forall>r. prefix r cs \<longrightarrow> look fs ((cur @ [c]) @ r) = Some Dir"
    using Cons.prems(2) by (metis Cons_prefix_Cons append.assoc append_Cons append_Nil)
  ultimately show ?case
    using Cons.prems(1) Cons.IH [of "cur @ [c]"] by (auto simp: resolve_from_other)
qed

lemma resolve_from_root:
  "real_dir fs root \<Longrightarrow> resolve_from s lim fs [] (root @ p) = resolve_from s lim fs root p"
  using resolve_from_dirs [of root fs "[]"] by (simp add: real_dir_def)

lemma resolve_root [simp]: "real_dir fs root \<Longrightarrow> resolve lim fs root = Some root"
  using resolve_from_root [of fs root False lim "[]"] by (simp add: resolve_def)

lemma follow_root [simp]: "real_dir fs root \<Longrightarrow> follow lim fs root = Some root"
  using resolve_from_root [of fs root True lim "[]"] by (simp add: follow_def)

lemma follow_resolve: "follow lim fs p = Some q \<Longrightarrow> resolve lim fs p = Some q"
  by (simp add: follow_def resolve_def strict_imp_resolve)

lemma locate_snoc:
  "c \<noteq> DOTDOT \<Longrightarrow> locate lim fs (p @ [c]) = Some q \<Longrightarrow>
     \<exists>d. follow lim fs p = Some d \<and> q = d @ [c] \<and> look fs d = Some Dir"
  by (auto simp: locate_def split: option.splits if_splits)

section \<open>Trees\<close>

text \<open>Every node is in a directory.\<close>

definition fs_wf :: "fs \<Rightarrow> bool" where
  "fs_wf fs \<longleftrightarrow> (\<forall>q. q \<noteq> [] \<and> look fs q \<noteq> None \<longrightarrow> look fs (butlast q) = Some Dir)"

lemma fs_wf_parent: "fs_wf fs \<Longrightarrow> look fs q \<noteq> None \<Longrightarrow> q \<noteq> [] \<Longrightarrow> look fs (butlast q) = Some Dir"
  by (simp add: fs_wf_def)

lemma fs_wf_up: "fs_wf fs \<Longrightarrow> look fs q = Some Dir \<Longrightarrow> look fs (butlast q) = Some Dir"
  by (cases "q = []") (auto simp: fs_wf_def)

lemma fs_wf_put:
  assumes "fs_wf fs" and "look fs (butlast q) = Some Dir" and "look fs q \<noteq> Some Dir \<or> n = Dir"
  shows "fs_wf (put q n fs)"
  unfolding fs_wf_def
proof (intro allI impI)
  fix r assume r: "r \<noteq> [] \<and> look (put q n fs) r \<noteq> None"
  have "butlast r = q \<Longrightarrow> r \<noteq> q \<Longrightarrow> look fs q = Some Dir"
    using r assms(1) by (auto simp: fs_wf_def split: if_splits)
  then show "look (put q n fs) (butlast r) = Some Dir"
    using r assms by (auto simp: fs_wf_def split: if_splits)
qed

lemma fs_wf_drop_node: "fs_wf fs \<Longrightarrow> look fs q \<noteq> Some Dir \<Longrightarrow> fs_wf (drop_node q fs)"
  unfolding fs_wf_def by (auto split: if_splits)

lemma prefix_butlast: "prefix p (butlast q) \<Longrightarrow> prefix p q"
  by (metis append_butlast_last_id butlast.simps(1) prefix_append prefix_def)

lemma fs_wf_drop_tree: "fs_wf fs \<Longrightarrow> fs_wf (drop_tree q fs)"
  unfolding fs_wf_def by (auto split: if_splits dest: prefix_butlast)

section \<open>The last component\<close>

lemma resolve_from_snoc:
  "resolve_from True lim fs cur p = Some d \<Longrightarrow> look fs d = Some Dir \<Longrightarrow> c \<noteq> DOTDOT \<Longrightarrow>
   \<forall>t. look fs (d @ [c]) \<noteq> Some (Symlink t) \<Longrightarrow> resolve_from True lim fs cur (p @ [c]) = Some (d @ [c])"
  by (induction lim cur p rule: resolve_induct [of _ fs])
    (auto simp: resolve_from_link resolve_from_other split: if_splits)

lemma resolve_from_snoc_inv:
  assumes "fs_wf fs"
  shows "resolve_from True lim fs cur (p @ [c]) = Some r \<Longrightarrow> look fs cur = Some Dir \<Longrightarrow> c \<noteq> DOTDOT \<Longrightarrow>
   \<exists>d. resolve_from True lim fs cur p = Some d \<and> look fs d = Some Dir \<and>
       (r = d @ [c] \<or> (\<exists>t. look fs (d @ [c]) = Some (Symlink t)))"
proof (induction lim cur p rule: resolve_induct [of _ fs])
  case (Nil lim cur)
  then show ?case by (cases "\<exists>t. look fs (cur @ [c]) = Some (Symlink t)") (auto simp: resolve_from_other)
next
  case (Up lim cur cs)
  then show ?case using fs_wf_up [OF assms] by simp
next
  case (Stuck cur c cs t)
  then show ?case by (simp add: resolve_from_link)
next
  case (Link lim cur c cs t)
  then show ?case by (auto simp: resolve_from_link split: if_splits)
next
  case (Step lim cur c cs)
  then show ?case by (auto simp: resolve_from_other split: if_splits)
qed

lemma locate_follow:
  assumes "fs_wf fs" and "follow lim fs (p @ [c]) = Some r" and "c \<noteq> DOTDOT"
  obtains q where "locate lim fs (p @ [c]) = Some q" and "r = q \<or> (\<exists>t. look fs q = Some (Symlink t))"
proof -
  obtain d where d: "follow lim fs p = Some d" "look fs d = Some Dir"
    "r = d @ [c] \<or> (\<exists>t. look fs (d @ [c]) = Some (Symlink t))"
    using resolve_from_snoc_inv [OF assms(1), of lim "[]" p c r] assms(2,3) by (auto simp: follow_def)
  then show thesis using assms(3) by (intro that [of "d @ [c]"]) (auto simp: locate_def)
qed

end
