(* ===== verification/StoreMerge.thy ===== *)
theory StoreMerge
  imports FileSys
begin

text \<open>
  The layer unpacking of \<^verbatim>\<open>store/store.py\<close> without umoci: \<^verbatim>\<open>_within\<close>, \<^verbatim>\<open>_rm_rf\<close> (in FileSys),
  \<^verbatim>\<open>_merge_tree\<close>, the whiteouts, and the layer loop of \<^verbatim>\<open>_unpack_bsdtar\<close>.  An extracted layer
  is the list of what \<^verbatim>\<open>rglob("*")\<close> finds in the temporary directory, parents before children,
  in whatever order the directory has.
\<close>

type_synonym layer = "(path \<times> node) list"

definition WH :: string where "WH = ''.wh.''"
definition WH_OPAQUE :: string where "WH_OPAQUE = ''.wh..wh..opq''"

definition path_str :: "path \<Rightarrow> string" where
  "path_str p = ''/'' @ py_join ''/'' p"

definition within :: "nat \<Rightarrow> fs \<Rightarrow> path \<Rightarrow> path \<Rightarrow> bool" where
  "within lim fs p root = (case resolve lim fs p of None \<Rightarrow> False | Some rp \<Rightarrow> prefix root rp)"

fun fs_then :: "fs_result \<Rightarrow> (fs \<Rightarrow> fs_result) \<Rightarrow> fs_result" where
  "fs_then (Some e, fs) k = (Some e, fs)"
| "fs_then (None, fs) k = k fs"

fun fs_each :: "('a \<Rightarrow> fs \<Rightarrow> fs_result) \<Rightarrow> 'a list \<Rightarrow> fs \<Rightarrow> fs_result" where
  "fs_each f [] fs = (None, fs)"
| "fs_each f (x # xs) fs = fs_then (f x fs) (fs_each f xs)"

section \<open>Merging one extracted layer\<close>

definition unlink_if :: "bool \<Rightarrow> nat \<Rightarrow> path \<Rightarrow> fs \<Rightarrow> fs_result" where
  "unlink_if b lim p fs = (if b then fs_unlink lim p fs else (None, fs))"

definition merge_entry :: "nat \<Rightarrow> path \<Rightarrow> path \<times> node \<Rightarrow> fs \<Rightarrow> fs_result" where
  "merge_entry lim dst entry fs =
     (let rel = fst entry; target = dst @ rel in
      if prefix WH (last rel) then (None, fs)
      else if \<not> within lim fs (butlast target) dst then
        (Some (Store_error (''OCI layer entry '' @ py_repr (py_join ''/'' rel) @
           '' escapes rootfs (resolves outside '' @ path_str dst @ ''); refusing to unpack'')), fs)
      else (case snd entry of
          Symlink t \<Rightarrow>
            fs_then (unlink_if (path_is_symlink lim fs target \<or> path_exists lim fs target) lim target fs)
              (fs_symlink lim t target)
        | Dir \<Rightarrow>
            fs_then (unlink_if (path_is_symlink lim fs target) lim target fs) (fs_mkdir lim target)
        | Reg content \<Rightarrow>
            fs_then (unlink_if (path_is_symlink lim fs target) lim target fs)
              (fs_copy2 lim content (last rel) target)
        | Special mode \<Rightarrow>
            fs_then (unlink_if (path_is_symlink lim fs target) lim target fs)
              (\<lambda>fs. (Some (Store_error (''OCI layer entry '' @ py_repr (py_join ''/'' rel) @
                 '' is not a regular file (mode '' @ py_repr mode @
                 ''); refusing to unpack special-file entry'')), fs))))"

definition merge_tree :: "nat \<Rightarrow> path \<Rightarrow> layer \<Rightarrow> fs \<Rightarrow> fs_result" where
  "merge_tree lim dst src = fs_each (merge_entry lim dst) src"

section \<open>Whiteouts\<close>

definition clear_opaque_whiteout :: "nat \<Rightarrow> path \<Rightarrow> path \<Rightarrow> fs \<Rightarrow> fs_result" where
  "clear_opaque_whiteout lim dst container_dir fs =
     (if \<not> within lim fs container_dir dst then
        (Some (Store_error (''opaque whiteout target '' @ path_str container_dir @ '' resolves outside '' @
           path_str dst @ '' (symlink escape via an earlier layer); refusing to unpack'')), fs)
      else (case follow lim fs container_dir of
          None \<Rightarrow> (Some (Os_error ''ENOENT''), fs)
        | Some q \<Rightarrow>
            if look fs q \<noteq> Some Dir then (Some (Os_error ''ENOTDIR''), fs)
            else fs_each (\<lambda>name. rm_rf lim (container_dir @ [name])) (child_names fs q) fs))"

definition apply_file_whiteout :: "nat \<Rightarrow> path \<Rightarrow> path \<Rightarrow> fs \<Rightarrow> fs_result" where
  "apply_file_whiteout lim dst container_target fs =
     (if \<not> within lim fs (butlast container_target) dst then
        (Some (Store_error (''file whiteout target '' @ path_str container_target @ '' resolves outside '' @
           path_str dst @ '' (symlink escape via an earlier layer); refusing to unpack'')), fs)
      else rm_rf lim container_target fs)"

text \<open>\<^verbatim>\<open>sorted(tmp_path.rglob(...))\<close>: paths are ordered by their components.\<close>

definition opaque_entries :: "layer \<Rightarrow> path list" where
  "opaque_entries src = sort (map fst (filter (\<lambda>(rel, _). last rel = WH_OPAQUE) src))"

definition file_whiteout_entries :: "layer \<Rightarrow> path list" where
  "file_whiteout_entries src =
     sort (map fst (filter (\<lambda>(rel, _). prefix WH (last rel) \<and> last rel \<noteq> WH_OPAQUE) src))"

text \<open>\<^verbatim>\<open>rootfs / parent / target_name\<close>: joining an empty name or \<^verbatim>\<open>.\<close> adds no component.\<close>

definition whiteout_target :: "path \<Rightarrow> path \<Rightarrow> path" where
  "whiteout_target rootfs rel =
     (let name = drop (length WH) (last rel) in
      rootfs @ butlast rel @ (if name = [] \<or> name = ''.'' then [] else [name]))"

definition opaque_step :: "nat \<Rightarrow> path \<Rightarrow> path \<Rightarrow> fs \<Rightarrow> fs_result" where
  "opaque_step lim rootfs rel fs =
     (let container_dir = rootfs @ butlast rel in
      if path_exists lim fs container_dir then clear_opaque_whiteout lim rootfs container_dir fs
      else (None, fs))"

definition file_whiteout_step :: "nat \<Rightarrow> path \<Rightarrow> path \<Rightarrow> fs \<Rightarrow> fs_result" where
  "file_whiteout_step lim rootfs rel fs =
     (let container_target = whiteout_target rootfs rel in
      if path_exists lim fs container_target \<or> path_is_symlink lim fs container_target
      then apply_file_whiteout lim rootfs container_target fs
      else (None, fs))"

section \<open>All layers\<close>

definition apply_layer :: "nat \<Rightarrow> path \<Rightarrow> layer \<Rightarrow> fs \<Rightarrow> fs_result" where
  "apply_layer lim rootfs src fs =
     fs_then (fs_each (opaque_step lim rootfs) (opaque_entries src) fs)
       (\<lambda>fs. fs_then (fs_each (file_whiteout_step lim rootfs) (file_whiteout_entries src) fs)
         (merge_tree lim rootfs src))"

text \<open>\<^verbatim>\<open>_remove_whiteout_markers\<close>: every \<^verbatim>\<open>.wh.*\<close> below the root is unlinked, an \<^verbatim>\<open>OSError\<close> (it
  is a directory) is ignored.  (A key of the tree has no \<^verbatim>\<open>..\<close> component; the filter says so.)\<close>

definition whiteout_markers :: "path \<Rightarrow> fs \<Rightarrow> path list" where
  "whiteout_markers rootfs fs =
     filter (\<lambda>q. strict_prefix rootfs q \<and> prefix WH (last q) \<and> DOTDOT \<notin> set q) (map fst fs)"

definition remove_whiteout_markers :: "nat \<Rightarrow> path \<Rightarrow> fs \<Rightarrow> fs" where
  "remove_whiteout_markers lim rootfs fs =
     fold (\<lambda>q fs. snd (fs_unlink lim q fs)) (whiteout_markers rootfs fs) fs"

definition unpack_layers :: "nat \<Rightarrow> path \<Rightarrow> layer list \<Rightarrow> fs \<Rightarrow> fs_result" where
  "unpack_layers lim rootfs layers fs =
     fs_then (fs_each (apply_layer lim rootfs) layers fs)
       (\<lambda>fs. (None, remove_whiteout_markers lim rootfs fs))"

section \<open>Confinement, as an interface\<close>

text \<open>The client only needs that an update at a path changes that path (or the paths below it)
  and nothing else; then work strictly below a root leaves the rest alone.\<close>

definition same_except :: "('s \<Rightarrow> path \<Rightarrow> node option) \<Rightarrow> path \<Rightarrow> 's \<Rightarrow> 's \<Rightarrow> bool" where
  "same_except lk root s s' \<longleftrightarrow> (\<forall>q. \<not> strict_prefix root q \<longrightarrow> lk s' q = lk s q)"

locale tree_store =
  fixes lk :: "'s \<Rightarrow> path \<Rightarrow> node option"
    and set_node :: "path \<Rightarrow> node \<Rightarrow> 's \<Rightarrow> 's"
    and del_node :: "path \<Rightarrow> 's \<Rightarrow> 's"
    and del_tree :: "path \<Rightarrow> 's \<Rightarrow> 's"
  assumes lk_set: "q \<noteq> p \<Longrightarrow> lk (set_node p n s) q = lk s q"
    and lk_del: "q \<noteq> p \<Longrightarrow> lk (del_node p s) q = lk s q"
    and lk_del_tree: "\<not> prefix p q \<Longrightarrow> lk (del_tree p s) q = lk s q"
begin

lemma same_refl: "same_except lk root s s"
  by (simp add: same_except_def)

lemma same_trans: "same_except lk root s t \<Longrightarrow> same_except lk root t u \<Longrightarrow> same_except lk root s u"
  by (simp add: same_except_def)

lemma same_set: "strict_prefix root p \<Longrightarrow> same_except lk root s (set_node p n s)"
  unfolding same_except_def using lk_set by metis

lemma same_del: "strict_prefix root p \<Longrightarrow> same_except lk root s (del_node p s)"
  unfolding same_except_def using lk_del by metis

lemma same_del_tree: "strict_prefix root p \<Longrightarrow> same_except lk root s (del_tree p s)"
  unfolding same_except_def using lk_del_tree by (metis prefix_order.less_le_trans)

lemma same_root: "same_except lk root s t \<Longrightarrow> prefix p root \<Longrightarrow> lk t p = lk s p"
  unfolding same_except_def by (meson prefix_order.leD)

end

interpretation disk: tree_store look put drop_node drop_tree
  by unfold_locales auto

definition confined :: "path \<Rightarrow> fs \<Rightarrow> fs \<Rightarrow> bool" where
  "confined root fs fs' \<longleftrightarrow> same_except look root fs fs' \<and> (fs_wf fs \<longrightarrow> fs_wf fs')"

lemma confined_refl [intro, simp]: "confined root fs fs"
  by (simp add: confined_def disk.same_refl)

lemma confined_trans [trans]: "confined root a b \<Longrightarrow> confined root b c \<Longrightarrow> confined root a c"
  by (auto simp: confined_def intro: disk.same_trans)

lemma confined_real_dir: "confined root fs fs' \<Longrightarrow> real_dir fs root \<Longrightarrow> real_dir fs' root"
  by (auto simp: confined_def real_dir_def dest: disk.same_root)

lemma confined_each:
  assumes "\<And>x fs. x \<in> set xs \<Longrightarrow> good fs \<Longrightarrow> confined root fs (snd (f x fs))"
    and "\<And>x fs. x \<in> set xs \<Longrightarrow> good fs \<Longrightarrow> good (snd (f x fs))" and "good fs"
  shows "confined root fs (snd (fs_each f xs fs))"
  using assms
proof (induction xs arbitrary: fs)
  case Nil
  then show ?case by simp
next
  case (Cons x xs)
  obtain e fs1 where 1: "f x fs = (e, fs1)" by (meson surj_pair)
  have "confined root fs fs1" "good fs1" using Cons.prems(1,2) [of x fs] Cons.prems(3) 1 by auto
  moreover have "confined root fs1 (snd (fs_each f xs fs1))"
    using Cons.IH [of fs1] Cons.prems(1,2) \<open>good fs1\<close> by simp
  ultimately show ?case using 1 by (cases e) (auto intro: confined_trans)
qed

section \<open>Every call below the root is confined\<close>

lemma locate_parent:
  "p \<noteq> [] \<Longrightarrow> last p \<noteq> DOTDOT \<Longrightarrow> locate lim fs p = Some q \<Longrightarrow>
   q \<noteq> [] \<and> look fs (butlast q) = Some Dir \<and> follow lim fs (butlast p) = Some (butlast q) \<and> last q = last p"
  by (auto simp: locate_def split: option.splits if_splits)

lemma unlink_confined:
  assumes "\<And>q. locate lim fs p = Some q \<Longrightarrow> strict_prefix root q"
  shows "confined root fs (snd (fs_unlink lim p fs))"
  using assms
  by (auto simp: fs_unlink_def confined_def disk.same_refl disk.same_del fs_wf_drop_node
      split: option.splits node.splits)

lemma symlink_confined:
  assumes "p \<noteq> []" and "last p \<noteq> DOTDOT" and "\<And>q. locate lim fs p = Some q \<Longrightarrow> strict_prefix root q"
  shows "confined root fs (snd (fs_symlink lim t p fs))"
  using assms locate_parent [of p lim fs]
  by (auto simp: fs_symlink_def confined_def disk.same_refl disk.same_set fs_wf_put split: option.splits)

lemma mkdir_confined:
  assumes "p \<noteq> []" and "last p \<noteq> DOTDOT" and "\<And>q. locate lim fs p = Some q \<Longrightarrow> strict_prefix root q"
  shows "confined root fs (snd (fs_mkdir lim p fs))"
  using assms locate_parent [of p lim fs]
  by (auto simp: fs_mkdir_def confined_def disk.same_refl disk.same_set fs_wf_put split: option.splits)

lemma rm_rf_confined:
  assumes "p \<noteq> []" and "last p \<noteq> DOTDOT" and "\<And>q. locate lim fs p = Some q \<Longrightarrow> strict_prefix root q"
  shows "confined root fs (snd (rm_rf lim p fs))"
  using assms unlink_confined [of lim fs p root]
  by (auto simp: rm_rf_def fs_rmtree_def confined_def disk.same_refl disk.same_del_tree fs_wf_drop_tree
      split: option.splits)

lemma write_confined:
  assumes "\<And>q. follow lim fs p = Some q \<Longrightarrow> strict_prefix root q"
  shows "confined root fs (snd (fs_write lim c p fs))"
proof (cases "follow lim fs p")
  case None
  then show ?thesis by (simp add: fs_write_def)
next
  case (Some q)
  have "confined root fs (put q (Reg c) fs)" if "look fs q \<noteq> Some Dir" "look fs q = None \<Longrightarrow> look fs (butlast q) = Some Dir"
    using that assms [OF Some] fs_wf_put [of fs q "Reg c"] fs_wf_parent [of fs q]
    by (cases "look fs q"; cases "q = []") (auto simp: confined_def disk.same_set)
  then show ?thesis using Some by (auto simp: fs_write_def split: option.splits node.splits)
qed

text \<open>The guard of the merge: a parent that resolves below the root.\<close>

lemma within_follow:
  "within lim fs p root \<Longrightarrow> follow lim fs p = Some q \<Longrightarrow> prefix root q"
  by (auto simp: within_def dest: follow_resolve)

lemma within_locate:
  assumes "within lim fs (butlast p) root" and "p \<noteq> []" and "last p \<noteq> DOTDOT" and "locate lim fs p = Some q"
  shows "strict_prefix root q"
proof -
  have "q \<noteq> []" "follow lim fs (butlast p) = Some (butlast q)" using locate_parent [OF assms(2-4)] by auto
  then have "prefix root (butlast q)" using within_follow [OF assms(1)] by simp
  then show ?thesis using \<open>q \<noteq> []\<close>
    by (metis append_butlast_last_id prefix_order.le_less_trans prefix_snocD strict_prefix_def prefixI)
qed

text \<open>The guard still speaks about the target after an unlink there: removing a node opens no
  new way to a directory.\<close>

definition fewer :: "fs \<Rightarrow> fs \<Rightarrow> bool" where
  "fewer fs fs' \<longleftrightarrow> (\<forall>r n. look fs' r = Some n \<longrightarrow> look fs r = Some n)"

lemma fewer_refl [simp]: "fewer fs fs"
  by (simp add: fewer_def)

lemma fewer_trans: "fewer a b \<Longrightarrow> fewer b c \<Longrightarrow> fewer a c"
  by (simp add: fewer_def)

lemma fewer_drop_node [simp]: "fewer fs (drop_node q fs)"
  by (simp add: fewer_def)

lemma fewer_drop_tree [simp]: "fewer fs (drop_tree q fs)"
  by (simp add: fewer_def)

lemma fewerD: "fewer fs fs' \<Longrightarrow> look fs' r = Some n \<Longrightarrow> look fs r = Some n"
  by (simp add: fewer_def)

lemma resolve_fewer:
  assumes le: "fewer fs fs'"
  shows "resolve_from True lim fs' cur p = Some d \<Longrightarrow> look fs' d = Some Dir \<Longrightarrow>
    resolve_from True lim fs cur p = Some d"
proof (induction lim cur p rule: resolve_induct [of _ fs'])
  case (Nil lim cur)
  then show ?case by simp
next
  case (Up lim cur cs)
  then show ?case by simp
next
  case (Stuck cur c cs t)
  from Stuck(3) show ?case by (simp only: resolve_from_link [OF Stuck(1,2)] nat.case option.distinct)
next
  case (Link lim cur c cs t)
  have "look fs (cur @ [c]) = Some (Symlink t)" using Link(2) by (rule fewerD [OF le])
  then show ?case
    using Link(3) [OF _ Link(5)] Link(4) Link(1) unfolding resolve_from_link [OF Link(1,2)]
    by (simp add: resolve_from_link)
next
  case (Step lim cur c cs)
  have d: "look fs' (cur @ [c]) = Some Dir"
    using Step(4,5) unfolding resolve_from_other [OF Step(1,2)] by (cases "cs = []") (auto split: if_splits)
  have e: "resolve_from True lim fs' (cur @ [c]) cs = Some d"
    using Step(4) unfolding resolve_from_other [OF Step(1,2)] by (auto split: if_splits)
  have "look fs (cur @ [c]) = Some Dir" using d by (rule fewerD [OF le])
  then show ?case using Step(3) [OF e Step(5)] Step(1) by (simp add: resolve_from_other)
qed

lemma locate_fewer:
  "fewer fs fs' \<Longrightarrow> p \<noteq> [] \<Longrightarrow> last p \<noteq> DOTDOT \<Longrightarrow> locate lim fs' p = Some r \<Longrightarrow> locate lim fs p = Some r"
  using resolve_fewer [of fs fs' lim "[]" "butlast p"]
  by (auto simp: locate_def follow_def fewer_def split: option.splits if_splits)

lemma locate_after_drop:
  "p \<noteq> [] \<Longrightarrow> last p \<noteq> DOTDOT \<Longrightarrow> locate lim (drop_node q fs) p = Some r \<Longrightarrow> locate lim fs p = Some r"
  using locate_fewer [of fs "drop_node q fs"] by simp

lemma unlink_if_confined:
  assumes "p \<noteq> []" "last p \<noteq> DOTDOT" and "within lim fs (butlast p) root"
  shows "confined root fs (snd (unlink_if b lim p fs))"
  using unlink_confined [of lim fs p root] within_locate [OF assms(3,1,2)]
  by (simp add: unlink_if_def)

text \<open>What the optional unlink leaves: the target is located where it was, and is no link.\<close>

lemma unlink_if_target:
  assumes p: "p \<noteq> []" "last p \<noteq> DOTDOT" and w: "within lim fs (butlast p) root"
    and b: "path_is_symlink lim fs p \<Longrightarrow> b"
    and u: "unlink_if b lim p fs = (None, fs1)"
  shows "confined root fs fs1" and "locate lim fs1 p = Some q \<Longrightarrow> strict_prefix root q"
    and "locate lim fs1 p = Some q \<Longrightarrow> look fs1 q \<noteq> Some (Symlink t)"
    and "\<not> b \<Longrightarrow> fs1 = fs"
proof -
  have f: "fs1 = fs \<or> (\<exists>r. locate lim fs p = Some r \<and> fs1 = drop_node r fs)"
    using u by (auto simp: unlink_if_def fs_unlink_def split: if_splits option.splits node.splits)
  have l: "locate lim fs1 p = Some q \<Longrightarrow> locate lim fs p = Some q"
    using f locate_after_drop [OF p, of lim _ fs q] by blast
  show "locate lim fs1 p = Some q \<Longrightarrow> strict_prefix root q"
    using l within_locate [OF w p] by blast
  show "confined root fs fs1"
    using unlink_if_confined [OF p w, of b] unfolding u by simp
  show "locate lim fs1 p = Some q \<Longrightarrow> look fs1 q \<noteq> Some (Symlink t)"
  proof (cases b)
    case False
    then show "locate lim fs1 p = Some q \<Longrightarrow> look fs1 q \<noteq> Some (Symlink t)"
      using u b by (auto simp: unlink_if_def path_is_symlink_def lstat_def split: option.splits node.splits)
  next
    case True
    assume q: "locate lim fs1 p = Some q"
    then have "locate lim fs p = Some q" by (rule l)
    then have "fs1 = drop_node q fs"
      using u True by (auto simp: unlink_if_def fs_unlink_def split: option.splits node.splits)
    moreover have "q \<noteq> []" using locate_parent [OF p q] by simp
    ultimately show ?thesis by simp
  qed
  show "\<not> b \<Longrightarrow> fs1 = fs" using u by (simp add: unlink_if_def)
qed

lemma fs_then_confined:
  assumes "confined root fs (snd m)" and "\<And>fs1. m = (None, fs1) \<Longrightarrow> confined root fs1 (snd (k fs1))"
  shows "confined root fs (snd (fs_then m k))"
proof (cases m)
  case (Pair e fs1)
  then show ?thesis using assms by (cases e) (auto intro: confined_trans)
qed

text \<open>The one way out: a regular file whose target is a directory is copied into that directory,
  where a link of the file's name may lead anywhere.\<close>

definition copy_escapes :: "nat \<Rightarrow> path \<Rightarrow> path \<times> node \<Rightarrow> fs \<Rightarrow> bool" where
  "copy_escapes lim dst entry fs =
     (let rel = fst entry; target = dst @ rel in
      (case snd entry of
         Reg _ \<Rightarrow> \<not> path_is_symlink lim fs target \<and> path_is_dir lim fs target
           \<and> (case follow lim fs (target @ [last rel]) of
                None \<Rightarrow> False | Some q \<Rightarrow> \<not> strict_prefix dst q)
       | _ \<Rightarrow> False))"

definition entry_ok :: "path \<times> node \<Rightarrow> bool" where
  "entry_ok e \<longleftrightarrow> fst e \<noteq> [] \<and> last (fst e) \<noteq> DOTDOT"

lemma copy2_confined:
  assumes p: "p \<noteq> []" "last p \<noteq> DOTDOT" and wf: "fs_wf fs"
    and l: "\<And>q. locate lim fs p = Some q \<Longrightarrow> strict_prefix root q \<and> (\<forall>t. look fs q \<noteq> Some (Symlink t))"
    and d: "\<And>q. path_is_dir lim fs p \<Longrightarrow> follow lim fs (p @ [name]) = Some q \<Longrightarrow> strict_prefix root q"
  shows "confined root fs (snd (fs_copy2 lim c name p fs))"
proof (cases "path_is_dir lim fs p")
  case True
  then show ?thesis using d [OF True] write_confined by (simp add: fs_copy2_def)
next
  case False
  have "strict_prefix root q" if fo: "follow lim fs p = Some q" for q
  proof -
    obtain p' c' where e: "p = p' @ [c']" "c' \<noteq> DOTDOT" using p by (metis append_butlast_last_id)
    obtain q' where "locate lim fs p = Some q'" "q = q' \<or> (\<exists>t. look fs q' = Some (Symlink t))"
      unfolding e(1) by (rule locate_follow [OF wf fo [unfolded e(1)] e(2)])
    then show ?thesis using l by blast
  qed
  then show ?thesis using False write_confined by (simp add: fs_copy2_def)
qed

lemma merge_entry_confined:
  assumes wf: "fs_wf fs" and ok: "entry_ok e" and ne: "\<not> copy_escapes lim root e fs"
  shows "confined root fs (snd (merge_entry lim root e fs))"
proof (cases e)
  case (Pair rel n)
  let ?p = "root @ rel"
  have p: "?p \<noteq> []" "last ?p \<noteq> DOTDOT" using ok Pair by (auto simp: entry_ok_def)
  have rest: "confined root fs (snd (fs_then (unlink_if b lim ?p fs) k))"
    if w: "within lim fs (butlast ?p) root" and b: "path_is_symlink lim fs ?p \<Longrightarrow> b"
      and k: "\<And>fs1. unlink_if b lim ?p fs = (None, fs1) \<Longrightarrow> confined root fs fs1 \<Longrightarrow>
        (\<And>q. locate lim fs1 ?p = Some q \<Longrightarrow> strict_prefix root q \<and> (\<forall>t. look fs1 q \<noteq> Some (Symlink t))) \<Longrightarrow>
        (\<not> b \<Longrightarrow> fs1 = fs) \<Longrightarrow> confined root fs1 (snd (k fs1))" for b k
  proof (rule fs_then_confined)
    show "confined root fs (snd (unlink_if b lim ?p fs))" by (rule unlink_if_confined [OF p w])
    fix fs1 assume u: "unlink_if b lim ?p fs = (None, fs1)"
    show "confined root fs1 (snd (k fs1))"
      using k [OF u] unlink_if_target [OF p w b u] by blast
  qed
  show ?thesis
  proof (cases "prefix WH (last rel) \<or> \<not> within lim fs (butlast ?p) root")
    case True
    then show ?thesis by (auto simp: merge_entry_def Pair Let_def)
  next
    case False
    then have w: "within lim fs (butlast ?p) root" by simp
    show ?thesis
    proof (cases n)
      case (Symlink t)
      show ?thesis using False Pair Symlink
        by (auto simp: merge_entry_def Let_def intro!: rest [OF w] symlink_confined p)
    next
      case Dir
      show ?thesis using False Pair Dir
        by (auto simp: merge_entry_def Let_def intro!: rest [OF w] mkdir_confined p)
    next
      case (Special m)
      show ?thesis using False Pair Special
        by (auto simp: merge_entry_def Let_def intro!: rest [OF w])
    next
      case (Reg c)
      let ?b = "path_is_symlink lim fs ?p"
      have "confined root fs1 (snd (fs_copy2 lim c (last rel) ?p fs1))"
        if u: "unlink_if ?b lim ?p fs = (None, fs1)" and cf: "confined root fs fs1"
          and l: "\<And>q. locate lim fs1 ?p = Some q \<Longrightarrow> strict_prefix root q \<and> (\<forall>t. look fs1 q \<noteq> Some (Symlink t))"
          and nb: "\<not> ?b \<Longrightarrow> fs1 = fs" for fs1
      proof (rule copy2_confined [OF p _ l])
        show wf1: "fs_wf fs1" using cf wf by (simp add: confined_def)
        fix q assume d: "path_is_dir lim fs1 ?p" and f: "follow lim fs1 (?p @ [last rel]) = Some q"
        show "strict_prefix root q"
        proof (cases ?b)
          case False
          then show ?thesis using nb ne Reg d f Pair by (auto simp: copy_escapes_def Let_def)
        next
          case True
          obtain p' c' where e: "?p = p' @ [c']" "c' \<noteq> DOTDOT" using p by (metis append_butlast_last_id)
          obtain r where r: "follow lim fs1 ?p = Some r" "look fs1 r = Some Dir"
            using d by (auto simp: path_is_dir_def stat_def split: option.splits)
          obtain q' where q': "locate lim fs1 ?p = Some q'" "r = q' \<or> (\<exists>t. look fs1 q' = Some (Symlink t))"
            unfolding e(1) by (rule locate_follow [OF wf1 r(1) [unfolded e(1)] e(2)])
          obtain r0 where r0: "locate lim fs ?p = Some r0" "fs1 = drop_node r0 fs"
            using u True by (auto simp: unlink_if_def fs_unlink_def split: option.splits node.splits)
          then have "r0 = q'" using locate_after_drop [OF p, of lim r0 fs q'] q'(1) by simp
          then have "look fs1 q' = None" using r0(2) locate_parent [OF p q'(1)] by simp
          then show ?thesis using q'(2) r(2) by auto
        qed
      qed auto
      then show ?thesis using False Pair Reg
        by (auto simp: merge_entry_def Let_def intro!: rest [OF w])
    qed
  qed
qed

text \<open>A run of steps in which no step of a kind ever happens.\<close>

fun run_avoids :: "('a \<Rightarrow> fs \<Rightarrow> bool) \<Rightarrow> ('a \<Rightarrow> fs \<Rightarrow> fs_result) \<Rightarrow> 'a list \<Rightarrow> fs \<Rightarrow> bool" where
  "run_avoids bad f [] fs = True"
| "run_avoids bad f (x # xs) fs =
     (\<not> bad x fs \<and> (case f x fs of (None, fs1) \<Rightarrow> run_avoids bad f xs fs1 | (Some _, _) \<Rightarrow> True))"

definition good_tree :: "path \<Rightarrow> fs \<Rightarrow> bool" where
  "good_tree root fs \<longleftrightarrow> fs_wf fs \<and> real_dir fs root"

lemma confined_good: "confined root fs fs' \<Longrightarrow> good_tree root fs \<Longrightarrow> good_tree root fs'"
  by (auto simp: good_tree_def confined_real_dir) (simp add: confined_def)

lemma run_confined:
  assumes "\<And>x fs. x \<in> set xs \<Longrightarrow> good_tree root fs \<Longrightarrow> \<not> bad x fs \<Longrightarrow> confined root fs (snd (f x fs))"
    and "good_tree root fs" and "run_avoids bad f xs fs"
  shows "confined root fs (snd (fs_each f xs fs))"
  using assms
proof (induction xs arbitrary: fs)
  case Nil
  then show ?case by simp
next
  case (Cons x xs)
  obtain e fs1 where 1: "f x fs = (e, fs1)" by (meson surj_pair)
  have c: "confined root fs fs1" using Cons.prems(1) [of x fs] Cons.prems(2,3) 1 by simp
  show ?case
  proof (cases e)
    case None
    have "confined root fs1 (snd (fs_each f xs fs1))"
      using Cons.IH [of fs1] Cons.prems 1 None confined_good [OF c] by simp
    then show ?thesis using 1 None c by (auto intro: confined_trans)
  next
    case (Some err)
    then show ?thesis using 1 c by simp
  qed
qed

lemma run_confined_all:
  assumes "\<And>x fs. x \<in> set xs \<Longrightarrow> good_tree root fs \<Longrightarrow> confined root fs (snd (f x fs))" and "good_tree root fs"
  shows "confined root fs (snd (fs_each f xs fs))"
proof (rule run_confined [where bad = "\<lambda>_ _. False"])
  show "run_avoids (\<lambda>_ _. False) f xs fs"
    by (induction xs arbitrary: fs) (auto split: prod.splits option.splits)
qed (use assms in auto)

definition layer_ok :: "layer \<Rightarrow> bool" where
  "layer_ok src \<longleftrightarrow> (\<forall>e \<in> set src. entry_ok e \<and> DOTDOT \<notin> set (fst e) \<and> [] \<notin> set (fst e)
     \<and> last (fst e) \<noteq> WH @ DOTDOT)"

section \<open>Whiteouts are confined\<close>

lemma child_locate:
  assumes "follow lim fs c = Some q" and "look fs q = Some Dir" and "n \<noteq> DOTDOT"
  shows "locate lim fs (c @ [n]) = Some (q @ [n])"
  using assms by (simp add: locate_def)


lemma rm_rf_fewer: "last p \<noteq> DOTDOT \<Longrightarrow> fewer fs (snd (rm_rf lim p fs))"
  by (auto simp: rm_rf_def fs_unlink_def fs_rmtree_def split: option.splits node.splits)

lemma clear_opaque_confined:
  "confined root fs (snd (clear_opaque_whiteout lim root c fs))"
proof (cases "within lim fs c root")
  case False
  then show ?thesis by (simp add: clear_opaque_whiteout_def)
next
  case w: True
  show ?thesis
  proof (cases "follow lim fs c")
    case None
    then show ?thesis using w by (simp add: clear_opaque_whiteout_def)
  next
    case (Some q)
    have pq: "prefix root q" using within_follow [OF w Some] .
    have step: "confined root fs1 (snd (rm_rf lim (c @ [n]) fs1)) \<and> fewer fs (snd (rm_rf lim (c @ [n]) fs1))"
      if le: "fewer fs fs1" and n: "n \<in> set (child_names fs q)" for n fs1
    proof -
      have nd: "n \<noteq> DOTDOT" using n by (auto simp: child_names_def)
      have "strict_prefix root r" if r: "locate lim fs1 (c @ [n]) = Some r" for r
      proof -
        have "locate lim fs (c @ [n]) = Some r" using locate_fewer [OF le _ _ r] nd by simp
        then obtain d where "follow lim fs c = Some d" "r = d @ [n]" using locate_snoc [OF nd] by blast
        then have "r = q @ [n]" using Some by simp
        then show ?thesis using pq by (auto simp: strict_prefix_def prefix_def)
      qed
      then have "confined root fs1 (snd (rm_rf lim (c @ [n]) fs1))"
        using nd by (intro rm_rf_confined) auto
      moreover have "fewer fs (snd (rm_rf lim (c @ [n]) fs1))"
        using fewer_trans [OF le rm_rf_fewer] nd by simp
      ultimately show ?thesis ..
    qed
    have "confined root fs (snd (fs_each (\<lambda>n. rm_rf lim (c @ [n])) (child_names fs q) fs))"
      using step by (intro confined_each [where good = "fewer fs"]) auto
    then show ?thesis using w Some by (simp add: clear_opaque_whiteout_def)
  qed
qed

lemma opaque_step_confined: "confined root fs (snd (opaque_step lim root rel fs))"
  using clear_opaque_confined by (simp add: opaque_step_def Let_def)

lemma file_whiteout_confined:
  assumes "p \<noteq> []" and "last p \<noteq> DOTDOT"
  shows "confined root fs (snd (apply_file_whiteout lim root p fs))"
  using rm_rf_confined [OF assms, of lim fs root] within_locate [OF _ assms, of lim fs root]
  by (auto simp: apply_file_whiteout_def)

lemma within_above: "real_dir fs root \<Longrightarrow> root \<noteq> [] \<Longrightarrow> \<not> within lim fs (butlast root) root"
proof -
  assume a: "real_dir fs root" "root \<noteq> []"
  have "real_dir fs (butlast root)"
    using a by (auto simp: real_dir_def dest: prefix_butlast in_set_butlastD)
  then have "resolve lim fs (butlast root) = Some (butlast root)" by simp
  moreover have "\<not> prefix root (butlast root)"
    using a(2) by (metis append_butlast_last_id append_Nil2 not_Cons_self2 prefixE prefix_order.antisym prefixI same_append_eq)
  ultimately show ?thesis by (simp add: within_def)
qed

lemma file_whiteout_step_confined:
  assumes "real_dir fs root" and "root \<noteq> []" and "prefix WH (last rel)" and "last rel \<noteq> WH @ DOTDOT"
    and "DOTDOT \<notin> set rel" and "rel \<noteq> []"
  shows "confined root fs (snd (file_whiteout_step lim root rel fs))"
proof -
  let ?name = "drop (length WH) (last rel)"
  have nd: "?name \<noteq> DOTDOT" using assms(3,4) by (auto simp: prefix_def)
  show ?thesis
  proof (cases "whiteout_target root rel = root")
    case True
    then show ?thesis using within_above [OF assms(1,2), of lim]
      by (simp add: file_whiteout_step_def apply_file_whiteout_def)
  next
    case False
    then have "last (whiteout_target root rel) \<noteq> DOTDOT" "whiteout_target root rel \<noteq> []"
      using nd assms(2,5) by (auto simp: whiteout_target_def Let_def split: if_splits)
        (metis in_set_butlastD last_in_set)+
    then show ?thesis using file_whiteout_confined by (simp add: file_whiteout_step_def Let_def)
  qed
qed

section \<open>The whole unpacking\<close>

text \<open>A layer that, reached in this state, would copy a file through a link.\<close>

definition whiteout_stage :: "nat \<Rightarrow> path \<Rightarrow> layer \<Rightarrow> fs \<Rightarrow> fs_result" where
  "whiteout_stage lim rootfs src fs =
     fs_then (fs_each (opaque_step lim rootfs) (opaque_entries src) fs)
       (fs_each (file_whiteout_step lim rootfs) (file_whiteout_entries src))"

definition layer_escapes :: "nat \<Rightarrow> path \<Rightarrow> layer \<Rightarrow> fs \<Rightarrow> bool" where
  "layer_escapes lim rootfs src fs =
     (case whiteout_stage lim rootfs src fs of
        (Some _, _) \<Rightarrow> False
      | (None, fs1) \<Rightarrow> \<not> run_avoids (copy_escapes lim rootfs) (merge_entry lim rootfs) src fs1)"

lemma apply_layer_stages:
  "apply_layer lim rootfs src fs = fs_then (whiteout_stage lim rootfs src fs) (merge_tree lim rootfs src)"
proof -
  have "fs_then (fs_then m k) l = fs_then m (\<lambda>x. fs_then (k x) l)" for m k l
    by (cases m; cases "fst m") auto
  then show ?thesis by (simp add: apply_layer_def whiteout_stage_def)
qed

lemma whiteout_stage_confined:
  assumes "good_tree root fs" and "root \<noteq> []" and "layer_ok src"
  shows "confined root fs (snd (whiteout_stage lim root src fs))"
  unfolding whiteout_stage_def
proof (rule fs_then_confined)
  show o: "confined root fs (snd (fs_each (opaque_step lim root) (opaque_entries src) fs))"
    by (rule run_confined_all) (simp_all add: opaque_step_confined assms(1))
  fix fs1 assume "fs_each (opaque_step lim root) (opaque_entries src) fs = (None, fs1)"
  then have "good_tree root fs1" using confined_good [OF o assms(1)] by simp
  then show "confined root fs1 (snd (fs_each (file_whiteout_step lim root) (file_whiteout_entries src) fs1))"
    using assms(2,3)
    by (intro run_confined_all)
      (auto simp: good_tree_def layer_ok_def file_whiteout_entries_def entry_ok_def intro!: file_whiteout_step_confined)
qed

lemma apply_layer_confined:
  assumes "good_tree root fs" and "root \<noteq> []" and "layer_ok src" and "\<not> layer_escapes lim root src fs"
  shows "confined root fs (snd (apply_layer lim root src fs))"
  unfolding apply_layer_stages
proof (rule fs_then_confined)
  show w: "confined root fs (snd (whiteout_stage lim root src fs))"
    by (rule whiteout_stage_confined [OF assms(1-3)])
  fix fs1 assume e: "whiteout_stage lim root src fs = (None, fs1)"
  then have "good_tree root fs1" using confined_good [OF w assms(1)] by simp
  moreover have "run_avoids (copy_escapes lim root) (merge_entry lim root) src fs1"
    using assms(4) e by (simp add: layer_escapes_def)
  ultimately show "confined root fs1 (snd (merge_tree lim root src fs1))"
    unfolding merge_tree_def using assms(3)
    by (intro run_confined) (auto simp: good_tree_def layer_ok_def intro: merge_entry_confined)
qed

lemma wf_real_dir:
  assumes wf: "fs_wf fs"
  shows "look fs q = Some Dir \<Longrightarrow> DOTDOT \<notin> set q \<Longrightarrow> real_dir fs q"
proof (induction q rule: rev_induct)
  case Nil
  then show ?case by (simp add: real_dir_def)
next
  case (snoc c q)
  then have "real_dir fs q" using fs_wf_up [OF wf, of "q @ [c]"] by simp
  then show ?case using snoc.prems by (auto simp: real_dir_def)
qed

lemma real_locate:
  assumes "fs_wf fs" and "look fs q \<noteq> None" and "q \<noteq> []" and "DOTDOT \<notin> set q"
  shows "locate lim fs q = Some q"
proof -
  have "look fs (butlast q) = Some Dir" using fs_wf_parent [OF assms(1-3)] .
  moreover have "DOTDOT \<notin> set (butlast q)" using assms(4) by (meson in_set_butlastD)
  ultimately have r: "real_dir fs (butlast q)" using wf_real_dir [OF assms(1)] by blast
  have "last q \<noteq> DOTDOT" using assms(3,4) last_in_set by metis
  then show ?thesis using assms(3) r by (simp add: locate_def real_dir_def)
qed

lemma markers_confined:
  assumes wf: "fs_wf fs"
  shows "confined root fs (remove_whiteout_markers lim root fs)"
proof -
  have m: "confined root a (fold (\<lambda>q fs. snd (fs_unlink lim q fs)) qs a)"
    if "set qs \<subseteq> set (whiteout_markers root fs)" and "fewer fs a" for qs a
    using that
  proof (induction qs arbitrary: a)
    case Nil
    then show ?case by simp
  next
    case (Cons q qs)
    have q: "strict_prefix root q" "DOTDOT \<notin> set q" "q \<in> fst ` set fs"
      using Cons.prems(1) by (auto simp: whiteout_markers_def)
    then have ne: "q \<noteq> []" by auto
    have "map_of fs q \<noteq> None" using q(3) by (simp add: map_of_eq_None_iff)
    then have l: "locate lim fs q = Some q" using real_locate [OF wf _ ne q(2)] ne by (simp add: look_def)
    have "strict_prefix root r" if r: "locate lim a q = Some r" for r
    proof -
      have "last q \<noteq> DOTDOT" using q(2) ne last_in_set by metis
      then have "locate lim fs q = Some r" using locate_fewer [OF Cons.prems(2) ne _ r] by simp
      then show ?thesis using l q(1) by simp
    qed
    then have "confined root a (snd (fs_unlink lim q a))" by (rule unlink_confined)
    moreover have "fewer fs (snd (fs_unlink lim q a))"
      using Cons.prems(2)
      by (auto simp: fs_unlink_def intro: fewer_trans split: option.splits node.splits)
    ultimately show ?case using Cons by (auto intro: confined_trans)
  qed
  show ?thesis unfolding remove_whiteout_markers_def by (rule m) simp_all
qed

text \<open>C1: Unpacking an image touches nothing outside its root directory.  Whatever the layers
  contain (links planted by one layer and used by another, whiteouts through links, special
  files), whatever order the directory scan has, and whether the unpacking succeeds or stops at
  an error, every path that is not strictly below the root keeps its node, and the tree stays a
  tree, provided no whiteout is named \<^verbatim>\<open>.wh...\<close> and no regular file is copied into a directory
  of the same name through a link there.\<close>

theorem unpack_layers_confined:
  assumes "fs_wf fs" and "real_dir fs root" and "root \<noteq> []" and "\<forall>src \<in> set layers. layer_ok src"
    and "run_avoids (layer_escapes lim root) (apply_layer lim root) layers fs"
  shows "(\<forall>q. \<not> strict_prefix root q \<longrightarrow> look (snd (unpack_layers lim root layers fs)) q = look fs q)
    \<and> fs_wf (snd (unpack_layers lim root layers fs))"
proof -
  have g: "good_tree root fs" using assms(1,2) by (simp add: good_tree_def)
  have "confined root fs (snd (unpack_layers lim root layers fs))"
    unfolding unpack_layers_def
  proof (rule fs_then_confined)
    show a: "confined root fs (snd (fs_each (apply_layer lim root) layers fs))"
      using assms(3-5) by (intro run_confined [OF _ g]) (auto intro: apply_layer_confined)
    fix fs1 assume "fs_each (apply_layer lim root) layers fs = (None, fs1)"
    then show "confined root fs1 (snd (None, remove_whiteout_markers lim root fs1))"
      using confined_good [OF a g] markers_confined by (simp add: good_tree_def)
  qed
  then show ?thesis using assms(1) by (simp add: confined_def same_except_def)
qed

text \<open>A host tree with an image directory, for the examples: \<^verbatim>\<open>/img/a\<close> is the root being filled,
  \<^verbatim>\<open>/img/b\<close> another image, \<^verbatim>\<open>/etc/key\<close> a file of the host.\<close>

definition host_tree :: fs where
  "host_tree = [([''etc''], Dir), ([''etc'', ''key''], Reg ''secret''), ([''img''], Dir),
     ([''img'', ''a''], Dir), ([''img'', ''b''], Dir), ([''img'', ''b'', ''f''], Reg ''old'')]"

definition demo_root :: path where "demo_root = [''img'', ''a'']"

definition demo_layers :: "layer list" where
  "demo_layers = [[([''usr''], Dir), ([''usr'', ''x''], Symlink ''/etc''), ([''f''], Reg ''new'')],
     [([''usr''], Dir), ([''usr'', ''x''], Dir), ([''usr'', ''x'', ''key''], Reg ''evil''), ([''.wh.f''], Reg '''')]]"

lemma host_tree_wf: "fs_wf host_tree"
  by (auto simp: fs_wf_def host_tree_def look_def split: if_splits)

lemma demo_root_real: "real_dir host_tree demo_root"
  by (auto simp: real_dir_def demo_root_def host_tree_def look_def DOTDOT_def prefix_Cons)

lemmas fs_eval = host_tree_def demo_root_def demo_layers_def look_def put_def drop_node_def drop_tree_def
  resolve_def follow_def locate_def stat_def lstat_def path_exists_def path_is_symlink_def path_is_dir_def
  path_is_file_def fs_unlink_def fs_symlink_def fs_mkdir_def fs_write_def fs_copy2_def fs_rmtree_def rm_rf_def
  within_def unlink_if_def merge_entry_def merge_tree_def clear_opaque_whiteout_def apply_file_whiteout_def
  opaque_entries_def file_whiteout_entries_def whiteout_target_def opaque_step_def file_whiteout_step_def
  apply_layer_def whiteout_markers_def remove_whiteout_markers_def unpack_layers_def whiteout_stage_def
  layer_escapes_def copy_escapes_def components_def is_absolute_def child_names_def WH_def WH_OPAQUE_def
  DOTDOT_def resolve_from.simps

lemma demo_avoids: "run_avoids (layer_escapes 8 demo_root) (apply_layer 8 demo_root) demo_layers host_tree"
  by code_simp

lemma unpack_layers_confined_witness:
  "look (snd (unpack_layers 8 demo_root demo_layers host_tree)) [''etc'', ''key''] = Some (Reg ''secret'')"
proof -
  have "\<forall>src \<in> set demo_layers. layer_ok src"
    by (simp add: demo_layers_def layer_ok_def entry_ok_def DOTDOT_def WH_def)
  then have "look (snd (unpack_layers 8 demo_root demo_layers host_tree)) [''etc'', ''key''] = look host_tree [''etc'', ''key'']"
    using unpack_layers_confined [OF host_tree_wf demo_root_real _ _ demo_avoids]
    by (simp add: demo_root_def)
  then show ?thesis by (simp add: host_tree_def look_def)
qed

section \<open>The two ways out\<close>

text \<open>A whiteout entry named \<^verbatim>\<open>.wh...\<close> at the top of a layer passes the containment check
  and deletes everything in the directory that holds the root, the other images and the root
  itself included: its target is \<^verbatim>\<open><root>/..\<close>, whose lexical parent is the root.\<close>

theorem whiteout_dotdot_wipes_siblings:
  assumes "real_dir fs (parent @ [name])"
  shows "look (snd (file_whiteout_step lim (parent @ [name]) [WH @ DOTDOT] fs)) q =
    (if strict_prefix parent q then None else look fs q)"
proof -
  let ?root = "parent @ [name]"
  have t: "whiteout_target ?root [WH @ DOTDOT] = ?root @ [DOTDOT]"
    by (simp add: whiteout_target_def WH_def DOTDOT_def)
  have f: "follow lim fs (?root @ [DOTDOT]) = Some parent"
    using resolve_from_root [OF assms, of True lim "[DOTDOT]"] by (simp add: follow_def)
  have d: "look fs parent = Some Dir" using assms by (auto simp: real_dir_def)
  have l: "locate lim fs (?root @ [DOTDOT]) = Some parent"
    using f by (simp add: locate_def)
  have w: "within lim fs ?root ?root" using resolve_root [OF assms, of lim] by (simp add: within_def)
  have "snd (file_whiteout_step lim ?root [WH @ DOTDOT] fs) = filter (\<lambda>(r, _). \<not> strict_prefix parent r) fs"
    unfolding file_whiteout_step_def t apply_file_whiteout_def rm_rf_def fs_rmtree_def Let_def
    using f l d w
    by (simp add: path_exists_def stat_def path_is_symlink_def lstat_def path_is_file_def path_is_dir_def
        butlast_append)
  then show ?thesis by (auto simp: look_def map_of_filter_fst)
qed

lemma whiteout_dotdot_wipes_siblings_witness:
  "look host_tree [''img'', ''b'', ''f''] = Some (Reg ''old'')
   \<and> look (snd (file_whiteout_step 8 ([''img''] @ [''a'']) [WH @ DOTDOT] host_tree)) [''img'', ''b'', ''f''] = None"
  using whiteout_dotdot_wipes_siblings [of host_tree "[''img'']" "''a''" 8 "[''img'', ''b'', ''f'']"] demo_root_real
  by (simp add: demo_root_def host_tree_def look_def)

text \<open>A regular file merged over a directory of the same name is written inside that
  directory, and through a link of that name there: a layer that first plants the link and then
  ships the file overwrites the file the link leads to, wherever it is.\<close>

theorem file_over_directory_escapes:
  assumes "real_dir fs root" and "d \<noteq> DOTDOT" and "\<not> prefix WH d" and "look fs (root @ [d]) = Some Dir"
    and "follow lim fs (root @ [d, d]) = Some q" and "look fs q = Some (Reg old)"
  shows "merge_entry lim root ([d], Reg content) fs = (None, put q (Reg content) fs)"
proof -
  have w: "within lim fs root root" using resolve_root [OF assms(1), of lim] by (simp add: within_def)
  have r: "follow lim fs root = Some root" "look fs root = Some Dir"
    using assms(1) by (auto simp: real_dir_def)
  have l: "locate lim fs (root @ [d]) = Some (root @ [d])" using r assms(2) by (simp add: locate_def)
  have "follow lim fs (root @ [d]) = Some (root @ [d])"
    using resolve_from_snoc [of lim fs "[]" root root d] r assms(2,4) by (simp add: follow_def)
  then have "path_is_dir lim fs (root @ [d])" "\<not> path_is_symlink lim fs (root @ [d])"
    using assms(4) l by (auto simp: path_is_dir_def stat_def path_is_symlink_def lstat_def)
  then show ?thesis
    using assms(3,5,6) w by (simp add: merge_entry_def Let_def unlink_if_def fs_copy2_def fs_write_def)
qed

definition escape_layers :: "layer list" where
  "escape_layers = [[([''key''], Dir), ([''key'', ''key''], Symlink ''/etc/key'')], [([''key''], Reg ''evil'')]]"

definition escape_tree :: fs where
  "escape_tree = put [''img'', ''a'', ''key'', ''key''] (Symlink ''/etc/key'') (put [''img'', ''a'', ''key''] Dir host_tree)"

lemma file_over_directory_escapes_witness:
  "look (snd (merge_entry 8 demo_root ([''key''], Reg ''evil'') escape_tree)) [''etc'', ''key''] = Some (Reg ''evil'')
   \<and> look (snd (unpack_layers 8 demo_root escape_layers host_tree)) [''etc'', ''key''] = Some (Reg ''evil'')"
proof
  have d: "real_dir escape_tree demo_root"
    using demo_root_real by (auto simp: escape_tree_def real_dir_def demo_root_def)
  have f: "follow 8 escape_tree (demo_root @ [''key'', ''key'']) = Some [''etc'', ''key'']" by code_simp
  have "merge_entry 8 demo_root ([''key''], Reg ''evil'') escape_tree = (None, put [''etc'', ''key''] (Reg ''evil'') escape_tree)"
    using f by (intro file_over_directory_escapes [OF d, of "''key''" 8 "[''etc'', ''key'']" "''secret''"])
      (simp_all add: DOTDOT_def WH_def escape_tree_def demo_root_def host_tree_def look_def put_def)
  then show "look (snd (merge_entry 8 demo_root ([''key''], Reg ''evil'') escape_tree)) [''etc'', ''key''] = Some (Reg ''evil'')"
    by simp
  show "look (snd (unpack_layers 8 demo_root escape_layers host_tree)) [''etc'', ''key''] = Some (Reg ''evil'')"
    by code_simp
qed

section \<open>What a merge makes of the root\<close>

text \<open>An entry and what it finds at its target, in the cases an image is supposed to have.\<close>

definition compatible :: "node \<Rightarrow> node option \<Rightarrow> bool" where
  "compatible n old \<longleftrightarrow>
     (case n of
        Dir \<Rightarrow> old = None \<or> old = Some Dir \<or> (\<exists>t. old = Some (Symlink t))
      | Reg _ \<Rightarrow> old = None \<or> (\<exists>c. old = Some (Reg c)) \<or> (\<exists>t. old = Some (Symlink t))
      | Symlink _ \<Rightarrow> old \<noteq> Some Dir
      | Special _ \<Rightarrow> False)"

lemma real_parent_calls:
  assumes "real_dir fs d" and "c \<noteq> DOTDOT"
  shows "follow lim fs d = Some d" "resolve lim fs d = Some d" "locate lim fs (d @ [c]) = Some (d @ [c])"
    and "(\<forall>t. look fs (d @ [c]) \<noteq> Some (Symlink t)) \<Longrightarrow> follow lim fs (d @ [c]) = Some (d @ [c])"
proof -
  have d: "look fs d = Some Dir" using assms(1) by (simp add: real_dir_def)
  show "follow lim fs d = Some d" "resolve lim fs d = Some d" using assms(1) by simp_all
  then show "locate lim fs (d @ [c]) = Some (d @ [c])" using d assms(2) by (simp add: locate_def)
  show "(\<forall>t. look fs (d @ [c]) \<noteq> Some (Symlink t)) \<Longrightarrow> follow lim fs (d @ [c]) = Some (d @ [c])"
    using resolve_from_snoc [of lim fs "[]" d d c] d assms(2) \<open>follow lim fs d = Some d\<close>
    by (simp add: follow_def)
qed

lemma real_dir_drop: "real_dir fs d \<Longrightarrow> \<not> prefix q d \<Longrightarrow> real_dir (drop_node q fs) d"
  by (auto simp: real_dir_def)

lemma merge_entry_effect:
  assumes "real_dir fs d" and "prefix root d" and "c \<noteq> DOTDOT" and "\<not> prefix WH c"
    and "compatible n (look fs (d @ [c]))" and "d = root @ rel"
  shows "\<exists>fs'. merge_entry lim root (rel @ [c], n) fs = (None, fs') \<and>
    (\<forall>q. look fs' q = (if q = d @ [c] then Some n else look fs q))"
proof -
  let ?p = "d @ [c]"
  have p: "root @ rel @ [c] = ?p" using assms(6) by simp
  have w: "within lim fs d root" using real_parent_calls(2) [OF assms(1,3)] assms(2) by (simp add: within_def)
  have bl: "butlast ?p = d" by simp
  note calls = real_parent_calls [OF assms(1,3)]
  have sym: "path_is_symlink lim fs ?p \<longleftrightarrow> (\<exists>t. look fs ?p = Some (Symlink t))"
    using calls(3) by (auto simp: path_is_symlink_def lstat_def split: option.splits node.splits)
  have dir: "real_dir (drop_node ?p fs) d"
    using assms(1) by (intro real_dir_drop) (auto simp: prefix_def)
  note calls' = real_parent_calls [OF dir assms(3)]
  have du: "look fs d = Some Dir" using assms(1) by (simp add: real_dir_def)
  show ?thesis
  proof (cases n)
    case (Reg x)
    then show ?thesis
      using assms(4,5) w sym calls calls' du
      by (auto simp: merge_entry_def p butlast_append compatible_def Let_def unlink_if_def fs_unlink_def
          fs_copy2_def fs_write_def path_is_dir_def stat_def)
  next
    case Dir
    then show ?thesis
      using assms(4,5) w sym calls calls' du
      by (auto simp: merge_entry_def p butlast_append compatible_def Let_def unlink_if_def fs_unlink_def
          fs_mkdir_def path_is_dir_def stat_def)
  next
    case (Symlink t)
    show ?thesis
    proof (cases "look fs ?p")
      case None
      then show ?thesis
        using Symlink assms(4) w sym calls
        by (simp add: merge_entry_def p butlast_append Let_def unlink_if_def path_exists_def stat_def fs_symlink_def)
    next
      case (Some old)
      then have nd: "old \<noteq> Dir" using assms(5) Symlink by (simp add: compatible_def)
      have b: "path_is_symlink lim fs ?p \<or> path_exists lim fs ?p"
        using Some sym calls(4) by (cases old) (auto simp: path_exists_def stat_def)
      have u: "fs_unlink lim ?p fs = (None, drop_node ?p fs)"
        using Some nd calls(3) by (simp add: fs_unlink_def split: node.splits)
      show ?thesis
        using Symlink assms(4) w b u calls'(3)
        by (simp add: merge_entry_def p butlast_append Let_def unlink_if_def fs_symlink_def)
    qed
  next
    case (Special m)
    then show ?thesis using assms(5) by (simp add: compatible_def)
  qed
qed

lemma fs_each_snoc: "fs_each f (xs @ [x]) fs = fs_then (fs_each f xs fs) (f x)"
proof (induction xs arbitrary: fs)
  case Nil
  then show ?case by (simp add: fs_then.simps split: prod.splits) (cases "f x fs"; cases "fst (f x fs)"; auto)
next
  case (Cons y ys)
  then show ?case by (cases "f y fs"; cases "fst (f y fs)") auto
qed

text \<open>A layer as \<^verbatim>\<open>rglob\<close> lists it: every entry after the directory it is in, names that are no
  whiteouts, no path twice.\<close>

definition listed_entry :: "layer \<Rightarrow> path \<times> node \<Rightarrow> bool" where
  "listed_entry seen e \<longleftrightarrow>
     (let rel = fst e in
      rel \<noteq> [] \<and> DOTDOT \<notin> set rel \<and> \<not> prefix WH (last rel) \<and> rel \<notin> fst ` set seen
      \<and> (butlast rel = [] \<or> (butlast rel, Dir) \<in> set seen))"

fun listed_after :: "layer \<Rightarrow> layer \<Rightarrow> bool" where
  "listed_after seen [] = True"
| "listed_after seen (e # es) = (listed_entry seen e \<and> listed_after (seen @ [e]) es)"

lemma listed_snoc: "listed_after seen (xs @ [x]) \<longleftrightarrow> listed_after seen xs \<and> listed_entry (seen @ xs) x"
  by (induction xs arbitrary: seen) auto

lemma listed_distinct: "listed_after [] xs \<Longrightarrow> distinct (map fst xs)"
  by (induction xs rule: rev_induct) (auto simp: listed_snoc listed_entry_def Let_def)

definition overlay :: "path \<Rightarrow> layer \<Rightarrow> fs \<Rightarrow> path \<Rightarrow> node option" where
  "overlay root src fs q =
     (case (if prefix root q then map_of src (drop (length root) q) else None) of
        Some n \<Rightarrow> Some n | None \<Rightarrow> look fs q)"

lemma overlay_snoc:
  assumes "rel \<notin> fst ` set xs"
  shows "overlay root (xs @ [(rel, n)]) fs q = (if q = root @ rel then Some n else overlay root xs fs q)"
proof -
  have "map_of xs rel = None" using assms by (simp add: map_of_eq_None_iff)
  then have "map_of (xs @ [(rel, n)]) s = (if s = rel then Some n else map_of xs s)" for s
    by (auto simp: map_add_def split: option.splits)
  then show ?thesis by (auto simp: overlay_def prefix_def)
qed

lemma overlay_parent:
  assumes "fs_wf fs1" and "real_dir fs root" and "\<forall>q. look fs1 q = overlay root xs fs q"
    and "listed_after [] xs" and "\<forall>e \<in> set xs. fst e \<noteq> []"
    and "DOTDOT \<notin> set rel" and "rel = [] \<or> (rel, Dir) \<in> set xs"
  shows "real_dir fs1 (root @ rel)"
proof (rule wf_real_dir [OF assms(1)])
  show "DOTDOT \<notin> set (root @ rel)" using assms(2,6) by (simp add: real_dir_def)
  show "look fs1 (root @ rel) = Some Dir"
  proof (cases "rel = []")
    case True
    have "map_of xs [] = None" using assms(5) by (auto simp: map_of_eq_None_iff)
    then show ?thesis using True assms(2,3) by (simp add: overlay_def real_dir_def)
  next
    case False
    then have "map_of xs rel = Some Dir"
      using assms(7) listed_distinct [OF assms(4)] by (simp add: map_of_is_SomeI)
    then show ?thesis using assms(3) by (simp add: overlay_def)
  qed
qed

lemma merge_overlay_aux:
  assumes wf: "fs_wf fs" and rd: "real_dir fs root"
  shows "listed_after [] src \<Longrightarrow> \<forall>(rel, n) \<in> set src. compatible n (look fs (root @ rel)) \<Longrightarrow>
    \<exists>fs'. merge_tree lim root src fs = (None, fs') \<and> fs_wf fs' \<and> (\<forall>q. look fs' q = overlay root src fs q)"
proof (induction src rule: rev_induct)
  case Nil
  then show ?case using wf by (auto simp: merge_tree_def overlay_def split: option.splits)
next
  case (snoc e xs)
  obtain rel n where e: "e = (rel, n)" by (meson surj_pair)
  have le: "listed_after [] xs" "listed_entry xs (rel, n)" using snoc.prems(1) e by (auto simp: listed_snoc)
  then have r: "rel \<noteq> []" "DOTDOT \<notin> set rel" "\<not> prefix WH (last rel)" "rel \<notin> fst ` set xs"
    "butlast rel = [] \<or> (butlast rel, Dir) \<in> set xs" by (auto simp: listed_entry_def Let_def)
  obtain fs1 where 1: "merge_tree lim root xs fs = (None, fs1)" "fs_wf fs1"
    "\<forall>q. look fs1 q = overlay root xs fs q" using snoc.IH [OF le(1)] snoc.prems(2) by auto
  have ne: "\<forall>e \<in> set xs. fst e \<noteq> []"
    using le(1) by (induction xs rule: rev_induct) (auto simp: listed_snoc listed_entry_def Let_def)
  have nd: "DOTDOT \<notin> set (butlast rel)" "last rel \<noteq> DOTDOT"
    using r(1,2) by (auto dest: in_set_butlastD) (metis last_in_set)
  have rd1: "real_dir fs1 (root @ butlast rel)"
    by (rule overlay_parent [OF 1(2) rd 1(3) le(1) ne nd(1) r(5)])
  have eq: "(root @ butlast rel) @ [last rel] = root @ rel" using r(1) by simp
  have old: "look fs1 (root @ rel) = look fs (root @ rel)"
    using 1(3) r(4) by (auto simp: overlay_def map_of_eq_None_iff split: option.splits)
      (metis map_of_SomeD fst_conv image_eqI)
  have cp: "compatible n (look fs1 ((root @ butlast rel) @ [last rel]))"
    using snoc.prems(2) e old eq by simp
  obtain fs2 where 2: "merge_entry lim root (butlast rel @ [last rel], n) fs1 = (None, fs2)"
    "\<forall>q. look fs2 q = (if q = (root @ butlast rel) @ [last rel] then Some n else look fs1 q)"
    using merge_entry_effect [OF rd1 _ nd(2) r(3) cp refl, of lim] by auto
  have "fs_wf (put (root @ rel) n fs1)"
    using cp rd1 r(1) unfolding eq
    by (intro fs_wf_put [OF 1(2)]) (auto simp: butlast_append real_dir_def compatible_def split: node.splits)
  then have wf2: "fs_wf fs2" using 2(2) r(1) unfolding eq fs_wf_def by simp
  have "look fs2 q = overlay root (xs @ [e]) fs q" for q
    using 2(2) 1(3) overlay_snoc [OF r(4)] unfolding eq e by simp
  then show ?case
    using 1(1) 2(1) r(1) wf2 by (simp add: merge_tree_def fs_each_snoc e)
qed

text \<open>C2: Merging a well-formed layer is an overlay.  A layer listed parents first, whose entries
  are files, directories and links that meet nothing of an incompatible kind at their paths,
  merges without error, and afterwards every path of the layer has the layer's node and every
  other path, inside the root and outside, has the node it had.\<close>

theorem merge_tree_is_overlay:
  assumes "fs_wf fs" and "real_dir fs root" and "listed_after [] src"
    and "\<forall>(rel, n) \<in> set src. compatible n (look fs (root @ rel))"
  shows "fst (merge_tree lim root src fs) = None
    \<and> (\<forall>q. look (snd (merge_tree lim root src fs)) q = overlay root src fs q)"
  using merge_overlay_aux [OF assms(1,2,3,4), of lim] by auto

lemma merge_tree_is_overlay_witness:
  "look (snd (merge_tree 8 demo_root (hd demo_layers) host_tree)) [''img'', ''a'', ''usr'', ''x''] = Some (Symlink ''/etc'')"
proof -
  have "listed_after [] (hd demo_layers)"
    by (simp add: demo_layers_def listed_entry_def DOTDOT_def WH_def)
  moreover have "\<forall>(rel, n) \<in> set (hd demo_layers). compatible n (look host_tree (demo_root @ rel))"
    by (simp add: demo_layers_def compatible_def demo_root_def host_tree_def look_def)
  ultimately show ?thesis
    using merge_tree_is_overlay [OF host_tree_wf demo_root_real, of "hd demo_layers" 8]
    by (simp add: overlay_def demo_root_def demo_layers_def)
qed

end
