(* ===== verification/StoreRun.thy ===== *)
theory StoreRun
  imports StoreMerge "HOL-Library.Product_Lexorder" "HOL-Library.Multiset"
begin

text \<open>
  \<^verbatim>\<open>store/store.py\<close>, the life of one run's root filesystem: the configuration of the store, the
  handle, clone and empty root, bind mounts, unmounting and destruction, and the provisioning
  of bases.  The host is the file tree and whatever else the external commands change; a
  command is a parameter that answers an argv (with working directory and extra environment)
  and changes the host.  Identifiers, digests and the clock are arguments.  Paths are absolute.
\<close>

section \<open>Results and commands\<close>

datatype store_exc =
    Command_failed int "string list"
  | Command_not_run string "string list" "string list"
  | Snapshot_not_found string
  | Image_not_found string
  | Outside_rootfs string path path
  | Tree_error fs_error
  | Bad_backend string
  | Other_error string

type_synonym 'w host = "fs \<times> 'w"
type_synonym 'w runner = "string option \<Rightarrow> (string \<times> string) list \<Rightarrow> string list \<Rightarrow> 'w host \<Rightarrow> cmd_result \<times> 'w host"
type_synonym ('a, 'w) act = "'w host \<Rightarrow> (store_exc + 'a) \<times> 'w host"

definition give :: "'a \<Rightarrow> ('a, 'w) act" where "give x h = (Inr x, h)"

definition raise_exc :: "store_exc \<Rightarrow> ('a, 'w) act" where "raise_exc e h = (Inl e, h)"

definition then_do :: "('a, 'w) act \<Rightarrow> ('a \<Rightarrow> ('b, 'w) act) \<Rightarrow> ('b, 'w) act" where
  "then_do m f h = (case m h of (Inl e, h') \<Rightarrow> (Inl e, h') | (Inr x, h') \<Rightarrow> f x h')"

definition on_tree :: "(fs \<Rightarrow> fs_result) \<Rightarrow> (unit, 'w) act" where
  "on_tree f h = (case f (fst h) of
     (None, fs') \<Rightarrow> (Inr (), (fs', snd h))
   | (Some e, fs') \<Rightarrow> (Inl (Tree_error e), (fs', snd h)))"

definition redact_argv :: "string list \<Rightarrow> string list \<Rightarrow> string list" where
  "redact_argv cmd redact =
     (if redact = [] then cmd
      else map (\<lambda>part. if part \<in> set redact then ''***REDACTED***'' else part) cmd)"

text \<open>\<^verbatim>\<open>_run\<close>: the exception holds the command as it is shown, redacted.  Where the command could not
  be run, the exception is raised \<^verbatim>\<open>from\<close> that of \<^verbatim>\<open>subprocess.run\<close>, which holds the command as it is:
  the last argument of \<open>Command_not_run\<close>.\<close>

definition store_run ::
  "'w runner \<Rightarrow> string option \<Rightarrow> (string \<times> string) list \<Rightarrow> string list \<Rightarrow> string list \<Rightarrow> (string, 'w) act" where
  "store_run t cwd env redact cmd h =
     (case t cwd env cmd h of
        (Spawn_error e, h') \<Rightarrow> (Inl (Command_not_run e (redact_argv cmd redact) cmd), h')
      | (Completed rc out err, h') \<Rightarrow>
          (if rc \<noteq> 0 then (Inl (Command_failed rc (redact_argv cmd redact)), h') else (Inr out, h')))"

definition run_plain :: "'w runner \<Rightarrow> string list \<Rightarrow> (string, 'w) act" where
  "run_plain t cmd = store_run t None [] [] cmd"

definition store_run_ok :: "'w runner \<Rightarrow> string list \<Rightarrow> 'w host \<Rightarrow> (int \<times> string \<times> string) \<times> 'w host" where
  "store_run_ok t cmd h = run_ok (t None []) cmd h"

section \<open>Configuration\<close>

datatype backend = Zfs | Plaindir

definition backend_of :: "string \<Rightarrow> backend option" where
  "backend_of s = (if s = ''zfs'' then Some Zfs else if s = ''plaindir'' then Some Plaindir else None)"

type_synonym env = "string \<Rightarrow> string option"

definition store_backend_env :: "env \<Rightarrow> store_exc + backend" where
  "store_backend_env env =
     (let val = py_lower (py_strip (getenv_or (env ''JAILRUN_STORE_BACKEND'') ''zfs''))
      in case backend_of val of Some b \<Rightarrow> Inr b
         | None \<Rightarrow> Inl (Bad_backend (''Unknown JAILRUN_STORE_BACKEND='' @ py_repr val)))"

definition zpool_env :: "env \<Rightarrow> string" where
  "zpool_env env = py_strip (getenv_or (env ''JAILRUN_ZPOOL'') ''jailrun'')"

definition mountpoint_base_env :: "env \<Rightarrow> string" where
  "mountpoint_base_env env = py_strip (getenv_or (env ''JAILRUN_MOUNTPOINT_BASE'') ''/var/jailrun'')"

definition registry_authfile_env :: "env \<Rightarrow> string" where
  "registry_authfile_env env = py_strip (getenv_or (env ''JAILRUN_REGISTRY_AUTHFILE'') [])"

definition extraction_jail_enabled :: "env \<Rightarrow> bool" where
  "extraction_jail_enabled env \<longleftrightarrow>
     py_lower (py_strip (getenv_or (env ''JAILRUN_EXTRACT_IN_JAIL'') ''0'')) \<in> set [''1'', ''true'', ''yes'']"

record store =
  st_backend :: backend
  st_pool :: string
  st_cache :: path
  st_base :: path
  st_umoci :: bool
  st_images_ds :: string
  st_bases_ds :: string
  st_runs_ds :: string

definition store_init ::
  "env \<Rightarrow> string option \<Rightarrow> path \<Rightarrow> string option \<Rightarrow> bool \<Rightarrow> string option \<Rightarrow> store_exc + store" where
  "store_init env pool oci_cache_dir mountpoint_base umoci backend =
     try_bind (case backend of
                 Some b \<Rightarrow> (case backend_of b of Some k \<Rightarrow> Inr k
                            | None \<Rightarrow> Inl (Bad_backend (''Invalid backend: '' @ py_repr b)))
               | None \<Rightarrow> store_backend_env env)
       (\<lambda>k. let p = (if k = Zfs then getenv_or pool (zpool_env env) else []);
                base = components (getenv_or mountpoint_base (mountpoint_base_env env));
                ds = (\<lambda>d. if k = Zfs then p @ ''/'' @ d else path_str (base @ [d]))
            in Inr \<lparr> st_backend = k, st_pool = p, st_cache = oci_cache_dir, st_base = base, st_umoci = umoci,
                     st_images_ds = ds ''images'', st_bases_ds = ds ''bases'', st_runs_ds = ds ''runs'' \<rparr>)"

definition safe_char :: "char \<Rightarrow> bool" where
  "safe_char c \<longleftrightarrow> is_alnum c \<or> c \<in> set ''._-''"

text \<open>One underscore per character: the later bytes of a multi-byte character are dropped.\<close>

definition continuation_byte :: "char \<Rightarrow> bool" where
  "continuation_byte c \<longleftrightarrow> (let n = of_char c :: nat in 128 \<le> n \<and> n < 192)"

definition safe_zfs_name :: "string \<Rightarrow> string" where
  "safe_zfs_name s = map (\<lambda>c. if safe_char c then c else CHR ''_'') (filter (\<lambda>c. \<not> continuation_byte c) s)"

section \<open>Handles\<close>

record handle =
  h_id :: string
  h_rootfs :: path
  h_dataset :: string
  h_snapshot_id :: string
  h_mounts :: "(string \<times> path \<times> bool) list"
  h_jail_name :: "string option"
  h_thin :: bool

definition new_handle :: "string \<Rightarrow> path \<Rightarrow> string \<Rightarrow> string \<Rightarrow> handle" where
  "new_handle run_id rootfs dataset snapshot_id =
     \<lparr> h_id = run_id, h_rootfs = rootfs, h_dataset = dataset, h_snapshot_id = snapshot_id,
       h_mounts = [], h_jail_name = None, h_thin = False \<rparr>"

section \<open>Directories and snapshots\<close>

text \<open>\<^verbatim>\<open>Path.mkdir(parents=True, exist_ok=True)\<close>.\<close>

function fs_mkdirs :: "nat \<Rightarrow> path \<Rightarrow> fs \<Rightarrow> fs_result" where
  "fs_mkdirs lim p fs =
     (if p = [] then (None, fs)
      else if locate lim fs p = None
      then fs_then (fs_mkdirs lim (butlast p) fs) (fs_mkdir lim p)
      else fs_mkdir lim p fs)"
  by pat_completeness auto
termination by (relation "measure (\<lambda>(_, p, _). length p)") auto

declare fs_mkdirs.simps [simp del]

definition fs_rmdir :: "nat \<Rightarrow> path \<Rightarrow> fs \<Rightarrow> fs_result" where
  "fs_rmdir lim p fs =
     (case locate lim fs p of
        None \<Rightarrow> (Some (Os_error ''ENOENT''), fs)
      | Some q \<Rightarrow> if look fs q \<noteq> Some Dir then (Some (Os_error ''ENOTDIR''), fs)
                  else if list_ex (\<lambda>(r, _). strict_prefix q r) fs then (Some (Os_error ''ENOTEMPTY''), fs)
                  else (None, drop_node q fs))"

definition zfs_snapshot_exists :: "'w runner \<Rightarrow> string \<Rightarrow> (bool, 'w) act" where
  "zfs_snapshot_exists t snapshot_id h =
     (let ((rc, _), h') = store_run_ok t [''zfs'', ''list'', ''-H'', ''-t'', ''snapshot'', ''-o'', ''name'', snapshot_id] h
      in (Inr (rc = 0), h'))"

definition tree_exists :: "nat \<Rightarrow> path \<Rightarrow> (bool, 'w) act" where
  "tree_exists lim p h = (Inr (path_exists lim (fst h) p), h)"

definition SENTINEL :: string where "SENTINEL = ''.jailrun_snap''"

definition image_exists_locally :: "'w runner \<Rightarrow> nat \<Rightarrow> store \<Rightarrow> string \<Rightarrow> (bool, 'w) act" where
  "image_exists_locally t lim st image_id =
     (case st_backend st of
        Zfs \<Rightarrow> zfs_snapshot_exists t (st_images_ds st @ ''/'' @ image_id @ ''@snap'')
      | Plaindir \<Rightarrow> tree_exists lim (components (st_images_ds st) @ components image_id @ [SENTINEL]))"

definition base_snapshot :: "'w runner \<Rightarrow> nat \<Rightarrow> store \<Rightarrow> string \<Rightarrow> (string, 'w) act" where
  "base_snapshot t lim st name =
     (let safe = safe_zfs_name name in
      case st_backend st of
        Zfs \<Rightarrow> (let snapshot_id = st_bases_ds st @ ''/'' @ safe @ ''@snap'' in
                then_do (zfs_snapshot_exists t snapshot_id)
                  (\<lambda>ok. if ok then give snapshot_id else raise_exc (Snapshot_not_found snapshot_id)))
      | Plaindir \<Rightarrow> (let dest = components (st_bases_ds st) @ components safe in
                (\<lambda>h. if path_is_dir lim (fst h) dest then give (path_str dest) h
                     else raise_exc (Snapshot_not_found (path_str dest)) h)))"

definition base_mountpoint :: "store \<Rightarrow> string \<Rightarrow> path" where
  "base_mountpoint st snapshot_id =
     (case st_backend st of
        Zfs \<Rightarrow> (let dataset = hd (py_split (CHR ''@'') snapshot_id)
                in st_base st @ ''bases'' # components (py_after_last (CHR ''/'') dataset))
      | Plaindir \<Rightarrow> components snapshot_id)"

section \<open>Clones\<close>

definition run_mountpoint :: "store \<Rightarrow> string \<Rightarrow> path" where
  "run_mountpoint st run_id = st_base st @ [''runs'', run_id]"

definition clone_zfs :: "'w runner \<Rightarrow> nat \<Rightarrow> store \<Rightarrow> string \<Rightarrow> string \<Rightarrow> (path \<times> handle, 'w) act" where
  "clone_zfs t lim st run_id snapshot_id =
     then_do (zfs_snapshot_exists t snapshot_id) (\<lambda>ok.
       if \<not> ok then raise_exc (Snapshot_not_found snapshot_id)
       else (let clone_dataset = st_runs_ds st @ ''/'' @ run_id; mountpoint = run_mountpoint st run_id in
             then_do (on_tree (fs_mkdirs lim mountpoint)) (\<lambda>_.
             then_do (run_plain t [''zfs'', ''clone'', ''-p'', ''-o'', ''mountpoint='' @ path_str mountpoint,
                                   snapshot_id, clone_dataset]) (\<lambda>_.
             give (mountpoint, new_handle run_id mountpoint clone_dataset snapshot_id)))))"

definition clone_plaindir :: "'w runner \<Rightarrow> nat \<Rightarrow> store \<Rightarrow> string \<Rightarrow> string \<Rightarrow> (path \<times> handle, 'w) act" where
  "clone_plaindir t lim st run_id snapshot_id =
     (let src = components snapshot_id in
      then_do (tree_exists lim src) (\<lambda>ok.
        if \<not> ok then raise_exc (Snapshot_not_found snapshot_id)
        else (let runs_dir = components (st_runs_ds st); dest = runs_dir @ [run_id]; sentinel = dest @ [SENTINEL] in
              then_do (on_tree (fs_mkdirs lim runs_dir)) (\<lambda>_.
              then_do (run_plain t [''cp'', ''-a'', path_str src, path_str dest]) (\<lambda>_.
              then_do (tree_exists lim sentinel) (\<lambda>s.
              then_do (if s then on_tree (fs_unlink lim sentinel) else give ()) (\<lambda>_.
              give (dest, new_handle run_id dest (path_str dest) snapshot_id))))))))"

definition clone :: "'w runner \<Rightarrow> nat \<Rightarrow> store \<Rightarrow> string \<Rightarrow> string \<Rightarrow> (path \<times> handle, 'w) act" where
  "clone t lim st run_id snapshot_id =
     (case st_backend st of
        Zfs \<Rightarrow> clone_zfs t lim st run_id snapshot_id
      | Plaindir \<Rightarrow> clone_plaindir t lim st run_id snapshot_id)"

fun mkdirs_all :: "nat \<Rightarrow> path list \<Rightarrow> (unit, 'w) act" where
  "mkdirs_all lim [] = give ()"
| "mkdirs_all lim (p # ps) = then_do (on_tree (fs_mkdirs lim p)) (\<lambda>_. mkdirs_all lim ps)"

definition SKELETON :: "string list" where
  "SKELETON = [''tmp'', ''var'', ''etc'', ''dev'', ''root'', ''home'']"

definition empty_rootfs :: "nat \<Rightarrow> store \<Rightarrow> string \<Rightarrow> (path \<times> handle, 'w) act" where
  "empty_rootfs lim st run_id =
     (let dest = run_mountpoint st run_id in
      then_do (on_tree (fs_mkdirs lim dest)) (\<lambda>_.
      then_do (mkdirs_all lim (map (\<lambda>d. dest @ [d]) SKELETON)) (\<lambda>_.
      give (dest, (new_handle run_id dest (path_str dest) ''thin:empty'') \<lparr> h_thin := True \<rparr>))))"

section \<open>Paths as text\<close>

text \<open>A path of plain names is the one its text is taken for.\<close>

definition plain_path :: "path \<Rightarrow> bool" where
  "plain_path p \<longleftrightarrow> p \<noteq> [] \<and> list_all (\<lambda>c. c \<noteq> [] \<and> c \<noteq> ''.'' \<and> CHR ''/'' \<notin> set c) p"

lemma components_path_str:
  assumes "plain_path p"
  shows "components (path_str p) = p"
proof -
  have "py_split (CHR ''/'') (path_str p) = [] # p"
    using assms py_split_append [of "CHR ''/''" "[]" "py_join ''/'' p"]
    by (simp add: path_str_def plain_path_def list_all_iff py_split_join)
  then show ?thesis using assms by (simp add: components_def plain_path_def list_all_iff filter_id_conv)
qed

section \<open>Bind mounts\<close>

text \<open>\<^verbatim>\<open>str(Path(s))\<close>: separators and dots collapsed, exactly two leading slashes kept.\<close>

definition py_path_norm :: "string \<Rightarrow> string" where
  "py_path_norm s =
     (let root = (if prefix ''//'' s \<and> \<not> prefix ''///'' s then ''//'' else if prefix ''/'' s then ''/'' else []);
          body = root @ py_join ''/'' (components s)
      in if body = [] then ''.'' else body)"

definition bind_dest :: "handle \<Rightarrow> string \<Rightarrow> path" where
  "bind_dest hdl dest_raw = h_rootfs hdl @ components (py_lstrip_char (CHR ''/'') dest_raw)"

definition mount_cmd :: "string \<Rightarrow> path \<Rightarrow> bool \<Rightarrow> string list" where
  "mount_cmd host_raw dest ro =
     [''mount_nullfs''] @ (if ro then [''-o'', ''ro''] else []) @ [py_path_norm host_raw, path_str dest]"

text \<open>The handle is changed in place, so it is returned on the error path too.\<close>

fun mount_binds ::
  "'w runner \<Rightarrow> nat \<Rightarrow> path \<Rightarrow> (string \<times> string \<times> bool) list \<Rightarrow> handle \<Rightarrow> 'w host \<Rightarrow> (store_exc + unit) \<times> handle \<times> 'w host" where
  "mount_binds t lim rootfs_real [] hdl h = (Inr (), hdl, h)"
| "mount_binds t lim rootfs_real ((host_raw, dest_raw, ro) # bs) hdl h =
     (let dest = bind_dest hdl dest_raw in
      if \<not> within lim (fst h) dest rootfs_real
      then (Inl (Outside_rootfs dest_raw dest rootfs_real), hdl, h)
      else (case then_do (on_tree (fs_mkdirs lim dest)) (\<lambda>_. run_plain t (mount_cmd host_raw dest ro)) h of
              (Inl e, h') \<Rightarrow> (Inl e, hdl, h')
            | (Inr _, h') \<Rightarrow>
                mount_binds t lim rootfs_real bs
                  (hdl \<lparr> h_mounts := h_mounts hdl @ [(py_path_norm host_raw, dest, ro)] \<rparr>) h'))"

definition store_mount ::
  "'w runner \<Rightarrow> nat \<Rightarrow> (string \<times> string \<times> bool) list option \<Rightarrow> handle \<Rightarrow> 'w host \<Rightarrow> (store_exc + unit) \<times> handle \<times> 'w host" where
  "store_mount t lim binds hdl h =
     (case binds of
        None \<Rightarrow> (Inr (), hdl, h)
      | Some bs \<Rightarrow>
          (case resolve lim (fst h) (h_rootfs hdl) of
             None \<Rightarrow> (Inl (Other_error ''Symlink loop''), hdl, h)
           | Some rootfs_real \<Rightarrow> mount_binds t lim rootfs_real bs hdl h))"

lemma mount_binds_handle: "h_id (fst (snd (mount_binds t lim root bs hdl h))) = h_id hdl"
  by (induction t lim root bs hdl h rule: mount_binds.induct) (simp add: Let_def split: prod.split sum.split)+

lemma store_mount_handle: "h_id (fst (snd (store_mount t lim binds hdl h))) = h_id hdl"
  by (simp add: store_mount_def mount_binds_handle split: option.split)

definition mounts_deepest_first :: "(string \<times> path \<times> bool) list \<Rightarrow> (string \<times> path \<times> bool) list" where
  "mounts_deepest_first mounts =
     map snd (rev (sort_key (\<lambda>(i, _, dest, _). (Suc (length dest), i)) (enumerate (0::nat) mounts)))"

definition umount_cmd :: "path \<Rightarrow> string list" where "umount_cmd dest = [''umount'', path_str dest]"

definition force_umount_cmd :: "path \<Rightarrow> string list" where
  "force_umount_cmd dest = [''umount'', ''-f'', path_str dest]"

definition umount_one :: "'w runner \<Rightarrow> path \<Rightarrow> 'w host \<Rightarrow> 'w host" where
  "umount_one t dest h =
     (let ((rc, _), h') = store_run_ok t (umount_cmd dest) h
      in if rc \<noteq> 0 then snd (store_run_ok t (force_umount_cmd dest) h') else h')"

definition unmount :: "'w runner \<Rightarrow> handle \<Rightarrow> 'w host \<Rightarrow> handle \<times> 'w host" where
  "unmount t hdl h =
     (hdl \<lparr> h_mounts := [] \<rparr>, fold (\<lambda>(_, dest, _). umount_one t dest) (mounts_deepest_first (h_mounts hdl)) h)"

section \<open>Destruction\<close>

fun destroy_attempts :: "'w runner \<Rightarrow> string \<Rightarrow> nat list \<Rightarrow> store_exc option \<Rightarrow> 'w host \<Rightarrow> store_exc option \<times> 'w host" where
  "destroy_attempts t dataset [] last_exc h = (last_exc, h)"
| "destroy_attempts t dataset (a # as) last_exc h =
     (case run_plain t ([''zfs'', ''destroy''] @ (if 1 \<le> a then [''-f''] else []) @ [dataset]) h of
        (Inr _, h') \<Rightarrow> (None, h')
      | (Inl e, h') \<Rightarrow> destroy_attempts t dataset as (Some e) h')"

definition destroy_dataset_zfs :: "'w runner \<Rightarrow> nat \<Rightarrow> handle \<Rightarrow> (unit, 'w) act" where
  "destroy_dataset_zfs t lim hdl h =
     (case destroy_attempts t (h_dataset hdl) [0, 1, 2] None h of
        (Some e, h') \<Rightarrow> (Inl e, h')
      | (None, h') \<Rightarrow> (Inr (), (snd (fs_rmdir lim (h_rootfs hdl) (fst h')), snd h')))"

definition destroy :: "'w runner \<Rightarrow> nat \<Rightarrow> store \<Rightarrow> handle \<Rightarrow> 'w host \<Rightarrow> (store_exc + unit) \<times> handle \<times> 'w host" where
  "destroy t lim st hdl h =
     (let h1 = (case h_jail_name hdl of
                  Some n \<Rightarrow> if n = [] then h else snd (store_run_ok t [''jail'', ''-r'', n] h)
                | None \<Rightarrow> h);
          (hdl2, h2) = unmount t hdl h1;
          (res, h3) = (if h_thin hdl2 then on_tree (rm_rf lim (h_rootfs hdl2)) h2
                       else (case st_backend st of
                               Zfs \<Rightarrow> destroy_dataset_zfs t lim hdl2 h2
                             | Plaindir \<Rightarrow> on_tree (rm_rf lim (h_rootfs hdl2)) h2))
      in (res, hdl2, h3))"

section \<open>Bases\<close>

text \<open>\<^verbatim>\<open>shutil.copytree(src, dst, symlinks=True)\<close> into a directory that does not exist yet; an
  error leaves a part and is only logged by the caller.\<close>

definition copied_nodes :: "path \<Rightarrow> fs \<Rightarrow> fs" where
  "copied_nodes q fs =
     map (\<lambda>(r, n). (drop (length q) r, n))
       (filter (\<lambda>(r, n). strict_prefix q r \<and> (case n of Special _ \<Rightarrow> False | _ \<Rightarrow> True)) fs)"

definition fs_copytree :: "nat \<Rightarrow> path \<Rightarrow> path \<Rightarrow> fs \<Rightarrow> fs" where
  "fs_copytree lim src dst fs =
     (case follow lim fs src of
        None \<Rightarrow> fs
      | Some q \<Rightarrow>
          if look fs q \<noteq> Some Dir then fs
          else (case fs_mkdirs lim dst fs of
                  (Some _, fs') \<Rightarrow> fs'
                | (None, fs') \<Rightarrow>
                    (case follow lim fs' dst of
                       None \<Rightarrow> fs'
                     | Some d \<Rightarrow> fold (\<lambda>(r, n) g. put (d @ r) n g) (copied_nodes q fs) fs')))"

definition HOST_KEYS :: path where "HOST_KEYS = [''usr'', ''share'', ''keys'']"

definition seed_pkg_trust_keys :: "nat \<Rightarrow> path \<Rightarrow> fs \<Rightarrow> fs_result" where
  "seed_pkg_trust_keys lim mountpoint fs =
     (if \<not> path_is_dir lim fs HOST_KEYS then (None, fs)
      else (let dst_keys = mountpoint @ [''usr'', ''share'', ''keys'']
            in fs_then (fs_mkdirs lim dst_keys fs)
                 (\<lambda>fs1. (None, fold (\<lambda>name g.
                     if name \<noteq> ''pkg'' \<and> \<not> prefix ''pkgbase-'' name then g
                     else if path_exists lim g (dst_keys @ [name]) then g
                     else fs_copytree lim (HOST_KEYS @ [name]) (dst_keys @ [name]) g)
                   (child_names fs1 HOST_KEYS) fs1))))"

definition provision :: "'w runner \<Rightarrow> path \<Rightarrow> string \<Rightarrow> (string, 'w) act" where
  "provision t dest provision_cmd =
     store_run t (Some (path_str dest)) [(''JAILRUN_BASE_ROOT'', path_str dest)] [] [''sh'', ''-c'', provision_cmd]"

definition register_base_zfs :: "'w runner \<Rightarrow> nat \<Rightarrow> store \<Rightarrow> string \<Rightarrow> string \<Rightarrow> (string, 'w) act" where
  "register_base_zfs t lim st suf provision_cmd =
     (let dataset = st_bases_ds st @ ''/'' @ suf; snapshot_id = dataset @ ''@snap'';
          mountpoint = st_base st @ [''bases'', suf]
      in then_do (zfs_snapshot_exists t snapshot_id) (\<lambda>ok.
         if ok then give snapshot_id
         else then_do (on_tree (fs_mkdirs lim mountpoint)) (\<lambda>_.
              then_do (run_plain t [''zfs'', ''create'', ''-p'', ''-o'', ''mountpoint='' @ path_str mountpoint, dataset]) (\<lambda>_.
              then_do (on_tree (seed_pkg_trust_keys lim mountpoint)) (\<lambda>_.
              then_do (provision t mountpoint provision_cmd) (\<lambda>_.
              then_do (run_plain t [''zfs'', ''snapshot'', snapshot_id]) (\<lambda>_.
              then_do (run_plain t [''zfs'', ''set'', ''readonly=on'', dataset]) (\<lambda>_.
              give snapshot_id))))))))"

definition register_base_plaindir :: "'w runner \<Rightarrow> nat \<Rightarrow> store \<Rightarrow> string \<Rightarrow> string \<Rightarrow> (string, 'w) act" where
  "register_base_plaindir t lim st suf provision_cmd =
     (let dest = components (st_bases_ds st) @ [suf]; sentinel = dest @ [SENTINEL]
      in then_do (tree_exists lim sentinel) (\<lambda>ok.
         if ok then give (path_str dest)
         else then_do (on_tree (fs_mkdirs lim dest)) (\<lambda>_.
              then_do (on_tree (seed_pkg_trust_keys lim dest)) (\<lambda>_.
              then_do (provision t dest provision_cmd) (\<lambda>_.
              then_do (on_tree (fs_write lim suf sentinel)) (\<lambda>_.
              give (path_str dest)))))))"

definition register_base :: "(string \<Rightarrow> string) \<Rightarrow> 'w runner \<Rightarrow> nat \<Rightarrow> store \<Rightarrow> string \<Rightarrow> string \<Rightarrow> (string, 'w) act" where
  "register_base sha256 t lim st name provision_cmd =
     (let suf = safe_zfs_name name @ ''-'' @ take 16 (sha256 provision_cmd)
      in case st_backend st of
           Zfs \<Rightarrow> register_base_zfs t lim st suf provision_cmd
         | Plaindir \<Rightarrow> register_base_plaindir t lim st suf provision_cmd)"

section \<open>Committing a run\<close>

definition commit_image ::
  "(string \<Rightarrow> string) \<Rightarrow> string \<Rightarrow> string \<Rightarrow> 'w runner \<Rightarrow> store \<Rightarrow> string \<Rightarrow> string option \<Rightarrow> (string, 'w) act" where
  "commit_image sha256 now uuid t st dataset image_ref =
     (if st_backend st \<noteq> Zfs then raise_exc (Other_error ''commit_image is only supported on ZFS backend'')
      else (let snap_tag = (if getenv_or image_ref [] \<noteq> [] then safe_zfs_name (the image_ref) else take 16 uuid);
                commit_snap = dataset @ ''@'' @ snap_tag;
                image_id = sha256 (commit_snap @ '':'' @ now);
                image_ds = st_images_ds st @ ''/'' @ image_id
            in then_do (run_plain t [''zfs'', ''snapshot'', commit_snap]) (\<lambda>_.
               then_do (run_plain t [''zfs'', ''clone'', ''-o'',
                          ''mountpoint='' @ path_str (st_base st @ [''images'', image_id]), commit_snap, image_ds]) (\<lambda>_.
               then_do (run_plain t [''zfs'', ''snapshot'', image_ds @ ''@snap'']) (\<lambda>_.
               then_do (run_plain t [''zfs'', ''set'', ''readonly=on'', image_ds]) (\<lambda>_.
               give image_id))))))"

section \<open>Unmounting and destruction\<close>

text \<open>A host whose commands leave the tree alone, answer as \<^verbatim>\<open>f\<close> says and are logged.\<close>

definition answering :: "(string list \<Rightarrow> cmd_result) \<Rightarrow> string list list runner" where
  "answering f cwd env argv h = (f argv, (fst h, snd h @ [argv]))"

lemma run_ok_answering [simp]:
  "snd (store_run_ok (answering f) argv h) = (fst h, snd h @ [argv])"
  "fst (fst (store_run_ok (answering f) argv h)) = 0 \<longleftrightarrow> answers_ok f argv"
  by (auto simp: store_run_ok_def run_ok_def answering_def answers_ok_def split: cmd_result.splits)

lemma run_plain_answering:
  "run_plain (answering f) argv h =
     (if answers_ok f argv then (Inr (cmd_out (f argv)), (fst h, snd h @ [argv]))
      else (Inl (case f argv of Spawn_error e \<Rightarrow> Command_not_run e argv argv
                 | Completed rc _ _ \<Rightarrow> Command_failed rc argv), (fst h, snd h @ [argv])))"
  by (simp add: run_plain_def store_run_def answering_def answers_ok_def redact_argv_def split: cmd_result.split)

definition umount_tries :: "(string list \<Rightarrow> cmd_result) \<Rightarrow> path \<Rightarrow> string list list" where
  "umount_tries f dest = umount_cmd dest # (if answers_ok f (umount_cmd dest) then [] else [force_umount_cmd dest])"

lemma umount_one_answering:
  "umount_one (answering f) dest h = (fst h, snd h @ umount_tries f dest)"
proof -
  obtain rc o' h' where r: "store_run_ok (answering f) (umount_cmd dest) h = ((rc, o'), h')" by (metis prod.collapse)
  then have "h' = (fst h, snd h @ [umount_cmd dest])" "rc = 0 \<longleftrightarrow> answers_ok f (umount_cmd dest)"
    using run_ok_answering [of f "umount_cmd dest" h] by simp_all
  then show ?thesis using r by (simp add: umount_one_def umount_tries_def)
qed

definition teardown_log :: "(string list \<Rightarrow> cmd_result) \<Rightarrow> (string \<times> path \<times> bool) list \<Rightarrow> string list list" where
  "teardown_log f ms = concat (map (\<lambda>(_, dest, _). umount_tries f dest) (mounts_deepest_first ms))"

lemma unmount_answering:
  "unmount (answering f) hdl h = (hdl \<lparr> h_mounts := [] \<rparr>, (fst h, snd h @ teardown_log f (h_mounts hdl)))"
proof -
  have "fold (\<lambda>(_, dest, _). umount_one (answering f) dest) ms h
      = (fst h, snd h @ concat (map (\<lambda>(_, dest, _). umount_tries f dest) ms))" for ms :: "(string \<times> path \<times> bool) list"
    by (induction ms arbitrary: h) (auto simp: umount_one_answering split: prod.splits)
  then show ?thesis by (simp add: unmount_def teardown_log_def)
qed

lemma mset_mounts_deepest_first: "mset (mounts_deepest_first ms) = mset ms"
  unfolding mounts_deepest_first_def mset_map mset_rev mset_sort
  by (simp flip: mset_map)

lemma sorted_mounts_deepest_first:
  "sorted_wrt (\<lambda>(_, d1, _) (_, d2, _). length d2 \<le> length d1) (mounts_deepest_first ms)"
proof -
  let ?k = "\<lambda>(i, _, dest, _). (Suc (length (dest :: path)), i)"
  have "sorted_wrt (\<lambda>x y. ?k x \<le> ?k y) (sort_key ?k (enumerate (0::nat) ms))"
    using sorted_sort_key [of ?k "enumerate 0 ms"] by (simp add: sorted_map)
  then have "sorted_wrt (\<lambda>(_, _, d1, _) (_, _, d2, _). length d1 \<le> length d2) (sort_key ?k (enumerate (0::nat) ms))"
    by (rule sorted_wrt_mono_rel [rotated]) (auto simp: less_eq_prod_def)
  then show ?thesis
    unfolding mounts_deepest_first_def sorted_wrt_map sorted_wrt_rev
    by (rule sorted_wrt_mono_rel [rotated]) auto
qed

text \<open>Unmounting takes every bind of the handle down, deepest first, so a bind inside another is
  gone before the one it lies in; each gets one plain \<^verbatim>\<open>umount\<close> and, only if that fails, one
  forced; and the handle forgets all of them, whether or not any of it worked.\<close>

theorem unmount_deepest_first:
  "mset (mounts_deepest_first ms) = mset ms
   \<and> sorted_wrt (\<lambda>(_, d1, _) (_, d2, _). \<not> strict_prefix d1 d2) (mounts_deepest_first ms)
   \<and> unmount (answering f) (hdl \<lparr> h_mounts := ms \<rparr>) (fs, log) =
       (hdl \<lparr> h_mounts := [] \<rparr>,
        (fs, log @ concat (map (\<lambda>(_, dest, _). umount_tries f dest) (mounts_deepest_first ms))))"
proof (intro conjI)
  show "sorted_wrt (\<lambda>(_, d1, _) (_, d2, _). \<not> strict_prefix d1 d2) (mounts_deepest_first ms)"
    using sorted_mounts_deepest_first
    by (rule sorted_wrt_mono_rel [rotated]) (auto dest: prefix_length_less)
qed (simp_all add: mset_mounts_deepest_first unmount_answering teardown_log_def)

definition jail_stop_log :: "handle \<Rightarrow> string list list" where
  "jail_stop_log hdl = (case h_jail_name hdl of Some n \<Rightarrow> if n = [] then [] else [[''jail'', ''-r'', n]] | None \<Rightarrow> [])"

definition zfs_destroy_cmd :: "bool \<Rightarrow> string \<Rightarrow> string list" where
  "zfs_destroy_cmd force ds = [''zfs'', ''destroy''] @ (if force then [''-f''] else []) @ [ds]"

definition teardown_state :: "(string list \<Rightarrow> cmd_result) \<Rightarrow> handle \<Rightarrow> string list list host \<Rightarrow> string list list host" where
  "teardown_state f hdl h = (fst h, snd h @ jail_stop_log hdl @ teardown_log f (h_mounts hdl))"

lemma destroy_answering:
  "destroy (answering f) lim st hdl h =
     (let (res, h3) = (if h_thin hdl \<or> st_backend st = Plaindir
                       then on_tree (rm_rf lim (h_rootfs hdl)) (teardown_state f hdl h)
                       else destroy_dataset_zfs (answering f) lim (hdl \<lparr> h_mounts := [] \<rparr>) (teardown_state f hdl h))
      in (res, hdl \<lparr> h_mounts := [] \<rparr>, h3))"
  by (cases "st_backend st"; cases "h_jail_name hdl")
    (auto simp: destroy_def unmount_answering teardown_state_def jail_stop_log_def Let_def)

text \<open>Destroying a ZFS clone stops the jail, unmounts, and only then destroys the dataset: once
  plainly, then at most twice with force; it succeeds exactly if one of the two commands is
  answered, and otherwise raises after three attempts with the tree untouched.\<close>

theorem destroy_zfs_sequence:
  assumes "st_backend st = Zfs" and "\<not> h_thin hdl"
  shows "destroy (answering f) lim st hdl (fs, log) =
    (let before = log @ jail_stop_log hdl @ teardown_log f (h_mounts hdl);
         plain = zfs_destroy_cmd False (h_dataset hdl); force = zfs_destroy_cmd True (h_dataset hdl);
         rooted = snd (fs_rmdir lim (h_rootfs hdl) fs)
     in if answers_ok f plain then (Inr (), hdl \<lparr> h_mounts := [] \<rparr>, (rooted, before @ [plain]))
        else if answers_ok f force then (Inr (), hdl \<lparr> h_mounts := [] \<rparr>, (rooted, before @ [plain, force]))
        else (Inl (case f force of Spawn_error e \<Rightarrow> Command_not_run e force force
                   | Completed rc _ _ \<Rightarrow> Command_failed rc force),
              hdl \<lparr> h_mounts := [] \<rparr>, (fs, before @ [plain, force, force])))"
  using assms
  by (simp add: destroy_answering destroy_dataset_zfs_def run_plain_answering zfs_destroy_cmd_def
      teardown_state_def Let_def)

definition demo_store :: "backend \<Rightarrow> store" where
  "demo_store b = \<lparr> st_backend = b, st_pool = ''jailrun'', st_cache = [''c''], st_base = [''v''], st_umoci = False,
     st_images_ds = ''jailrun/images'', st_bases_ds = ''jailrun/bases'', st_runs_ds = ''jailrun/runs'' \<rparr>"

lemma destroy_zfs_sequence_witness:
  "fst (destroy (answering (\<lambda>argv. Completed (if ''-f'' \<in> set argv then 0 else 1) [] [])) 8 (demo_store Zfs)
     (new_handle ''r'' [''v'', ''runs'', ''r''] ''jailrun/runs/r'' ''s'') ([], [])) = Inr ()"
  by (subst destroy_zfs_sequence) (simp_all add: demo_store_def new_handle_def zfs_destroy_cmd_def answers_ok_def Let_def)

text \<open>A bind that cannot be unmounted does not stop the removal of a thin or plain-directory
  root: destruction reports success, the handle has no mounts left, and everything below the
  root is gone, what is visible through the live bind included.\<close>

theorem destroy_removes_through_live_bind:
  assumes "h_thin hdl \<or> st_backend st = Plaindir" and "real_dir fs (h_rootfs hdl)" and "h_rootfs hdl \<noteq> []"
    and "(host_path, dest, ro) \<in> set (h_mounts hdl)" and "prefix (h_rootfs hdl) dest"
    and "\<not> answers_ok f (umount_cmd dest)" and "\<not> answers_ok f (force_umount_cmd dest)"
    and "destroy (answering f) lim st hdl (fs, log) = (res, hdl', fs', log')"
  shows "res = Inr () \<and> h_mounts hdl' = [] \<and> (\<forall>q. look fs' (dest @ q) = None)"
proof -
  have d: "path_is_dir lim fs (h_rootfs hdl)"
    using assms(2) by (simp add: path_is_dir_def stat_def real_dir_def)
  then have "\<not> path_is_file lim fs (h_rootfs hdl)" by (simp add: path_is_file_def path_is_dir_def)
  have nd: "last (h_rootfs hdl) \<noteq> DOTDOT"
    using assms(2,3) by (metis last_in_set real_dir_def)
  have par: "follow lim fs (butlast (h_rootfs hdl)) = Some (butlast (h_rootfs hdl))"
    "look fs (butlast (h_rootfs hdl)) = Some Dir"
  proof -
    have "real_dir fs (butlast (h_rootfs hdl))"
      using assms(2) by (auto simp: real_dir_def dest: in_set_butlastD intro: prefix_butlast)
    then show "follow lim fs (butlast (h_rootfs hdl)) = Some (butlast (h_rootfs hdl))" by simp
    show "look fs (butlast (h_rootfs hdl)) = Some Dir"
      using assms(2) by (simp add: real_dir_def) (metis prefix_butlast prefix_order.refl)
  qed
  then have loc: "locate lim fs (h_rootfs hdl) = Some (h_rootfs hdl)"
    using nd assms(3) by (simp add: locate_def)
  have "look fs (h_rootfs hdl) = Some Dir" using assms(2) by (simp add: real_dir_def)
  then have "rm_rf lim (h_rootfs hdl) fs = (None, drop_tree (h_rootfs hdl) fs)"
    using d loc nd \<open>\<not> path_is_file lim fs (h_rootfs hdl)\<close>
    by (simp add: rm_rf_def fs_rmtree_def path_is_symlink_def lstat_def)
  then have "res = Inr ()" "hdl' = hdl \<lparr> h_mounts := [] \<rparr>" "fs' = drop_tree (h_rootfs hdl) fs"
    using assms(1,8) by (auto simp: destroy_answering teardown_state_def on_tree_def)
  moreover have "prefix (h_rootfs hdl) (dest @ q)" "dest @ q \<noteq> []" for q
    using assms(3,5) by auto
  ultimately show ?thesis by simp
qed

definition demo_host :: fs where
  "demo_host = [([''v''], Dir), ([''v'', ''r''], Dir), ([''v'', ''r'', ''data''], Dir),
     ([''v'', ''r'', ''data'', ''file''], Reg ''x'')]"

definition demo_bound :: handle where
  "demo_bound = (new_handle ''r'' [''v'', ''r''] ''/v/r'' ''s'')
     \<lparr> h_thin := True, h_mounts := [(''/data'', [''v'', ''r'', ''data''], False)] \<rparr>"

lemma destroy_removes_through_live_bind_witness:
  "look (fst (snd (snd (destroy (answering (\<lambda>_. Completed 1 [] ''busy'')) 8 (demo_store Zfs) demo_bound (demo_host, [])))))
     [''v'', ''r'', ''data'', ''file''] = None
   \<and> look demo_host [''v'', ''r'', ''data'', ''file''] = Some (Reg ''x'')"
proof -
  have rd: "real_dir demo_host (h_rootfs demo_bound)"
    by (auto simp: real_dir_def demo_host_def demo_bound_def new_handle_def look_def DOTDOT_def prefix_Cons)
  obtain res hdl fs' log' where
    r: "destroy (answering (\<lambda>_. Completed 1 [] ''busy'')) 8 (demo_store Zfs) demo_bound (demo_host, []) = (res, hdl, fs', log')"
    by (metis prod_cases4)
  have "\<forall>q. look fs' ([''v'', ''r'', ''data''] @ q) = None"
    using destroy_removes_through_live_bind [OF _ rd _ _ _ _ _ r, of "''/data''" "[''v'', ''r'', ''data'']" False]
    by (simp add: demo_bound_def new_handle_def answers_ok_def)
  from spec [OF this, of "[''file'']"] show ?thesis by (simp add: r) (simp add: demo_host_def look_def)
qed

section \<open>Bind mounts stay inside\<close>

text \<open>A missing directory that is created changes no resolution.\<close>

lemma resolve_put_dir:
  "look fs q = None \<Longrightarrow> resolve_from False lim (put q Dir fs) cur p = resolve_from False lim fs cur p"
proof (induction lim cur p rule: resolve_induct [of _ fs])
  case (Stuck cur c cs t)
  then have "look (put q Dir fs) (cur @ [c]) = Some (Symlink t)" by auto
  then show ?case using Stuck by (simp add: resolve_from_link)
next
  case (Link lim cur c cs t)
  then have "look (put q Dir fs) (cur @ [c]) = Some (Symlink t)" by auto
  then show ?case using Link by (simp add: resolve_from_link)
next
  case (Step lim cur c cs)
  then have "\<forall>t. look (put q Dir fs) (cur @ [c]) \<noteq> Some (Symlink t)" by auto
  then show ?case using Step by (simp add: resolve_from_other)
qed simp_all

lemma mkdir_resolve: "resolve lim' (snd (fs_mkdir lim p fs)) x = resolve lim' fs x"
  by (auto simp: fs_mkdir_def resolve_def resolve_put_dir split: option.splits)

lemma mkdirs_resolve: "resolve lim' (snd (fs_mkdirs lim p fs)) x = resolve lim' fs x"
proof (induction lim p fs rule: fs_mkdirs.induct)
  case (1 lim p fs)
  obtain e fs1 where m: "fs_mkdirs lim (butlast p) fs = (e, fs1)" by fastforce
  show ?case
    using 1 m by (cases e) (auto simp: fs_mkdirs.simps [of lim p fs] mkdir_resolve)
qed

lemma within_mkdirs: "within lim' (snd (fs_mkdirs lim p fs)) x root = within lim' fs x root"
  by (simp add: within_def mkdirs_resolve)

lemma resolve_from_prefix:
  "resolve_from True lim fs cur p = Some d \<Longrightarrow> look fs d = Some Dir \<Longrightarrow>
   \<exists>k. resolve_from False lim fs cur (p @ rest) = resolve_from False k fs d rest"
  by (induction lim cur p rule: resolve_induct [of _ fs])
    (auto simp: resolve_from_link resolve_from_other split: if_splits)

lemma fs_wf_missing_below: "fs_wf fs \<Longrightarrow> look fs q = None \<Longrightarrow> look fs (q @ r) = None"
proof (induction r rule: rev_induct)
  case Nil
  then show ?case by simp
next
  case (snoc c r)
  show ?case
  proof (rule ccontr)
    assume "look fs (q @ r @ [c]) \<noteq> None"
    from fs_wf_parent [OF snoc.prems(1) this] snoc show False by (simp add: butlast_append)
  qed
qed

lemma resolve_missing:
  "\<forall>r. look fs (d @ r) = None \<or> r = [] \<Longrightarrow> DOTDOT \<notin> set rest \<Longrightarrow>
   resolve_from False k fs d rest = Some (d @ rest)"
proof (induction rest arbitrary: d)
  case Nil
  then show ?case by simp
next
  case (Cons c rest)
  have 1: "look fs (d @ [c]) = None" using Cons.prems(1) by blast
  have 2: "\<forall>r. look fs ((d @ [c]) @ r) = None \<or> r = []" using Cons.prems(1) by (metis append.assoc append_is_Nil_conv)
  have 3: "c \<noteq> DOTDOT" "DOTDOT \<notin> set rest" using Cons.prems(2) by auto
  have "resolve_from False k fs (d @ [c]) rest = Some ((d @ [c]) @ rest)" by (rule Cons.IH [OF 2 3(2)])
  then show ?case using 1 3(1) by (simp add: resolve_from_other)
qed

lemma mkdir_place:
  assumes "fs_wf fs" and "p \<noteq> []" and "last p \<noteq> DOTDOT" and "locate lim fs p = Some q" and "look fs q = None"
    and "DOTDOT \<notin> set rest"
  shows "resolve lim fs (p @ rest) = Some (q @ rest)"
proof -
  obtain d where d: "follow lim fs (butlast p) = Some d" "look fs d = Some Dir" "q = d @ [last p]"
    using assms(2-4) by (auto simp: locate_def split: option.splits if_splits)
  then obtain k where k: "resolve lim fs (butlast p @ last p # rest) = resolve_from False k fs d (last p # rest)"
    using resolve_from_prefix [of lim fs "[]" "butlast p" d "last p # rest"] by (auto simp: follow_def resolve_def)
  have "look fs (q @ r) = None" for r by (rule fs_wf_missing_below [OF assms(1,5)])
  then have "resolve_from False k fs q rest = Some (q @ rest)"
    using assms(6) by (intro resolve_missing) auto
  moreover have "resolve_from False k fs d (last p # rest) = resolve_from False k fs q rest"
    using assms(3,5) d(3) by (simp add: resolve_from_other)
  ultimately have "resolve lim fs (butlast p @ last p # rest) = Some (q @ rest)" using k by simp
  also have "butlast p @ last p # rest = p @ rest" using assms(2) by (metis append_Cons append_Nil append_assoc append_butlast_last_id)
  finally show ?thesis .
qed

lemma mkdir_inside:
  assumes g: "good_tree root fs" and "DOTDOT \<notin> set (p @ rest)" and "p \<noteq> []"
    and "resolve lim fs (p @ rest) = Some r" and "prefix root r"
  shows "confined root fs (snd (fs_mkdir lim p fs))"
proof (cases "\<exists>q. locate lim fs p = Some q \<and> look fs q = None")
  case False
  then have "snd (fs_mkdir lim p fs) = fs" by (auto simp: fs_mkdir_def split: option.splits)
  then show ?thesis by simp
next
  case True
  then obtain q where q: "locate lim fs p = Some q" "look fs q = None" by blast
  have wf: "fs_wf fs" and rd: "real_dir fs root" using g by (simp_all add: good_tree_def)
  have l: "last p \<noteq> DOTDOT" using assms(2,3) by (metis Un_iff last_in_set set_append)
  have "r = q @ rest" using mkdir_place [OF wf assms(3) l q] assms(2,4) by simp
  then have "prefix root q \<or> prefix q root" using assms(5) by (metis prefix_same_cases prefixI)
  moreover have "\<not> prefix q root" using rd q(2) by (auto simp: real_dir_def)
  ultimately have "strict_prefix root q" by (metis prefix_order.le_less prefix_order.order_refl)
  then show ?thesis using mkdir_confined [OF assms(3) l, of lim fs root] q(1) by simp
qed

lemma mkdirs_inside:
  assumes "good_tree root fs" and "DOTDOT \<notin> set (p @ rest)"
    and "resolve lim fs (p @ rest) = Some r" and "prefix root r"
  shows "confined root fs (snd (fs_mkdirs lim p fs))"
  using assms
proof (induction lim p fs arbitrary: rest rule: fs_mkdirs.induct)
  case (1 lim p fs)
  show ?case
  proof (cases "p = []")
    case True
    then have "fs_mkdirs lim p fs = (None, fs)" by (subst fs_mkdirs.simps) simp
    then show ?thesis by simp
  next
    case ne: False
    show ?thesis
    proof (cases "locate lim fs p = None")
      case False
      then have "fs_mkdirs lim p fs = fs_mkdir lim p fs" using ne by (subst fs_mkdirs.simps) (simp del: not_None_eq)
      then show ?thesis using mkdir_inside [OF 1(2,3) ne 1(4,5)] by simp
    next
      case True
      have split: "butlast p @ (last p # rest) = p @ rest"
        using ne by (metis append_Cons append_Nil append_assoc append_butlast_last_id)
      obtain e fs1 where m: "fs_mkdirs lim (butlast p) fs = (e, fs1)" by fastforce
      have c1: "confined root fs fs1"
        using 1(1) [OF ne True 1(2), of "last p # rest"] 1(3-5) split m by simp
      have r1: "resolve lim fs1 (p @ rest) = Some r"
        using mkdirs_resolve [of lim lim "butlast p" fs "p @ rest"] m 1(4) by simp
      have "confined root fs1 (snd (fs_mkdir lim p fs1))"
        by (rule mkdir_inside [OF confined_good [OF c1 1(2)] 1(3) ne r1 1(5)])
      then show ?thesis
        using ne True m c1 by (cases e) (auto simp: fs_mkdirs.simps [of lim p fs] intro: confined_trans)
    qed
  qed
qed

definition plain_dest :: "string \<times> string \<times> bool \<Rightarrow> bool" where
  "plain_dest b \<longleftrightarrow> (case b of (_, dest_raw, _) \<Rightarrow> DOTDOT \<notin> set (components (py_lstrip_char (CHR ''/'') dest_raw)))"

text \<open>A destination is made step by step: each missing directory is a prefix of the place that the
  destination resolves to.\<close>

lemma mkdir_wf:
  assumes "fs_wf fs" and "DOTDOT \<notin> set p"
  shows "fs_wf (snd (fs_mkdir lim p fs))"
proof (cases "\<exists>q. locate lim fs p = Some q \<and> look fs q = None")
  case True
  then obtain q where q: "locate lim fs p = Some q" "look fs q = None" by blast
  moreover have "p = [] \<or> last p \<noteq> DOTDOT" using assms(2) by (metis last_in_set)
  ultimately have "q = [] \<or> look fs (butlast q) = Some Dir"
    by (auto simp: locate_def split: option.splits if_splits)
  then have "fs_wf (put q Dir fs)" using assms q(2) by (auto simp: fs_wf_def)
  then show ?thesis using q by (simp add: fs_mkdir_def)
next
  case False
  then have "snd (fs_mkdir lim p fs) = fs" by (auto simp: fs_mkdir_def split: option.splits)
  then show ?thesis using assms by simp
qed

lemma mkdirs_wf: "fs_wf fs \<Longrightarrow> DOTDOT \<notin> set p \<Longrightarrow> fs_wf (snd (fs_mkdirs lim p fs))"
proof (induction lim p fs rule: fs_mkdirs.induct)
  case (1 lim p fs)
  obtain e fs1 where m: "fs_mkdirs lim (butlast p) fs = (e, fs1)" by fastforce
  have "DOTDOT \<notin> set (butlast p)" using 1(3) in_set_butlastD by fast
  then show ?case
    using 1 m by (cases e) (auto simp: fs_mkdirs.simps [of lim p fs] mkdir_wf)
qed

lemma mkdirs_on_the_way:
  assumes "fs_wf fs" and "DOTDOT \<notin> set (p @ rest)" and "resolve lim fs (p @ rest) = Some r"
    and "look (snd (fs_mkdirs lim p fs)) q \<noteq> look fs q"
  shows "prefix q r"
  using assms
proof (induction lim p fs arbitrary: rest rule: fs_mkdirs.induct)
  case (1 lim p fs)
  have one: "prefix q r"
    if w: "fs_wf fs0" and r: "resolve lim fs0 (p @ rest) = Some r" and c: "look (snd (fs_mkdir lim p fs0)) q \<noteq> look fs0 q" and ne: "p \<noteq> []"
    for fs0
  proof -
    obtain q0 where q0: "locate lim fs0 p = Some q0" "look fs0 q0 = None" "q = q0"
      using c by (auto simp: fs_mkdir_def split: option.splits if_splits)
    have "last p \<noteq> DOTDOT" using 1(3) ne by (metis Un_iff last_in_set set_append)
    moreover have "DOTDOT \<notin> set rest" using 1(3) by simp
    ultimately have "r = q0 @ rest" using mkdir_place [OF w ne _ q0(1,2)] r by simp
    then show ?thesis using q0(3) by simp
  qed
  show ?case
  proof (cases "p = []")
    case True
    then have "fs_mkdirs lim p fs = (None, fs)" by (subst fs_mkdirs.simps) simp
    then show ?thesis using 1(5) by simp
  next
    case ne: False
    show ?thesis
    proof (cases "locate lim fs p = None")
      case False
      then have "fs_mkdirs lim p fs = fs_mkdir lim p fs" using ne by (subst fs_mkdirs.simps) (simp del: not_None_eq)
      then show ?thesis using one [OF 1(2,4) _ ne] 1(5) by simp
    next
      case True
      have split: "butlast p @ (last p # rest) = p @ rest"
        using ne by (metis append_Cons append_Nil append_assoc append_butlast_last_id)
      obtain e fs1 where m: "fs_mkdirs lim (butlast p) fs = (e, fs1)" by fastforce
      have IH: "prefix q r" if "look fs1 q \<noteq> look fs q"
        using 1(1) [OF ne True 1(2), of "last p # rest"] 1(3,4) that split m by simp
      have wf: "fs_wf fs1" using mkdirs_wf [OF 1(2), of "butlast p" lim] m 1(3) by (auto dest: in_set_butlastD)
      have r1: "resolve lim fs1 (p @ rest) = Some r"
        using mkdirs_resolve [of lim lim "butlast p" fs "p @ rest"] m 1(4) by simp
      show ?thesis
      proof (cases "look fs1 q = look fs q")
        case True
        then have "look (snd (fs_mkdir lim p fs1)) q \<noteq> look fs1 q \<and> e = None"
          using 1(5) ne \<open>locate lim fs p = None\<close> m by (cases e) (simp_all add: fs_mkdirs.simps [of lim p fs])
        then show ?thesis using one [OF wf r1 _ ne] by simp
      qed (rule IH)
    qed
  qed
qed

text \<open>A command that mounts: what it answers, and what paths show afterwards.  The tree here is what
  paths show: a mount may show anything at and below the place its destination leads to, which
  stays a directory, and nothing new anywhere else.\<close>

definition mounting :: "(string list \<Rightarrow> cmd_result) \<Rightarrow> (string list \<Rightarrow> fs \<Rightarrow> fs) \<Rightarrow> string list list runner" where
  "mounting f g cwd env argv h = (f argv, (g argv (fst h), snd h @ [argv]))"

definition mounts_locally :: "nat \<Rightarrow> (string list \<Rightarrow> fs \<Rightarrow> fs) \<Rightarrow> bool" where
  "mounts_locally lim g \<longleftrightarrow> (\<forall>host dest ro fs. plain_path dest \<and> fs_wf fs \<longrightarrow>
     (let fs' = g (mount_cmd host dest ro) fs in
        fs_wf fs'
      \<and> (\<forall>q. look fs' q \<noteq> look fs q \<longrightarrow> (\<exists>r. resolve lim fs dest = Some r \<and> prefix r q))
      \<and> (\<forall>r. resolve lim fs dest = Some r \<and> look fs r = Some Dir \<longrightarrow> look fs' r = Some Dir)))"

definition bind_cmd :: "handle \<Rightarrow> string \<times> string \<times> bool \<Rightarrow> string list" where
  "bind_cmd hdl b = (case b of (host_raw, dest_raw, ro) \<Rightarrow> mount_cmd host_raw (bind_dest hdl dest_raw) ro)"

definition bind_mount :: "handle \<Rightarrow> string \<times> string \<times> bool \<Rightarrow> string \<times> path \<times> bool" where
  "bind_mount hdl b = (case b of (host_raw, dest_raw, ro) \<Rightarrow> (py_path_norm host_raw, bind_dest hdl dest_raw, ro))"

text \<open>What paths show before and after the destination of each bind is made.\<close>

primrec bind_trees ::
  "nat \<Rightarrow> (string list \<Rightarrow> fs \<Rightarrow> fs) \<Rightarrow> handle \<Rightarrow> (string \<times> string \<times> bool) list \<Rightarrow> fs \<Rightarrow> (path \<times> fs \<times> fs) list" where
  "bind_trees lim g hdl [] fs = []"
| "bind_trees lim g hdl (b # bs) fs =
     (let dest = bind_dest hdl (fst (snd b)); fs1 = snd (fs_mkdirs lim dest fs)
      in (dest, fs, fs1) # bind_trees lim g hdl bs (g (bind_cmd hdl b) fs1))"

definition made_inside :: "nat \<Rightarrow> path \<Rightarrow> path \<times> fs \<times> fs \<Rightarrow> bool" where
  "made_inside lim root t \<longleftrightarrow> (case t of (dest, fs, fs') \<Rightarrow>
     (\<exists>r. resolve lim fs dest = Some r \<and> prefix root r
        \<and> (\<forall>q. look fs' q \<noteq> look fs q \<longrightarrow> strict_prefix root q \<and> prefix q r)))"

lemma bind_frame [simp]:
  "bind_dest (hdl \<lparr> h_mounts := ms \<rparr>) = bind_dest hdl" "bind_cmd (hdl \<lparr> h_mounts := ms \<rparr>) = bind_cmd hdl"
  "bind_mount (hdl \<lparr> h_mounts := ms \<rparr>) = bind_mount hdl" "bind_trees lim g (hdl \<lparr> h_mounts := ms \<rparr>) = bind_trees lim g hdl"
proof -
  show d: "bind_dest (hdl \<lparr> h_mounts := ms \<rparr>) = bind_dest hdl" by (simp add: bind_dest_def fun_eq_iff)
  show c: "bind_cmd (hdl \<lparr> h_mounts := ms \<rparr>) = bind_cmd hdl" by (simp add: bind_cmd_def fun_eq_iff d)
  show "bind_mount (hdl \<lparr> h_mounts := ms \<rparr>) = bind_mount hdl" by (simp add: bind_mount_def fun_eq_iff d)
  have "bind_trees lim g (hdl \<lparr> h_mounts := ms \<rparr>) bs fs = bind_trees lim g hdl bs fs" for bs fs
    by (induction bs arbitrary: fs) (simp_all add: d c Let_def)
  then show "bind_trees lim g (hdl \<lparr> h_mounts := ms \<rparr>) = bind_trees lim g hdl" by (simp add: fun_eq_iff)
qed

lemma plain_bind_dest: "plain_path (h_rootfs hdl) \<Longrightarrow> plain_path (bind_dest hdl dest_raw)"
  using py_split_pieces [of _ "CHR ''/''" "py_lstrip_char (CHR ''/'') dest_raw"]
  by (auto simp: plain_path_def bind_dest_def list_all_iff components_def)

lemma made_inside_mkdirs:
  assumes "good_tree root fs" and "within lim fs dest root" and "DOTDOT \<notin> set dest"
  shows "made_inside lim root (dest, fs, snd (fs_mkdirs lim dest fs))" and "good_tree root (snd (fs_mkdirs lim dest fs))"
proof -
  obtain r where r: "resolve lim fs (dest @ []) = Some r" "prefix root r"
    using assms(2) by (auto simp: within_def split: option.splits)
  have d: "DOTDOT \<notin> set (dest @ [])" using assms(3) by simp
  have c: "confined root fs (snd (fs_mkdirs lim dest fs))" by (rule mkdirs_inside [OF assms(1) d r])
  then show "good_tree root (snd (fs_mkdirs lim dest fs))" using assms(1) by (rule confined_good)
  have "prefix q r" if "look (snd (fs_mkdirs lim dest fs)) q \<noteq> look fs q" for q
    using mkdirs_on_the_way [OF _ d r(1) that] assms(1) by (simp add: good_tree_def)
  then show "made_inside lim root (dest, fs, snd (fs_mkdirs lim dest fs))"
    using r c by (fastforce simp: made_inside_def confined_def same_except_def)
qed

lemma mounted_confined:
  assumes g: "mounts_locally lim g" and t: "good_tree root fs" and p: "plain_path dest"
    and r: "resolve lim fs dest = Some r" "prefix root r"
  shows "confined root fs (g (mount_cmd host dest ro) fs)"
proof -
  let ?fs = "g (mount_cmd host dest ro) fs"
  have law: "fs_wf ?fs" "\<And>q. look ?fs q \<noteq> look fs q \<Longrightarrow> prefix r q" "look fs r = Some Dir \<Longrightarrow> look ?fs r = Some Dir"
    using g p t r(1) unfolding mounts_locally_def good_tree_def Let_def by fastforce+
  have "look ?fs q = look fs q" if "\<not> strict_prefix root q" for q
  proof (rule ccontr)
    assume n: "look ?fs q \<noteq> look fs q"
    then have "prefix root q" using law(2) r(2) by (blast intro: prefix_order.trans)
    then have q: "q = root" "r = root" using that law(2) [OF n] r(2) by (auto simp: strict_prefix_def)
    have "look fs root = Some Dir" using t by (simp add: good_tree_def real_dir_def)
    then show False using n law(3) q by simp
  qed
  then show ?thesis using law(1) by (simp add: confined_def same_except_def)
qed

lemma mount_binds_steps:
  assumes "mounts_locally lim g" and "plain_path (h_rootfs hdl)" and "good_tree (h_rootfs hdl) fs" and "list_all plain_dest bs"
    and "mount_binds (mounting f g) lim (h_rootfs hdl) bs hdl (fs, log) = (res, hdl', fs', log')"
  shows "confined (h_rootfs hdl) fs fs' \<and> (\<exists>m k n. m \<le> k \<and> k \<le> n \<and> n \<le> length bs
    \<and> h_mounts hdl' = h_mounts hdl @ map (bind_mount hdl) (take m bs) \<and> log' = log @ map (bind_cmd hdl) (take k bs)
    \<and> list_all (made_inside lim (h_rootfs hdl)) (take n (bind_trees lim g hdl bs fs)) \<and> (res = Inr () \<longrightarrow> m = length bs))"
  (is "_ \<and> ?steps hdl bs fs log hdl' log' res")
  using assms(2-)
proof (induction bs arbitrary: hdl fs log)
  case Nil
  then show ?case by auto
next
  case (Cons b bs)
  obtain host_raw dest_raw ro where b: "b = (host_raw, dest_raw, ro)" by (metis prod_cases3)
  let ?root = "h_rootfs hdl"
  let ?dest = "bind_dest hdl dest_raw" and ?cmd = "mount_cmd host_raw (bind_dest hdl dest_raw) ro"
  have cmd: "bind_cmd hdl b = ?cmd" "bind_mount hdl b = (py_path_norm host_raw, ?dest, ro)" by (simp_all add: b bind_cmd_def bind_mount_def)
  show ?case
  proof (cases "within lim fs ?dest ?root")
    case False
    then have "hdl' = hdl \<and> fs' = fs \<and> log' = log \<and> res \<noteq> Inr ()" using Cons.prems(4) b by auto
    then show ?thesis by (intro conjI exI [of _ 0]) simp_all
  next
    case w: True
    obtain e fs1 where m: "fs_mkdirs lim ?dest fs = (e, fs1)" by fastforce
    have "DOTDOT \<notin> set ?dest"
      using Cons.prems(2,3) b by (auto simp: plain_dest_def bind_dest_def good_tree_def real_dir_def)
    from made_inside_mkdirs [OF Cons.prems(2) w this] m
    have made: "made_inside lim ?root (?dest, fs, fs1)" and g1: "good_tree ?root fs1" by simp_all
    have c1: "confined ?root fs fs1"
      using made g1 by (auto simp: made_inside_def confined_def same_except_def good_tree_def)
    have w1: "within lim fs1 ?dest ?root" using within_mkdirs [of lim lim ?dest fs ?dest ?root] m w by simp
    obtain r where r: "resolve lim fs1 ?dest = Some r" "prefix ?root r" using w1 by (auto simp: within_def split: option.splits)
    let ?fs2 = "g ?cmd fs1"
    have c2: "confined ?root fs1 ?fs2" by (rule mounted_confined [OF assms(1) g1 plain_bind_dest [OF Cons.prems(1)] r])
    have run: "run_plain (mounting f g) ?cmd (fs1, log) =
        (if answers_ok f ?cmd then Inr (cmd_out (f ?cmd))
         else Inl (case f ?cmd of Spawn_error x \<Rightarrow> Command_not_run x ?cmd ?cmd | Completed rc _ _ \<Rightarrow> Command_failed rc ?cmd), ?fs2, log @ [?cmd])"
      by (simp add: run_plain_def store_run_def mounting_def answers_ok_def redact_argv_def split: cmd_result.split)
    have tr: "bind_trees lim g hdl (b # bs) fs = (?dest, fs, fs1) # bind_trees lim g hdl bs ?fs2"
      using m by (simp add: b Let_def bind_cmd_def)
    consider "e \<noteq> None" | "e = None" "\<not> answers_ok f ?cmd" | "e = None" "answers_ok f ?cmd" by blast
    then show ?thesis
    proof cases
      case 1
      then have "hdl' = hdl \<and> fs' = fs1 \<and> log' = log \<and> res \<noteq> Inr ()"
        using Cons.prems(4) b w m by (auto simp: then_do_def on_tree_def Let_def)
      then show ?thesis unfolding tr using c1 made by (intro conjI exI [of _ 0] exI [of _ 1]) simp_all
    next
      case 2
      then have "hdl' = hdl \<and> fs' = ?fs2 \<and> log' = log @ [?cmd] \<and> res \<noteq> Inr ()"
        using Cons.prems(4) b w m run by (auto simp: then_do_def on_tree_def Let_def)
      then show ?thesis
        unfolding tr using confined_trans [OF c1 c2] made cmd by (intro conjI exI [of _ 0] exI [of _ 1]) simp_all
    next
      case 3
      let ?hdl1 = "hdl \<lparr> h_mounts := h_mounts hdl @ [(py_path_norm host_raw, ?dest, ro)] \<rparr>"
      have step: "mount_binds (mounting f g) lim (h_rootfs ?hdl1) bs ?hdl1 (?fs2, log @ [?cmd]) = (res, hdl', fs', log')"
        using Cons.prems(4) b w m run 3 by (simp add: then_do_def on_tree_def Let_def)
      from Cons.IH [OF _ _ _ step] Cons.prems(1,3) confined_good [OF c2 g1]
      have IH: "confined ?root ?fs2 fs'" and s: "?steps ?hdl1 bs ?fs2 (log @ [?cmd]) hdl' log' res" by auto
      then obtain m' k n where "m' \<le> k" "k \<le> n" "n \<le> length bs" "h_mounts hdl' = h_mounts ?hdl1 @ map (bind_mount hdl) (take m' bs)"
        "log' = (log @ [?cmd]) @ map (bind_cmd hdl) (take k bs)"
        "list_all (made_inside lim ?root) (take n (bind_trees lim g hdl bs ?fs2))" "res = Inr () \<longrightarrow> m' = length bs"
        by auto
      then have "?steps hdl (b # bs) fs log hdl' log' res"
        unfolding tr using made cmd by (intro exI [of _ "Suc m'"] exI [of _ "Suc k"] exI [of _ "Suc n"]) simp
      then show ?thesis using confined_trans [OF c1 confined_trans [OF c2 IH]] by blast
    qed
  qed
qed


text \<open>A host whose only mount shows an empty directory.\<close>

definition empty_mount :: "string list \<Rightarrow> fs \<Rightarrow> fs" where
  "empty_mount argv fs =
     (if argv = mount_cmd ''/d'' [''v'', ''r'', ''data''] True
      then (case resolve 8 fs [''v'', ''r'', ''data''] of
              Some r \<Rightarrow> if look fs r = Some Dir then filter (\<lambda>(q, _). \<not> strict_prefix r q) fs else fs
            | None \<Rightarrow> fs)
      else fs)"

lemma look_filter: "look (filter (\<lambda>(q, _). P q) fs) q = (if q = [] \<or> P q then look fs q else None)"
  by (induction fs) (auto simp: look_def)

lemma empty_mount_local: "mounts_locally 8 empty_mount"
proof -
  have wf: "fs_wf (filter (\<lambda>(q, _). \<not> strict_prefix r q) fs)" if "fs_wf fs" for r fs
  proof -
    have "\<not> strict_prefix r (butlast q)" if "\<not> strict_prefix r q" for q
      using that by (meson prefix_order.less_le_trans prefixeq_butlast)
    then show ?thesis using that by (auto simp: fs_wf_def look_filter)
  qed
  have inj: "dest = [''v'', ''r'', ''data'']" if "plain_path dest" "mount_cmd host dest ro = mount_cmd ''/d'' [''v'', ''r'', ''data''] True"
    for host dest ro
  proof -
    have "path_str dest = path_str [''v'', ''r'', ''data'']" using that(2) by (auto simp: mount_cmd_def split: if_splits)
    moreover have "plain_path [''v'', ''r'', ''data'']" by (simp add: plain_path_def)
    ultimately show ?thesis using components_path_str that(1) by metis
  qed
  show ?thesis
    unfolding mounts_locally_def Let_def
  proof (intro allI impI conjI)
    fix host dest ro fs assume "plain_path dest \<and> fs_wf fs"
    then show "fs_wf (empty_mount (mount_cmd host dest ro) fs)" by (simp add: empty_mount_def wf split: option.split)
  next
    fix host dest ro fs q
    assume "plain_path dest \<and> fs_wf fs" and "look (empty_mount (mount_cmd host dest ro) fs) q \<noteq> look fs q"
    then show "\<exists>r. resolve 8 fs dest = Some r \<and> prefix r q"
      using inj by (fastforce simp: empty_mount_def look_filter split: if_splits option.splits)
  next
    fix host dest ro fs r
    assume p: "plain_path dest \<and> fs_wf fs" and r: "resolve 8 fs dest = Some r \<and> look fs r = Some Dir"
    show "look (empty_mount (mount_cmd host dest ro) fs) r = Some Dir"
    proof (cases "mount_cmd host dest ro = mount_cmd ''/d'' [''v'', ''r'', ''data''] True")
      case True
      then have "dest = [''v'', ''r'', ''data'']" using inj p by blast
      then show ?thesis using r True by (simp add: empty_mount_def look_filter)
    qed (simp add: empty_mount_def r)
  qed
qed


text \<open>With \<^verbatim>\<open>..\<close> in the destination the check resolves a path through a directory that does not
  exist, and \<^verbatim>\<open>mkdir\<close> then creates that directory outside the root.\<close>

lemma mount_dotdot_creates_outside:
  "look (fst (snd (snd (store_mount (answering (\<lambda>_. Completed 0 [] [])) 8
      (Some [(''/d'', ''../new/../r/x'', False)]) demo_bound (demo_host, []))))) [''v'', ''new''] = Some Dir"
  by code_simp

section \<open>Building something once, as an interface\<close>

text \<open>What unpacking an image and registering a base promise their callers: \<^verbatim>\<open>present\<close> is the mark
  a successful build leaves, and a marked result is returned without work.\<close>

locale build_once =
  fixes present :: "'s \<Rightarrow> bool" and build :: "'s \<Rightarrow> ('e + 'i) \<times> 's" and result :: 'i
  assumes built: "build s = (Inr i, s') \<Longrightarrow> present s' \<and> i = result"
    and skip: "present s \<Longrightarrow> build s = (Inr result, s)"
begin

lemma again: "build s = (Inr i, s') \<Longrightarrow> build s' = (Inr i, s')"
  using built skip by metis

lemma never_twice: "build s = (Inr i, s') \<Longrightarrow> snd (build (snd (build s))) = s'"
  using again by (metis snd_conv)

end

lemma then_do_Inr:
  "then_do m f h = (Inr y, h2) \<longleftrightarrow> (\<exists>x h1. m h = (Inr x, h1) \<and> f x h1 = (Inr y, h2))"
  by (auto simp: then_do_def split: prod.splits sum.splits)

text \<open>A file that was written is there.\<close>

lemma resolve_put_reg:
  "resolve_from True lim fs cur p = Some q \<Longrightarrow> look fs q \<noteq> Some Dir \<Longrightarrow> \<forall>t. look fs q \<noteq> Some (Symlink t) \<Longrightarrow>
   resolve_from True lim (put q (Reg c) fs) cur p = Some q"
proof (induction lim cur p rule: resolve_induct [of _ fs])
  case (Link lim cur n cs t)
  then have "look (put q (Reg c) fs) (cur @ [n]) = Some (Symlink t)" by auto
  then show ?case using Link by (simp add: resolve_from_link)
next
  case (Step lim cur n cs)
  then have s: "\<forall>t. look (put q (Reg c) fs) (cur @ [n]) \<noteq> Some (Symlink t)" by auto
  show ?case
  proof (cases "cs = []")
    case True
    then show ?thesis using Step s by (simp add: resolve_from_other)
  next
    case False
    then have "look fs (cur @ [n]) = Some Dir" "resolve_from True lim fs (cur @ [n]) cs = Some q"
      using Step by (auto simp: resolve_from_other split: if_splits)
    moreover from this(1) have "look (put q (Reg c) fs) (cur @ [n]) = Some Dir" using Step.prems(2) by auto
    ultimately show ?thesis using Step s False by (simp add: resolve_from_other)
  qed
qed (auto simp: resolve_from_link)

lemma resolve_not_link:
  "resolve_from s lim fs cur p = Some q \<Longrightarrow> \<forall>r t. prefix r cur \<longrightarrow> look fs r \<noteq> Some (Symlink t) \<Longrightarrow>
   look fs q \<noteq> Some (Symlink t')"
proof (induction lim cur p rule: resolve_induct [of _ fs])
  case (Up lim cur cs)
  then show ?case by (auto dest: prefix_butlast)
next
  case (Link lim cur c cs t)
  then show ?case by (auto simp: resolve_from_link split: if_splits)
next
  case (Step lim cur c cs)
  then show ?case by (auto simp: resolve_from_other split: if_splits)
qed (auto simp: resolve_from_link)

lemma write_exists:
  assumes "fs_write lim c p fs = (None, fs')"
  shows "path_exists lim fs' p"
proof -
  obtain q where q: "follow lim fs p = Some q" "look fs q \<noteq> Some Dir" "fs' = put q (Reg c) fs"
    using assms by (auto simp: fs_write_def split: option.splits node.splits if_splits)
  then have "q \<noteq> []" by auto
  have "\<forall>t. look fs q \<noteq> Some (Symlink t)"
    using resolve_not_link [of True lim fs "[]" p q] q(1) by (simp add: follow_def)
  then have "follow lim fs' p = Some q"
    using q resolve_put_reg [of lim fs "[]" p q c] by (simp add: follow_def)
  then show ?thesis using q(3) \<open>q \<noteq> []\<close> by (simp add: path_exists_def stat_def)
qed

lemma tree_exists_Inr: "tree_exists lim p h = (Inr x, h1) \<longleftrightarrow> x = path_exists lim (fst h) p \<and> h1 = h"
  by (auto simp: tree_exists_def)

lemma on_tree_Inr: "on_tree f h = (Inr x, h1) \<longleftrightarrow> (\<exists>fs'. f (fst h) = (None, fs') \<and> h1 = (fs', snd h))"
  by (auto simp: on_tree_def split: prod.splits option.splits)

definition base_dir :: "store \<Rightarrow> string \<Rightarrow> path" where
  "base_dir st suf = components (st_bases_ds st) @ [suf]"

interpretation plain_base: build_once
  "\<lambda>h. path_exists lim (fst h) (base_dir st suf @ [SENTINEL])"
  "register_base_plaindir t lim st suf provision_cmd" "path_str (base_dir st suf)"
  for lim st suf and t :: "'w runner" and provision_cmd
proof
  fix s s' :: "'w host" and i
  assume b: "register_base_plaindir t lim st suf provision_cmd s = (Inr i, s')"
  show "path_exists lim (fst s') (base_dir st suf @ [SENTINEL]) \<and> i = path_str (base_dir st suf)"
  proof (cases "path_exists lim (fst s) (base_dir st suf @ [SENTINEL])")
    case True
    then show ?thesis
      using b by (simp add: register_base_plaindir_def Let_def then_do_def tree_exists_def give_def base_dir_def)
  next
    case False
    then show ?thesis
      using b by (auto simp: register_base_plaindir_def Let_def then_do_Inr tree_exists_Inr give_def on_tree_Inr base_dir_def)
        (erule write_exists)
  qed
next
  fix s :: "'w host"
  assume "path_exists lim (fst s) (base_dir st suf @ [SENTINEL])"
  then show "register_base_plaindir t lim st suf provision_cmd s = (Inr (path_str (base_dir st suf)), s)"
    by (simp add: register_base_plaindir_def Let_def then_do_def tree_exists_def give_def base_dir_def)
qed

text \<open>The commands that build a base on ZFS, in order.\<close>

definition base_commands :: "store \<Rightarrow> string \<Rightarrow> string \<Rightarrow> string list list" where
  "base_commands st suf provision_cmd =
     (let dataset = st_bases_ds st @ ''/'' @ suf in
      [[''zfs'', ''create'', ''-p'', ''-o'', ''mountpoint='' @ path_str (st_base st @ [''bases'', suf]), dataset],
       [''sh'', ''-c'', provision_cmd], [''zfs'', ''snapshot'', dataset @ ''@snap''],
       [''zfs'', ''set'', ''readonly=on'', dataset]])"

definition list_base_cmd :: "store \<Rightarrow> string \<Rightarrow> string list" where
  "list_base_cmd st suf = [''zfs'', ''list'', ''-H'', ''-t'', ''snapshot'', ''-o'', ''name'', st_bases_ds st @ ''/'' @ suf @ ''@snap'']"

text \<open>Running commands until one fails.\<close>

fun until_failure :: "(string list \<Rightarrow> bool) \<Rightarrow> string list list \<Rightarrow> string list list" where
  "until_failure ok [] = []"
| "until_failure ok (c # cs) = c # (if ok c then until_failure ok cs else [])"

lemma until_failure_prefix: "prefix (until_failure ok cs) cs"
  by (induction cs) auto

definition base_name :: "(string \<Rightarrow> string) \<Rightarrow> string \<Rightarrow> string \<Rightarrow> string" where
  "base_name sha256 name provision_cmd = safe_zfs_name name @ ''-'' @ take 16 (sha256 provision_cmd)"

lemma register_base_zfs_answering:
  assumes "\<not> answers_ok f (list_base_cmd st suf)"
    and "register_base_zfs (answering f) lim st suf provision_cmd (fs, log) = (res, fs', log')"
  shows "\<exists>cmds. log' = log @ list_base_cmd st suf # cmds
     \<and> prefix cmds (until_failure (answers_ok f) (base_commands st suf provision_cmd))
     \<and> (\<forall>i. res = Inr i \<longrightarrow> cmds = base_commands st suf provision_cmd \<and> list_all (answers_ok f) cmds)"
proof -
  define create where "create = base_commands st suf provision_cmd ! 0"
  define sh where "sh = base_commands st suf provision_cmd ! 1"
  define snap where "snap = base_commands st suf provision_cmd ! 2"
  define ro where "ro = base_commands st suf provision_cmd ! 3"
  have bc: "base_commands st suf provision_cmd = [create, sh, snap, ro]"
    by (simp add: base_commands_def create_def sh_def snap_def ro_def Let_def)
  let ?mp = "st_base st @ [''bases'', suf]"
  have l: "zfs_snapshot_exists (answering f) (st_bases_ds st @ ''/'' @ suf @ ''@snap'') (fs, log)
      = (Inr False, (fs, log @ [list_base_cmd st suf]))"
  proof -
    obtain rc o' h' where r: "store_run_ok (answering f) (list_base_cmd st suf) (fs, log) = ((rc, o'), h')"
      by (metis prod.collapse)
    then have "h' = (fs, log @ [list_base_cmd st suf])" "rc \<noteq> 0"
      using run_ok_answering [of f "list_base_cmd st suf" "(fs, log)"] assms(1) by simp_all
    then show ?thesis using r by (simp add: zfs_snapshot_exists_def list_base_cmd_def)
  qed
  have pr: "provision (answering f) ?mp provision_cmd = run_plain (answering f) sh"
    by (rule ext) (simp add: provision_def run_plain_def store_run_def answering_def sh_def base_commands_def Let_def redact_argv_def)
  have r: "register_base_zfs (answering f) lim st suf provision_cmd (fs, log)
    = then_do (on_tree (fs_mkdirs lim ?mp)) (\<lambda>_.
      then_do (run_plain (answering f) create) (\<lambda>_.
      then_do (on_tree (seed_pkg_trust_keys lim ?mp)) (\<lambda>_.
      then_do (run_plain (answering f) sh) (\<lambda>_.
      then_do (run_plain (answering f) snap) (\<lambda>_.
      then_do (run_plain (answering f) ro) (\<lambda>_.
      give (st_bases_ds st @ ''/'' @ suf @ ''@snap''))))))) (fs, log @ [list_base_cmd st suf])"
    unfolding register_base_zfs_def Let_def append_assoc pr
      then_do_def [of "zfs_snapshot_exists (answering f) (st_bases_ds st @ ''/'' @ suf @ ''@snap'')"] l
    by (simp add: create_def snap_def ro_def base_commands_def Let_def)
  obtain e1 fs1 where m1: "fs_mkdirs lim ?mp fs = (e1, fs1)" by fastforce
  obtain e2 fs2 where m2: "seed_pkg_trust_keys lim ?mp fs1 = (e2, fs2)" by fastforce
  show ?thesis
    using assms(2) unfolding r bc
    by (cases e1; cases e2; cases "answers_ok f create"; cases "answers_ok f sh"; cases "answers_ok f snap"; cases "answers_ok f ro")
      (simp_all add: then_do_def on_tree_def m1 m2 run_plain_answering give_def; fastforce)+
qed

text \<open>A base is built once and never half.  In a plain directory, a registration that succeeded
  is answered again without any change, whatever the commands do; on ZFS, the commands are
  issued in the order create, provision, snapshot, read-only and stop at the first that fails,
  so a base whose provisioning failed gets no snapshot, and a snapshot id is returned only if
  all of them succeeded.\<close>

theorem register_base_once:
  fixes t :: "'w runner"
  shows "(st_backend st = Plaindir \<longrightarrow> register_base sha256 t lim st name provision_cmd h = (Inr i, h') \<longrightarrow>
      register_base sha256 t lim st name provision_cmd h' = (Inr i, h'))
   \<and> (st_backend st = Zfs \<longrightarrow> \<not> answers_ok f (list_base_cmd st (base_name sha256 name provision_cmd)) \<longrightarrow>
      register_base sha256 (answering f) lim st name provision_cmd (fs, log) = (res, fs', log') \<longrightarrow>
      (\<exists>cmds. log' = log @ list_base_cmd st (base_name sha256 name provision_cmd) # cmds
        \<and> prefix cmds (until_failure (answers_ok f) (base_commands st (base_name sha256 name provision_cmd) provision_cmd))
        \<and> (\<forall>i. res = Inr i \<longrightarrow> cmds = base_commands st (base_name sha256 name provision_cmd) provision_cmd
             \<and> list_all (answers_ok f) cmds)))"
proof (intro conjI impI)
  assume b: "st_backend st = Plaindir" "register_base sha256 t lim st name provision_cmd h = (Inr i, h')"
  then have "register_base_plaindir t lim st (base_name sha256 name provision_cmd) provision_cmd h = (Inr i, h')"
    by (simp add: register_base_def base_name_def)
  from plain_base.again [OF this] show "register_base sha256 t lim st name provision_cmd h' = (Inr i, h')"
    using b(1) by (simp add: register_base_def base_name_def)
next
  assume z: "st_backend st = Zfs" and l: "\<not> answers_ok f (list_base_cmd st (base_name sha256 name provision_cmd))"
    and r: "register_base sha256 (answering f) lim st name provision_cmd (fs, log) = (res, fs', log')"
  have "register_base_zfs (answering f) lim st (base_name sha256 name provision_cmd) provision_cmd (fs, log) = (res, fs', log')"
    using r z by (simp add: register_base_def base_name_def)
  from register_base_zfs_answering [OF l this]
  show "\<exists>cmds. log' = log @ list_base_cmd st (base_name sha256 name provision_cmd) # cmds
        \<and> prefix cmds (until_failure (answers_ok f) (base_commands st (base_name sha256 name provision_cmd) provision_cmd))
        \<and> (\<forall>i. res = Inr i \<longrightarrow> cmds = base_commands st (base_name sha256 name provision_cmd) provision_cmd
             \<and> list_all (answers_ok f) cmds)" .
qed

definition demo_plain_store :: store where
  "demo_plain_store = demo_store Plaindir \<lparr> st_bases_ds := ''/v/b'' \<rparr>"

lemma register_base_once_witness:
  "register_base (\<lambda>_. ''0'') (answering (\<lambda>_. Completed 0 [] [])) 8 demo_plain_store ''n'' ''true''
     (snd (register_base (\<lambda>_. ''0'') (answering (\<lambda>_. Completed 0 [] [])) 8 demo_plain_store ''n'' ''true'' (demo_host, [])))
   = (Inr ''/v/b/n-0'', snd (register_base (\<lambda>_. ''0'') (answering (\<lambda>_. Completed 0 [] [])) 8 demo_plain_store ''n'' ''true'' (demo_host, [])))"
proof -
  have "fst (register_base (\<lambda>_. ''0'') (answering (\<lambda>_. Completed 0 [] [])) 8 demo_plain_store ''n'' ''true'' (demo_host, []))
      = Inr ''/v/b/n-0''" by code_simp
  then have r: "register_base (\<lambda>_. ''0'') (answering (\<lambda>_. Completed 0 [] [])) 8 demo_plain_store ''n'' ''true'' (demo_host, [])
      = (Inr ''/v/b/n-0'', snd (register_base (\<lambda>_. ''0'') (answering (\<lambda>_. Completed 0 [] [])) 8 demo_plain_store ''n'' ''true'' (demo_host, [])))"
    by (metis prod.collapse)
  have p: "st_backend demo_plain_store = Plaindir" by (simp add: demo_plain_store_def demo_store_def)
  show ?thesis using register_base_once [of demo_plain_store "\<lambda>_. ''0''" "answering (\<lambda>_. Completed 0 [] [])"] p r by blast
qed

end
