(* ===== verification/Json.thy ===== *)
theory Json
  imports Prelude
begin

text \<open>
  JSON as the sources use it: \<^verbatim>\<open>json.loads\<close> and \<^verbatim>\<open>json.load\<close> of text, \<^verbatim>\<open>json.dump(v, fh, indent=2)\<close>
  and the access to decoded values.  A string is its UTF-8 bytes; a byte that is not UTF-8 is the
  lone surrogate that Python's file system encoding makes of it, in both directions.  A number
  keeps its text.  The fuel of the parser bounds the nesting; \<^verbatim>\<open>json_loads\<close> gives it twice the
  length of the text, and what is printed is always read back with it.
\<close>

section \<open>Code points and bytes\<close>

definition byte_of :: "char \<Rightarrow> nat" where "byte_of c = of_char c"

definition is_cont :: "nat \<Rightarrow> bool" where "is_cont b \<longleftrightarrow> 128 \<le> b \<and> b < 192"

definition is_surrogate :: "nat \<Rightarrow> bool" where "is_surrogate cp \<longleftrightarrow> 0xD800 \<le> cp \<and> cp < 0xE000"

text \<open>The character of more than one byte that starts with \<^verbatim>\<open>b0\<close>, and what follows it.\<close>

definition utf8_multi :: "nat \<Rightarrow> nat list \<Rightarrow> (nat \<times> nat list) option" where
  "utf8_multi b0 bs =
     (if 194 \<le> b0 \<and> b0 < 224 then
        (case bs of b1 # r \<Rightarrow> if is_cont b1 then Some ((b0 - 192) * 64 + (b1 - 128), r) else None
         | _ \<Rightarrow> None)
      else if 224 \<le> b0 \<and> b0 < 240 then
        (case bs of b1 # b2 # r \<Rightarrow>
           (let cp = (b0 - 224) * 4096 + (b1 - 128) * 64 + (b2 - 128) in
            if is_cont b1 \<and> is_cont b2 \<and> 0x800 \<le> cp \<and> \<not> is_surrogate cp then Some (cp, r) else None)
         | _ \<Rightarrow> None)
      else if 240 \<le> b0 \<and> b0 < 245 then
        (case bs of b1 # b2 # b3 # r \<Rightarrow>
           (let cp = (b0 - 240) * 262144 + (b1 - 128) * 4096 + (b2 - 128) * 64 + (b3 - 128) in
            if is_cont b1 \<and> is_cont b2 \<and> is_cont b3 \<and> 0x10000 \<le> cp \<and> cp < 0x110000 then Some (cp, r) else None)
         | _ \<Rightarrow> None)
      else None)"

lemma utf8_multi_shorter: "utf8_multi b0 bs = Some (cp, r) \<Longrightarrow> length r < length (b0 # bs)"
  by (auto simp: utf8_multi_def Let_def split: if_splits list.splits)

fun utf8_decode :: "nat list \<Rightarrow> nat list" where
  "utf8_decode [] = []"
| "utf8_decode (b0 # bs) =
     (if b0 < 128 then b0 # utf8_decode bs
      else (case utf8_multi b0 bs of
              Some (cp, r) \<Rightarrow> if length r < length (b0 # bs) then cp # utf8_decode r else []
            | None \<Rightarrow> (0xDC00 + b0) # utf8_decode bs))"

definition utf8_encode :: "nat \<Rightarrow> nat list" where
  "utf8_encode cp =
     (if cp < 128 then [cp]
      else if cp < 0x800 then [192 + cp div 64, 128 + cp mod 64]
      else if 0xDC80 \<le> cp \<and> cp < 0xDD00 then [cp - 0xDC00]
      else if cp < 0x10000 then [224 + cp div 4096, 128 + cp div 64 mod 64, 128 + cp mod 64]
      else [240 + cp div 262144, 128 + cp div 4096 mod 64, 128 + cp div 64 mod 64, 128 + cp mod 64])"

definition text_points :: "string \<Rightarrow> nat list" where
  "text_points s = utf8_decode (map byte_of s)"

definition point_text :: "nat \<Rightarrow> string" where
  "point_text cp = map char_of (utf8_encode cp)"

section \<open>Values and their access\<close>

datatype json = JNull | JBool bool | JNum string | JStr string | JArr "json list" | JObj "(string \<times> json) list"

text \<open>\<^verbatim>\<open>d.get(k)\<close> of a decoded object: of members with the same name the last one counts.\<close>

definition jlookup :: "string \<Rightarrow> (string \<times> json) list \<Rightarrow> json option" where
  "jlookup k ms = map_of (rev ms) k"

text \<open>Truth of a value, as in \<^verbatim>\<open>if v:\<close>; a number is false if it is a zero.\<close>

definition zero_number :: "string \<Rightarrow> bool" where
  "zero_number n \<longleftrightarrow> (\<forall>c \<in> set (takeWhile (\<lambda>c. c \<notin> set ''eE'') n). c \<in> set ''-0.'')"

fun jtruth :: "json \<Rightarrow> bool" where
  "jtruth JNull = False"
| "jtruth (JBool b) = b"
| "jtruth (JNum n) = (\<not> zero_number n)"
| "jtruth (JStr s) = (s \<noteq> [])"
| "jtruth (JArr vs) = (vs \<noteq> [])"
| "jtruth (JObj ms) = (ms \<noteq> [])"

section \<open>Printing\<close>

definition hex4 :: "nat \<Rightarrow> string" where
  "hex4 n = [hex_digit (n div 4096 mod 16), hex_digit (n div 256 mod 16), hex_digit (n div 16 mod 16), hex_digit (n mod 16)]"

definition DQUOTE :: char where "DQUOTE = CHR 0x22"

definition u_escape :: "nat \<Rightarrow> string" where "u_escape n = BACKSLASH # CHR ''u'' # hex4 n"

definition json_escape :: "nat \<Rightarrow> string" where
  "json_escape cp =
     (if cp = 34 then [BACKSLASH, DQUOTE] else if cp = 92 then [BACKSLASH, BACKSLASH]
      else if cp = 10 then [BACKSLASH, CHR ''n''] else if cp = 13 then [BACKSLASH, CHR ''r'']
      else if cp = 9 then [BACKSLASH, CHR ''t''] else if cp = 8 then [BACKSLASH, CHR ''b'']
      else if cp = 12 then [BACKSLASH, CHR ''f'']
      else if 32 \<le> cp \<and> cp \<le> 126 then [char_of cp]
      else if cp < 0x10000 then u_escape cp
      else u_escape (0xD800 + (cp - 0x10000) div 1024) @ u_escape (0xDC00 + (cp - 0x10000) mod 1024))"

definition json_quote :: "string \<Rightarrow> string" where
  "json_quote s = DQUOTE # concat (map json_escape (text_points s)) @ [DQUOTE]"

text \<open>\<^verbatim>\<open>indent=2\<close>: one item per line, \<^verbatim>\<open>l\<close> is the depth.\<close>

definition new_line :: "nat \<Rightarrow> string" where "new_line l = NL # replicate (2 * l) (CHR 0x20)"

fun json_dump :: "nat \<Rightarrow> json \<Rightarrow> string"
  and dump_items :: "nat \<Rightarrow> json list \<Rightarrow> string"
  and dump_members :: "nat \<Rightarrow> (string \<times> json) list \<Rightarrow> string" where
  "json_dump l JNull = ''null''"
| "json_dump l (JBool b) = (if b then ''true'' else ''false'')"
| "json_dump l (JNum n) = n"
| "json_dump l (JStr s) = json_quote s"
| "json_dump l (JArr vs) =
     (if vs = [] then ''[]'' else ''['' @ new_line (Suc l) @ dump_items (Suc l) vs @ new_line l @ '']'')"
| "json_dump l (JObj ms) =
     (if ms = [] then ''{}'' else ''{'' @ new_line (Suc l) @ dump_members (Suc l) ms @ new_line l @ ''}'')"
| "dump_items l [] = []"
| "dump_items l (v # vs) = json_dump l v @ (if vs = [] then [] else '','' @ new_line l @ dump_items l vs)"
| "dump_members l [] = []"
| "dump_members l ((k, v) # ms) =
     json_quote k @ '': '' @ json_dump l v @ (if ms = [] then [] else '','' @ new_line l @ dump_members l ms)"

text \<open>The same with other blanks: \<^verbatim>\<open>b\<close> inside brackets and \<^verbatim>\<open>g\<close> after a comma, at each depth.  Without \<^verbatim>\<open>indent\<close>,
  a value is one line.\<close>

fun json_write :: "(nat \<Rightarrow> string) \<Rightarrow> (nat \<Rightarrow> string) \<Rightarrow> nat \<Rightarrow> json \<Rightarrow> string"
  and write_items :: "(nat \<Rightarrow> string) \<Rightarrow> (nat \<Rightarrow> string) \<Rightarrow> nat \<Rightarrow> json list \<Rightarrow> string"
  and write_members :: "(nat \<Rightarrow> string) \<Rightarrow> (nat \<Rightarrow> string) \<Rightarrow> nat \<Rightarrow> (string \<times> json) list \<Rightarrow> string" where
  "json_write b g l JNull = ''null''"
| "json_write b g l (JBool t) = (if t then ''true'' else ''false'')"
| "json_write b g l (JNum n) = n"
| "json_write b g l (JStr s) = json_quote s"
| "json_write b g l (JArr vs) =
     (if vs = [] then ''[]'' else ''['' @ b (Suc l) @ write_items b g (Suc l) vs @ b l @ '']'')"
| "json_write b g l (JObj ms) =
     (if ms = [] then ''{}'' else ''{'' @ b (Suc l) @ write_members b g (Suc l) ms @ b l @ ''}'')"
| "write_items b g l [] = []"
| "write_items b g l (v # vs) = json_write b g l v @ (if vs = [] then [] else '','' @ g l @ write_items b g l vs)"
| "write_members b g l [] = []"
| "write_members b g l ((k, v) # ms) =
     json_quote k @ '': '' @ json_write b g l v @ (if ms = [] then [] else '','' @ g l @ write_members b g l ms)"

definition json_line :: "json \<Rightarrow> string" where "json_line v = json_write (\<lambda>_. []) (\<lambda>_. '' '') 0 v"

lemma json_dump_write:
  "json_dump l v = json_write new_line new_line l v"
  "dump_items l vs = write_items new_line new_line l vs"
  "dump_members l ms = write_members new_line new_line l ms"
  by (induction l v and l vs and l ms rule: json_dump_dump_items_dump_members.induct) simp_all

section \<open>Reading\<close>

definition json_ws :: "char \<Rightarrow> bool" where "json_ws c \<longleftrightarrow> c \<in> {CHR 0x20, CHR 0x09, NL, CR}"

definition skip_ws :: "string \<Rightarrow> string" where "skip_ws s = dropWhile json_ws s"

definition hex_val :: "char \<Rightarrow> nat option" where
  "hex_val c = (let n = byte_of c in
     if 48 \<le> n \<and> n \<le> 57 then Some (n - 48) else if 97 \<le> n \<and> n \<le> 102 then Some (n - 87)
     else if 65 \<le> n \<and> n \<le> 70 then Some (n - 55) else None)"

definition read_hex4 :: "string \<Rightarrow> (nat \<times> string) option" where
  "read_hex4 s = (case s of a # b # c # d # r \<Rightarrow>
       (case (hex_val a, hex_val b, hex_val c, hex_val d) of
          (Some w, Some x, Some y, Some z) \<Rightarrow> Some (4096 * w + 256 * x + 16 * y + z, r)
        | _ \<Rightarrow> None)
     | _ \<Rightarrow> None)"

text \<open>What follows \<^verbatim>\<open>\u\<close>; a high surrogate takes the low one that follows it.\<close>

definition read_u :: "string \<Rightarrow> (nat \<times> string) option" where
  "read_u s = (case read_hex4 s of
       None \<Rightarrow> None
     | Some (u, r) \<Rightarrow>
         if 0xD800 \<le> u \<and> u < 0xDC00 \<and> prefix [BACKSLASH, CHR ''u''] r then
           (case read_hex4 (drop 2 r) of
              None \<Rightarrow> None
            | Some (v, r2) \<Rightarrow> if 0xDC00 \<le> v \<and> v < 0xE000 then Some (0x10000 + (u - 0xD800) * 1024 + (v - 0xDC00), r2)
                             else Some (u, r))
         else Some (u, r))"

definition simple_escape :: "char \<Rightarrow> char option" where
  "simple_escape c =
     (if c \<in> {DQUOTE, BACKSLASH, CHR ''/''} then Some c
      else if c = CHR ''n'' then Some NL else if c = CHR ''r'' then Some CR
      else if c = CHR ''t'' then Some (CHR 0x09) else if c = CHR ''b'' then Some (CHR 0x08)
      else if c = CHR ''f'' then Some (CHR 0x0C) else None)"

text \<open>The rest of a string literal after its opening quote.\<close>

fun read_chars :: "nat \<Rightarrow> string \<Rightarrow> (string \<times> string) option" where
  "read_chars 0 s = None"
| "read_chars (Suc n) s =
     (case s of
        [] \<Rightarrow> None
      | c # cs \<Rightarrow>
          if c = DQUOTE then Some ([], cs)
          else if c = BACKSLASH then
            (case cs of
               [] \<Rightarrow> None
             | e # es \<Rightarrow>
                 if e = CHR ''u'' then
                   (case read_u es of None \<Rightarrow> None
                    | Some (cp, r) \<Rightarrow> map_option (\<lambda>(t, r2). (point_text cp @ t, r2)) (read_chars n r))
                 else (case simple_escape e of None \<Rightarrow> None
                       | Some x \<Rightarrow> map_option (\<lambda>(t, r2). (x # t, r2)) (read_chars n es)))
          else if byte_of c < 32 then None
          else map_option (\<lambda>(t, r2). (c # t, r2)) (read_chars n cs))"

definition read_string :: "string \<Rightarrow> (string \<times> string) option" where
  "read_string s = read_chars (Suc (length s)) s"

definition read_digits :: "string \<Rightarrow> string \<times> string" where
  "read_digits s = (takeWhile is_digit s, dropWhile is_digit s)"

definition read_fraction :: "string \<Rightarrow> string \<times> string" where
  "read_fraction s = (case s of
       p # d # r \<Rightarrow> if p = CHR ''.'' \<and> is_digit d then (p # takeWhile is_digit (d # r), dropWhile is_digit (d # r)) else ([], s)
     | _ \<Rightarrow> ([], s))"

definition read_exponent :: "string \<Rightarrow> string \<times> string" where
  "read_exponent s = (case s of
       e # r \<Rightarrow>
         (let sg = (if take 1 r \<in> {''+'', ''-''} then take 1 r else []); r1 = drop (length sg) r
          in if e \<in> set ''eE'' \<and> takeWhile is_digit r1 \<noteq> []
             then (e # sg @ takeWhile is_digit r1, dropWhile is_digit r1) else ([], s))
     | [] \<Rightarrow> ([], s))"

definition read_number :: "string \<Rightarrow> (string \<times> string) option" where
  "read_number s =
     (let sg = (if prefix ''-'' s then ''-'' else []); s1 = drop (length sg) s;
          (i, s2) = (if prefix ''0'' s1 then (''0'', drop 1 s1) else read_digits s1);
          (f, s3) = read_fraction s2; (e, s4) = read_exponent s3
      in if i = [] then None else Some (sg @ i @ f @ e, s4))"

definition read_word :: "string \<Rightarrow> (json \<times> string) option" where
  "read_word s =
     (if prefix ''null'' s then Some (JNull, drop 4 s)
      else if prefix ''true'' s then Some (JBool True, drop 4 s)
      else if prefix ''false'' s then Some (JBool False, drop 5 s)
      else if prefix ''NaN'' s then Some (JNum ''NaN'', drop 3 s)
      else if prefix ''Infinity'' s then Some (JNum ''Infinity'', drop 8 s)
      else if prefix ''-Infinity'' s then Some (JNum ''-Infinity'', drop 9 s)
      else map_option (\<lambda>(n, r). (JNum n, r)) (read_number s))"

fun read_value :: "nat \<Rightarrow> string \<Rightarrow> (json \<times> string) option"
  and read_items :: "nat \<Rightarrow> string \<Rightarrow> (json list \<times> string) option"
  and read_members :: "nat \<Rightarrow> string \<Rightarrow> ((string \<times> json) list \<times> string) option" where
  "read_value 0 s = None"
| "read_value (Suc n) s =
     (if prefix [DQUOTE] s then map_option (\<lambda>(t, r). (JStr t, r)) (read_string (drop 1 s))
      else if prefix ''['' s then
        (let r = skip_ws (drop 1 s) in
         if prefix '']'' r then Some (JArr [], drop 1 r)
         else map_option (\<lambda>(vs, r2). (JArr vs, r2)) (read_items n r))
      else if prefix ''{'' s then
        (let r = skip_ws (drop 1 s) in
         if prefix ''}'' r then Some (JObj [], drop 1 r)
         else map_option (\<lambda>(ms, r2). (JObj ms, r2)) (read_members n r))
      else read_word s)"
| "read_items 0 s = None"
| "read_items (Suc n) s =
     (case read_value n s of
        None \<Rightarrow> None
      | Some (v, r0) \<Rightarrow>
          (let r = skip_ws r0 in
           if prefix '']'' r then Some ([v], drop 1 r)
           else if prefix '','' r then map_option (\<lambda>(vs, r2). (v # vs, r2)) (read_items n (skip_ws (drop 1 r)))
           else None))"
| "read_members 0 s = None"
| "read_members (Suc n) s =
     (if \<not> prefix [DQUOTE] s then None
      else (case read_string (drop 1 s) of
        None \<Rightarrow> None
      | Some (k, r0) \<Rightarrow>
          (let r1 = skip_ws r0 in
           if \<not> prefix '':'' r1 then None
           else (case read_value n (skip_ws (drop 1 r1)) of
             None \<Rightarrow> None
           | Some (v, r2) \<Rightarrow>
               (let r = skip_ws r2 in
                if prefix ''}'' r then Some ([(k, v)], drop 1 r)
                else if prefix '','' r then map_option (\<lambda>(ms, r3). ((k, v) # ms, r3)) (read_members n (skip_ws (drop 1 r)))
                else None)))))"

definition json_loads :: "string \<Rightarrow> json option" where
  "json_loads s =
     (case read_value (2 * length s + 2) (skip_ws s) of
        Some (v, r) \<Rightarrow> if skip_ws r = [] then Some v else None
      | None \<Rightarrow> None)"

section \<open>Text survives its encoding\<close>

definition point_ok :: "nat \<Rightarrow> bool" where
  "point_ok cp \<longleftrightarrow> cp < 0x110000 \<and> (is_surrogate cp \<longrightarrow> 0xDC80 \<le> cp \<and> cp < 0xDD00)"

lemma base64_digits:
  fixes a b c d :: nat
  assumes "b < 64" "c < 64" "d < 64"
  shows "(a * 64 + b) div 64 = a" "(a * 64 + b) mod 64 = b"
    "(a * 4096 + b * 64 + c) div 4096 = a" "(a * 4096 + b * 64 + c) div 64 mod 64 = b" "(a * 4096 + b * 64 + c) mod 64 = c"
    "(a * 262144 + b * 4096 + c * 64 + d) div 262144 = a" "(a * 262144 + b * 4096 + c * 64 + d) div 4096 mod 64 = b"
    "(a * 262144 + b * 4096 + c * 64 + d) div 64 mod 64 = c" "(a * 262144 + b * 4096 + c * 64 + d) mod 64 = d"
proof -
  have 1: "(x * 64 + y) div 64 = x" "(x * 64 + y) mod 64 = y" if "y < 64" for x y :: nat using that by simp_all
  have e3: "a * 4096 + b * 64 + c = (a * 64 + b) * 64 + c"
    and e4: "a * 262144 + b * 4096 + c * 64 + d = ((a * 64 + b) * 64 + c) * 64 + d" by simp_all
  have q: "x div 4096 = x div 64 div 64" "x div 262144 = x div 64 div 64 div 64" for x :: nat
    using div_mult2_eq [of x 64 64] div_mult2_eq [of x 64 4096] div_mult2_eq [of "x div 64" 64 64] by simp_all
  show "(a * 64 + b) div 64 = a" "(a * 64 + b) mod 64 = b" using 1 [OF assms(1)] by blast+
  show "(a * 4096 + b * 64 + c) div 4096 = a" "(a * 4096 + b * 64 + c) div 64 mod 64 = b" "(a * 4096 + b * 64 + c) mod 64 = c"
    unfolding e3 q using assms by (simp_all only: 1)
  show "(a * 262144 + b * 4096 + c * 64 + d) div 262144 = a" "(a * 262144 + b * 4096 + c * 64 + d) div 4096 mod 64 = b"
    "(a * 262144 + b * 4096 + c * 64 + d) div 64 mod 64 = c" "(a * 262144 + b * 4096 + c * 64 + d) mod 64 = d"
    unfolding e4 q using assms by (simp_all only: 1)
qed

lemma encode2: "x < 32 \<Longrightarrow> y < 64 \<Longrightarrow> 128 \<le> x * 64 + y \<Longrightarrow> utf8_encode (x * 64 + y) = [192 + x, 128 + y]"
  using base64_digits(1,2) [of y 0 0 x] by (simp add: utf8_encode_def)

lemma encode3:
  assumes "x < 16" "y < 64" "z < 64" "0x800 \<le> x * 4096 + y * 64 + z" "\<not> is_surrogate (x * 4096 + y * 64 + z)"
  shows "utf8_encode (x * 4096 + y * 64 + z) = [224 + x, 128 + y, 128 + z]"
proof -
  define cp where "cp = x * 4096 + y * 64 + z"
  have "cp < 0x10000" using assms(1-3) unfolding cp_def by linarith
  moreover have "\<not> cp < 0x800" "\<not> cp < 128" using assms(4) unfolding cp_def by linarith+
  moreover have "\<not> (0xDC80 \<le> cp \<and> cp < 0xDD00)" using assms(5) by (auto simp: is_surrogate_def cp_def)
  moreover have "cp div 4096 = x" "cp div 64 mod 64 = y" "cp mod 64 = z"
    unfolding cp_def using base64_digits(3-5) assms(2,3) by blast+
  ultimately have "utf8_encode cp = [224 + x, 128 + y, 128 + z]" by (simp only: utf8_encode_def if_True if_False)
  then show ?thesis by (simp add: cp_def)
qed

lemma encode4:
  assumes "y < 64" "z < 64" "w < 64" "0x10000 \<le> x * 262144 + y * 4096 + z * 64 + w"
  shows "utf8_encode (x * 262144 + y * 4096 + z * 64 + w) = [240 + x, 128 + y, 128 + z, 128 + w]"
proof -
  define cp where "cp = x * 262144 + y * 4096 + z * 64 + w"
  have "\<not> cp < 0x10000" "\<not> cp < 0x800" "\<not> cp < 128" "\<not> (0xDC80 \<le> cp \<and> cp < 0xDD00)"
    using assms(4) unfolding cp_def by linarith+
  moreover have "cp div 262144 = x" "cp div 4096 mod 64 = y" "cp div 64 mod 64 = z" "cp mod 64 = w"
    unfolding cp_def by (rule base64_digits(6-9) [OF assms(1-3)])+
  ultimately have "utf8_encode cp = [240 + x, 128 + y, 128 + z, 128 + w]" by (simp only: utf8_encode_def if_True if_False)
  then show ?thesis by (simp add: cp_def)
qed

lemma is_cont_iff: "is_cont b \<longleftrightarrow> (\<exists>x < 64. b = 128 + x)"
  unfolding is_cont_def by presburger

lemma utf8_multi_cases:
  assumes "utf8_multi b0 bs = Some (cp, r)"
  obtains (two) x y where "x < 32" "y < 64" "b0 = 192 + x" "bs = (128 + y) # r" "cp = x * 64 + y" "2 \<le> x"
  | (three) x y z where "x < 16" "y < 64" "z < 64" "b0 = 224 + x" "bs = (128 + y) # (128 + z) # r"
      "cp = x * 4096 + y * 64 + z" "0x800 \<le> cp" "\<not> is_surrogate cp"
  | (four) x y z w where "y < 64" "z < 64" "w < 64" "b0 = 240 + x" "bs = (128 + y) # (128 + z) # (128 + w) # r"
      "cp = x * 262144 + y * 4096 + z * 64 + w" "0x10000 \<le> cp" "cp < 0x110000"
proof -
  consider (a) "194 \<le> b0" "b0 < 224" | (b) "224 \<le> b0" "b0 < 240" | (c) "240 \<le> b0" "b0 < 245"
    using assms by (auto simp: utf8_multi_def split: if_splits)
  then show thesis
  proof cases
    case a
    then obtain b1 where "bs = b1 # r" "is_cont b1" "cp = (b0 - 192) * 64 + (b1 - 128)"
      using assms by (auto simp: utf8_multi_def split: if_splits list.splits)
    then show thesis using a two [of "b0 - 192" "b1 - 128"] by (auto simp: is_cont_iff)
  next
    case b
    then obtain b1 b2 where "bs = b1 # b2 # r" "is_cont b1" "is_cont b2" "0x800 \<le> cp" "\<not> is_surrogate cp"
      "cp = (b0 - 224) * 4096 + (b1 - 128) * 64 + (b2 - 128)"
      using assms by (auto simp: utf8_multi_def Let_def split: if_splits list.splits)
    then show thesis using b three [of "b0 - 224" "b1 - 128" "b2 - 128"] by (auto simp: is_cont_iff add.assoc)
  next
    case c
    then obtain b1 b2 b3 where "bs = b1 # b2 # b3 # r" "is_cont b1" "is_cont b2" "is_cont b3"
      "0x10000 \<le> cp" "cp < 0x110000" "cp = (b0 - 240) * 262144 + (b1 - 128) * 4096 + (b2 - 128) * 64 + (b3 - 128)"
      using assms by (auto simp: utf8_multi_def Let_def split: if_splits list.splits)
    then show thesis using c four [of "b1 - 128" "b2 - 128" "b3 - 128" "b0 - 240"] by (auto simp: is_cont_iff)
  qed
qed

lemma utf8_multi_encode:
  assumes "utf8_multi b0 bs = Some (cp, r)"
  shows "utf8_encode cp @ r = b0 # bs" and "point_ok cp"
proof -
  have "utf8_encode cp @ r = b0 # bs \<and> point_ok cp"
    using assms
  proof (cases rule: utf8_multi_cases)
    case (two x y)
    then show ?thesis using encode2 [of x y] by (simp add: point_ok_def is_surrogate_def)
  next
    case (three x y z)
    then have "cp < 0x110000" by linarith
    then show ?thesis using three encode3 [of x y z] by (simp add: point_ok_def)
  next
    case (four x y z w)
    then have "\<not> is_surrogate cp" unfolding is_surrogate_def by linarith
    then show ?thesis using four encode4 [of y z w x] by (simp add: point_ok_def)
  qed
  then show "utf8_encode cp @ r = b0 # bs" "point_ok cp" by auto
qed

lemma utf8_decode_encode:
  "\<forall>b \<in> set bs. b < 256 \<Longrightarrow> concat (map utf8_encode (utf8_decode bs)) = bs \<and> list_all point_ok (utf8_decode bs)"
proof (induction bs rule: utf8_decode.induct)
  case (2 b0 bs)
  show ?case
  proof (cases "b0 < 128")
    case True
    then show ?thesis using 2 by (simp add: utf8_encode_def point_ok_def is_surrogate_def)
  next
    case b: False
    show ?thesis
    proof (cases "utf8_multi b0 bs")
      case None
      then show ?thesis using 2 b by (simp add: utf8_encode_def point_ok_def is_surrogate_def)
    next
      case (Some x)
      then obtain cp r where x: "utf8_multi b0 bs = Some (cp, r)" by (cases x) auto
      have "set r \<subseteq> set (b0 # bs)" using utf8_multi_encode(1) [OF x] by (metis le_sup_iff order_refl set_append)
      then show ?thesis
        using 2(3) [OF b x] 2(4) b x utf8_multi_encode [OF x] utf8_multi_shorter [OF x] by (auto simp: subset_iff)
    qed
  qed
qed simp

lemma byte_of_less [simp]: "byte_of c < 256"
  by (simp add: byte_of_def)

lemma text_points_ok: "list_all point_ok (text_points s)"
  and text_points_text: "concat (map point_text (text_points s)) = s"
proof -
  have d: "concat (map utf8_encode (text_points s)) = map byte_of s \<and> list_all point_ok (text_points s)"
    unfolding text_points_def by (rule utf8_decode_encode) auto
  then show "list_all point_ok (text_points s)" by simp
  have "concat (map point_text (text_points s)) = map char_of (concat (map utf8_encode (text_points s)))"
    by (simp add: point_text_def [abs_def] map_concat comp_def)
  also have "\<dots> = s" using d by (simp add: byte_of_def comp_def map_idI)
  finally show "concat (map point_text (text_points s)) = s" .
qed

section \<open>What is printed is read back\<close>

lemma hex_val_digit [simp]: "d < 16 \<Longrightarrow> hex_val (hex_digit d) = Some d"
  by (simp add: hex_val_def hex_digit_def byte_of_def Let_def)

lemma read_hex4_digits:
  "w < 16 \<Longrightarrow> x < 16 \<Longrightarrow> y < 16 \<Longrightarrow> z < 16 \<Longrightarrow>
   read_hex4 ([hex_digit w, hex_digit x, hex_digit y, hex_digit z] @ r) = Some (4096 * w + 256 * x + 16 * y + z, r)"
  by (simp add: read_hex4_def)

lemma hex_digits_value:
  fixes n :: nat
  assumes "n < 0x10000"
  shows "4096 * (n div 4096 mod 16) + 256 * (n div 256 mod 16) + 16 * (n div 16 mod 16) + n mod 16 = n"
proof -
  have q: "n div 4096 = n div 16 div 16 div 16" "n div 256 = n div 16 div 16"
    using div_mult2_eq [of n 16 16] div_mult2_eq [of n 16 256] div_mult2_eq [of "n div 16" 16 16] by simp_all
  have m: "n div 4096 mod 16 = n div 4096" using assms by (intro mod_less less_mult_imp_div_less) simp
  have v: "4096 * c + 256 * r2 + 16 * r1 + r0 = n" if "n = 16 * a + r0" "a = 16 * b + r1" "b = 16 * c + r2"
    for a b c r0 r1 r2 using that by simp
  show ?thesis unfolding m unfolding q by (rule v) (rule mult_div_mod_eq [symmetric])+
qed

lemma read_hex4_hex4 [simp]: "n < 0x10000 \<Longrightarrow> read_hex4 (hex4 n @ r) = Some (n, r)"
  unfolding hex4_def by (subst read_hex4_digits) (simp_all only: hex_digits_value mod_less_divisor zero_less_numeral)

lemma hex4_length [simp]: "length (hex4 n) = 4"
  by (simp add: hex4_def)

lemma read_u_hex4 [simp]:
  "n < 0x10000 \<Longrightarrow> \<not> (0xD800 \<le> n \<and> n < 0xDC00) \<Longrightarrow> read_u (hex4 n @ r) = Some (n, r)"
  by (auto simp: read_u_def)

lemma surrogate_pair:
  fixes cp :: nat
  assumes "0x10000 \<le> cp" "cp < 0x110000"
  obtains h l where "(cp - 0x10000) div 1024 = h" "(cp - 0x10000) mod 1024 = l" "h < 1024" "l < 1024"
    "cp = 0x10000 + h * 1024 + l"
proof (rule that)
  show "(cp - 0x10000) div 1024 < 1024" using assms by (intro less_mult_imp_div_less) simp
  show "cp = 0x10000 + (cp - 0x10000) div 1024 * 1024 + (cp - 0x10000) mod 1024"
    using assms(1) div_mult_mod_eq [of "cp - 0x10000" 1024] by linarith
qed simp_all

lemma read_u_pair:
  assumes "0x10000 \<le> cp" "cp < 0x110000"
  shows "read_u (hex4 (0xD800 + (cp - 0x10000) div 1024) @ u_escape (0xDC00 + (cp - 0x10000) mod 1024) @ r) = Some (cp, r)"
proof -
  obtain h l where hl: "(cp - 0x10000) div 1024 = h" "(cp - 0x10000) mod 1024 = l" "h < 1024" "l < 1024"
    "cp = 0x10000 + h * 1024 + l" using assms by (rule surrogate_pair)
  show ?thesis unfolding hl(1,2) using hl(3-5) by (simp add: read_u_def u_escape_def)
qed

lemma simple_escapes:
  "simple_escape DQUOTE = Some DQUOTE" "simple_escape BACKSLASH = Some BACKSLASH" "simple_escape (CHR ''n'') = Some NL"
  "simple_escape (CHR ''r'') = Some CR" "simple_escape (CHR ''t'') = Some (CHR 0x09)"
  "simple_escape (CHR ''b'') = Some (CHR 0x08)" "simple_escape (CHR ''f'') = Some (CHR 0x0C)"
  by (simp_all add: simple_escape_def DQUOTE_def BACKSLASH_def)

lemma simple_points:
  "point_text 34 = [DQUOTE]" "point_text 92 = [BACKSLASH]" "point_text 10 = [NL]" "point_text 13 = [CR]"
  "point_text 9 = [CHR 0x09]" "point_text 8 = [CHR 0x08]" "point_text 12 = [CHR 0x0C]"
  by code_simp+

lemma read_simple_escape:
  "simple_escape e = Some x \<Longrightarrow> e \<noteq> CHR ''u'' \<Longrightarrow>
   read_chars (Suc n) (BACKSLASH # e # s) = map_option (\<lambda>(t, r). (x # t, r)) (read_chars n s)"
  by (simp add: DQUOTE_def BACKSLASH_def)

lemma not_u: "DQUOTE \<noteq> CHR ''u''" "BACKSLASH \<noteq> CHR ''u''"
  by (simp_all add: DQUOTE_def BACKSLASH_def)

lemma read_simple_points:
  assumes "cp \<in> {34, 92, 10, 13, 9, 8, 12}"
  shows "read_chars (Suc n) (json_escape cp @ s) = map_option (\<lambda>(t, r). (point_text cp @ t, r)) (read_chars n s)"
proof -
  have e: "json_escape 34 = [BACKSLASH, DQUOTE]" "json_escape 92 = [BACKSLASH, BACKSLASH]"
    "json_escape 10 = [BACKSLASH, CHR ''n'']" "json_escape 13 = [BACKSLASH, CHR ''r'']"
    "json_escape 9 = [BACKSLASH, CHR ''t'']" "json_escape 8 = [BACKSLASH, CHR ''b'']"
    "json_escape 12 = [BACKSLASH, CHR ''f'']" by (simp_all add: json_escape_def)
  show ?thesis
    using assms by (elim insertE emptyE) (simp_all add: e simple_points read_simple_escape simple_escapes not_u del: read_chars.simps)
qed

lemma read_chars_escape:
  assumes "point_ok cp"
  shows "read_chars (Suc n) (json_escape cp @ s) = map_option (\<lambda>(t, r). (point_text cp @ t, r)) (read_chars n s)"
proof -
  have q: "DQUOTE \<noteq> BACKSLASH" "CHR ''u'' \<noteq> BACKSLASH" "CHR ''u'' \<noteq> DQUOTE" by (simp_all add: DQUOTE_def BACKSLASH_def)
  have lt: "point_text cp = [char_of cp]" if "cp < 128" using that by (simp add: point_text_def utf8_encode_def)
  have u: "read_chars (Suc n) (u_escape cp @ s) = map_option (\<lambda>(t, r). (point_text cp @ t, r)) (read_chars n s)"
    if "cp < 0x10000"
  proof -
    have "\<not> (0xD800 \<le> cp \<and> cp < 0xDC00)" using assms by (auto simp: point_ok_def is_surrogate_def)
    then have "read_u (hex4 cp @ s) = Some (cp, s)" by (rule read_u_hex4 [OF that])
    then show ?thesis using q by (simp add: u_escape_def)
  qed
  have p: "read_chars (Suc n) ((u_escape (0xD800 + (cp - 0x10000) div 1024) @ u_escape (0xDC00 + (cp - 0x10000) mod 1024)) @ s)
      = map_option (\<lambda>(t, r). (point_text cp @ t, r)) (read_chars n s)" (is "read_chars _ ((u_escape ?h @ u_escape ?l) @ s) = _")
    if "0x10000 \<le> cp"
  proof -
    have "read_u (hex4 ?h @ u_escape ?l @ s) = Some (cp, s)" using that assms by (intro read_u_pair) (auto simp: point_ok_def)
    then show ?thesis using q by (simp add: u_escape_def [of ?h] del: append_assoc add: append_assoc)
  qed
  consider "cp \<in> {34, 92, 10, 13, 9, 8, 12}" | "32 \<le> cp" "cp \<le> 126" "cp \<noteq> 34" "cp \<noteq> 92"
    | (u) "\<not> (32 \<le> cp \<and> cp \<le> 126)" "cp \<notin> {10, 13, 9, 8, 12}" by fastforce
  then show ?thesis
  proof cases
    case 1
    then show ?thesis by (rule read_simple_points)
  next
    case 2
    have "byte_of (char_of cp) = cp" "char_of cp \<noteq> DQUOTE" "char_of cp \<noteq> BACKSLASH"
      using 2 by (auto simp: byte_of_def DQUOTE_def BACKSLASH_def dest: arg_cong [of _ _ "of_char :: char \<Rightarrow> nat"])
    then show ?thesis using 2 lt by (simp add: json_escape_def)
  next
    case 3: u
    then have "cp \<noteq> 34" "cp \<noteq> 92" "cp \<noteq> 10" "cp \<noteq> 13" "cp \<noteq> 9" "cp \<noteq> 8" "cp \<noteq> 12" by auto
    then have "json_escape cp = (if cp < 0x10000 then u_escape cp
        else u_escape (0xD800 + (cp - 0x10000) div 1024) @ u_escape (0xDC00 + (cp - 0x10000) mod 1024))"
      unfolding json_escape_def using 3(1) by (simp only: if_False)
    then show ?thesis using u p by (cases "cp < 0x10000") simp_all
  qed
qed

lemma read_chars_points:
  "list_all point_ok cps \<Longrightarrow> length cps < n \<Longrightarrow>
   read_chars n (concat (map json_escape cps) @ DQUOTE # r) = Some (concat (map point_text cps), r)"
proof (induction cps arbitrary: n)
  case Nil
  then show ?case by (cases n) auto
next
  case (Cons cp cps)
  then obtain m where "n = Suc m" by (cases n) auto
  then show ?case using Cons read_chars_escape [of cp m] by simp
qed

lemma json_escape_nonempty: "json_escape cp \<noteq> []"
  by (simp add: json_escape_def u_escape_def)

lemma length_concat_escape: "length cps \<le> length (concat (map json_escape cps))"
proof (induction cps)
  case (Cons cp cps)
  have "Suc 0 \<le> length (json_escape cp)" using json_escape_nonempty [of cp] by (cases "json_escape cp") simp_all
  then show ?case using Cons by (simp del: length_concat)
qed simp

lemma read_string_quote: "read_string (drop 1 (json_quote s @ r)) = Some (s, r)"
  using read_chars_points [OF text_points_ok, of s "Suc (length (drop 1 (json_quote s @ r)))" r]
    length_concat_escape [of "text_points s"]
  by (simp add: read_string_def json_quote_def text_points_text)

text \<open>Decimal integers, the numbers that the sources print.\<close>

definition int_text :: "string \<Rightarrow> bool" where
  "int_text n \<longleftrightarrow>
     (let d = (if prefix ''-'' n then drop 1 n else n)
      in all_digits d \<and> (prefix ''0'' d \<longrightarrow> d = ''0''))"

text \<open>What may follow a number in a printed document.\<close>

definition delimited :: "string \<Rightarrow> bool" where
  "delimited r \<longleftrightarrow> (case r of [] \<Rightarrow> True | c # _ \<Rightarrow> c = CHR '','' \<or> c = CHR '']'' \<or> c = CHR ''}'' \<or> json_ws c)"

lemma delimited_no_digit: "delimited r \<Longrightarrow> takeWhile is_digit r = [] \<and> dropWhile is_digit r = r"
  by (auto simp: delimited_def is_digit_def json_ws_def NL_def CR_def split: list.splits)

lemma read_digits_delimited:
  "all_digits d \<Longrightarrow> delimited r \<Longrightarrow> read_digits (d @ r) = (d, r)"
  using delimited_no_digit [of r] by (simp add: read_digits_def all_digits_def)

lemma delimited_no_tail:
  assumes "delimited r"
  shows "read_fraction r = ([], r)" "read_exponent r = ([], r)"
  using assms by (auto simp: delimited_def read_fraction_def read_exponent_def json_ws_def NL_def CR_def Let_def split: list.splits)

lemma digit_not: "is_digit c \<Longrightarrow> c \<noteq> CHR ''-'' \<and> c \<noteq> CHR ''n'' \<and> c \<noteq> CHR ''t'' \<and> c \<noteq> CHR ''f'' \<and> c \<noteq> CHR ''N'' \<and> c \<noteq> CHR ''I''
    \<and> c \<noteq> DQUOTE \<and> c \<noteq> CHR ''['' \<and> c \<noteq> CHR ''{'' \<and> \<not> json_ws c"
  by (auto simp: is_digit_def DQUOTE_def json_ws_def NL_def CR_def)

lemma read_number_unsigned:
  assumes "all_digits d" "prefix ''0'' d \<longrightarrow> d = ''0''" "delimited r"
  shows "(if prefix ''0'' (d @ r) then (''0'', drop 1 (d @ r)) else read_digits (d @ r)) = (d, r)"
proof -
  have "d \<noteq> []" using assms(1) by (simp add: all_digits_def)
  then have "prefix ''0'' (d @ r) \<longleftrightarrow> prefix ''0'' d" by (cases d) auto
  then show ?thesis using assms read_digits_delimited [of d r] by auto
qed

lemma read_number_int:
  assumes "int_text n" "delimited r"
  shows "read_number (n @ r) = Some (n, r)"
proof (cases "prefix ''-'' n")
  case True
  then obtain d where d: "n = CHR ''-'' # d" "all_digits d" "prefix ''0'' d \<longrightarrow> d = ''0''"
    using assms(1) by (auto simp: int_text_def prefix_def)
  have "d \<noteq> []" using d(2) by (simp add: all_digits_def)
  then show ?thesis
    using read_number_unsigned [OF d(2,3) assms(2)] delimited_no_tail [OF assms(2)]
    by (simp add: read_number_def d(1) del: prefix_Cons)
next
  case False
  then have d: "all_digits n" "prefix ''0'' n \<longrightarrow> n = ''0''" using assms(1) by (auto simp: int_text_def)
  then obtain c cs where c: "n = c # cs" "is_digit c" by (cases n) (auto simp: all_digits_def)
  have "n \<noteq> []" using c by simp
  have "\<not> prefix ''-'' (n @ r)" using c digit_not [of c] by auto
  then show ?thesis
    using read_number_unsigned [OF d assms(2)] delimited_no_tail [OF assms(2)] \<open>n \<noteq> []\<close>
    by (simp add: read_number_def)
qed

lemma read_word_int:
  assumes "int_text n" "delimited r"
  shows "read_word (n @ r) = Some (JNum n, r)"
proof -
  obtain c cs where n: "n = c # cs" "is_digit c \<or> c = CHR ''-'' \<and> all_digits cs"
    using assms(1) by (cases n) (auto simp: int_text_def all_digits_def Let_def split: if_splits)
  have i: "\<not> prefix ''Infinity'' (cs @ r)" if "all_digits cs"
    using that digit_not by (cases cs) (auto simp: all_digits_def)
  have "\<not> prefix ''null'' (n @ r)" "\<not> prefix ''true'' (n @ r)" "\<not> prefix ''false'' (n @ r)" "\<not> prefix ''NaN'' (n @ r)"
    "\<not> prefix ''Infinity'' (n @ r)" "\<not> prefix ''-Infinity'' (n @ r)"
    using n digit_not [of c] i by auto
  then show ?thesis using read_number_int [OF assms] by (simp add: read_word_def)
qed

fun json_ok :: "json \<Rightarrow> bool" where
  "json_ok (JNum n) = int_text n"
| "json_ok (JArr vs) = list_all json_ok vs"
| "json_ok (JObj ms) = list_all (\<lambda>(k, v). json_ok v) ms"
| "json_ok _ = True"

fun jsize :: "json \<Rightarrow> nat" and isize :: "json list \<Rightarrow> nat" and msize :: "(string \<times> json) list \<Rightarrow> nat" where
  "jsize (JArr vs) = Suc (isize vs)"
| "jsize (JObj ms) = Suc (msize ms)"
| "jsize _ = 1"
| "isize [] = 0"
| "isize (v # vs) = Suc (jsize v + isize vs)"
| "msize [] = 0"
| "msize ((k, v) # ms) = Suc (jsize v + msize ms)"

definition blank :: "(nat \<Rightarrow> string) \<Rightarrow> bool" where "blank f \<longleftrightarrow> (\<forall>l. list_all json_ws (f l))"

lemma skip_ws_append: "list_all json_ws w \<Longrightarrow> skip_ws (w @ s) = skip_ws s"
  by (induction w) (simp_all add: skip_ws_def)

lemma skip_ws_blank [simp]: "blank f \<Longrightarrow> skip_ws (f l @ s) = skip_ws s"
  by (simp add: blank_def skip_ws_append)

lemma skip_ws_space [simp]: "skip_ws (CHR 0x20 # s) = skip_ws s"
  by (simp add: skip_ws_def json_ws_def)

lemma skip_ws_stop: "\<not> json_ws c \<Longrightarrow> skip_ws (c # cs) = c # cs"
  by (simp add: skip_ws_def)

lemma no_ws [simp]: "\<not> json_ws (CHR '']'')" "\<not> json_ws (CHR ''}'')" "\<not> json_ws (CHR '','')" "\<not> json_ws (CHR '':'')"
    "\<not> json_ws (CHR ''['')" "\<not> json_ws (CHR ''{'')" "\<not> json_ws DQUOTE" "json_ws (CHR 0x20)" "json_ws NL"
  by (simp_all add: json_ws_def NL_def CR_def DQUOTE_def)

lemma blanks: "blank new_line" "blank (\<lambda>_. [])" "blank (\<lambda>_. '' '')"
  by (simp_all add: blank_def new_line_def list_all_iff)

lemma write_start:
  assumes "json_ok v"
  obtains c cs where "json_write b g l v = c # cs" "\<not> json_ws c" "c \<noteq> CHR '']''" "c \<noteq> CHR ''}''"
proof -
  have "\<exists>c cs. json_write b g l v = c # cs \<and> \<not> json_ws c \<and> c \<noteq> CHR '']'' \<and> c \<noteq> CHR ''}''"
  proof (cases v)
    case (JNum n)
    then obtain c cs where n: "n = c # cs" "is_digit c \<or> c = CHR ''-''"
      using assms by (cases n) (auto simp: int_text_def all_digits_def Let_def split: if_splits)
    have "\<not> json_ws c \<and> c \<noteq> CHR '']'' \<and> c \<noteq> CHR ''}''"
      using n(2) by (auto simp: json_ws_def NL_def CR_def is_digit_def)
    then show ?thesis using JNum n by simp
  next
    case (JStr s)
    have "DQUOTE \<noteq> CHR '']'' \<and> DQUOTE \<noteq> CHR ''}''" by (simp add: DQUOTE_def)
    then show ?thesis using JStr by (simp add: json_quote_def)
  qed (simp_all add: json_ws_def NL_def CR_def)
  then show thesis using that by blast
qed

lemma skip_ws_write: "json_ok v \<Longrightarrow> skip_ws (json_write b g l v @ r) = json_write b g l v @ r"
  by (erule write_start [of v b g l]) (simp add: skip_ws_stop)

lemma delimited_comma [simp]: "delimited (CHR '','' # r)" "delimited []"
  by (simp_all add: delimited_def)

lemma delimited_close [simp]:
  assumes "blank f"
  shows "delimited (f l @ CHR '']'' # r)" "delimited (f l @ CHR ''}'' # r)"
  using assms [unfolded blank_def, rule_format, of l] by (cases "f l"; simp add: delimited_def)+

lemma json_quote_start: "json_quote s @ r = DQUOTE # drop 1 (json_quote s @ r)"
  by (simp add: json_quote_def)

lemma read_write:
  assumes b: "blank b" and g: "blank g"
  shows "json_ok v \<Longrightarrow> delimited r \<Longrightarrow> jsize v \<le> n \<Longrightarrow> read_value n (json_write b g l v @ r) = Some (v, r)"
    and "vs \<noteq> [] \<Longrightarrow> list_all json_ok vs \<Longrightarrow> isize vs \<le> n \<Longrightarrow>
      read_items n (write_items b g l vs @ b d @ CHR '']'' # r) = Some (vs, r)"
    and "ms \<noteq> [] \<Longrightarrow> list_all (\<lambda>(k, v). json_ok v) ms \<Longrightarrow> msize ms \<le> n \<Longrightarrow>
      read_members n (write_members b g l ms @ b d @ CHR ''}'' # r) = Some (ms, r)"
proof (induction l v and l vs and l ms arbitrary: n r and n d r and n d r rule: json_dump_dump_items_dump_members.induct)
  case (1 l)
  then show ?case by (cases n) (simp_all add: DQUOTE_def read_word_def)
next
  case (2 l b)
  then show ?case by (cases n) (auto simp: DQUOTE_def read_word_def)
next
  case (3 l t)
  then obtain m where n: "n = Suc m" by (cases n) auto
  obtain c cs where c: "t = c # cs" "c \<noteq> DQUOTE \<and> c \<noteq> CHR ''['' \<and> c \<noteq> CHR ''{''"
    using 3 digit_not by (cases t) (auto simp: int_text_def all_digits_def DQUOTE_def Let_def split: if_splits)
  then show ?case using read_word_int [of t r] 3 by (auto simp: n)
next
  case (4 l s)
  then show ?case using read_string_quote [of s r] json_quote_start [of s r] by (cases n) simp_all
next
  case (5 l vs)
  then obtain m where n: "n = Suc m" by (cases n) auto
  show ?case
  proof (cases "vs = []")
    case False
    then obtain v ws where v: "vs = v # ws" by (cases vs) auto
    obtain c cs where c: "json_write b g (Suc l) v = c # cs" "\<not> json_ws c" "c \<noteq> CHR '']''"
      using 5(2) v by (auto elim: write_start [of v b g "Suc l"])
    then show ?thesis
      using 5(1) [OF False, of m l r] 5(2-) False b by (auto simp: n v skip_ws_stop DQUOTE_def)
  qed (simp add: n DQUOTE_def skip_ws_stop)
next
  case (6 l ms)
  then obtain m where n: "n = Suc m" by (cases n) auto
  show ?case
  proof (cases "ms = []")
    case False
    then obtain k v ws where v: "ms = (k, v) # ws" by (cases ms) auto
    have "skip_ws (write_members b g (Suc l) ms @ b l @ CHR ''}'' # r) = write_members b g (Suc l) ms @ b l @ CHR ''}'' # r"
      "\<not> prefix ''}'' (write_members b g (Suc l) ms @ b l @ CHR ''}'' # r)"
      by (simp_all add: v json_quote_def skip_ws_stop) (simp add: DQUOTE_def)
    then show ?thesis
      using 6(1) [OF False, of m l r] 6(2-) False b by (auto simp: n DQUOTE_def)
  qed (simp add: n DQUOTE_def skip_ws_stop)
next
  case (8 l v vs)
  then obtain m where n: "n = Suc m" by (cases n) auto
  show ?case
  proof (cases "vs = []")
    case True
    then show ?thesis using 8(1) [of "b d @ CHR '']'' # r" m] 8(3-) b by (simp add: n skip_ws_stop)
  next
    case False
    then obtain w ws where "vs = w # ws" by (cases vs) auto
    then have "skip_ws (write_items b g l vs @ s) = write_items b g l vs @ s" for s
      using 8(4) by (auto simp: skip_ws_write)
    then show ?thesis using 8(1) [of "CHR '','' # g l @ write_items b g l vs @ b d @ CHR '']'' # r" m]
        8(2) [OF False, of m d r] 8(3-) False g by (simp add: n skip_ws_stop)
  qed
next
  case (10 l k v ms)
  then obtain m where n: "n = Suc m" by (cases n) auto
  have q: "read_string (drop 1 (json_quote k @ s)) = Some (k, s)" "prefix [DQUOTE] (json_quote k @ s)" for s
    using read_string_quote json_quote_start [of k s] by auto
  show ?case
  proof (cases "ms = []")
    case True
    then show ?thesis using 10(1) [of "b d @ CHR ''}'' # r" m] 10(3-) q b
      by (simp add: n skip_ws_stop skip_ws_write)
  next
    case False
    then obtain k' w ws where "ms = (k', w) # ws" by (cases ms) auto
    then have "skip_ws (write_members b g l ms @ s) = write_members b g l ms @ s" for s
      by (simp add: json_quote_def skip_ws_stop)
    then show ?thesis using 10(1) [of "CHR '','' # g l @ write_members b g l ms @ b d @ CHR ''}'' # r" m]
        10(2) [OF False, of m d r] 10(3-) q False g by (simp add: n skip_ws_stop skip_ws_write)
  qed
qed simp_all

lemma write_size:
  shows "json_ok v \<Longrightarrow> jsize v \<le> 2 * length (json_write b g l v)"
    and "list_all json_ok vs \<Longrightarrow> isize vs \<le> 2 * length (write_items b g l vs) + 1"
    and "list_all (\<lambda>(k, v). json_ok v) ms \<Longrightarrow> msize ms \<le> 2 * length (write_members b g l ms) + 1"
proof (induction l v and l vs and l ms rule: json_dump_dump_items_dump_members.induct)
  case (3 l n)
  then show ?case by (cases n) (auto simp: int_text_def all_digits_def Let_def)
qed (auto simp: json_quote_def)

text \<open>Whatever the depth it is printed at and the blanks, a value is read back.\<close>

lemma json_loads_write: "blank b \<Longrightarrow> blank g \<Longrightarrow> json_ok v \<Longrightarrow> json_loads (json_write b g l v) = Some v"
  using read_write(1) [of b g v "[]" "2 * length (json_write b g l v) + 2" l] write_size(1) [of v b g l] skip_ws_write [of v b g l "[]"]
  by (simp add: json_loads_def skip_ws_def)

lemma json_loads_dump: "json_ok v \<Longrightarrow> json_loads (json_dump l v) = Some v"
  by (simp add: json_dump_write json_loads_write blanks)

lemma json_loads_line: "json_ok v \<Longrightarrow> json_loads (json_line v) = Some v"
  by (simp add: json_line_def json_loads_write blanks)

end
