(* ===== verification/StoreOci.thy ===== *)
theory StoreOci
  imports StoreRun Json
begin

text \<open>
  \<^verbatim>\<open>store/store.py\<close>, from an image reference to an unpacked image: the OCI cache with its index,
  manifests and image ids, the lock files, registry credentials, \<^verbatim>\<open>resolve\<close>, the extraction of
  layers on the host or in a jail of its own, and \<^verbatim>\<open>unpack\<close>.  The tar program is a command of the
  host: what it puts into the temporary directory is read back from the tree.  The advisory
  locks change nothing when operations run one after the other; what another process does while
  \<^verbatim>\<open>unpack\<close> waits for an image is the argument \<^verbatim>\<open>wait\<close>.
\<close>

section \<open>Reading documents\<close>

definition of_sum :: "store_exc + 'a \<Rightarrow> ('a, 'w) act" where "of_sum r h = (r, h)"

definition type_error :: "store_exc + 'a" where "type_error = Inl (Other_error ''TypeError'')"

definition attribute_error :: "store_exc + 'a" where "attribute_error = Inl (Other_error ''AttributeError'')"

definition read_text :: "nat \<Rightarrow> fs \<Rightarrow> path \<Rightarrow> store_exc + string" where
  "read_text lim fs p =
     (case follow lim fs p of
        None \<Rightarrow> Inl (Tree_error (Os_error ''ENOENT''))
      | Some q \<Rightarrow> (case look fs q of
            Some (Reg c) \<Rightarrow> Inr c
          | Some Dir \<Rightarrow> Inl (Tree_error (Os_error ''EISDIR''))
          | Some _ \<Rightarrow> Inl (Tree_error (Os_error ''special file''))
          | None \<Rightarrow> Inl (Tree_error (Os_error ''ENOENT''))))"

definition read_json :: "nat \<Rightarrow> fs \<Rightarrow> path \<Rightarrow> store_exc + json" where
  "read_json lim fs p =
     try_bind (read_text lim fs p)
       (\<lambda>s. case json_loads s of None \<Rightarrow> Inl (Other_error ''JSONDecodeError'') | Some v \<Rightarrow> Inr v)"

text \<open>\<^verbatim>\<open>v.get(k, d)\<close>, \<^verbatim>\<open>v[k]\<close> for a name, and iteration, on a decoded value of any type.\<close>

definition jget :: "string \<Rightarrow> json \<Rightarrow> json \<Rightarrow> store_exc + json" where
  "jget k d v = (case v of
       JObj ms \<Rightarrow> Inr (case jlookup k ms of Some x \<Rightarrow> x | None \<Rightarrow> d)
     | _ \<Rightarrow> attribute_error)"

definition jitem :: "string \<Rightarrow> json \<Rightarrow> store_exc + json" where
  "jitem k v = (case v of
       JObj ms \<Rightarrow> (case jlookup k ms of Some x \<Rightarrow> Inr x | None \<Rightarrow> Inl (Other_error ''KeyError''))
     | _ \<Rightarrow> type_error)"

definition jiter :: "json \<Rightarrow> store_exc + json list" where
  "jiter v = (case v of
       JArr vs \<Rightarrow> Inr vs
     | JObj ms \<Rightarrow> Inr (map JStr (rev (remdups (rev (map fst ms)))))
     | JStr s \<Rightarrow> Inr (map (\<lambda>cp. JStr (point_text cp)) (text_points s))
     | _ \<Rightarrow> type_error)"

section \<open>The OCI cache\<close>

definition oci_dir_for :: "(string \<Rightarrow> string) \<Rightarrow> store \<Rightarrow> string \<Rightarrow> path" where
  "oci_dir_for sha256 st image_ref =
     st_cache st @ [safe_zfs_name image_ref @ ''-'' @ take 16 (sha256 image_ref)]"

definition REF_NAME :: string where "REF_NAME = ''org.opencontainers.image.ref.name''"

fun tagged_manifest :: "string \<Rightarrow> json list \<Rightarrow> store_exc + json option" where
  "tagged_manifest tag [] = Inr None"
| "tagged_manifest tag (m # ms) =
     try_bind (jget ''annotations'' (JObj []) m) (\<lambda>ann.
     try_bind (jget REF_NAME JNull ann) (\<lambda>v.
       if v = JStr tag then Inr (Some m) else tagged_manifest tag ms))"

definition find_manifest_for_tag :: "string \<Rightarrow> json \<Rightarrow> store_exc + json" where
  "find_manifest_for_tag tag index =
     try_bind (jget ''manifests'' (JArr []) index) (\<lambda>manifests.
     try_bind (jiter manifests) (\<lambda>ms.
     try_bind (tagged_manifest tag ms) (\<lambda>found.
       case found of
         Some m \<Rightarrow> Inr m
       | None \<Rightarrow> if length ms = 1 then Inr (hd ms)
                 else Inl (Other_error (''Cannot find manifest for tag '' @ py_repr tag @ '' in index with '' @
                   show_nat (length ms) @ '' entries'')))))"

text \<open>Joining a path with text: absolute text replaces the path.\<close>

definition join_path :: "path \<Rightarrow> string \<Rightarrow> path" where
  "join_path p s = (if is_absolute s then components s else p @ components s)"

definition blob_path :: "path \<Rightarrow> json \<Rightarrow> store_exc + path" where
  "blob_path oci_dir digest =
     (case digest of
        JStr s \<Rightarrow> (case py_cut (CHR '':'') s of
            None \<Rightarrow> Inl (Other_error ''ValueError'')
          | Some (alg, hex) \<Rightarrow> Inr (join_path (join_path (oci_dir @ [''blobs'']) alg) hex))
      | _ \<Rightarrow> attribute_error)"

definition read_manifest :: "nat \<Rightarrow> fs \<Rightarrow> path \<Rightarrow> string \<Rightarrow> store_exc + json" where
  "read_manifest lim fs oci_dir tag =
     (if \<not> path_exists lim fs (oci_dir @ [''index.json'']) then Inl (Other_error ''No OCI index'')
      else try_bind (read_json lim fs (oci_dir @ [''index.json''])) (\<lambda>index.
           try_bind (find_manifest_for_tag tag index) (\<lambda>desc.
           try_bind (jitem ''digest'' desc) (\<lambda>digest.
           try_bind (blob_path oci_dir digest) (\<lambda>blob. read_json lim fs blob)))))"

definition all_strings :: "json list \<Rightarrow> store_exc + string list" where
  "all_strings vs = try_map (\<lambda>v. case v of JStr s \<Rightarrow> Inr s | _ \<Rightarrow> type_error) vs"

definition manifest_layers :: "json \<Rightarrow> store_exc + json list" where
  "manifest_layers manifest = try_bind (jget ''layers'' (JArr []) manifest) jiter"

definition layer_digests :: "nat \<Rightarrow> fs \<Rightarrow> path \<Rightarrow> string \<Rightarrow> store_exc + string list" where
  "layer_digests lim fs oci_dir tag =
     try_bind (read_manifest lim fs oci_dir tag) (\<lambda>manifest.
     try_bind (manifest_layers manifest) (\<lambda>layers.
     try_bind (try_map (jitem ''digest'') layers) all_strings))"

definition compute_image_id :: "(string \<Rightarrow> string) \<Rightarrow> nat \<Rightarrow> fs \<Rightarrow> path \<Rightarrow> string \<Rightarrow> store_exc + string" where
  "compute_image_id sha256 lim fs oci_dir tag =
     try_bind (layer_digests lim fs oci_dir tag) (\<lambda>ds. Inr (sha256 (py_join [NL] (sort ds))))"

text \<open>The first directory of the cache, as the scan lists it, that gives the id; a directory that
  cannot be read is passed over.\<close>

fun first_match :: "(string \<Rightarrow> string) \<Rightarrow> nat \<Rightarrow> fs \<Rightarrow> path \<Rightarrow> string \<Rightarrow> string list \<Rightarrow> path option" where
  "first_match sha256 lim fs cache image_id [] = None"
| "first_match sha256 lim fs cache image_id (n # ns) =
     (if path_is_dir lim fs (cache @ [n]) \<and> n \<noteq> ''locks''
          \<and> compute_image_id sha256 lim fs (cache @ [n]) ''latest'' = Inr image_id
      then Some (cache @ [n])
      else first_match sha256 lim fs cache image_id ns)"

definition find_oci :: "(string \<Rightarrow> string) \<Rightarrow> nat \<Rightarrow> store \<Rightarrow> fs \<Rightarrow> string \<Rightarrow> store_exc + path \<times> string" where
  "find_oci sha256 lim st fs image_id =
     (case follow lim fs (st_cache st) of
        None \<Rightarrow> Inl (Image_not_found ''OCI cache is empty; run resolve() first'')
      | Some c \<Rightarrow>
          (case look fs c of
             None \<Rightarrow> Inl (Image_not_found ''OCI cache is empty; run resolve() first'')
           | Some n \<Rightarrow>
               if n \<noteq> Dir then Inl (Tree_error (Os_error ''ENOTDIR''))
               else (case first_match sha256 lim fs (st_cache st) image_id (child_names fs c) of
                       Some p \<Rightarrow> Inr (p, ''latest'')
                     | None \<Rightarrow> Inl (Image_not_found (''image_id '' @ py_repr image_id @ '' not found in OCI cache '' @
                                 path_str (st_cache st))))))"

fun locate_attempts ::
  "(fs \<Rightarrow> store_exc + 'a) \<Rightarrow> (nat \<Rightarrow> 'w host \<Rightarrow> 'w host) \<Rightarrow> nat \<Rightarrow> nat list \<Rightarrow> store_exc \<Rightarrow> ('a, 'w) act" where
  "locate_attempts lookup wait attempts [] err h = (Inl err, h)"
| "locate_attempts lookup wait attempts (a # as) err h =
     (case lookup (fst h) of
        Inr r \<Rightarrow> (Inr r, h)
      | Inl (Image_not_found m) \<Rightarrow>
          locate_attempts lookup wait attempts as (Image_not_found m) (if a < attempts - 1 then wait a h else h)
      | Inl e \<Rightarrow> (Inl e, h))"

definition locate_oci_with_retry ::
  "(string \<Rightarrow> string) \<Rightarrow> nat \<Rightarrow> store \<Rightarrow> (nat \<Rightarrow> 'w host \<Rightarrow> 'w host) \<Rightarrow> string \<Rightarrow> (path \<times> string, 'w) act" where
  "locate_oci_with_retry sha256 lim st wait image_id =
     locate_attempts (\<lambda>fs. find_oci sha256 lim st fs image_id) wait 5 [0, 1, 2, 3, 4] (Image_not_found [])"

section \<open>Locks and credentials\<close>

text \<open>\<^verbatim>\<open>os.open(p, O_CREAT | O_RDWR)\<close> and \<^verbatim>\<open>close\<close>: the file is there afterwards, its content kept.\<close>

definition fs_touch :: "nat \<Rightarrow> path \<Rightarrow> fs \<Rightarrow> fs_result" where
  "fs_touch lim p fs =
     (case follow lim fs p of
        None \<Rightarrow> (Some (Os_error ''ENOENT''), fs)
      | Some q \<Rightarrow>
          (case look fs q of
             Some Dir \<Rightarrow> (Some (Os_error ''EISDIR''), fs)
           | Some _ \<Rightarrow> (None, fs)
           | None \<Rightarrow> if q \<noteq> [] \<and> look fs (butlast q) = Some Dir then (None, put q (Reg []) fs)
                     else (Some (Os_error ''ENOENT''), fs)))"

definition with_image_lock :: "nat \<Rightarrow> store \<Rightarrow> string \<Rightarrow> ('a, 'w) act \<Rightarrow> ('a, 'w) act" where
  "with_image_lock lim st key body =
     (let lock_dir = st_cache st @ [''locks''] in
      then_do (on_tree (fs_mkdirs lim lock_dir)) (\<lambda>_.
      then_do (on_tree (fs_touch lim (lock_dir @ [safe_zfs_name key @ ''.lock'']))) (\<lambda>_. body)))"

definition build_registry_auth_args ::
  "env \<Rightarrow> nat \<Rightarrow> fs \<Rightarrow> (string \<times> string) option \<Rightarrow> string option \<Rightarrow> string list \<times> string list" where
  "build_registry_auth_args env lim fs auth authfile =
     (case auth of
        Some (user, password) \<Rightarrow> (let creds = user @ '':'' @ password in ([''--creds'', creds], [creds]))
      | None \<Rightarrow>
          (let candidate = getenv_or authfile (registry_authfile_env env) in
           if candidate \<noteq> [] \<and> path_is_file lim fs (components candidate)
           then ([''--authfile'', candidate], []) else ([], [])))"

section \<open>Resolving a reference\<close>

text \<open>\<^verbatim>\<open>re.match(r"^[a-f0-9]{64}$", s)\<close>; the dollar also matches before a final newline.\<close>

definition is_image_id :: "string \<Rightarrow> bool" where
  "is_image_id s \<longleftrightarrow>
     (let t = take 64 s in
      length t = 64 \<and> list_all (\<lambda>c. is_digit c \<or> c \<in> set ''abcdef'') t \<and> (drop 64 s = [] \<or> drop 64 s = [NL]))"

definition pull_cmd :: "path \<Rightarrow> string list \<Rightarrow> string \<Rightarrow> string list" where
  "pull_cmd oci_dir auth_args image_ref =
     [''skopeo'', ''copy'', ''--remove-signatures'', ''--override-os'', ''linux''] @ auth_args @
     [''docker://'' @ image_ref, ''oci:'' @ path_str oci_dir @ '':latest'']"

definition pull :: "env \<Rightarrow> 'w runner \<Rightarrow> nat \<Rightarrow> path \<Rightarrow> string \<Rightarrow> (string \<times> string) option \<Rightarrow> string option \<Rightarrow> (string, 'w) act" where
  "pull env t lim oci_dir image_ref auth authfile h =
     (let (auth_args, redact) = build_registry_auth_args env lim (fst h) auth authfile
      in store_run t None [] redact (pull_cmd oci_dir auth_args image_ref) h)"

definition store_resolve ::
  "(string \<Rightarrow> string) \<Rightarrow> env \<Rightarrow> 'w runner \<Rightarrow> nat \<Rightarrow> store \<Rightarrow> string \<Rightarrow> (string \<times> string) option \<Rightarrow> string option \<Rightarrow> (string, 'w) act" where
  "store_resolve sha256 env t lim st image_ref auth authfile =
     then_do (if is_image_id image_ref then image_exists_locally t lim st image_ref else give False) (\<lambda>here.
       if here then give image_ref
       else (let oci_dir = oci_dir_for sha256 st image_ref in
             with_image_lock lim st image_ref
               (then_do (on_tree (fs_mkdirs lim oci_dir)) (\<lambda>_.
                then_do (tree_exists lim (oci_dir @ [''index.json''])) (\<lambda>cached.
                then_do (if cached then give [] else pull env t lim oci_dir image_ref auth authfile) (\<lambda>_.
                (\<lambda>h. of_sum (compute_image_id sha256 lim (fst h) oci_dir ''latest'') h)))))))"

section \<open>Extracting a layer\<close>

text \<open>\<^verbatim>\<open>subprocess.run\<close> without \<^verbatim>\<open>check\<close>: an exception, or what the command answered.\<close>

definition subprocess_run :: "'w runner \<Rightarrow> string list \<Rightarrow> (int \<times> string \<times> string, 'w) act" where
  "subprocess_run t argv h =
     (case t None [] argv h of
        (Spawn_error e, h') \<Rightarrow> (Inl (Other_error e), h')
      | (Completed rc out err, h') \<Rightarrow> (Inr (rc, out, err), h'))"

definition EXTRACTION_JAIL_LIBS :: "string list" where
  "EXTRACTION_JAIL_LIBS =
     [''/lib/libbsdxml.so.4'', ''/lib/libc.so.7'', ''/lib/libcrypto.so.35'', ''/lib/libedit.so.8'', ''/lib/libmd.so.7'',
      ''/lib/libsys.so.7'', ''/lib/libthr.so.3'', ''/lib/libtinfow.so.9'', ''/lib/libz.so.6'', ''/usr/lib/libarchive.so.7'',
      ''/usr/lib/libbz2.so.4'', ''/usr/lib/liblzma.so.5'', ''/usr/lib/libprivatezstd.so.5'']"

definition template_cp :: "'w runner \<Rightarrow> nat \<Rightarrow> path \<Rightarrow> path \<Rightarrow> (unit, 'w) act" where
  "template_cp t lim src dst =
     then_do (tree_exists lim dst) (\<lambda>there.
     then_do (if there then subprocess_run t [''chflags'', ''noschg'', path_str dst] else give (0, [], [])) (\<lambda>_.
     then_do (subprocess_run t [''cp'', path_str src, path_str dst]) (\<lambda>(rc, _).
       if rc \<noteq> 0 then raise_exc (Other_error ''CalledProcessError'') else give ())))"

definition need_file :: "nat \<Rightarrow> path \<Rightarrow> string \<Rightarrow> (unit, 'w) act" where
  "need_file lim p msg =
     then_do (tree_exists lim p) (\<lambda>ok. if ok then give () else raise_exc (Other_error (msg @ '' not found: '' @ path_str p)))"

fun copy_libs :: "'w runner \<Rightarrow> nat \<Rightarrow> path \<Rightarrow> string list \<Rightarrow> (unit, 'w) act" where
  "copy_libs t lim template [] = give ()"
| "copy_libs t lim template (l # ls) =
     then_do (tree_exists lim (components l)) (\<lambda>ok.
     then_do (if \<not> ok then give ()
              else then_do (on_tree (fs_mkdirs lim (butlast (template @ components l)))) (\<lambda>_.
                   template_cp t lim (components l) (template @ components l))) (\<lambda>_.
     copy_libs t lim template ls))"

definition TEMPLATE_DIRS :: "string list" where
  "TEMPLATE_DIRS = [''bin'', ''usr/bin'', ''lib'', ''usr/lib'', ''etc'', ''libexec'', ''var/run'']"

definition PASSWD :: string where
  "PASSWD = ''root:*:0:0::0:0:'' @ [NL] @ ''nobody:*:65534:65534::0:0:'' @ [NL]"

definition GROUP_FILE :: string where
  "GROUP_FILE = ''wheel:*:0:'' @ [NL] @ ''nogroup:*:65534:'' @ [NL]"

definition ensure_extraction_jail_template :: "'w runner \<Rightarrow> nat \<Rightarrow> path \<Rightarrow> bool \<Rightarrow> (unit, 'w) act" where
  "ensure_extraction_jail_template t lim template force =
     then_do (tree_exists lim (template @ [''bin'', ''sh''])) (\<lambda>built.
       if \<not> force \<and> built then give ()
       else then_do (mkdirs_all lim (map (\<lambda>d. template @ components d) TEMPLATE_DIRS)) (\<lambda>_.
            then_do (need_file lim [''libexec'', ''ld-elf.so.1''] ''runtime linker'') (\<lambda>_.
            then_do (template_cp t lim [''libexec'', ''ld-elf.so.1''] (template @ [''libexec'', ''ld-elf.so.1''])) (\<lambda>_.
            then_do (need_file lim [''bin'', ''sh''] ''required binary'') (\<lambda>_.
            then_do (template_cp t lim [''bin'', ''sh''] (template @ [''bin'', ''sh''])) (\<lambda>_.
            then_do (need_file lim [''usr'', ''bin'', ''bsdtar''] ''required binary'') (\<lambda>_.
            then_do (template_cp t lim [''usr'', ''bin'', ''bsdtar''] (template @ [''usr'', ''bin'', ''bsdtar''])) (\<lambda>_.
            then_do (copy_libs t lim template EXTRACTION_JAIL_LIBS) (\<lambda>_.
            then_do (tree_exists lim [''var'', ''run'', ''ld-elf.so.hints'']) (\<lambda>hints.
            then_do (if hints then template_cp t lim [''var'', ''run'', ''ld-elf.so.hints''] (template @ [''var'', ''run'', ''ld-elf.so.hints''])
                     else give ()) (\<lambda>_.
            then_do (on_tree (fs_write lim PASSWD (template @ [''etc'', ''passwd'']))) (\<lambda>_.
            on_tree (fs_write lim GROUP_FILE (template @ [''etc'', ''group'']))))))))))))))"

definition tar_args :: "string \<Rightarrow> string \<Rightarrow> string list" where
  "tar_args blob out = [''-xf'', blob, ''-C'', out, ''--no-same-owner'', ''--no-xattrs'']"

definition create_extraction_jail_cmd :: "string \<Rightarrow> path \<Rightarrow> string list" where
  "create_extraction_jail_cmd jail template =
     [''jail'', ''-c'', ''name='' @ jail, ''path='' @ path_str template, ''ip4=disable'', ''ip6=disable'', ''persist'']"

definition extraction_jexec_cmd :: "string \<Rightarrow> string \<Rightarrow> string list" where
  "extraction_jexec_cmd jail blob_name =
     [''jexec'', jail, ''/usr/bin/bsdtar''] @ tar_args (''/mnt/input/'' @ blob_name) ''/mnt/output''"

text \<open>Creation of the jail, the extraction in it and its removal, once the mounts are there.\<close>

definition run_in_extraction_jail :: "'w runner \<Rightarrow> path \<Rightarrow> string \<Rightarrow> string \<Rightarrow> (unit, 'w) act" where
  "run_in_extraction_jail t template jail blob_name =
     then_do (subprocess_run t (create_extraction_jail_cmd jail template)) (\<lambda>(rc, _).
       if rc \<noteq> 0 then raise_exc (Other_error ''extraction jail creation failed'')
       else then_do (subprocess_run t (extraction_jexec_cmd jail blob_name)) (\<lambda>(rc, _).
            then_do (subprocess_run t [''jail'', ''-r'', jail]) (\<lambda>_.
              if rc \<noteq> 0 then raise_exc (Other_error ''bsdtar inside extraction jail failed'') else give ())))"

definition nullfs_cmd :: "string \<Rightarrow> path \<Rightarrow> path \<Rightarrow> string list" where
  "nullfs_cmd mode src mp = [''mount'', ''-t'', ''nullfs'', ''-o'', mode, path_str src, path_str mp]"

fun mount_each :: "'w runner \<Rightarrow> (string \<times> path \<times> path) list \<Rightarrow> path list \<Rightarrow> 'w host \<Rightarrow> (store_exc + unit) \<times> path list \<times> 'w host" where
  "mount_each t [] cleanup h = (Inr (), cleanup, h)"
| "mount_each t ((mode, src, mp) # ms) cleanup h =
     (case run_plain t (nullfs_cmd mode src mp) h of
        (Inl e, h') \<Rightarrow> (Inl e, cleanup, h')
      | (Inr _, h') \<Rightarrow> mount_each t ms (cleanup @ [mp]) h')"

text \<open>The \<^verbatim>\<open>finally\<close> block: an exception of \<^verbatim>\<open>umount\<close> ends it, a directory that stays is ignored.\<close>

fun cleanup_mounts :: "'w runner \<Rightarrow> nat \<Rightarrow> path list \<Rightarrow> (unit, 'w) act" where
  "cleanup_mounts t lim [] = give ()"
| "cleanup_mounts t lim (mp # mps) =
     then_do (subprocess_run t [''umount'', ''-f'', path_str mp]) (\<lambda>_ h.
       cleanup_mounts t lim mps (snd (fs_rmdir lim mp (fst h)), snd h))"

definition extract_layer_in_jail ::
  "'w runner \<Rightarrow> nat \<Rightarrow> path \<Rightarrow> string \<Rightarrow> path \<Rightarrow> path \<Rightarrow> (unit, 'w) act" where
  "extract_layer_in_jail t lim template uuid layer_blob output_dir =
     then_do (ensure_extraction_jail_template t lim template False) (\<lambda>_ h.
       case (resolve lim (fst h) (butlast layer_blob), resolve lim (fst h) output_dir) of
         (Some blob_parent, Some output_resolved) \<Rightarrow>
           (let jail = ''jlr-extract-'' @ take 12 uuid;
                inp = template @ [''mnt'', ''input'']; outp = template @ [''mnt'', ''output'']
            in then_do (mkdirs_all lim [inp, outp]) (\<lambda>_ h.
               let (r, cleanup, h1) = mount_each t [(''ro'', blob_parent, inp), (''rw'', output_resolved, outp)] [] h;
                   (r2, h2) = (case r of Inl e \<Rightarrow> (Inl e, h1)
                               | Inr _ \<Rightarrow> run_in_extraction_jail t template jail (last layer_blob) h1);
                   (r3, h3) = cleanup_mounts t lim (rev cleanup) h2
               in ((case r3 of Inl e \<Rightarrow> Inl e | Inr _ \<Rightarrow> r2), h3)) h)
       | _ \<Rightarrow> (Inl (Other_error ''Symlink loop''), h))"

definition extract_layer ::
  "env \<Rightarrow> 'w runner \<Rightarrow> nat \<Rightarrow> path \<Rightarrow> string \<Rightarrow> path \<Rightarrow> path \<Rightarrow> (unit, 'w) act" where
  "extract_layer env t lim template uuid layer_blob tmp =
     (if extraction_jail_enabled env then extract_layer_in_jail t lim template uuid layer_blob tmp
      else then_do (run_plain t (''bsdtar'' # tar_args (path_str layer_blob) (path_str tmp))) (\<lambda>_. give ()))"

section \<open>Unpacking an image\<close>

text \<open>The entries of a directory tree, relative to it, as \<^verbatim>\<open>rglob\<close> lists them.\<close>

definition tree_entries :: "path \<Rightarrow> fs \<Rightarrow> layer" where
  "tree_entries p fs = map (\<lambda>(q, n). (drop (length p) q, n)) (filter (\<lambda>(q, _). strict_prefix p q) fs)"

definition with_tmp :: "nat \<Rightarrow> path \<Rightarrow> (unit, 'w) act \<Rightarrow> (unit, 'w) act" where
  "with_tmp lim tmp body =
     then_do (on_tree (fs_mkdir lim tmp)) (\<lambda>_ h.
       let (r, h') = body h in (r, (drop_tree tmp (fst h'), snd h')))"

text \<open>What the unpacking of one image uses from outside: a name for each temporary directory and
  for each extraction jail.\<close>

record names =
  nm_tmp :: "nat \<Rightarrow> path"
  nm_uuid :: "nat \<Rightarrow> string"
  nm_template :: path

fun unpack_loop ::
  "env \<Rightarrow> 'w runner \<Rightarrow> nat \<Rightarrow> names \<Rightarrow> path \<Rightarrow> path \<Rightarrow> nat \<Rightarrow> json list \<Rightarrow> (unit, 'w) act" where
  "unpack_loop env t lim nm oci_dir root i [] = give ()"
| "unpack_loop env t lim nm oci_dir root i (l # ls) =
     then_do (of_sum (try_bind (jitem ''digest'' l) (blob_path oci_dir))) (\<lambda>blob.
     then_do (with_tmp lim (nm_tmp nm i)
       (then_do (extract_layer env t lim (nm_template nm) (nm_uuid nm i) blob (nm_tmp nm i)) (\<lambda>_ h.
          on_tree (apply_layer lim root (tree_entries (nm_tmp nm i) (fst h))) h))) (\<lambda>_.
     unpack_loop env t lim nm oci_dir root (Suc i) ls))"

definition unpack_bsdtar ::
  "env \<Rightarrow> 'w runner \<Rightarrow> nat \<Rightarrow> names \<Rightarrow> path \<Rightarrow> string \<Rightarrow> path \<Rightarrow> (unit, 'w) act" where
  "unpack_bsdtar env t lim nm oci_dir tag rootfs h =
     then_do (of_sum (try_bind (read_manifest lim (fst h) oci_dir tag) manifest_layers)) (\<lambda>layers h.
       case resolve lim (fst h) rootfs of
         None \<Rightarrow> (Inl (Other_error ''Symlink loop''), h)
       | Some root \<Rightarrow>
           then_do (unpack_loop env t lim nm oci_dir root 0 layers) (\<lambda>_.
             on_tree (\<lambda>fs. (None, remove_whiteout_markers lim root fs))) h) h"

definition unpack_umoci :: "'w runner \<Rightarrow> path \<Rightarrow> string \<Rightarrow> path \<Rightarrow> (unit, 'w) act" where
  "unpack_umoci t oci_dir tag rootfs =
     then_do (run_plain t [''umoci'', ''raw'', ''unpack'', ''--image'', path_str oci_dir @ '':'' @ tag, path_str rootfs])
       (\<lambda>_. give ())"

definition unpack_tree ::
  "env \<Rightarrow> 'w runner \<Rightarrow> nat \<Rightarrow> names \<Rightarrow> store \<Rightarrow> path \<Rightarrow> string \<Rightarrow> path \<Rightarrow> (unit, 'w) act" where
  "unpack_tree env t lim nm st oci_dir tag rootfs =
     (if st_umoci st then unpack_umoci t oci_dir tag rootfs else unpack_bsdtar env t lim nm oci_dir tag rootfs)"

definition unpack_zfs ::
  "env \<Rightarrow> 'w runner \<Rightarrow> nat \<Rightarrow> names \<Rightarrow> store \<Rightarrow> string \<Rightarrow> path \<Rightarrow> string \<Rightarrow> (string, 'w) act" where
  "unpack_zfs env t lim nm st image_id oci_dir tag =
     (let dataset = st_images_ds st @ ''/'' @ image_id; snapshot_id = dataset @ ''@snap'';
          mountpoint = st_base st @ ''images'' # components image_id
      in then_do (zfs_snapshot_exists t snapshot_id) (\<lambda>ok.
         if ok then give snapshot_id
         else then_do (on_tree (fs_mkdirs lim mountpoint)) (\<lambda>_.
              then_do (run_plain t [''zfs'', ''create'', ''-p'', ''-o'', ''mountpoint='' @ path_str mountpoint, dataset]) (\<lambda>_.
              then_do (unpack_tree env t lim nm st oci_dir tag mountpoint) (\<lambda>_.
              then_do (run_plain t [''zfs'', ''snapshot'', snapshot_id]) (\<lambda>_.
              then_do (run_plain t [''zfs'', ''set'', ''readonly=on'', dataset]) (\<lambda>_.
              give snapshot_id)))))))"

definition image_dir :: "store \<Rightarrow> string \<Rightarrow> path" where
  "image_dir st image_id = components (st_images_ds st) @ components image_id"

definition unpack_plaindir ::
  "env \<Rightarrow> 'w runner \<Rightarrow> nat \<Rightarrow> names \<Rightarrow> store \<Rightarrow> string \<Rightarrow> path \<Rightarrow> string \<Rightarrow> (string, 'w) act" where
  "unpack_plaindir env t lim nm st image_id oci_dir tag =
     (let dest = image_dir st image_id; sentinel = dest @ [SENTINEL]
      in then_do (tree_exists lim sentinel) (\<lambda>ok.
         if ok then give (path_str dest)
         else then_do (on_tree (fs_mkdirs lim dest)) (\<lambda>_.
              then_do (unpack_tree env t lim nm st oci_dir tag dest) (\<lambda>_.
              then_do (on_tree (fs_write lim image_id sentinel)) (\<lambda>_.
              give (path_str dest))))))"

definition store_unpack ::
  "(string \<Rightarrow> string) \<Rightarrow> env \<Rightarrow> 'w runner \<Rightarrow> nat \<Rightarrow> names \<Rightarrow> (nat \<Rightarrow> 'w host \<Rightarrow> 'w host) \<Rightarrow> store \<Rightarrow> string \<Rightarrow> (string, 'w) act" where
  "store_unpack sha256 env t lim nm wait st image_id =
     then_do (image_exists_locally t lim st image_id) (\<lambda>here.
       if here then give (case st_backend st of
           Zfs \<Rightarrow> st_images_ds st @ ''/'' @ image_id @ ''@snap'' | Plaindir \<Rightarrow> path_str (image_dir st image_id))
       else then_do (locate_oci_with_retry sha256 lim st wait image_id) (\<lambda>(oci_dir, tag).
            with_image_lock lim st image_id
              (case st_backend st of
                 Zfs \<Rightarrow> unpack_zfs env t lim nm st image_id oci_dir tag
               | Plaindir \<Rightarrow> unpack_plaindir env t lim nm st image_id oci_dir tag)))"

section \<open>What an image id stands for\<close>

definition digest_text :: "string \<Rightarrow> bool" where
  "digest_text d \<longleftrightarrow> d \<noteq> [] \<and> NL \<notin> set d"

lemma join_digests_inj:
  assumes "list_all digest_text xs" "list_all digest_text ys" "py_join [NL] xs = py_join [NL] ys"
  shows "xs = ys"
proof -
  have e: "zs = []" if "list_all digest_text zs" "py_join [NL] zs = []" for zs
    using that by (cases "([NL], zs)" rule: py_join.cases) (auto simp: digest_text_def)
  have s: "py_split NL (py_join [NL] zs) = zs" if "list_all digest_text zs" "zs \<noteq> []" for zs
    using that by (intro py_split_join) (auto simp: list_all_iff digest_text_def)
  show ?thesis
  proof (cases "xs = [] \<or> ys = []")
    case True
    then show ?thesis using e assms by (metis py_join.simps(1))
  next
    case False
    then have "xs = py_split NL (py_join [NL] xs)" "ys = py_split NL (py_join [NL] ys)"
      using s [OF assms(1)] s [OF assms(2)] by auto
    then show ?thesis unfolding assms(3) by (rule trans [OF _ sym])
  qed
qed

lemma sort_eq_mset: "sort xs = sort ys \<longleftrightarrow> mset xs = mset (ys :: 'a::linorder list)"
  by (metis mset_sort properties_for_sort sorted_sort)

text \<open>C38: The id of an image is the multiset of its layers.  Two cached images whose layer digests
  can be read have the same id exactly if they have the same layers, each as often: the order of
  the layers, which decides what the unpacked image contains, is not part of it, nor is anything
  else in the manifest.  (SHA-256 is only assumed not to collide on these two texts.)\<close>

theorem image_id_is_layer_multiset:
  assumes "layer_digests lim fs d1 tag = Inr ds1" and "layer_digests lim fs d2 tag = Inr ds2"
    and "list_all digest_text ds1" and "list_all digest_text ds2"
    and "sha256 (py_join [NL] (sort ds1)) = sha256 (py_join [NL] (sort ds2))
      \<longrightarrow> py_join [NL] (sort ds1) = py_join [NL] (sort ds2)"
  shows "compute_image_id sha256 lim fs d1 tag = compute_image_id sha256 lim fs d2 tag \<longleftrightarrow> mset ds1 = mset ds2"
proof -
  let ?k1 = "py_join [NL] (sort ds1)" and ?k2 = "py_join [NL] (sort ds2)"
  have d: "list_all digest_text (sort ds1)" "list_all digest_text (sort ds2)"
    using assms(3,4) by (simp_all add: list_all_iff)
  have "sha256 ?k1 = sha256 ?k2 \<longleftrightarrow> sort ds1 = sort ds2"
  proof
    assume "sha256 ?k1 = sha256 ?k2"
    with assms(5) have "?k1 = ?k2" by (rule mp)
    then show "sort ds1 = sort ds2" by (rule join_digests_inj [OF d])
  qed (rule arg_cong)
  then show ?thesis unfolding compute_image_id_def assms(1,2) sort_eq_mset by simp
qed

text \<open>A cached image with the given layers, as \<^verbatim>\<open>skopeo\<close> lays it out.\<close>

definition demo_manifest :: "string list \<Rightarrow> json" where
  "demo_manifest ds = JObj [(''schemaVersion'', JNum ''2''), (''layers'', JArr (map (\<lambda>d. JObj [(''digest'', JStr d)]) ds))]"

definition demo_index :: json where
  "demo_index = JObj [(''manifests'', JArr [JObj [(''digest'', JStr ''sha256:m''),
     (''annotations'', JObj [(REF_NAME, JStr ''latest'')])]])]"

definition demo_image :: "path \<Rightarrow> string list \<Rightarrow> fs" where
  "demo_image d ds = [(d, Dir), (d @ [''index.json''], Reg (json_dump 0 demo_index)), (d @ [''blobs''], Dir),
     (d @ [''blobs'', ''sha256''], Dir), (d @ [''blobs'', ''sha256'', ''m''], Reg (json_dump 0 (demo_manifest ds)))]"

lemma demo_json_ok: "json_ok demo_index" "json_ok (demo_manifest ds)"
  by (simp_all add: demo_index_def demo_manifest_def int_text_def all_digits_def is_digit_def list_all_iff)

lemma demo_manifest_read:
  assumes "path_exists lim fs (d @ [''index.json''])"
    and "read_text lim fs (d @ [''index.json'']) = Inr (json_dump 0 demo_index)"
    and "read_text lim fs (d @ [''blobs'', ''sha256'', ''m'']) = Inr (json_dump 0 (demo_manifest ds))"
  shows "read_manifest lim fs d ''latest'' = Inr (demo_manifest ds)"
proof -
  have f: "find_manifest_for_tag ''latest'' demo_index
      = Inr (JObj [(''digest'', JStr ''sha256:m''), (''annotations'', JObj [(REF_NAME, JStr ''latest'')])])" by code_simp
  have b: "blob_path d (JStr ''sha256:m'') = Inr (d @ [''blobs'', ''sha256'', ''m''])"
    by (simp add: blob_path_def join_path_def is_absolute_def components_def)
  show ?thesis
    using assms by (simp add: read_manifest_def read_json_def json_loads_dump demo_json_ok f b jitem_def jlookup_def)
qed

lemma demo_layer_digests:
  "read_manifest lim fs d ''latest'' = Inr (demo_manifest ds) \<Longrightarrow> layer_digests lim fs d ''latest'' = Inr ds"
proof -
  assume "read_manifest lim fs d ''latest'' = Inr (demo_manifest ds)"
  moreover have "manifest_layers (demo_manifest ds) = Inr (map (\<lambda>d. JObj [(''digest'', JStr d)]) ds)"
    by (simp add: manifest_layers_def demo_manifest_def jget_def jlookup_def jiter_def)
  moreover have "try_map (jitem ''digest'') (map (\<lambda>d. JObj [(''digest'', JStr d)]) ds) = Inr (map JStr ds)"
  proof (induction ds)
    case (Cons d ds)
    have "jitem ''digest'' (JObj [(''digest'', JStr d)]) = Inr (JStr d)" by (simp add: jitem_def jlookup_def)
    then show ?case using Cons by simp
  qed simp
  moreover have "all_strings (map JStr ds) = Inr ds"
    unfolding all_strings_def by (induction ds) simp_all
  ultimately show ?thesis by (simp add: layer_digests_def)
qed

lemma image_id_is_layer_multiset_witness:
  "compute_image_id rev 8 (demo_image [''a''] [''x'', ''y''] @ demo_image [''b''] [''y'', ''x'']) [''a''] ''latest''
   = compute_image_id rev 8 (demo_image [''a''] [''x'', ''y''] @ demo_image [''b''] [''y'', ''x'']) [''b''] ''latest''"
proof -
  let ?fs = "demo_image [''a''] [''x'', ''y''] @ demo_image [''b''] [''y'', ''x'']"
  have "layer_digests 8 ?fs [''a''] ''latest'' = Inr [''x'', ''y'']" "layer_digests 8 ?fs [''b''] ''latest'' = Inr [''y'', ''x'']"
    by (rule demo_layer_digests [OF demo_manifest_read];
        simp add: read_text_def path_exists_def stat_def follow_def resolve_from.simps demo_image_def look_def DOTDOT_def)+
  then show ?thesis
    using image_id_is_layer_multiset [of 8 ?fs "[''a'']" "''latest''" "[''x'', ''y'']" "[''b'']" "[''y'', ''x'']" rev]
    by (simp add: digest_text_def NL_def)
qed

section \<open>Unpacking once\<close>

text \<open>The plain directory is a \<^verbatim>\<open>build_once\<close>: a success is returned again without any work.\<close>

lemma then_do_Inr_elim:
  assumes "then_do m f h = (Inr y, h2)"
  obtains x h1 where "m h = (Inr x, h1)" "f x h1 = (Inr y, h2)"
  using assms by (auto simp: then_do_Inr)

interpretation plain_image: build_once
  "\<lambda>h. path_exists lim (fst h) (image_dir st image_id @ [SENTINEL])"
  "unpack_plaindir env t lim nm st image_id oci_dir tag" "path_str (image_dir st image_id)"
  for env lim nm st image_id oci_dir tag and t :: "'w runner"
proof
  fix s s' :: "'w host" and i
  assume b: "unpack_plaindir env t lim nm st image_id oci_dir tag s = (Inr i, s')"
  show "path_exists lim (fst s') (image_dir st image_id @ [SENTINEL]) \<and> i = path_str (image_dir st image_id)"
  proof (cases "path_exists lim (fst s) (image_dir st image_id @ [SENTINEL])")
    case True
    then show ?thesis
      using b by (simp add: unpack_plaindir_def Let_def then_do_def tree_exists_def give_def)
  next
    case False
    then show ?thesis
      using b by (auto simp: unpack_plaindir_def Let_def then_do_Inr tree_exists_Inr give_def on_tree_Inr)
        (erule write_exists)
  qed
next
  fix s :: "'w host"
  assume "path_exists lim (fst s) (image_dir st image_id @ [SENTINEL])"
  then show "unpack_plaindir env t lim nm st image_id oci_dir tag s = (Inr (path_str (image_dir st image_id)), s)"
    by (simp add: unpack_plaindir_def Let_def then_do_def tree_exists_def give_def)
qed

lemma store_unpack_marked:
  assumes "st_backend st = Plaindir" "path_exists lim (fst h) (image_dir st image_id @ [SENTINEL])"
  shows "store_unpack sha256 env t lim nm wait st image_id h = (Inr (path_str (image_dir st image_id)), h)"
  using assms by (simp add: store_unpack_def image_exists_locally_def image_dir_def then_do_def tree_exists_def give_def)

text \<open>An image can forge the mark that says it is unpacked.  In a plain directory, the mark is
  the file \<^verbatim>\<open>.jailrun_snap\<close> in the image's own tree.  Where an unpacking succeeds, the image id
  is written to whatever file the links of the image at that name lead to, and the file's old
  content is gone; and where an unpacking fails after a layer that contains a file of that name
  was merged, the next unpacking reports success and leaves the partial tree as it is.\<close>

theorem image_forges_sentinel:
  fixes t :: "'w runner"
  assumes p: "st_backend st = Plaindir"
  shows "(unpack_plaindir env t lim nm st image_id oci_dir tag h = (Inr i, h') \<longrightarrow>
      \<not> path_exists lim (fst h) (image_dir st image_id @ [SENTINEL]) \<longrightarrow>
      (\<exists>fs1 q. unpack_tree env t lim nm st oci_dir tag (image_dir st image_id)
                (snd (fs_mkdirs lim (image_dir st image_id) (fst h)), snd h) = (Inr (), (fs1, snd h'))
         \<and> follow lim fs1 (image_dir st image_id @ [SENTINEL]) = Some q \<and> look fs1 q \<noteq> Some Dir
         \<and> fst h' = put q (Reg image_id) fs1))
   \<and> (unpack_plaindir env t lim nm st image_id oci_dir tag h = (Inl e, h') \<longrightarrow>
      path_exists lim (fst h') (image_dir st image_id @ [SENTINEL]) \<longrightarrow>
      store_unpack sha256 env t lim nm wait st image_id h' = (Inr (path_str (image_dir st image_id)), h'))"
proof (intro conjI impI)
  assume u: "unpack_plaindir env t lim nm st image_id oci_dir tag h = (Inr i, h')"
    and n: "\<not> path_exists lim (fst h) (image_dir st image_id @ [SENTINEL])"
  let ?d = "image_dir st image_id" and ?s = "image_dir st image_id @ [SENTINEL]"
  from u n obtain fs0 fs1 fs2 w where 1: "fs_mkdirs lim ?d (fst h) = (None, fs0)"
    "unpack_tree env t lim nm st oci_dir tag ?d (fs0, snd h) = (Inr (), (fs1, w))"
    "fs_write lim image_id ?s fs1 = (None, fs2)" "h' = (fs2, w)"
    by (auto simp: unpack_plaindir_def Let_def then_do_Inr tree_exists_Inr give_def on_tree_Inr)
  obtain q where "follow lim fs1 ?s = Some q" "look fs1 q \<noteq> Some Dir" "fs2 = put q (Reg image_id) fs1"
    using 1(3) by (auto simp: fs_write_def split: option.splits node.splits if_splits)
  then show "\<exists>fs1 q. unpack_tree env t lim nm st oci_dir tag ?d (snd (fs_mkdirs lim ?d (fst h)), snd h) = (Inr (), (fs1, snd h'))
      \<and> follow lim fs1 ?s = Some q \<and> look fs1 q \<noteq> Some Dir \<and> fst h' = put q (Reg image_id) fs1"
    using 1 by (intro exI [of _ fs1] exI [of _ q]) simp
next
  assume "path_exists lim (fst h') (image_dir st image_id @ [SENTINEL])"
  then show "store_unpack sha256 env t lim nm wait st image_id h' = (Inr (path_str (image_dir st image_id)), h')"
    by (rule store_unpack_marked [OF p])
qed

text \<open>A host whose tar program unpacks the given layers and fails on unknown ones.\<close>

definition untarring :: "(string \<Rightarrow> layer option) \<Rightarrow> string list list runner" where
  "untarring layers cwd env argv h =
     (if argv \<noteq> [] \<and> argv ! 0 = ''bsdtar'' then
        (case layers (py_after_last (CHR ''/'') (argv ! 2)) of
           Some l \<Rightarrow> (Completed 0 [] [], (fst h @ map (\<lambda>(p, n). (components (argv ! 4) @ p, n)) l, snd h @ [argv]))
         | None \<Rightarrow> (Completed 1 [] [], (fst h, snd h @ [argv])))
      else (Completed 0 [] [], (fst h, snd h @ [argv])))"

definition link_layer :: layer where "link_layer = [([SENTINEL], Symlink ''/etc/key'')]"

definition demo_names :: names where
  "demo_names = \<lparr> nm_tmp = (\<lambda>i. [''t'', show_nat i]), nm_uuid = show_nat, nm_template = [''x''] \<rparr>"

definition image_store :: store where
  "image_store = demo_store Plaindir \<lparr> st_images_ds := ''/v'', st_cache := [''c''], st_umoci := False \<rparr>"

definition image_host :: "string list \<Rightarrow> fs" where
  "image_host ds = [([''v''], Dir), ([''t''], Dir), ([''c''], Dir), ([''etc''], Dir), ([''etc'', ''key''], Reg ''secret'')]
     @ demo_image [''c'', ''i''] ds"

definition no_env :: env where "no_env = (\<lambda>_. None)"

definition demo_untar :: "string \<Rightarrow> layer option" where
  "demo_untar n = (if n = ''x'' then Some link_layer else None)"

definition demo_unpack :: "string list \<Rightarrow> (store_exc + string) \<times> string list list host" where
  "demo_unpack ds = unpack_plaindir no_env (untarring demo_untar) 8 demo_names image_store ''ID'' [''c'', ''i''] ''latest''
     (image_host ds, [])"

text \<open>With one such layer, the host's \<^verbatim>\<open>/etc/key\<close> holds the image id; with a second layer that cannot
  be extracted, the first attempt fails and the second one succeeds.\<close>

definition is_error :: "'e + 'a \<Rightarrow> bool" where "is_error r = (case r of Inl _ \<Rightarrow> True | Inr _ \<Rightarrow> False)"

lemma is_error_simps [simp]: "is_error (Inl e)" "\<not> is_error (Inr x)"
  by (simp_all add: is_error_def)

lemma demo_unpack_forged:
  "(let (r, h') = demo_unpack [''sha256:x''] in r = Inr ''/v/ID'' \<and> look (fst h') [''etc'', ''key''] = Some (Reg ''ID''))"
  by code_simp

lemma demo_unpack_failed:
  "(let (r, h') = demo_unpack [''sha256:x'', ''sha256:y''] in is_error r \<and> path_exists 8 (fst h') [''v'', ''ID'', SENTINEL])"
  by code_simp

lemma image_forges_sentinel_witness:
  "is_error (fst (demo_unpack [''sha256:x'', ''sha256:y'']))
   \<and> store_unpack rev no_env (untarring demo_untar) 8 demo_names (\<lambda>_ h. h) image_store ''ID''
       (snd (demo_unpack [''sha256:x'', ''sha256:y''])) = (Inr ''/v/ID'', snd (demo_unpack [''sha256:x'', ''sha256:y'']))"
proof -
  obtain r h' where d: "demo_unpack [''sha256:x'', ''sha256:y''] = (r, h')" by (cases "demo_unpack [''sha256:x'', ''sha256:y'']")
  then obtain e where r: "r = Inl e" "path_exists 8 (fst h') [''v'', ''ID'', SENTINEL]"
    using demo_unpack_failed by (cases r) auto
  have i: "image_dir image_store ''ID'' = [''v'', ''ID'']" "path_str (image_dir image_store ''ID'') = ''/v/ID''"
    "st_backend image_store = Plaindir" by code_simp+
  show ?thesis
    using image_forges_sentinel [of image_store no_env "untarring demo_untar" 8 demo_names "''ID''" "[''c'', ''i'']" "''latest''"
        "(image_host [''sha256:x'', ''sha256:y''], [])" _ h' e rev "\<lambda>_ h. h"] i r d
    by (simp add: demo_unpack_def)
qed

section \<open>Credentials\<close>

text \<open>The argv an exception shows, and whether it reports a command; the documents' exceptions do not.\<close>

definition shown_argv :: "store_exc \<Rightarrow> string list" where
  "shown_argv e = (case e of Command_failed _ argv \<Rightarrow> argv | Command_not_run _ argv _ \<Rightarrow> argv | _ \<Rightarrow> [])"

definition of_command :: "store_exc \<Rightarrow> bool" where
  "of_command e \<longleftrightarrow> (case e of Command_failed _ _ \<Rightarrow> True | Command_not_run _ _ _ \<Rightarrow> True | _ \<Rightarrow> False)"

definition silent :: "store_exc + 'a \<Rightarrow> bool" where
  "silent r \<longleftrightarrow> (case r of Inl e \<Rightarrow> \<not> of_command e | Inr _ \<Rightarrow> True)"

lemma silent_simps [simp]: "silent (Inr x)" "silent (Inl e) \<longleftrightarrow> \<not> of_command e"
  by (simp_all add: silent_def)

lemma silent_bind: "silent m \<Longrightarrow> (\<And>x. m = Inr x \<Longrightarrow> silent (f x)) \<Longrightarrow> silent (try_bind m f)"
  by (cases m) auto

lemma silent_map: "(\<And>x. silent (f x)) \<Longrightarrow> silent (try_map f xs)"
proof (induction xs)
  case (Cons x xs)
  then show ?case by (cases "f x"; cases "try_map f xs") (auto dest: meta_spec [of _ x])
qed simp

lemma silent_access [simp]:
  "silent (jget k d v)" "silent (jitem k v)" "silent (jiter v)" "silent (blob_path p v)" "silent (read_text lim fs p)"
  by (auto simp: jget_def jitem_def jiter_def blob_path_def read_text_def type_error_def attribute_error_def of_command_def
      split: json.splits option.splits node.splits)

lemma silent_read_json [simp]: "silent (read_json lim fs p)"
  unfolding read_json_def by (rule silent_bind) (auto simp: of_command_def split: option.splits)

lemma silent_tagged [simp]: "silent (tagged_manifest tag ms)"
  by (induction tag ms rule: tagged_manifest.induct) (auto intro!: silent_bind)

lemma silent_find [simp]: "silent (find_manifest_for_tag tag index)"
  unfolding find_manifest_for_tag_def by (intro silent_bind) (auto simp: of_command_def split: option.splits)

lemma silent_manifest [simp]: "silent (read_manifest lim fs d tag)"
  unfolding read_manifest_def by (auto intro!: silent_bind simp: of_command_def)

lemma silent_image_id: "silent (compute_image_id sha256 lim fs d tag)"
  unfolding compute_image_id_def layer_digests_def manifest_layers_def all_strings_def
  by (intro silent_bind silent_map) (auto simp: type_error_def of_command_def split: json.splits)

lemma then_do_cases:
  obtains (stop) e h1 where "m h = (Inl e, h1)" "then_do m f h = (Inl e, h1)"
    | (go) x h1 where "m h = (Inr x, h1)" "then_do m f h = f x h1"
  by (cases "m h"; cases "fst (m h)") (auto simp: then_do_def)

text \<open>An error that does not show the secret; if it reports a command that could not be run, the
  command of its cause has the secret.\<close>

definition hidden :: "string \<Rightarrow> store_exc \<Rightarrow> bool" where
  "hidden secret e \<longleftrightarrow> secret \<notin> set (shown_argv e) \<and>
     (\<forall>m argv cause. e = Command_not_run m argv cause \<longrightarrow> secret \<in> set cause \<and> argv = redact_argv cause [secret])"

definition hides :: "string \<Rightarrow> ('a, 'w) act \<Rightarrow> bool" where
  "hides secret m \<longleftrightarrow> (\<forall>h e h'. m h = (Inl e, h') \<longrightarrow> hidden secret e)"

lemma hidden_silent: "\<not> of_command e \<Longrightarrow> hidden s e"
  by (cases e) (simp_all add: hidden_def of_command_def shown_argv_def)

lemma hidesD: "hides s m \<Longrightarrow> m h = (Inl e, h') \<Longrightarrow> hidden s e"
  unfolding hides_def by blast

lemma hides_then:
  assumes "hides s m" "\<And>x. hides s (f x)"
  shows "hides s (then_do m f)"
  unfolding hides_def
proof (intro allI impI)
  fix h e h' assume e: "then_do m f h = (Inl e, h')"
  show "hidden s e"
  proof (rule then_do_cases [of m h f])
    fix x h1 assume "m h = (Inr x, h1)" "then_do m f h = f x h1"
    then have "f x h1 = (Inl e, h')" using e by simp
    then show ?thesis by (rule hidesD [OF assms(2)])
  qed (use e hidesD [OF assms(1)] in auto)
qed

lemma hides_basic [simp]:
  "hides s (give x)" "hides s (on_tree f)" "hides s (tree_exists lim p)" "hides s (zfs_snapshot_exists t i)"
  by (auto simp: hides_def give_def on_tree_def tree_exists_def zfs_snapshot_exists_def hidden_def shown_argv_def Let_def
      split: prod.splits option.splits)

lemma hides_lock: "hides s body \<Longrightarrow> hides s (with_image_lock lim st key body)"
  unfolding with_image_lock_def Let_def by (intro hides_then) auto

lemma hides_exists [simp]: "hides s (image_exists_locally t lim st i)"
  by (cases "st_backend st") (simp_all add: image_exists_locally_def)

text \<open>A step that runs no command, and one that runs at most one, allowed by \<^verbatim>\<open>P\<close> where it is run.\<close>

definition quiet :: "('a, string list list) act \<Rightarrow> bool" where
  "quiet m \<longleftrightarrow> (\<forall>h. snd (snd (m h)) = snd h)"

definition one_command :: "(fs \<Rightarrow> string list \<Rightarrow> bool) \<Rightarrow> ('a, string list list) act \<Rightarrow> bool" where
  "one_command P m \<longleftrightarrow> (\<forall>h. snd (snd (m h)) = snd h \<or> (\<exists>fs1 c. P fs1 c \<and> snd (snd (m h)) = snd h @ [c]))"

lemma quiet_basic [simp]: "quiet (give x)" "quiet (on_tree f)" "quiet (tree_exists lim p)" "quiet (\<lambda>h. of_sum (g h) h)"
  by (auto simp: quiet_def give_def on_tree_def tree_exists_def of_sum_def split: prod.splits option.splits)

lemma quietD: "quiet m \<Longrightarrow> m h = (r, h1) \<Longrightarrow> snd h1 = snd h"
  unfolding quiet_def by (metis snd_conv)

lemma one_commandD:
  "one_command P m \<Longrightarrow> m h = (r, h1) \<Longrightarrow> snd h1 = snd h \<or> (\<exists>fs1 c. P fs1 c \<and> snd h1 = snd h @ [c])"
  unfolding one_command_def by (metis snd_conv)

lemma one_then:
  assumes "quiet m" "\<And>x. one_command P (f x)"
  shows "one_command P (then_do m f)"
  unfolding one_command_def
proof
  fix h
  show "snd (snd (then_do m f h)) = snd h \<or> (\<exists>fs1 c. P fs1 c \<and> snd (snd (then_do m f h)) = snd h @ [c])"
  proof (rule then_do_cases [of m h f])
    fix x h1 assume "m h = (Inr x, h1)" "then_do m f h = f x h1"
    then show ?thesis using quietD [OF assms(1)] one_commandD [OF assms(2) [of x], of h1] by (cases "f x h1") auto
  qed (use quietD [OF assms(1)] in auto)
qed

lemma one_give [simp]: "one_command P (give x)"
  by (simp add: one_command_def give_def)

lemma one_lock: "one_command P body \<Longrightarrow> one_command P (with_image_lock lim st key body)"
  unfolding with_image_lock_def Let_def by (intro one_then) auto

definition pull_needed ::
  "env \<Rightarrow> nat \<Rightarrow> path \<Rightarrow> string \<Rightarrow> (string \<times> string) option \<Rightarrow> string option \<Rightarrow> fs \<Rightarrow> string list \<Rightarrow> bool" where
  "pull_needed env lim d image_ref auth authfile fs1 c \<longleftrightarrow>
     \<not> path_exists lim fs1 (d @ [''index.json''])
     \<and> c = pull_cmd d (case auth of Some (user, password) \<Rightarrow> [''--creds'', user @ '':'' @ password]
         | None \<Rightarrow> fst (build_registry_auth_args env lim fs1 None authfile)) image_ref"

lemma pull_needed_once:
  assumes "\<And>x. quiet (rest x)"
  shows "one_command (pull_needed env lim d image_ref auth authfile)
     (then_do (tree_exists lim (d @ [''index.json''])) (\<lambda>cached.
      then_do (if cached then give [] else pull env (answering f) lim d image_ref auth authfile) rest))"
  unfolding one_command_def
proof
  fix h :: "string list list host"
  have q: "snd (snd (rest x h1)) = snd h1" for x h1 using assms [of x] unfolding quiet_def by blast
  let ?c = "pull_cmd d (fst (build_registry_auth_args env lim (fst h) auth authfile)) image_ref"
  have p: "snd (pull env (answering f) lim d image_ref auth authfile h) = (fst h, snd h @ [?c])"
    by (simp add: pull_def store_run_def answering_def split: prod.splits cmd_result.splits)
  have c: "pull_needed env lim d image_ref auth authfile (fst h) ?c" if "\<not> path_exists lim (fst h) (d @ [''index.json''])"
    using that by (auto simp: pull_needed_def build_registry_auth_args_def Let_def split: option.splits)
  show "snd (snd (then_do (tree_exists lim (d @ [''index.json''])) (\<lambda>cached.
        then_do (if cached then give [] else pull env (answering f) lim d image_ref auth authfile) rest) h)) = snd h
    \<or> (\<exists>fs1 c. pull_needed env lim d image_ref auth authfile fs1 c \<and>
        snd (snd (then_do (tree_exists lim (d @ [''index.json''])) (\<lambda>cached.
        then_do (if cached then give [] else pull env (answering f) lim d image_ref auth authfile) rest) h)) = snd h @ [c])"
  proof (cases "path_exists lim (fst h) (d @ [''index.json''])")
    case True
    then show ?thesis by (simp add: then_do_def tree_exists_def give_def q)
  next
    case False
    obtain r h1 where r: "pull env (answering f) lim d image_ref auth authfile h = (r, h1)" by (rule prod.exhaust)
    have "snd (snd (then_do (tree_exists lim (d @ [''index.json''])) (\<lambda>cached.
        then_do (if cached then give [] else pull env (answering f) lim d image_ref auth authfile) rest) h)) = snd h @ [?c]"
      using False p by (cases r) (simp_all add: then_do_def tree_exists_def r q)
    then show ?thesis using c [OF False] by blast
  qed
qed

text \<open>The command that looks for an image id; it raises nothing.\<close>

definition check_cmds :: "store \<Rightarrow> string \<Rightarrow> string list list" where
  "check_cmds st image_ref =
     (if is_image_id image_ref \<and> st_backend st = Zfs
      then [[''zfs'', ''list'', ''-H'', ''-t'', ''snapshot'', ''-o'', ''name'', st_images_ds st @ ''/'' @ image_ref @ ''@snap'']] else [])"

lemma check_runs:
  "\<exists>b. (if is_image_id image_ref then image_exists_locally (answering f) lim st image_ref else give False) (fs, log)
     = (Inr b, (fs, log @ check_cmds st image_ref))"
  by (cases "st_backend st")
    (auto simp: check_cmds_def image_exists_locally_def tree_exists_def give_def zfs_snapshot_exists_def store_run_ok_def run_ok_def
      answering_def split: cmd_result.split)

lemma redacted: "s \<noteq> ''***REDACTED***'' \<Longrightarrow> s \<notin> set (redact_argv cmd [s])"
  by (auto simp: redact_argv_def)

lemma pull_hidden:
  assumes "user @ '':'' @ password \<noteq> ''***REDACTED***''"
    and "pull env t lim d image_ref (Some (user, password)) authfile h = (Inl e, h')"
  shows "hidden (user @ '':'' @ password) e"
proof -
  let ?s = "user @ '':'' @ password" and ?c = "pull_cmd d [''--creds'', user @ '':'' @ password] image_ref"
  have "store_run t None [] [?s] ?c h = (Inl e, h')"
    using assms(2) by (simp add: pull_def build_registry_auth_args_def Let_def)
  then have "(\<exists>rc. e = Command_failed rc (redact_argv ?c [?s])) \<or> (\<exists>m. e = Command_not_run m (redact_argv ?c [?s]) ?c)"
    by (auto simp: store_run_def split: prod.splits cmd_result.splits if_splits)
  moreover have "?s \<in> set ?c" by (simp add: pull_cmd_def)
  ultimately show ?thesis using redacted [OF assms(1), of ?c] by (auto simp: hidden_def shown_argv_def)
qed


text \<open>A refused pull shows masked credentials; where \<^verbatim>\<open>skopeo\<close> cannot be run, the cause has them.\<close>

definition refused_pull :: "(string list \<Rightarrow> cmd_result) \<Rightarrow> (store_exc + string) \<times> string list list host" where
  "refused_pull f = store_resolve rev no_env (answering f) 8 image_store ''r'' (Some (''u'', ''p'')) None (image_host [], [])"


section \<open>The life of an extraction jail\<close>

definition raised :: "(string list \<Rightarrow> cmd_result) \<Rightarrow> string list \<Rightarrow> bool" where
  "raised f c \<longleftrightarrow> (case f c of Spawn_error _ \<Rightarrow> True | Completed _ _ _ \<Rightarrow> False)"

lemma subprocess_run_answering:
  "subprocess_run (answering f) c h =
     (case f c of Spawn_error e \<Rightarrow> (Inl (Other_error e), (fst h, snd h @ [c]))
      | Completed rc out err \<Rightarrow> (Inr (rc, out, err), (fst h, snd h @ [c])))"
  by (simp add: subprocess_run_def answering_def split: cmd_result.splits)

lemma answers_ok_raised: "answers_ok f c \<Longrightarrow> \<not> raised f c"
  by (simp add: answers_ok_def raised_def split: cmd_result.splits)

definition jail_log :: "(string list \<Rightarrow> cmd_result) \<Rightarrow> path \<Rightarrow> string \<Rightarrow> string \<Rightarrow> string list list" where
  "jail_log f template jail blob_name =
     (let c = create_extraction_jail_cmd jail template; x = extraction_jexec_cmd jail blob_name in
      c # (if answers_ok f c then x # (if raised f x then [] else [[''jail'', ''-r'', jail]]) else []))"

lemma run_in_extraction_jail_answering:
  "\<exists>r. run_in_extraction_jail (answering f) template jail blob_name h
      = (r, (fst h, snd h @ jail_log f template jail blob_name))
    \<and> (r = Inr () \<longleftrightarrow> answers_ok f (create_extraction_jail_cmd jail template)
         \<and> answers_ok f (extraction_jexec_cmd jail blob_name) \<and> \<not> raised f [''jail'', ''-r'', jail])"
proof -
  let ?c = "create_extraction_jail_cmd jail template" and ?x = "extraction_jexec_cmd jail blob_name" and ?r = "[''jail'', ''-r'', jail]"
  show ?thesis
    by (cases "f ?c"; cases "f ?x"; cases "f ?r")
      (simp_all add: run_in_extraction_jail_def then_do_def subprocess_run_answering jail_log_def Let_def answers_ok_def
        raised_def raise_exc_def give_def)
qed

definition umount_f :: "path \<Rightarrow> string list" where "umount_f mp = [''umount'', ''-f'', path_str mp]"

fun cleanup_log :: "(string list \<Rightarrow> cmd_result) \<Rightarrow> path list \<Rightarrow> string list list" where
  "cleanup_log f [] = []"
| "cleanup_log f (mp # mps) = umount_f mp # (if raised f (umount_f mp) then [] else cleanup_log f mps)"

lemma cleanup_mounts_answering:
  "\<exists>r fs'. cleanup_mounts (answering f) lim mps h = (r, (fs', snd h @ cleanup_log f mps))
    \<and> (r = Inr () \<longleftrightarrow> list_all (\<lambda>mp. \<not> raised f (umount_f mp)) mps)"
proof (induction mps arbitrary: h)
  case (Cons mp mps)
  show ?case
  proof (cases "f (umount_f mp)")
    case (Completed rc out err)
    then show ?thesis
      using Cons.IH [of "(snd (fs_rmdir lim mp (fst h)), snd h @ [umount_f mp])"]
      by (auto simp: then_do_def subprocess_run_answering umount_f_def raised_def)
  qed (simp add: then_do_def subprocess_run_answering umount_f_def raised_def)
next
  case Nil
  then show ?case by (cases h) (simp add: give_def)
qed

definition extraction_log :: "(string list \<Rightarrow> cmd_result) \<Rightarrow> path \<Rightarrow> string \<Rightarrow> string \<Rightarrow> path \<Rightarrow> path \<Rightarrow> string list list" where
  "extraction_log f template jail blob_name src out =
     (let inp = template @ [''mnt'', ''input'']; outp = template @ [''mnt'', ''output''];
          m1 = nullfs_cmd ''ro'' src inp; m2 = nullfs_cmd ''rw'' out outp
      in m1 # (if \<not> answers_ok f m1 then []
               else m2 # (if \<not> answers_ok f m2 then cleanup_log f [inp]
                          else jail_log f template jail blob_name @ cleanup_log f [outp, inp])))"

text \<open>The commands of an extraction jail, once its template is there.  The two mounts, the jail,
  the extraction as the jail's own root (there is no option that changes the user), its removal
  and the unmounting in reverse order: each exactly when the ones before it got that far.  The
  mounts are taken down on every way out, until an \<^verbatim>\<open>umount\<close> itself raises; but a jail whose
  extraction raises, as a timeout does, is not removed.  The layer is reported as extracted
  exactly if everything worked.\<close>

theorem extraction_jail_life:
  assumes "path_exists lim fs (template @ [''bin'', ''sh''])"
    and "resolve lim fs (butlast blob) = Some src" and "resolve lim fs out_dir = Some out"
    and "mkdirs_all lim [template @ [''mnt'', ''input''], template @ [''mnt'', ''output'']] (fs, log) = (Inr (), (fs1, log))"
    and "extract_layer_in_jail (answering f) lim template uuid blob out_dir (fs, log) = (res, (fs', log'))"
  shows "log' = log @ extraction_log f template (''jlr-extract-'' @ take 12 uuid) (last blob) src out
    \<and> (raised f (extraction_jexec_cmd (''jlr-extract-'' @ take 12 uuid) (last blob)) \<longrightarrow>
         [''jail'', ''-r'', ''jlr-extract-'' @ take 12 uuid] \<notin> set (drop (length log) log'))
    \<and> (res = Inr () \<longleftrightarrow>
         answers_ok f (nullfs_cmd ''ro'' src (template @ [''mnt'', ''input'']))
         \<and> answers_ok f (nullfs_cmd ''rw'' out (template @ [''mnt'', ''output'']))
         \<and> answers_ok f (create_extraction_jail_cmd (''jlr-extract-'' @ take 12 uuid) template)
         \<and> answers_ok f (extraction_jexec_cmd (''jlr-extract-'' @ take 12 uuid) (last blob))
         \<and> \<not> raised f [''jail'', ''-r'', ''jlr-extract-'' @ take 12 uuid]
         \<and> \<not> raised f (umount_f (template @ [''mnt'', ''output'']))
         \<and> \<not> raised f (umount_f (template @ [''mnt'', ''input''])))"
proof -
  define jail where "jail = ''jlr-extract-'' @ take 12 uuid"
  define inp where "inp = template @ [''mnt'', ''input'']"
  define outp where "outp = template @ [''mnt'', ''output'']"
  define m1 where "m1 = nullfs_cmd ''ro'' src inp"
  define m2 where "m2 = nullfs_cmd ''rw'' out outp"
  have e: "extract_layer_in_jail (answering f) lim template uuid blob out_dir (fs, log) =
     (let (r, cleanup, h1) = mount_each (answering f) [(''ro'', src, inp), (''rw'', out, outp)] [] (fs1, log);
          (r2, h2) = (case r of Inl e \<Rightarrow> (Inl e, h1)
                      | Inr _ \<Rightarrow> run_in_extraction_jail (answering f) template jail (last blob) h1);
          (r3, h3) = cleanup_mounts (answering f) lim (rev cleanup) h2
      in ((case r3 of Inl e \<Rightarrow> Inl e | Inr _ \<Rightarrow> r2), h3))"
    using assms(1-4) unfolding jail_def inp_def outp_def
    by (simp add: extract_layer_in_jail_def ensure_extraction_jail_template_def then_do_def tree_exists_def give_def Let_def
        del: append_Cons mkdirs_all.simps mount_each.simps cleanup_mounts.simps)
  have log: "log' = log @ extraction_log f template jail (last blob) src out
    \<and> (res = Inr () \<longleftrightarrow> answers_ok f m1 \<and> answers_ok f m2 \<and> answers_ok f (create_extraction_jail_cmd jail template)
         \<and> answers_ok f (extraction_jexec_cmd jail (last blob)) \<and> \<not> raised f [''jail'', ''-r'', jail]
         \<and> \<not> raised f (umount_f outp) \<and> \<not> raised f (umount_f inp))"
  proof (cases "answers_ok f m1")
    case False
    then show ?thesis
      using assms(5) unfolding e
      by (auto simp: run_plain_answering extraction_log_def Let_def m1_def inp_def give_def)
  next
    case 1: True
    show ?thesis
    proof (cases "answers_ok f m2")
      case False
      obtain r fs2 where "cleanup_mounts (answering f) lim [inp] (fs1, (log @ [m1]) @ [m2])
          = (r, (fs2, ((log @ [m1]) @ [m2]) @ cleanup_log f [inp]))"
        using cleanup_mounts_answering [of f lim "[inp]" "(fs1, (log @ [m1]) @ [m2])"] by auto
      then show ?thesis
        using assms(5) 1 False unfolding e
        by (auto simp: run_plain_answering extraction_log_def Let_def m1_def m2_def inp_def outp_def split: sum.splits)
    next
      case 2: True
      let ?l = "log @ m1 # m2 # jail_log f template jail (last blob)"
      have me: "mount_each (answering f) [(''ro'', src, inp), (''rw'', out, outp)] [] (fs1, log) = (Inr (), [inp, outp], (fs1, log @ [m1, m2]))"
        using 1 2 by (simp add: run_plain_answering m1_def m2_def)
      obtain r where r: "run_in_extraction_jail (answering f) template jail (last blob) (fs1, log @ [m1, m2]) = (r, (fs1, ?l))"
        "r = Inr () \<longleftrightarrow> answers_ok f (create_extraction_jail_cmd jail template)
         \<and> answers_ok f (extraction_jexec_cmd jail (last blob)) \<and> \<not> raised f [''jail'', ''-r'', jail]"
        using run_in_extraction_jail_answering [of f template jail "last blob" "(fs1, log @ [m1, m2])"] by auto
      obtain r3 fs2 where c: "cleanup_mounts (answering f) lim [outp, inp] (fs1, ?l) = (r3, (fs2, ?l @ cleanup_log f [outp, inp]))"
        "r3 = Inr () \<longleftrightarrow> \<not> raised f (umount_f outp) \<and> \<not> raised f (umount_f inp)"
        using cleanup_mounts_answering [of f lim "[outp, inp]" "(fs1, ?l)"] by auto
      have "res = (case r3 of Inl e \<Rightarrow> Inl e | Inr _ \<Rightarrow> r)" "log' = ?l @ cleanup_log f [outp, inp]"
        using assms(5) unfolding e me by (simp_all add: r(1) c(1) del: cleanup_mounts.simps cleanup_log.simps)
      then show ?thesis
        using 1 2 r(2) c(2) by (cases r3) (auto simp: extraction_log_def Let_def m1_def m2_def inp_def outp_def)
    qed
  qed
  have "[''jail'', ''-r'', jail] \<notin> set (extraction_log f template jail (last blob) src out)"
    if "raised f (extraction_jexec_cmd jail (last blob))"
    using that by (simp add: extraction_log_def jail_log_def Let_def nullfs_cmd_def create_extraction_jail_cmd_def extraction_jexec_cmd_def umount_f_def)
  then show ?thesis using log unfolding jail_def m1_def m2_def inp_def outp_def by simp
qed

definition timing_out :: "string list \<Rightarrow> cmd_result" where
  "timing_out c = (if c \<noteq> [] \<and> c ! 0 = ''jexec'' then Spawn_error ''timeout'' else Completed 0 [] [])"

definition template_host :: fs where
  "template_host = [([''x''], Dir), ([''x'', ''bin''], Dir), ([''x'', ''bin'', ''sh''], Reg []), ([''x'', ''mnt''], Dir),
     ([''x'', ''mnt'', ''input''], Dir), ([''x'', ''mnt'', ''output''], Dir), ([''b''], Dir), ([''t''], Dir)]"

lemma extraction_jail_life_witness:
  "snd (snd (extract_layer_in_jail (answering timing_out) 8 [''x''] ''u'' [''b'', ''l''] [''t''] (template_host, [])))
     = extraction_log timing_out [''x''] ''jlr-extract-u'' ''l'' [''b''] [''t'']
   \<and> [''jail'', ''-r'', ''jlr-extract-u''] \<notin>
       set (snd (snd (extract_layer_in_jail (answering timing_out) 8 [''x''] ''u'' [''b'', ''l''] [''t''] (template_host, []))))"
proof -
  obtain res and fs' :: fs and log' where e: "extract_layer_in_jail (answering timing_out) 8 [''x''] ''u'' [''b'', ''l''] [''t''] (template_host, [])
      = (res, (fs', log'))" by (metis prod.exhaust)
  have h: "path_exists 8 template_host ([''x''] @ [''bin'', ''sh''])" "resolve 8 template_host (butlast [''b'', ''l'']) = Some [''b'']"
    "resolve 8 template_host [''t''] = Some [''t'']" by code_simp+
  have m: "mkdirs_all 8 [[''x''] @ [''mnt'', ''input''], [''x''] @ [''mnt'', ''output'']] (template_host, [] :: string list list) = (Inr (), (template_host, []))"
    by code_simp
  have r: "raised timing_out (extraction_jexec_cmd (''jlr-extract-'' @ take 12 ''u'') (last [''b'', ''l'']))"
    by (simp add: raised_def timing_out_def extraction_jexec_cmd_def)
  note l = extraction_jail_life [OF h m e]
  have j: "''jlr-extract-'' @ take 12 ''u'' = ''jlr-extract-u''" by simp
  have "log' = extraction_log timing_out [''x''] ''jlr-extract-u'' ''l'' [''b''] [''t'']" using l by simp
  moreover have "[''jail'', ''-r'', ''jlr-extract-u''] \<notin> set log'" using l r unfolding j list.size drop_0 by blast
  ultimately show ?thesis unfolding e by simp
qed

end
