(* ===== verification/Bakery.thy ===== *)
theory Bakery
  imports Prelude
begin

text \<open>
  The native supply subsystem, \<^verbatim>\<open>bakery/bakery.py\<close>: provider strings, artifact resolution over
  the registry tables, the provisioning plan, its rendering as a shell script, the manifest
  update and \<^verbatim>\<open>bake\<close>.  The tables of \<^verbatim>\<open>providers/*.json\<close> are data, hence the record
  \<^verbatim>\<open>registry\<close>, an argument of every definition that looks something up; the store's
  \<^verbatim>\<open>register_base\<close>, the existence of a path and SHA-256 are arguments too.  Log lines are left
  out.  The section on the shell says what a POSIX shell reads in the rendered script.
\<close>

section \<open>Data\<close>

record registry =
  rg_pkg_artifacts :: "string \<Rightarrow> string option"
  rg_port_artifacts :: "string \<Rightarrow> string option"
  rg_multi_pkgs :: "string list"
  rg_multi_suffix :: "string \<Rightarrow> string option"

datatype provider_kind = K_pkg | K_port | K_build

record build_recipe =
  br_recipe_id :: string
  br_artifact_path :: string
  br_pkg_deps :: "string list"
  br_port_deps :: "string list"
  br_status :: string
  br_notes :: string

definition lx106_recipe :: build_recipe where
  "lx106_recipe = \<lparr>
     br_recipe_id = ''xtensa-lx106-elf'',
     br_artifact_path = ''/usr/local/esp-quick-toolchain-gcc103/xtensa-lx106-elf/bin/xtensa-lx106-elf-gcc'',
     br_pkg_deps = [''gmake'', ''gawk'', ''gsed'', ''bison'', ''automake'', ''libtool'',
                    ''texinfo'', ''help2man'', ''git''],
     br_port_deps = [''devel/esp-quick-toolchain''],
     br_status = ''experimental'',
     br_notes =
       ''devel/esp-quick-toolchain last released 2022-01-29; may need '' @
       ''manual port fetch. Crosstool-NG fallback: clone '' @
       ''jcmvbkbc/crosstool-NG lx106 branch, install FreeBSD deps '' @
       ''(archivers/zip devel/gmake devel/gperf textproc/gsed etc.), '' @
       ''then: ./bootstrap && ./configure '' @
       ''--with-sed=/usr/local/bin/gsed '' @
       ''--with-make=/usr/local/bin/gmake '' @
       ''--with-patch=/usr/local/bin/gpatch '' @
       ''&& gmake && gmake install && ./ct-ng xtensa-lx106-elf '' @
       ''&& ./ct-ng build. '' @
       ''ESP-IDF version for ESP8266 is RTOS SDK v3.x, not mainline IDF.'' \<rparr>"

definition riscv32_recipe :: build_recipe where
  "riscv32_recipe = \<lparr>
     br_recipe_id = ''riscv32-esp-elf'',
     br_artifact_path = ''/usr/local/riscv32-esp-elf/bin/riscv32-esp-elf-gcc'',
     br_pkg_deps = [''gmake'', ''gawk'', ''gsed'', ''bison'', ''automake'', ''libtool'',
                    ''texinfo'', ''help2man'', ''git'', ''python311''],
     br_port_deps = [],
     br_status = ''stub'',
     br_notes =
       ''No native FreeBSD binary or port for riscv32-esp-elf. '' @
       ''devel/riscv-gnu-toolchain is generic RISC-V (rv64), not '' @
       ''Espressif'' @ [QUOTE] @ ''s rv32imac multilib variant. '' @
       ''Build path: clone riscv-gnu-toolchain, configure for '' @
       ''rv32imc-ilp32 with Espressif newlib patches '' @ em_dash @ '' untested on BSD. '' @
       ''Recommended fallback: keep status=linuxulator and run '' @
       ''Espressif'' @ [QUOTE] @ ''s Linux binary under Linuxulator.'' \<rparr>"

definition RECIPE_REGISTRY :: "string \<Rightarrow> build_recipe option" where
  "RECIPE_REGISTRY = map_of [(''xtensa-lx106-elf'', lx106_recipe), (''riscv32-esp-elf'', riscv32_recipe)]"

record provision_step =
  ps_kind :: provider_kind
  ps_target :: string
  ps_artifact_path :: string
  ps_notes :: string

record provisioning_plan =
  pl_steps :: "provision_step list"
  pl_pkg_seen :: "string set"
  pl_port_seen :: "string set"
  pl_build_seen :: "string set"

definition empty_plan :: provisioning_plan where
  "empty_plan = \<lparr> pl_steps = [], pl_pkg_seen = {}, pl_port_seen = {}, pl_build_seen = {} \<rparr>"

definition add_pkg :: "string \<Rightarrow> string \<Rightarrow> provisioning_plan \<Rightarrow> provisioning_plan" where
  "add_pkg name artifact_path plan =
     (if name \<in> pl_pkg_seen plan then plan
      else plan \<lparr> pl_pkg_seen := insert name (pl_pkg_seen plan),
                  pl_steps := pl_steps plan @ [\<lparr> ps_kind = K_pkg, ps_target = name,
                                                 ps_artifact_path = artifact_path, ps_notes = [] \<rparr>] \<rparr>)"

definition add_port :: "string \<Rightarrow> string \<Rightarrow> string \<Rightarrow> provisioning_plan \<Rightarrow> provisioning_plan" where
  "add_port origin artifact_path notes plan =
     (if origin \<in> pl_port_seen plan then plan
      else plan \<lparr> pl_port_seen := insert origin (pl_port_seen plan),
                  pl_steps := pl_steps plan @ [\<lparr> ps_kind = K_port, ps_target = origin,
                                                 ps_artifact_path = artifact_path, ps_notes = notes \<rparr>] \<rparr>)"

definition add_build :: "string \<Rightarrow> string \<Rightarrow> string \<Rightarrow> provisioning_plan \<Rightarrow> provisioning_plan" where
  "add_build recipe_id artifact_path notes plan =
     (if recipe_id \<in> pl_build_seen plan then plan
      else plan \<lparr> pl_build_seen := insert recipe_id (pl_build_seen plan),
                  pl_steps := pl_steps plan @ [\<lparr> ps_kind = K_build, ps_target = recipe_id,
                                                 ps_artifact_path = artifact_path, ps_notes = notes \<rparr>] \<rparr>)"

text \<open>The name of a base: SHA-256 over the JSON form of the steps, which the argument
  \<^verbatim>\<open>hexdigest\<close> stands for, cut to 16 characters.\<close>

definition plan_hash :: "(provision_step list \<Rightarrow> string) \<Rightarrow> provisioning_plan \<Rightarrow> string" where
  "plan_hash hexdigest plan = take 16 (hexdigest (pl_steps plan))"

definition native_base_name :: "(provision_step list \<Rightarrow> string) \<Rightarrow> provisioning_plan \<Rightarrow> string" where
  "native_base_name hexdigest plan = ''jailrun-native-'' @ plan_hash hexdigest plan"

definition registration_failed :: "string \<Rightarrow> string" where
  "registration_failed exc = ''base registration failed: '' @ exc"

section \<open>Providers and their artifacts\<close>

text \<open>\<^verbatim>\<open>(.+)$\<close> after the colon: \<^verbatim>\<open>.\<close> stops at a newline, \<^verbatim>\<open>$\<close> also matches before a final
  one.\<close>

definition dot_plus_end :: "string \<Rightarrow> string option" where
  "dot_plus_end rest =
     (let body = takeWhile (\<lambda>c. c \<noteq> NL) rest
      in if body \<noteq> [] \<and> (rest = body \<or> rest = body @ [NL]) then Some body else None)"

fun kind_prefix :: "provider_kind \<Rightarrow> string" where
  "kind_prefix K_pkg = ''pkg:''"
| "kind_prefix K_port = ''port:''"
| "kind_prefix K_build = ''build:''"

definition match_kind :: "provider_kind \<Rightarrow> string \<Rightarrow> (provider_kind \<times> string) option" where
  "match_kind k s =
     (if prefix (kind_prefix k) s
      then map_option (\<lambda>t. (k, t)) (dot_plus_end (drop (length (kind_prefix k)) s)) else None)"

definition parse_provider :: "string \<Rightarrow> string + (provider_kind \<times> string)" where
  "parse_provider provider =
     (case match_kind K_pkg provider of Some r \<Rightarrow> Inr r
      | None \<Rightarrow> (case match_kind K_port provider of Some r \<Rightarrow> Inr r
      | None \<Rightarrow> (case match_kind K_build provider of Some r \<Rightarrow> Inr r
      | None \<Rightarrow> Inl (''Malformed provider '' @ py_repr provider @ ''. '' @
                 ''Expected '' @ [QUOTE] @ ''pkg:<name>'' @ [QUOTE] @ '', '' @
                 [QUOTE] @ ''port:<origin>'' @ [QUOTE] @ '', or '' @
                 [QUOTE] @ ''build:<recipe-id>'' @ [QUOTE] @ ''.''))))"

definition resolve_pkg :: "registry \<Rightarrow> string \<Rightarrow> string" where
  "resolve_pkg rg name =
     (case rg_pkg_artifacts rg name of Some p \<Rightarrow> p | None \<Rightarrow> ''/usr/local/bin/'' @ name)"

definition resolve_port :: "registry \<Rightarrow> string \<Rightarrow> string + string" where
  "resolve_port rg origin =
     (case rg_port_artifacts rg origin of Some p \<Rightarrow> Inr p
      | None \<Rightarrow> Inl (''port:'' @ origin @ '' has no entry in PORT_ARTIFACTS. '' @
                     ''Add the installed binary path after verifying on freebsd-host.''))"

definition resolve_build :: "string \<Rightarrow> string + build_recipe" where
  "resolve_build recipe_id =
     (case RECIPE_REGISTRY recipe_id of Some r \<Rightarrow> Inr r
      | None \<Rightarrow> Inl (''build:'' @ recipe_id @ '' has no recipe in RECIPE_REGISTRY. '' @
                     ''Add a BuildRecipe entry to cover this toolchain.''))"

section \<open>Manifests\<close>

text \<open>A binary of a manifest.  \<^const>\<open>None\<close> is an absent key; \<^verbatim>\<open>nv_other\<close> holds the keys of the
  native block that the bakery only copies, so that the empty block (false in Python) can be
  told from a block without a provider.\<close>

record native_info =
  nv_provider :: "string option"
  nv_artifact_path :: "string option"
  nv_verification :: "string option"
  nv_other :: "(string \<times> string) list"

record bk_binary =
  bb_path :: "string option"
  bb_status :: "string option"
  bb_native :: "native_info option"

definition native_truthy :: "native_info option \<Rightarrow> bool" where
  "native_truthy n =
     (case n of None \<Rightarrow> False
      | Some nv \<Rightarrow> nv_provider nv \<noteq> None \<or> nv_artifact_path nv \<noteq> None
                   \<or> nv_verification nv \<noteq> None \<or> nv_other nv \<noteq> [])"

section \<open>Plan assembly\<close>

definition add_resolved_port :: "registry \<Rightarrow> string \<Rightarrow> provisioning_plan \<times> string list \<Rightarrow> provisioning_plan \<times> string list" where
  "add_resolved_port rg origin st =
     (let (plan, warnings) = st in
      case resolve_port rg origin of
        Inr artifact \<Rightarrow> (add_port origin artifact [] plan, warnings)
      | Inl exc \<Rightarrow> (plan, warnings @ [py_repr exc]))"

definition plan_target :: "registry \<Rightarrow> provider_kind \<Rightarrow> string \<Rightarrow> provisioning_plan \<times> string list \<Rightarrow> provisioning_plan \<times> string list" where
  "plan_target rg kind target st =
     (case kind of
        K_pkg \<Rightarrow> (add_pkg target (resolve_pkg rg target) (fst st), snd st)
      | K_port \<Rightarrow> add_resolved_port rg target st
      | K_build \<Rightarrow>
          (case resolve_build target of
             Inl exc \<Rightarrow> (fst st, snd st @ [py_repr exc])
           | Inr recipe \<Rightarrow>
               (let plan1 = fold (\<lambda>dep. add_pkg dep (resolve_pkg rg dep)) (br_pkg_deps recipe) (fst st);
                    (plan2, warnings) = fold (add_resolved_port rg) (br_port_deps recipe) (plan1, snd st)
                in (add_build (br_recipe_id recipe) (br_artifact_path recipe) (br_notes recipe) plan2,
                    warnings))))"

definition plan_binary :: "registry \<Rightarrow> bk_binary \<Rightarrow> provisioning_plan \<times> string list \<Rightarrow> provisioning_plan \<times> string list" where
  "plan_binary rg b st =
     (if bb_status b \<noteq> Some ''native'' then st
      else if \<not> native_truthy (bb_native b) then st
      else (let path = getenv_or (bb_path b) ''<unknown>'';
                provider = getenv_or (nv_provider (the (bb_native b))) []
            in if provider = []
               then (fst st, snd st @ [path @ '': native.provider missing '' @ em_dash @ '' skipping.''])
               else (case parse_provider provider of
                       Inl exc \<Rightarrow> (fst st, snd st @ [exc])
                     | Inr (kind, target) \<Rightarrow> plan_target rg kind target st)))"

definition build_plan :: "registry \<Rightarrow> bk_binary list \<Rightarrow> provisioning_plan \<times> string list" where
  "build_plan rg binaries = fold (plan_binary rg) binaries (empty_plan, [])"

section \<open>The provisioning command\<close>

text \<open>\<^verbatim>\<open>shlex.quote\<close>.\<close>

definition sh_safe :: "char \<Rightarrow> bool" where
  "sh_safe c \<longleftrightarrow> is_alnum c \<or> c \<in> set ''_@%+=:,./-''"

definition quote_char :: "char \<Rightarrow> string" where
  "quote_char c = (if c = QUOTE then [QUOTE, CHR 0x22, QUOTE, CHR 0x22, QUOTE] else [c])"

definition shlex_quote :: "string \<Rightarrow> string" where
  "shlex_quote s =
     (if s = [] then [QUOTE, QUOTE]
      else if \<forall>c \<in> set s. sh_safe c then s
      else [QUOTE] @ concat (map quote_char s) @ [QUOTE])"

definition targets_of :: "provider_kind \<Rightarrow> provisioning_plan \<Rightarrow> string list" where
  "targets_of k plan = map ps_target (filter (\<lambda>s. ps_kind s = k) (pl_steps plan))"

definition BASE_ROOT :: string where "BASE_ROOT = [CHR 0x22] @ ''$JAILRUN_BASE_ROOT'' @ [CHR 0x22]"

definition ROOT_GUARD :: string where
  "ROOT_GUARD = [CHR 0x22] @ ''${JAILRUN_BASE_ROOT:?JAILRUN_BASE_ROOT must be set by the caller}'' @ [CHR 0x22]"

definition pkg_lines :: "string list \<Rightarrow> string list" where
  "pkg_lines pkg_names =
     (if pkg_names = [] then []
      else [''pkg -r '' @ BASE_ROOT @ '' update'',
            ''pkg -r '' @ BASE_ROOT @ '' install -y '' @ py_join '' '' (map shlex_quote pkg_names)])"

definition port_line :: "string \<Rightarrow> string" where
  "port_line target =
     ''make -C /usr/ports/'' @ shlex_quote target @ '' install clean BATCH=yes '' @ ''DESTDIR='' @ BASE_ROOT"

definition plan_to_provision_cmd :: "provisioning_plan \<Rightarrow> string + string" where
  "plan_to_provision_cmd plan =
     (let build_targets = targets_of K_build plan in
      if build_targets \<noteq> []
      then Inl (''plan contains build: steps ('' @ py_join '', '' build_targets @ '') '' @ em_dash @ '' these '' @
                ''need a human-reviewed recipe (see bakery/recipes/*.md), not an '' @
                ''auto-rendered shell command; provision manually, or sh_extend '' @
                ''plan_to_provision_cmd() once a recipe is scripted and reviewed.'')
      else Inr (py_join [NL]
                 ([''set -eu'', '': '' @ ROOT_GUARD] @ pkg_lines (targets_of K_pkg plan) @
                  map port_line (targets_of K_port plan))))"

section \<open>Filling in artifact paths\<close>

text \<open>\<^verbatim>\<open>PurePosixPath(p).name\<close>: the last component that is neither empty nor a dot.\<close>

definition path_last :: "string \<Rightarrow> string" where
  "path_last p =
     (let parts = filter (\<lambda>c. c \<noteq> [] \<and> c \<noteq> ''.'') (py_split (CHR ''/'') p)
      in if parts = [] then [] else last parts)"

definition resolved_index :: "provisioning_plan \<Rightarrow> (provider_kind \<times> string) \<Rightarrow> string option" where
  "resolved_index plan =
     fold (\<lambda>s m. m((ps_kind s, ps_target s) \<mapsto> ps_artifact_path s)) (pl_steps plan) (\<lambda>_. None)"

definition filled_path :: "registry \<Rightarrow> bk_binary \<Rightarrow> provider_kind \<Rightarrow> string \<Rightarrow> string \<Rightarrow> string + string" where
  "filled_path rg b kind target artifact =
     (if kind = K_pkg \<and> target \<in> set (rg_multi_pkgs rg)
      then (case bb_path b of
              None \<Rightarrow> Inl ''path''
            | Some p \<Rightarrow> Inr (''/usr/local/bin/'' @ path_last p @ getenv_or (rg_multi_suffix rg target) []))
      else Inr artifact)"

text \<open>\<^verbatim>\<open>exists\<close> is \<^verbatim>\<open>Path.exists\<close>: it answers, or raises where the system refuses to look (a name that is too
  long, a directory that may not be searched).\<close>

definition fill_binary :: "registry \<Rightarrow> (string \<Rightarrow> string + bool) \<Rightarrow> provisioning_plan \<Rightarrow> bk_binary \<Rightarrow> string + bk_binary" where
  "fill_binary rg exists plan b =
     (if bb_status b \<noteq> Some ''native'' then Inr b
      else if \<not> native_truthy (bb_native b) \<or> getenv_or (nv_provider (the (bb_native b))) [] = [] then Inr b
      else (case parse_provider (the (nv_provider (the (bb_native b)))) of
              Inl _ \<Rightarrow> Inr b
            | Inr (kind, target) \<Rightarrow>
                (case resolved_index plan (kind, target) of
                   None \<Rightarrow> Inr b
                 | Some artifact \<Rightarrow>
                     (case filled_path rg b kind target artifact of
                        Inl exc \<Rightarrow> Inl exc
                      | Inr p \<Rightarrow>
                          (case exists p of
                             Inl exc \<Rightarrow> Inl exc
                           | Inr there \<Rightarrow>
                               (let native = (the (bb_native b)) \<lparr> nv_artifact_path := Some p \<rparr>;
                                    native = (if there then native \<lparr> nv_verification := Some ''exists'' \<rparr> else native)
                                in Inr (b \<lparr> bb_native := Some native, bb_status := Some ''native'' \<rparr>)))))))"

definition fill_artifact_paths :: "registry \<Rightarrow> (string \<Rightarrow> string + bool) \<Rightarrow> bk_binary list \<Rightarrow> provisioning_plan \<Rightarrow> string + bk_binary list" where
  "fill_artifact_paths rg exists binaries plan = try_map (fill_binary rg exists plan) binaries"

section \<open>Baking\<close>

record bakery_meta =
  bm_base_name :: string
  bm_snapshot_id :: "string option"
  bm_plan :: "provision_step list"
  bm_warnings :: "string list"

record bk_manifest =
  mf_binaries :: "bk_binary list"
  mf_bakery :: "bakery_meta option"

definition annotate ::
  "registry \<Rightarrow> (string \<Rightarrow> string + bool) \<Rightarrow> bk_manifest \<Rightarrow> provisioning_plan \<Rightarrow> string \<Rightarrow> string option \<Rightarrow> string list \<Rightarrow> string + bk_manifest" where
  "annotate rg exists manifest plan base_name snapshot_id warnings =
     (case fill_artifact_paths rg exists (mf_binaries manifest) plan of
        Inl exc \<Rightarrow> Inl exc
      | Inr bs \<Rightarrow> Inr \<lparr> mf_binaries = bs,
          mf_bakery = Some \<lparr> bm_base_name = base_name, bm_snapshot_id = snapshot_id,
                             bm_plan = pl_steps plan, bm_warnings = warnings \<rparr> \<rparr>)"

text \<open>\<^verbatim>\<open>register\<close> is \<^verbatim>\<open>store.register_base\<close>: it changes the host and gives a snapshot id or
  raises.  Paths are looked up on the host as it is after that.\<close>

definition bake ::
  "registry \<Rightarrow> (provision_step list \<Rightarrow> string) \<Rightarrow> ('w \<Rightarrow> string \<Rightarrow> string + bool)
   \<Rightarrow> (string \<Rightarrow> string \<Rightarrow> 'w \<Rightarrow> (string + string) \<times> 'w) \<Rightarrow> bk_manifest \<Rightarrow> 'w \<Rightarrow> (string + bk_manifest) \<times> 'w" where
  "bake rg hexdigest exists register manifest w =
     (let (plan, warnings) = build_plan rg (mf_binaries manifest) in
      if pl_steps plan = [] then (Inr manifest, w)
      else (let base_name = native_base_name hexdigest plan in
            case plan_to_provision_cmd plan of
              Inl exc \<Rightarrow> (annotate rg (exists w) manifest plan base_name None (warnings @ [exc]), w)
            | Inr provision_cmd \<Rightarrow>
                (case register base_name provision_cmd w of
                   (Inl exc, w') \<Rightarrow>
                     (annotate rg (exists w') manifest plan base_name None
                        (warnings @ [registration_failed exc]), w')
                 | (Inr snapshot_id, w') \<Rightarrow>
                     (annotate rg (exists w') manifest plan base_name (Some snapshot_id) warnings, w'))))"

section \<open>The shape of a plan\<close>

definition step_key :: "provision_step \<Rightarrow> provider_kind \<times> string" where
  "step_key s = (ps_kind s, ps_target s)"

text \<open>Every step installs what its resolver names.\<close>

definition step_ok :: "registry \<Rightarrow> provision_step \<Rightarrow> bool" where
  "step_ok rg s =
     (case ps_kind s of
        K_pkg \<Rightarrow> ps_artifact_path s = resolve_pkg rg (ps_target s)
      | K_port \<Rightarrow> resolve_port rg (ps_target s) = Inr (ps_artifact_path s)
      | K_build \<Rightarrow> (case resolve_build (ps_target s) of Inl _ \<Rightarrow> False
                   | Inr r \<Rightarrow> ps_artifact_path s = br_artifact_path r))"

definition plan_keys :: "provisioning_plan \<Rightarrow> (provider_kind \<times> string) set" where
  "plan_keys p = step_key ` set (pl_steps p)"

definition plan_wf :: "registry \<Rightarrow> provisioning_plan \<Rightarrow> bool" where
  "plan_wf rg p \<longleftrightarrow>
     distinct (map step_key (pl_steps p)) \<and> list_all (step_ok rg) (pl_steps p)
     \<and> (\<forall>n. n \<in> pl_pkg_seen p \<longleftrightarrow> (K_pkg, n) \<in> plan_keys p)
     \<and> (\<forall>n. n \<in> pl_port_seen p \<longleftrightarrow> (K_port, n) \<in> plan_keys p)
     \<and> (\<forall>n. n \<in> pl_build_seen p \<longleftrightarrow> (K_build, n) \<in> plan_keys p)"

lemma empty_plan_wf [simp]: "plan_wf rg empty_plan" "plan_keys empty_plan = {}"
  "pl_steps empty_plan = []"
  by (simp_all add: plan_wf_def plan_keys_def empty_plan_def)

lemmas plan_defs = plan_wf_def plan_keys_def step_key_def step_ok_def

lemma add_pkg_wf:
  "plan_wf rg p \<Longrightarrow> plan_wf rg (add_pkg n (resolve_pkg rg n) p)
     \<and> plan_keys (add_pkg n (resolve_pkg rg n) p) = insert (K_pkg, n) (plan_keys p)"
  unfolding add_pkg_def by (auto simp: plan_defs insert_absorb)

lemma add_port_wf:
  "plan_wf rg p \<Longrightarrow> resolve_port rg n = Inr a \<Longrightarrow> plan_wf rg (add_port n a notes p)
     \<and> plan_keys (add_port n a notes p) = insert (K_port, n) (plan_keys p)"
  unfolding add_port_def by (auto simp: plan_defs insert_absorb)

lemma add_build_wf:
  "plan_wf rg p \<Longrightarrow> resolve_build n = Inr r \<Longrightarrow> plan_wf rg (add_build n (br_artifact_path r) notes p)
     \<and> plan_keys (add_build n (br_artifact_path r) notes p) = insert (K_build, n) (plan_keys p)"
  unfolding add_build_def by (auto simp: plan_defs insert_absorb)

lemma resolve_build_id: "resolve_build n = Inr r \<Longrightarrow> br_recipe_id r = n"
  by (auto simp: resolve_build_def RECIPE_REGISTRY_def lx106_recipe_def riscv32_recipe_def
      split: option.splits if_splits)

text \<open>One stage of plan building: from a well-formed plan to a well-formed plan with the keys
  \<^verbatim>\<open>ks\<close> added, and a new warning exactly if \<^verbatim>\<open>u\<close>.\<close>

definition stage ::
  "registry \<Rightarrow> (provider_kind \<times> string) set \<Rightarrow> bool \<Rightarrow> provisioning_plan \<times> string list \<Rightarrow> provisioning_plan \<times> string list \<Rightarrow> bool" where
  "stage rg ks u st st' \<longleftrightarrow>
     plan_wf rg (fst st') \<and> plan_keys (fst st') = plan_keys (fst st) \<union> ks
     \<and> (\<exists>ws. snd st' = snd st @ ws \<and> (ws = [] \<longleftrightarrow> \<not> u))"

lemma stage_wf: "stage rg ks u st st' \<Longrightarrow> plan_wf rg (fst st')"
  by (simp add: stage_def)

lemma stage_refl: "plan_wf rg (fst st) \<Longrightarrow> stage rg {} False st st"
  by (simp add: stage_def)

lemma stage_trans:
  "stage rg ks u st st1 \<Longrightarrow> stage rg ls v st1 st2 \<Longrightarrow> stage rg (ks \<union> ls) (u \<or> v) st st2"
  by (auto simp: stage_def)

lemma stage_fold:
  assumes "\<And>x st. plan_wf rg (fst st) \<Longrightarrow> stage rg (K x) (u x) st (f x st)"
  shows "plan_wf rg (fst st) \<Longrightarrow> stage rg (\<Union> (K ` set xs)) (\<exists>x \<in> set xs. u x) st (fold f xs st)"
proof (induction xs arbitrary: st)
  case Nil
  then show ?case by (simp add: stage_refl)
next
  case (Cons x xs)
  note 1 = assms [OF Cons.prems, of x]
  from stage_trans [OF 1 Cons.IH [OF stage_wf [OF 1]]] show ?case by simp
qed

definition port_keys :: "registry \<Rightarrow> string \<Rightarrow> (provider_kind \<times> string) set" where
  "port_keys rg t = (case resolve_port rg t of Inl _ \<Rightarrow> {} | Inr _ \<Rightarrow> {(K_port, t)})"

definition port_unresolved :: "registry \<Rightarrow> string \<Rightarrow> bool" where
  "port_unresolved rg t \<longleftrightarrow> rg_port_artifacts rg t = None"

text \<open>What a provider asks to be installed, dependencies included.\<close>

fun target_keys :: "registry \<Rightarrow> provider_kind \<Rightarrow> string \<Rightarrow> (provider_kind \<times> string) set" where
  "target_keys rg K_pkg t = {(K_pkg, t)}"
| "target_keys rg K_port t = port_keys rg t"
| "target_keys rg K_build t =
     (case resolve_build t of Inl _ \<Rightarrow> {}
      | Inr r \<Rightarrow> Pair K_pkg ` set (br_pkg_deps r) \<union> \<Union> (port_keys rg ` set (br_port_deps r)) \<union> {(K_build, t)})"

fun target_unresolved :: "registry \<Rightarrow> provider_kind \<Rightarrow> string \<Rightarrow> bool" where
  "target_unresolved rg K_pkg t = False"
| "target_unresolved rg K_port t = port_unresolved rg t"
| "target_unresolved rg K_build t =
     (case resolve_build t of Inl _ \<Rightarrow> True | Inr r \<Rightarrow> \<exists>p \<in> set (br_port_deps r). port_unresolved rg p)"

lemma add_resolved_port_stage:
  "plan_wf rg (fst st) \<Longrightarrow> stage rg (port_keys rg t) (port_unresolved rg t) st (add_resolved_port rg t st)"
  by (auto simp: stage_def add_resolved_port_def port_keys_def port_unresolved_def add_port_wf resolve_port_def
      split: prod.splits option.splits)

lemma fold_add_pkg_stage:
  "plan_wf rg p \<Longrightarrow> stage rg (Pair K_pkg ` set ns) False (p, ws) (fold (\<lambda>n. add_pkg n (resolve_pkg rg n)) ns p, ws)"
proof (induction ns arbitrary: p)
  case Nil
  then show ?case by (simp add: stage_def)
next
  case (Cons n ns)
  have "stage rg {(K_pkg, n)} False (p, ws) (add_pkg n (resolve_pkg rg n) p, ws)"
    using add_pkg_wf [OF Cons.prems] by (simp add: stage_def)
  from stage_trans [OF this Cons.IH] this show ?case by (simp add: stage_def)
qed

lemma plan_target_stage:
  assumes wf: "plan_wf rg (fst st)"
  shows "stage rg (target_keys rg k t) (target_unresolved rg k t) st (plan_target rg k t st)"
proof (cases k)
  case K_pkg
  then show ?thesis using add_pkg_wf [OF wf] by (simp add: plan_target_def stage_def)
next
  case K_port
  then show ?thesis using add_resolved_port_stage [OF wf] by (simp add: plan_target_def)
next
  case b: K_build
  show ?thesis
  proof (cases "resolve_build t")
    case (Inl e)
    then show ?thesis using b wf by (auto simp: plan_target_def stage_def)
  next
    case (Inr r)
    let ?p1 = "fold (\<lambda>d. add_pkg d (resolve_pkg rg d)) (br_pkg_deps r) (fst st)"
    obtain p2 w2 where f: "fold (add_resolved_port rg) (br_port_deps r) (?p1, snd st) = (p2, w2)"
      by (meson surj_pair)
    have 1: "stage rg (Pair K_pkg ` set (br_pkg_deps r)) False st (?p1, snd st)"
      using fold_add_pkg_stage [OF wf, of "br_pkg_deps r" "snd st"] by simp
    have 2: "stage rg (\<Union> (port_keys rg ` set (br_port_deps r)))
        (\<exists>p \<in> set (br_port_deps r). port_unresolved rg p) (?p1, snd st) (p2, w2)"
      using stage_fold [of rg "port_keys rg" "port_unresolved rg" "add_resolved_port rg",
          OF add_resolved_port_stage stage_wf [OF 1], of "br_port_deps r"] f by simp
    have 3: "stage rg {(K_build, t)} False (p2, w2)
        (add_build (br_recipe_id r) (br_artifact_path r) (br_notes r) p2, w2)"
      using add_build_wf [OF stage_wf [OF 2] Inr [folded resolve_build_id [OF Inr]]]
      by (simp add: stage_def resolve_build_id [OF Inr])
    show ?thesis
      using stage_trans [OF stage_trans [OF 1 2] 3] b Inr f
      by (simp add: plan_target_def Let_def)
  qed
qed

definition binary_provider :: "bk_binary \<Rightarrow> string option" where
  "binary_provider b =
     (if bb_status b = Some ''native'' \<and> native_truthy (bb_native b)
      then Some (getenv_or (nv_provider (the (bb_native b))) []) else None)"

definition binary_keys :: "registry \<Rightarrow> bk_binary \<Rightarrow> (provider_kind \<times> string) set" where
  "binary_keys rg b =
     (case binary_provider b of None \<Rightarrow> {}
      | Some p \<Rightarrow> (case parse_provider p of Inl _ \<Rightarrow> {} | Inr (k, t) \<Rightarrow> target_keys rg k t))"

definition binary_unresolved :: "registry \<Rightarrow> bk_binary \<Rightarrow> bool" where
  "binary_unresolved rg b \<longleftrightarrow>
     (case binary_provider b of None \<Rightarrow> False
      | Some p \<Rightarrow> (case parse_provider p of Inl _ \<Rightarrow> True | Inr (k, t) \<Rightarrow> target_unresolved rg k t))"

lemma match_kind_Nil [simp]: "match_kind k [] = None"
  by (cases k) (simp_all add: match_kind_def)

lemma parse_provider_Nil: "\<exists>e. parse_provider [] = Inl e"
  by (simp add: parse_provider_def)

lemma plan_binary_stage:
  assumes wf: "plan_wf rg (fst st)"
  shows "stage rg (binary_keys rg b) (binary_unresolved rg b) st (plan_binary rg b st)"
proof (cases "binary_provider b")
  case None
  then show ?thesis
    using wf by (auto simp: plan_binary_def binary_provider_def binary_keys_def binary_unresolved_def
        stage_refl split: if_splits)
next
  case (Some p)
  then have c: "bb_status b = Some ''native''" "native_truthy (bb_native b)"
    and p: "p = getenv_or (nv_provider (the (bb_native b))) []"
    by (auto simp: binary_provider_def split: if_splits)
  show ?thesis
  proof (cases "p = []")
    case True
    then obtain e where "parse_provider p = Inl e" using parse_provider_Nil by auto
    then show ?thesis using c p Some True wf
      by (simp add: plan_binary_def binary_keys_def binary_unresolved_def stage_def)
  next
    case False
    show ?thesis
    proof (cases "parse_provider p")
      case (Inl e)
      then show ?thesis using c p Some False wf
        by (auto simp: plan_binary_def binary_keys_def binary_unresolved_def stage_def)
    next
      case (Inr kt)
      obtain k t where kt: "kt = (k, t)" by fastforce
      have "plan_binary rg b st = plan_target rg k t st"
        using c p False Inr kt by (simp add: plan_binary_def)
      then show ?thesis using plan_target_stage [OF wf, of k t] Some Inr kt
        by (simp add: binary_keys_def binary_unresolved_def)
    qed
  qed
qed

lemma build_plan_stage:
  "stage rg (\<Union> (binary_keys rg ` set bs)) (\<exists>b \<in> set bs. binary_unresolved rg b)
     (empty_plan, []) (build_plan rg bs)"
  unfolding build_plan_def by (rule stage_fold [OF plan_binary_stage]) simp_all

text \<open>C21: The provisioning plan of a manifest installs exactly what its native binaries need,
  with the dependencies of the recipes, each package, port and build once and with the
  artifact path its resolver gives; and it comes without a warning exactly if every provider
  of the manifest resolved.\<close>

theorem build_plan_exact:
  "distinct (map step_key (pl_steps (fst (build_plan rg bs))))
   \<and> step_key ` set (pl_steps (fst (build_plan rg bs))) = \<Union> (binary_keys rg ` set bs)
   \<and> list_all (step_ok rg) (pl_steps (fst (build_plan rg bs)))
   \<and> (snd (build_plan rg bs) = [] \<longleftrightarrow> \<not> list_ex (binary_unresolved rg) bs)"
  using build_plan_stage [of rg bs]
  by (simp add: stage_def plan_wf_def) (simp add: plan_keys_def list_ex_iff)

section \<open>Provider strings\<close>

lemma takeWhile_line:
  assumes "NL \<notin> set t"
  shows "takeWhile (\<lambda>c. c \<noteq> NL) t = t" "takeWhile (\<lambda>c. c \<noteq> NL) (t @ [NL]) = t"
proof -
  show a: "takeWhile (\<lambda>c. c \<noteq> NL) t = t" using assms by (simp add: takeWhile_eq_all_conv) metis
  then show "takeWhile (\<lambda>c. c \<noteq> NL) (t @ [NL]) = t"
    by (simp add: takeWhile_append takeWhile_eq_all_conv)
qed

lemma dot_plus_end_result:
  "dot_plus_end s = Some t \<Longrightarrow> t \<noteq> [] \<and> NL \<notin> set t \<and> (s = t \<or> s = t @ [NL])"
  by (auto simp: dot_plus_end_def Let_def split: if_splits dest: set_takeWhileD)

lemma match_kind_Some:
  "match_kind k s = Some (k', t) \<longleftrightarrow>
     k' = k \<and> t \<noteq> [] \<and> NL \<notin> set t \<and> (s = kind_prefix k @ t \<or> s = kind_prefix k @ t @ [NL])"
proof
  assume "match_kind k s = Some (k', t)"
  then have p: "prefix (kind_prefix k) s" and k: "k' = k"
    and d: "dot_plus_end (drop (length (kind_prefix k)) s) = Some t"
    by (auto simp: match_kind_def split: if_splits)
  from p obtain r where r: "s = kind_prefix k @ r" by (auto simp: prefix_def)
  then show "k' = k \<and> t \<noteq> [] \<and> NL \<notin> set t \<and> (s = kind_prefix k @ t \<or> s = kind_prefix k @ t @ [NL])"
    using dot_plus_end_result [OF d] k by simp
next
  assume a: "k' = k \<and> t \<noteq> [] \<and> NL \<notin> set t \<and> (s = kind_prefix k @ t \<or> s = kind_prefix k @ t @ [NL])"
  then have "dot_plus_end t = Some t" "dot_plus_end (t @ [NL]) = Some t"
    by (simp_all add: dot_plus_end_def Let_def takeWhile_line)
  then show "match_kind k s = Some (k', t)"
    using a by (auto simp: match_kind_def)
qed

lemma kind_prefix_apart:
  "k \<noteq> k' \<Longrightarrow> kind_prefix k @ a \<noteq> kind_prefix k' @ b"
  by (cases k; cases k') simp_all

lemma match_kind_other:
  assumes "match_kind k s = Some r" and "k' \<noteq> k"
  shows "match_kind k' s = None"
proof (rule ccontr)
  assume "match_kind k' s \<noteq> None"
  then obtain u k2 t where "match_kind k' s = Some (u, t)" "match_kind k s = Some (k2, snd r)"
    using assms(1) by (metis option.exhaust surj_pair prod.collapse)
  then show False
    using kind_prefix_apart [OF assms(2)] by (auto simp: match_kind_Some)
qed

lemma parse_provider_match: "parse_provider s = Inr r \<longleftrightarrow> (\<exists>k. match_kind k s = Some r)"
proof
  assume "parse_provider s = Inr r"
  then show "\<exists>k. match_kind k s = Some r" by (auto simp: parse_provider_def split: option.splits)
next
  assume "\<exists>k. match_kind k s = Some r"
  then obtain k where k: "match_kind k s = Some r" ..
  then show "parse_provider s = Inr r"
    using match_kind_other [OF k] by (cases k) (simp_all add: parse_provider_def)
qed

text \<open>A provider string parses to a kind and a target exactly if it is the kind, a colon and
  the target, which is not empty and holds no newline; the only slack is one newline at the
  very end, which is dropped.  Everything else is rejected.\<close>

theorem parse_provider_exact:
  "parse_provider s = Inr (k, t) \<longleftrightarrow>
     t \<noteq> [] \<and> NL \<notin> set t \<and> (s = kind_prefix k @ t \<or> s = kind_prefix k @ t @ [NL])"
  unfolding parse_provider_match by (auto simp: match_kind_Some)

section \<open>What the shell reads\<close>

text \<open>Word splitting of the rendered script by a POSIX shell in which
  \<^verbatim>\<open>JAILRUN_BASE_ROOT\<close> has the non-empty value \<^verbatim>\<open>root\<close>: quotes group, an unquoted newline ends
  a command, and inside double quotes the variable is expanded, plain or with the guard
  \<^verbatim>\<open>:?\<close>.  A character that would start anything else (an operator, a glob, another expansion)
  gives \<^const>\<open>None\<close>.\<close>

datatype sh_mode = Bare | Single | Double

definition ROOT_VAR :: string where "ROOT_VAR = ''$JAILRUN_BASE_ROOT''"

definition GUARD_VAR :: string where
  "GUARD_VAR = ''${JAILRUN_BASE_ROOT:?JAILRUN_BASE_ROOT must be set by the caller}''"

definition sh_extend :: "string option \<Rightarrow> string \<Rightarrow> string option" where
  "sh_extend w s = Some (getenv_or w [] @ s)"

definition end_word :: "string option \<Rightarrow> string list \<Rightarrow> string list" where
  "end_word w ws = (case w of None \<Rightarrow> ws | Some x \<Rightarrow> ws @ [x])"

function sh_read :: "string \<Rightarrow> sh_mode \<Rightarrow> string option \<Rightarrow> string list \<Rightarrow> string \<Rightarrow> string list list option" where
  "sh_read root m w ws [] = (if m = Bare then Some [end_word w ws] else None)"
| "sh_read root m w ws (c # cs) =
     (case m of
        Bare \<Rightarrow>
          (if c = CHR '' '' then sh_read root Bare None (end_word w ws) cs
           else if c = NL then map_option (Cons (end_word w ws)) (sh_read root Bare None [] cs)
           else if c = QUOTE then sh_read root Single (sh_extend w []) ws cs
           else if c = CHR 0x22 then sh_read root Double (sh_extend w []) ws cs
           else if sh_safe c then sh_read root Bare (sh_extend w [c]) ws cs
           else None)
      | Single \<Rightarrow>
          (if c = QUOTE then sh_read root Bare w ws cs else sh_read root Single (sh_extend w [c]) ws cs)
      | Double \<Rightarrow>
          (if c = CHR 0x22 then sh_read root Bare w ws cs
           else if prefix GUARD_VAR (c # cs)
             then sh_read root Double (sh_extend w root) ws (drop (length GUARD_VAR) (c # cs))
           else if prefix ROOT_VAR (c # cs)
             then sh_read root Double (sh_extend w root) ws (drop (length ROOT_VAR) (c # cs))
           else if c = CHR ''$'' \<or> c = BACKSLASH \<or> c = CHR 0x60 then None
           else sh_read root Double (sh_extend w [c]) ws cs))"
  by pat_completeness auto
termination
  by (relation "measure (\<lambda>(root, m, w, ws, s). length s)") (auto simp: GUARD_VAR_def ROOT_VAR_def)

definition sh_commands :: "string \<Rightarrow> string \<Rightarrow> string list list option" where
  "sh_commands root s = sh_read root Bare None [] s"

text \<open>Reading a prefix of a line moves the reader from one unquoted position to another.\<close>

definition sh_reads :: "string \<Rightarrow> string \<Rightarrow> string option \<Rightarrow> string list \<Rightarrow> string option \<Rightarrow> string list \<Rightarrow> bool" where
  "sh_reads root s w ws w' ws' \<longleftrightarrow>
     (\<forall>rest. sh_read root Bare w ws (s @ rest) = sh_read root Bare w' ws' rest)"

lemma sh_reads_trans:
  "sh_reads root s w ws w1 ws1 \<Longrightarrow> sh_reads root t w1 ws1 w2 ws2 \<Longrightarrow> sh_reads root (s @ t) w ws w2 ws2"
  by (simp add: sh_reads_def)

lemma sh_extend_simps [simp]: "sh_extend (sh_extend w s) t = sh_extend w (s @ t)" "sh_extend None s = Some s"
  "sh_extend (Some x) s = Some (x @ s)" "end_word None ws = ws" "end_word (Some x) ws = ws @ [x]"
  by (simp_all add: sh_extend_def getenv_or_def end_word_def)

lemma sh_safe_plain: "sh_safe c \<Longrightarrow> c \<noteq> CHR '' '' \<and> c \<noteq> NL \<and> c \<noteq> QUOTE \<and> c \<noteq> CHR 0x22"
  by (auto simp: sh_safe_def is_alnum_def is_alpha_def is_digit_def NL_def QUOTE_def)

lemma sh_reads_char: "sh_safe c \<Longrightarrow> sh_reads root [c] w ws (sh_extend w [c]) ws"
  using sh_safe_plain [of c] by (simp add: sh_reads_def)

lemma sh_reads_word:
  "s \<noteq> [] \<Longrightarrow> list_all sh_safe s \<Longrightarrow> sh_reads root s w ws (sh_extend w s) ws"
proof (induction s arbitrary: w)
  case Nil
  then show ?case by simp
next
  case (Cons c s)
  then have 1: "sh_reads root [c] w ws (sh_extend w [c]) ws" by (simp add: sh_reads_char)
  show ?case
  proof (cases "s = []")
    case True
    then show ?thesis using 1 by simp
  next
    case False
    then have "sh_reads root s (sh_extend w [c]) ws (sh_extend w ([c] @ s)) ws"
      using Cons.prems Cons.IH [of "sh_extend w [c]"] by simp
    from sh_reads_trans [OF 1 this] show ?thesis by simp
  qed
qed

lemma sh_reads_space: "sh_reads root '' '' w ws None (end_word w ws)"
  by (simp add: sh_reads_def)

lemma quote_not_var: "\<not> prefix GUARD_VAR (QUOTE # s)" "\<not> prefix ROOT_VAR (QUOTE # s)"
  "QUOTE \<noteq> CHR ''$''" "QUOTE \<noteq> BACKSLASH" "QUOTE \<noteq> CHR 0x60" "QUOTE \<noteq> CHR 0x22"
  "QUOTE \<noteq> CHR '' ''" "QUOTE \<noteq> NL"
  by (simp_all add: GUARD_VAR_def ROOT_VAR_def QUOTE_def BACKSLASH_def NL_def)

lemma dquote_plain: "CHR 0x22 \<noteq> NL" "CHR 0x22 \<noteq> QUOTE"
  by (simp_all add: NL_def QUOTE_def)

lemma sh_read_single:
  "sh_read root Single (sh_extend w t) ws (concat (map quote_char s) @ QUOTE # rest) =
     sh_read root Bare (sh_extend w (t @ s)) ws rest"
proof (induction s arbitrary: t)
  case Nil
  then show ?case by simp
next
  case (Cons c s)
  show ?case
  proof (cases "c = QUOTE")
    case True
    then show ?thesis using Cons [of "t @ [QUOTE]"]
      by (simp add: quote_char_def quote_not_var dquote_plain)
  next
    case False
    then show ?thesis using Cons [of "t @ [c]"] by (simp add: quote_char_def)
  qed
qed

text \<open>A quoted text is read as itself, whatever it holds.\<close>

lemma sh_reads_quote: "sh_reads root (shlex_quote s) w ws (sh_extend w s) ws"
proof -
  consider "s = []" | "s \<noteq> []" "list_all sh_safe s" | "s \<noteq> []" "\<not> list_all sh_safe s" by blast
  then show ?thesis
  proof cases
    case 1
    then show ?thesis by (simp add: shlex_quote_def sh_reads_def quote_not_var)
  next
    case 2
    then show ?thesis using sh_reads_word [OF 2] by (simp add: shlex_quote_def list_all_iff)
  next
    case 3
    have "sh_read root Bare w ws (QUOTE # concat (map quote_char s) @ QUOTE # rest)
        = sh_read root Bare (sh_extend w s) ws rest" for rest
      using sh_read_single [of root w "[]" ws s rest] by (simp add: quote_not_var)
    moreover have "shlex_quote s @ rest = QUOTE # concat (map quote_char s) @ QUOTE # rest" for rest
      using 3 by (auto simp: shlex_quote_def list_all_iff)
    ultimately show ?thesis unfolding sh_reads_def by metis
  qed
qed

lemma sh_reads_quotes:
  "sh_reads root (py_join '' '' (map shlex_quote (n # ns))) None ws (Some (last (n # ns))) (ws @ butlast (n # ns))"
proof (induction ns arbitrary: n ws)
  case Nil
  then show ?case using sh_reads_quote [of root n None ws] by simp
next
  case (Cons m ns)
  have "sh_reads root (shlex_quote n @ '' '') None ws None (ws @ [n])"
    using sh_reads_trans [OF sh_reads_quote sh_reads_space, of root n None ws] by simp
  from sh_reads_trans [OF this Cons [of m "ws @ [n]"]] show ?case by simp
qed

lemma sh_reads_base_root: "sh_reads root BASE_ROOT w ws (sh_extend w root) ws"
proof -
  have "prefix ROOT_VAR (ROOT_VAR @ x)" for x by simp
  have "sh_read root Double (sh_extend w []) ws (ROOT_VAR @ CHR 0x22 # rest)
      = sh_read root Double (sh_extend w root) ws (CHR 0x22 # rest)" for rest
    by (subst ROOT_VAR_def) (simp add: GUARD_VAR_def ROOT_VAR_def)
  then show ?thesis
    by (simp add: sh_reads_def BASE_ROOT_def ROOT_VAR_def dquote_plain)
qed

lemma sh_reads_root_guard: "sh_reads root ROOT_GUARD w ws (sh_extend w root) ws"
proof -
  have "sh_read root Double (sh_extend w []) ws (GUARD_VAR @ CHR 0x22 # rest)
      = sh_read root Double (sh_extend w root) ws (CHR 0x22 # rest)" for rest
    by (subst GUARD_VAR_def) (simp add: GUARD_VAR_def)
  then show ?thesis
    by (simp add: sh_reads_def ROOT_GUARD_def GUARD_VAR_def dquote_plain)
qed

definition reads_line :: "string \<Rightarrow> string \<Rightarrow> string list \<Rightarrow> bool" where
  "reads_line root l cmd \<longleftrightarrow> (\<exists>w ws. sh_reads root l None [] w ws \<and> end_word w ws = cmd)"

lemma reads_lineI: "sh_reads root l None [] w ws \<Longrightarrow> end_word w ws = cmd \<Longrightarrow> reads_line root l cmd"
  by (auto simp: reads_line_def)

lemma sh_commands_join:
  "list_all2 (reads_line root) ls cmds \<Longrightarrow> ls \<noteq> [] \<Longrightarrow> sh_commands root (py_join [NL] ls) = Some cmds"
proof (induction "[NL]" ls arbitrary: cmds rule: py_join.induct)
  case 1
  then show ?case by simp
next
  case (2 l)
  then obtain cmd w ws where "cmds = [cmd]" "sh_reads root l None [] w ws" "end_word w ws = cmd"
    by (auto simp: list_all2_Cons1 reads_line_def)
  then show ?case by (metis append_Nil2 py_join.simps(2) sh_commands_def sh_read.simps(1) sh_reads_def)
next
  case (3 l m ls)
  then obtain cmd cs where c: "cmds = cmd # cs" and l: "reads_line root l cmd"
    and r: "list_all2 (reads_line root) (m # ls) cs"
    by (auto simp: list_all2_Cons1)
  from l obtain w ws where w: "sh_reads root l None [] w ws" "end_word w ws = cmd"
    by (auto simp: reads_line_def)
  have n: "NL \<noteq> CHR '' ''" by (simp add: NL_def)
  have "sh_commands root (py_join [NL] (l # m # ls))
      = sh_read root Bare w ws (NL # py_join [NL] (m # ls))"
    using w(1) by (simp add: sh_commands_def sh_reads_def)
  also have "\<dots> = Some cmds"
    using 3(1) [OF r] c w(2) n by (simp add: sh_commands_def)
  finally show ?case .
qed

lemmas sh_literal = sh_reads_def sh_safe_def is_alnum_def is_alpha_def is_digit_def NL_def QUOTE_def

lemma reads_pkg_start: "sh_reads root ''pkg -r '' None [] None [''pkg'', ''-r'']"
  by (simp add: sh_literal)

lemma reads_set: "reads_line root ''set -eu'' [''set'', ''-eu'']"
  by (rule reads_lineI [of _ _ "Some ''-eu''" "[''set'']"]) (simp_all add: sh_literal)

lemma reads_guard: "reads_line root ('': '' @ ROOT_GUARD) ['':'', root]"
proof -
  have "sh_reads root '': '' None [] None ['':'']" by (simp add: sh_literal)
  from sh_reads_trans [OF this sh_reads_root_guard] show ?thesis by (auto intro: reads_lineI)
qed

lemma reads_update: "reads_line root (''pkg -r '' @ BASE_ROOT @ '' update'') [''pkg'', ''-r'', root, ''update'']"
proof -
  have "sh_reads root '' update'' (Some root) ws (Some ''update'') (ws @ [root])" for ws
    by (simp add: sh_literal)
  from sh_reads_trans [OF reads_pkg_start sh_reads_trans [OF sh_reads_base_root this [folded sh_extend_simps(2)]]]
  show ?thesis by (auto intro: reads_lineI)
qed

lemma reads_install:
  assumes "ns \<noteq> []"
  shows "reads_line root (''pkg -r '' @ BASE_ROOT @ '' install -y '' @ py_join '' '' (map shlex_quote ns))
           ([''pkg'', ''-r'', root, ''install'', ''-y''] @ ns)"
proof -
  obtain n ns' where ns: "ns = n # ns'" using assms by (cases ns) auto
  have "sh_reads root '' install -y '' (Some root) ws None (ws @ [root, ''install'', ''-y''])" for ws
    by (simp add: sh_literal)
  from sh_reads_trans [OF reads_pkg_start sh_reads_trans [OF sh_reads_base_root
        sh_reads_trans [OF this [folded sh_extend_simps(2)] sh_reads_quotes [of root n ns']]]]
  show ?thesis unfolding ns by (rule reads_lineI) (simp add: append_butlast_last_id)
qed

lemma reads_port:
  "reads_line root (port_line t)
     [''make'', ''-C'', ''/usr/ports/'' @ t, ''install'', ''clean'', ''BATCH=yes'', ''DESTDIR='' @ root]"
proof -
  have 1: "sh_reads root ''make -C /usr/ports/'' None [] (Some ''/usr/ports/'') [''make'', ''-C'']"
    by (simp add: sh_literal)
  have 2: "sh_reads root ('' install clean BATCH=yes '' @ ''DESTDIR='') (Some x) ws (Some ''DESTDIR='')
      (ws @ [x, ''install'', ''clean'', ''BATCH=yes''])" for x ws
    by (simp add: sh_literal)
  have 3: "sh_reads root (shlex_quote t) (Some ''/usr/ports/'') ws (Some (''/usr/ports/'' @ t)) ws" for ws
    using sh_reads_quote [of root t "Some ''/usr/ports/''" ws] by (simp only: sh_extend_simps)
  have 4: "sh_reads root BASE_ROOT (Some ''DESTDIR='') ws (Some (''DESTDIR='' @ root)) ws" for ws
    using sh_reads_base_root [of root "Some ''DESTDIR=''" ws] by (simp only: sh_extend_simps)
  from sh_reads_trans [OF 1 sh_reads_trans [OF 3 sh_reads_trans [OF 2 4]]]
  show ?thesis unfolding port_line_def
    by (intro reads_lineI [where w = "Some (''DESTDIR='' @ root)"]) (simp_all add: sh_reads_def)
qed

text \<open>The commands a plan stands for.\<close>

definition plan_commands :: "string \<Rightarrow> provisioning_plan \<Rightarrow> string list list" where
  "plan_commands root plan =
     (let pkgs = targets_of K_pkg plan in
      [[''set'', ''-eu''], ['':'', root]] @
      (if pkgs = [] then []
       else [[''pkg'', ''-r'', root, ''update''], [''pkg'', ''-r'', root, ''install'', ''-y''] @ pkgs]) @
      map (\<lambda>t. [''make'', ''-C'', ''/usr/ports/'' @ t, ''install'', ''clean'', ''BATCH=yes'', ''DESTDIR='' @ root])
        (targets_of K_port plan))"

lemma plan_script:
  "if targets_of K_build plan = []
   then (\<exists>script. plan_to_provision_cmd plan = Inr script \<and> sh_commands root script = Some (plan_commands root plan))
   else (\<exists>e. plan_to_provision_cmd plan = Inl e)"
proof (cases "targets_of K_build plan = []")
  case True
  let ?ls = "[''set -eu'', '': '' @ ROOT_GUARD] @ pkg_lines (targets_of K_pkg plan) @ map port_line (targets_of K_port plan)"
  have "list_all2 (reads_line root) (pkg_lines (targets_of K_pkg plan))
      (if targets_of K_pkg plan = [] then []
       else [[''pkg'', ''-r'', root, ''update''], [''pkg'', ''-r'', root, ''install'', ''-y''] @ targets_of K_pkg plan])"
  proof (cases "targets_of K_pkg plan = []")
    case True
    then show ?thesis by (simp add: pkg_lines_def)
  next
    case False
    show ?thesis unfolding pkg_lines_def
      by (simp only: False if_False list_all2_Cons list_all2_Nil reads_update reads_install [OF False] simp_thms)
  qed
  moreover have "list_all2 (reads_line root) (map port_line ts)
      (map (\<lambda>t. [''make'', ''-C'', ''/usr/ports/'' @ t, ''install'', ''clean'', ''BATCH=yes'', ''DESTDIR='' @ root]) ts)" for ts
    unfolding list.rel_map by (rule list.rel_refl) (rule reads_port)
  moreover have "list_all2 (reads_line root) [''set -eu'', '': '' @ ROOT_GUARD] [[''set'', ''-eu''], ['':'', root]]"
    by (simp only: list_all2_Cons list_all2_Nil reads_set reads_guard simp_thms)
  ultimately have "list_all2 (reads_line root) ?ls (plan_commands root plan)"
    unfolding plan_commands_def Let_def by (intro list_all2_appendI)
  from sh_commands_join [OF this] show ?thesis using True by (auto simp: plan_to_provision_cmd_def)
next
  case False
  then show ?thesis by (simp add: plan_to_provision_cmd_def Let_def)
qed

text \<open>C10: Whatever the names of the packages and ports are, the script a plan is rendered to is
  read by a POSIX shell as the commands that install all its packages in one go and then each
  port in plan order, every one of them with the base as its target and none with the host;
  nothing in a name is expanded, ends a command or starts another.  A plan that needs a
  source build is refused.\<close>

theorem provision_cmd_reads_as_plan:
  "if targets_of K_build plan = []
   then (\<exists>script. plan_to_provision_cmd plan = Inr script \<and> sh_commands root script = Some (plan_commands root plan))
   else (\<exists>e. plan_to_provision_cmd plan = Inl e)"
  by (rule plan_script)

section \<open>What the manifest update and bake do\<close>

lemma resolved_index_fold:
  "fold (\<lambda>s m. m((ps_kind s, ps_target s) \<mapsto> ps_artifact_path s)) ss m0 key =
     (case filter (\<lambda>s. step_key s = key) (rev ss) of [] \<Rightarrow> m0 key | s # _ \<Rightarrow> Some (ps_artifact_path s))"
  by (induction ss arbitrary: m0) (auto simp: step_key_def split: list.splits)

lemma resolved_index_Some:
  "resolved_index p key = Some a \<Longrightarrow> \<exists>s \<in> set (pl_steps p). step_key s = key \<and> ps_artifact_path s = a"
  unfolding resolved_index_def resolved_index_fold
  by (auto split: list.splits dest!: filter_eq_ConsD) (metis in_set_conv_decomp set_rev)

lemma resolved_index_None: "resolved_index p key = None \<longleftrightarrow> key \<notin> plan_keys p"
proof -
  have "resolved_index p key = None \<longleftrightarrow> filter (\<lambda>s. step_key s = key) (rev (pl_steps p)) = []"
    unfolding resolved_index_def resolved_index_fold by (auto split: list.splits)
  also have "\<dots> \<longleftrightarrow> key \<notin> plan_keys p" by (auto simp: filter_empty_conv plan_keys_def)
  finally show ?thesis .
qed

text \<open>The path a resolved target gets.\<close>

definition target_artifact :: "registry \<Rightarrow> provider_kind \<Rightarrow> string \<Rightarrow> string option" where
  "target_artifact rg k t =
     (case k of K_pkg \<Rightarrow> Some (resolve_pkg rg t)
      | K_port \<Rightarrow> rg_port_artifacts rg t
      | K_build \<Rightarrow> map_option br_artifact_path (RECIPE_REGISTRY t))"

lemma step_ok_artifact: "step_ok rg s \<Longrightarrow> target_artifact rg (ps_kind s) (ps_target s) = Some (ps_artifact_path s)"
  by (auto simp: step_ok_def target_artifact_def resolve_port_def resolve_build_def
      split: provider_kind.splits option.splits)

lemma resolved_index_artifact:
  "plan_wf rg p \<Longrightarrow> resolved_index p (k, t) = (if (k, t) \<in> plan_keys p then target_artifact rg k t else None)"
proof (cases "resolved_index p (k, t)")
  case None
  then show ?thesis using resolved_index_None by metis
next
  case (Some a)
  assume wf: "plan_wf rg p"
  from resolved_index_Some [OF Some] obtain s where s: "s \<in> set (pl_steps p)" "step_key s = (k, t)"
    "ps_artifact_path s = a" by blast
  then have "step_ok rg s" using wf by (simp add: plan_wf_def list_all_iff)
  from step_ok_artifact [OF this] s Some show ?thesis
    by (auto simp: step_key_def plan_keys_def rev_image_eqI)
qed

definition refill :: "bool \<Rightarrow> string \<Rightarrow> bk_binary \<Rightarrow> native_info \<Rightarrow> bk_binary" where
  "refill there a b nv =
     b \<lparr> bb_native := Some (nv \<lparr> nv_artifact_path := Some a,
                             nv_verification := (if there then Some ''exists'' else nv_verification nv) \<rparr>) \<rparr>"

lemma fill_binary_cases:
  assumes "fill_binary rg exists plan b = Inr b'"
  obtains "b' = b" "\<forall>p k t. binary_provider b = Some p \<longrightarrow> parse_provider p = Inr (k, t) \<longrightarrow> (k, t) \<notin> plan_keys plan"
  | nv p k t a0 a there where "bb_status b = Some ''native''" "bb_native b = Some nv" "nv_provider nv = Some p"
      "binary_provider b = Some p" "parse_provider p = Inr (k, t)" "resolved_index plan (k, t) = Some a0"
      "filled_path rg b k t a0 = Inr a" "exists a = Inr there" "b' = refill there a b nv"
proof (cases "binary_provider b")
  case None
  then have "b' = b" using assms by (auto simp: binary_provider_def fill_binary_def split: if_splits)
  then show ?thesis using None that(1) by simp
next
  case (Some p)
  then obtain nv where nv: "bb_native b = Some nv" and st: "bb_status b = Some ''native''"
    and tr: "native_truthy (bb_native b)" and p: "p = getenv_or (nv_provider nv) []"
    by (auto simp: binary_provider_def native_truthy_def split: if_splits option.splits)
  show ?thesis
  proof (cases "parse_provider p")
    case (Inl e)
    then have "b' = b" using assms nv st tr p
      by (auto simp: fill_binary_def getenv_or_def split: if_splits option.splits)
    then show ?thesis using Inl Some that(1) by simp
  next
    case (Inr kt)
    obtain k t where kt: "kt = (k, t)" by fastforce
    have "p \<noteq> []" using Inr parse_provider_Nil by auto
    then have sp: "nv_provider nv = Some p" using p by (auto simp: getenv_or_def split: option.splits)
    show ?thesis
    proof (cases "resolved_index plan (k, t)")
      case None
      then have "b' = b" using assms nv st tr sp Inr kt \<open>p \<noteq> []\<close> by (simp add: fill_binary_def getenv_or_def)
      then show ?thesis using Inr kt Some None that(1) by (simp add: resolved_index_None)
    next
      case (Some a0)
      then obtain a there where a: "filled_path rg b k t a0 = Inr a" "exists a = Inr there"
        using assms nv st tr sp Inr kt \<open>p \<noteq> []\<close>
        by (auto simp: fill_binary_def getenv_or_def split: sum.splits)
      have "b' = refill there a b nv"
        using assms nv st tr sp Inr kt \<open>p \<noteq> []\<close> Some a
        by (auto simp: fill_binary_def getenv_or_def refill_def Let_def)
      then show ?thesis using that(2) nv st sp \<open>binary_provider b = Some p\<close> Inr kt Some a by blast
    qed
  qed
qed

text \<open>The verification ladder of the manifest schema.\<close>

definition ladder :: "string option \<Rightarrow> nat" where
  "ladder v = (if v = Some ''exists'' then 1 else if v = Some ''runs'' then 2
     else if v = Some ''behaves'' then 3 else if v = Some ''proven'' then 4 else 0)"

definition level :: "bk_binary \<Rightarrow> nat" where
  "level b = (case bb_native b of None \<Rightarrow> 0 | Some nv \<Rightarrow> ladder (nv_verification nv))"

lemma list_all2_mono_in:
  "list_all2 P xs ys \<Longrightarrow> (\<And>x y. x \<in> set xs \<Longrightarrow> P x y \<Longrightarrow> Q x y) \<Longrightarrow> list_all2 Q xs ys"
  by (induction xs ys rule: list_all2_induct) auto

definition filled_level :: "(string \<Rightarrow> string + bool) \<Rightarrow> bk_binary \<Rightarrow> bk_binary \<Rightarrow> bool" where
  "filled_level exists b b' \<longleftrightarrow>
     level b' = level b
     \<or> level b' = 1 \<and> (\<exists>nv a. bb_native b' = Some nv \<and> nv_artifact_path nv = Some a \<and> exists a = Inr True)"

text \<open>Filling in a manifest changes nothing but artifact paths and verification levels of native
  binaries, and never claims more than that a file exists: a level afterwards is the old one,
  or 1 with the file there.\<close>

theorem fill_artifact_paths_levels:
  assumes "fill_artifact_paths rg exists bs plan = Inr bs'"
  shows "list_all2 (\<lambda>b b'.
      bb_path b' = bb_path b \<and> bb_status b' = bb_status b
      \<and> map_option nv_provider (bb_native b') = map_option nv_provider (bb_native b)
      \<and> map_option nv_other (bb_native b') = map_option nv_other (bb_native b)
      \<and> (b' = b \<or> bb_status b = Some ''native'')
      \<and> filled_level exists b b') bs bs'"
proof (rule list_all2_mono_in)
  show "list_all2 (\<lambda>b b'. fill_binary rg exists plan b = Inr b') bs bs'"
    using try_map_InrD assms unfolding fill_artifact_paths_def by blast
  fix b b' assume f: "fill_binary rg exists plan b = Inr b'"
  show "bb_path b' = bb_path b \<and> bb_status b' = bb_status b
      \<and> map_option nv_provider (bb_native b') = map_option nv_provider (bb_native b)
      \<and> map_option nv_other (bb_native b') = map_option nv_other (bb_native b)
      \<and> (b' = b \<or> bb_status b = Some ''native'')
      \<and> filled_level exists b b'"
  proof (rule fill_binary_cases [OF f])
    assume "b' = b"
    then show ?thesis by (simp add: filled_level_def)
  next
    fix nv p k t a0 a there
    assume "bb_status b = Some ''native''" "bb_native b = Some nv" "exists a = Inr there" "b' = refill there a b nv"
    then show ?thesis by (simp add: refill_def level_def ladder_def filled_level_def)
  qed
qed

definition demo_registry :: registry where
  "demo_registry = \<lparr> rg_pkg_artifacts = [''cmake'' \<mapsto> ''/usr/local/bin/cmake''], rg_port_artifacts = (\<lambda>_. None),
     rg_multi_pkgs = [''binutils''], rg_multi_suffix = (\<lambda>_. None) \<rparr>"

definition demo_binary :: bk_binary where
  "demo_binary = \<lparr> bb_path = Some ''/usr/bin/cmake'', bb_status = Some ''native'',
     bb_native = Some \<lparr> nv_provider = Some ''pkg:cmake'', nv_artifact_path = None,
                        nv_verification = Some ''proven'', nv_other = [] \<rparr> \<rparr>"

lemma demo_fill:
  "fill_artifact_paths demo_registry (\<lambda>_. Inr True) [demo_binary] (fst (build_plan demo_registry [demo_binary])) =
     Inr [refill True ''/usr/local/bin/cmake'' demo_binary (the (bb_native demo_binary))]"
  by code_simp

lemma fill_artifact_paths_levels_witness:
  "filled_level (\<lambda>_. Inr True) demo_binary
     (refill True ''/usr/local/bin/cmake'' demo_binary (the (bb_native demo_binary)))"
  using fill_artifact_paths_levels [OF demo_fill] by simp

lemma fill_pkg_binary:
  assumes "bb_status b = Some ''native''" and "bb_native b = Some nv" and "nv_provider nv = Some (''pkg:'' @ t)"
    and "t \<noteq> []" and "NL \<notin> set t" and "t \<notin> set (rg_multi_pkgs rg)"
    and "exists (resolve_pkg rg t) = Inr there"
  shows "fill_artifact_paths rg exists [b] (fst (build_plan rg [b])) = Inr [refill there (resolve_pkg rg t) b nv]"
proof -
  have p: "parse_provider (''pkg:'' @ t) = Inr (K_pkg, t)"
    using assms by (simp add: parse_provider_match match_kind_Some)
  have bp: "binary_provider b = Some (''pkg:'' @ t)"
    using assms by (simp add: binary_provider_def native_truthy_def getenv_or_def)
  have wf: "plan_wf rg (fst (build_plan rg [b]))" and k: "(K_pkg, t) \<in> plan_keys (fst (build_plan rg [b]))"
    using build_plan_stage [of rg "[b]"] bp p by (simp_all add: stage_def binary_keys_def)
  then have r: "resolved_index (fst (build_plan rg [b])) (K_pkg, t) = Some (resolve_pkg rg t)"
    by (simp add: resolved_index_artifact target_artifact_def)
  show ?thesis
    using assms p r by (simp add: fill_artifact_paths_def fill_binary_def native_truthy_def getenv_or_def
        filled_path_def refill_def Let_def)
qed

text \<open>Baking a manifest again forgets what was verified before: a package binary recorded
  as run, behaving or proven comes out with level 1 as soon as its file exists.\<close>

theorem rebake_lowers_verification:
  assumes "bb_status b = Some ''native''" and "bb_native b = Some nv" and "nv_provider nv = Some (''pkg:'' @ t)"
    and "t \<noteq> []" and "NL \<notin> set t" and "t \<notin> set (rg_multi_pkgs rg)"
    and "exists (resolve_pkg rg t) = Inr True" and "1 < level b"
  shows "\<exists>b'. fill_artifact_paths rg exists [b] (fst (build_plan rg [b])) = Inr [b'] \<and> level b' < level b"
  using fill_pkg_binary [OF assms(1-6), of exists, OF assms(7)] assms(8)
  by (simp add: refill_def level_def ladder_def)

lemma rebake_lowers_verification_witness:
  "\<exists>b'. fill_artifact_paths demo_registry (\<lambda>_. Inr True) [demo_binary] (fst (build_plan demo_registry [demo_binary])) = Inr [b']
     \<and> level b' < level demo_binary"
  by (rule rebake_lowers_verification [where t = "''cmake''" and nv = "the (bb_native demo_binary)"])
    (simp_all add: demo_binary_def demo_registry_def NL_def level_def ladder_def)

lemma fill_total:
  assumes p: "\<forall>b \<in> set bs. bb_path b \<noteq> None"
  shows "(\<exists>bs'. fill_artifact_paths rg exists bs plan = Inr bs')
    \<or> (\<exists>exc p. fill_artifact_paths rg exists bs plan = Inl exc \<and> exists p = Inl exc)"
proof -
  have one: "(\<exists>b'. fill_binary rg exists plan b = Inr b') \<or> (\<exists>exc p. fill_binary rg exists plan b = Inl exc \<and> exists p = Inl exc)"
    if "bb_path b \<noteq> None" for b
  proof (cases "fill_binary rg exists plan b")
    case (Inl exc)
    then show ?thesis using that by (auto simp: fill_binary_def filled_path_def Let_def split: option.splits sum.splits if_splits)
  qed simp
  show ?thesis
    using p unfolding fill_artifact_paths_def
  proof (induction bs)
    case (Cons b bs)
    then show ?case using one [of b] by (cases "fill_binary rg exists plan b"; cases "try_map (fill_binary rg exists plan) bs") auto
  qed simp
qed

text \<open>How one run of \<^verbatim>\<open>bake\<close> ends, given the plan, its warnings and the call to the store.\<close>

definition bake_outcome ::
  "(string \<Rightarrow> string \<Rightarrow> 'w \<Rightarrow> (string + string) \<times> 'w) \<Rightarrow> provisioning_plan \<Rightarrow> bakery_meta \<Rightarrow> 'w \<Rightarrow> 'w \<Rightarrow> bool" where
  "bake_outcome register plan meta w w' \<longleftrightarrow>
     (case bm_snapshot_id meta of
        Some snap \<Rightarrow> (\<exists>script. (\<forall>root. sh_commands root script = Some (plan_commands root plan))
                      \<and> register (bm_base_name meta) script w = (Inr snap, w'))
      | None \<Rightarrow> bm_warnings meta \<noteq> []
          \<and> (if targets_of K_build plan \<noteq> [] then w' = w
             else (\<exists>script e. register (bm_base_name meta) script w = (Inl e, w'))))"

lemma provision_cmd_cases:
  obtains (refused) e where "targets_of K_build plan \<noteq> []" "plan_to_provision_cmd plan = Inl e"
  | (script) s where "targets_of K_build plan = []" "plan_to_provision_cmd plan = Inr s"
  by (cases "targets_of K_build plan = []") (auto simp: plan_to_provision_cmd_def Let_def)

lemma provision_cmd_commands:
  assumes "plan_to_provision_cmd plan = Inr s"
  shows "sh_commands root s = Some (plan_commands root plan)"
  using assms plan_script [of plan root] by (auto split: if_splits)

text \<open>C19: Baking leaves a manifest without native providers and the host alone.  Otherwise it gives
  a manifest with the plan in it, whatever the store does; when every binary has a path, it raises only
  what looking for a path on the host raises.  A snapshot id in the manifest is the answer of the one call
  to the store, and that call got a script that installs the plan; no snapshot id comes with a
  warning, and either the plan needs a source build and the store was not called, or the store
  refused.\<close>

theorem bake_faithful:
  fixes w :: 'w
  assumes "\<forall>b \<in> set (mf_binaries m). bb_path b \<noteq> None"
    and "bake rg hexdigest exists register m w = (res, w')"
  shows "if pl_steps (fst (build_plan rg (mf_binaries m))) = [] then res = Inr m \<and> w' = w
         else \<exists>meta. bm_plan meta = pl_steps (fst (build_plan rg (mf_binaries m)))
            \<and> prefix (snd (build_plan rg (mf_binaries m))) (bm_warnings meta)
            \<and> bake_outcome register (fst (build_plan rg (mf_binaries m))) meta w w'
            \<and> (case res of Inr m' \<Rightarrow> mf_bakery m' = Some meta | Inl exc \<Rightarrow> \<exists>p. exists w' p = Inl exc)"
proof -
  obtain plan ws where bp: "build_plan rg (mf_binaries m) = (plan, ws)" by (meson surj_pair)
  have ann: "case annotate rg ex m plan n sid warn of
        Inr m' \<Rightarrow> mf_bakery m' = Some \<lparr> bm_base_name = n, bm_snapshot_id = sid, bm_plan = pl_steps plan, bm_warnings = warn \<rparr>
      | Inl exc \<Rightarrow> \<exists>p. ex p = Inl exc" for ex n sid warn
    using fill_total [OF assms(1), of rg ex plan] by (auto simp: annotate_def)
  show ?thesis
  proof (cases "pl_steps plan = []")
    case True
    then show ?thesis using assms(2) bp by (simp add: bake_def)
  next
    case False
    let ?n = "native_base_name hexdigest plan"
    have ended: ?thesis if "res = annotate rg (exists w') m plan ?n sid warn" and "prefix ws warn"
      and "bake_outcome register plan \<lparr> bm_base_name = ?n, bm_snapshot_id = sid, bm_plan = pl_steps plan, bm_warnings = warn \<rparr> w w'"
      for sid warn
      using ann [of "exists w'" ?n sid warn] that bp False
      by (auto intro!: exI [of _ "\<lparr> bm_base_name = ?n, bm_snapshot_id = sid, bm_plan = pl_steps plan, bm_warnings = warn \<rparr>"])
    show ?thesis
    proof (cases plan rule: provision_cmd_cases)
      case (refused e)
      then show ?thesis
        using assms(2) bp False by (intro ended [of None "ws @ [e]"]) (auto simp: bake_def bake_outcome_def Let_def)
    next
      case (script s)
      obtain r w1 where r: "register ?n s w = (r, w1)" by (meson surj_pair)
      show ?thesis
      proof (cases r)
        case (Inl e)
        have "\<exists>script e. register ?n script w = (Inl e, w1)" using r Inl by blast
        then show ?thesis
          using assms(2) bp False script r Inl
          by (intro ended [of None "ws @ [registration_failed e]"]) (auto simp: bake_def bake_outcome_def Let_def)
      next
        case (Inr snap)
        have "\<exists>script. (\<forall>root. sh_commands root script = Some (plan_commands root plan)) \<and> register ?n script w = (Inr snap, w1)"
          using r Inr provision_cmd_commands [OF script(2)] by blast
        then show ?thesis
          using assms(2) bp False script(2) r Inr
          by (intro ended [of "Some snap" ws]) (auto simp: bake_def bake_outcome_def Let_def)
      qed
    qed
  qed
qed

lemma bake_faithful_witness:
  "bake_outcome (\<lambda>n s w. (Inr (''snap''), s # w)) (fst (build_plan demo_registry [demo_binary]))
     \<lparr> bm_base_name = ''jailrun-native-h'', bm_snapshot_id = Some ''snap'',
       bm_plan = pl_steps (fst (build_plan demo_registry [demo_binary])), bm_warnings = [] \<rparr> []
     (snd (bake demo_registry (\<lambda>_. ''h'') (\<lambda>_ _. Inr False) (\<lambda>n s w. (Inr (''snap''), s # w))
        \<lparr> mf_binaries = [demo_binary], mf_bakery = None \<rparr> []))"
proof -
  let ?m = "\<lparr> mf_binaries = [demo_binary], mf_bakery = None \<rparr>"
  let ?reg = "\<lambda>n s w. (Inr (''snap'') :: string + string, s # w)"
  have p: "\<forall>b \<in> set (mf_binaries ?m). bb_path b \<noteq> None" by (simp add: demo_binary_def)
  obtain res w' where b: "bake demo_registry (\<lambda>_. ''h'') (\<lambda>_ _. Inr False) ?reg ?m [] = (res, w')"
    by (meson surj_pair)
  have st: "pl_steps (fst (build_plan demo_registry [demo_binary])) \<noteq> []" by code_simp
  have meta: "map_option bm_base_name (mf_bakery (projr (fst (bake demo_registry (\<lambda>_. ''h'') (\<lambda>_ _. Inr False) ?reg ?m []))))
      = Some ''jailrun-native-h''"
    "map_option bm_snapshot_id (mf_bakery (projr (fst (bake demo_registry (\<lambda>_. ''h'') (\<lambda>_ _. Inr False) ?reg ?m []))))
      = Some (Some ''snap'')"
    "map_option bm_warnings (mf_bakery (projr (fst (bake demo_registry (\<lambda>_. ''h'') (\<lambda>_ _. Inr False) ?reg ?m []))))
      = Some []"
    by code_simp+
  show ?thesis
    using bake_faithful [OF p b] st meta b by (cases res) (auto simp: bake_outcome_def)
qed

text \<open>The steps of a plan come in the order of the binaries, not sorted by kind.\<close>

lemma plan_order_is_binary_order:
  "map step_key (pl_steps (fst (build_plan
      (demo_registry \<lparr> rg_port_artifacts := [''d/x'' \<mapsto> ''/x''] \<rparr>)
      [demo_binary \<lparr> bb_native := Some (the (bb_native demo_binary) \<lparr> nv_provider := Some ''port:d/x'' \<rparr>) \<rparr>,
       demo_binary]))) = [(K_port, ''d/x''), (K_pkg, ''cmake'')]"
  by code_simp

end
