(* ===== verification/Lifecycle.thy ===== *)
theory Lifecycle
  imports Gc
begin

text \<open>
  \<^verbatim>\<open>runtime/lifecycle.py\<close>: signals to all processes of a jail, and the list of jails.  A command
  that gives no exit status raised an exception; which class it was is the argument \<^verbatim>\<open>kind\<close> of
  the definitions here, a function of the exception's text.
\<close>

datatype spawn_kind = Not_found | Timed_out | Other_failure

text \<open>The dictionaries: \<^const>\<open>Inl\<close> the value of \<^verbatim>\<open>err\<close>, \<^const>\<open>Inr\<close> that of \<^verbatim>\<open>msg\<close> or \<^verbatim>\<open>jails\<close>.\<close>

definition kill_cmd :: "string \<Rightarrow> string \<Rightarrow> string list" where
  "kill_cmd jail sig = [''jexec'', jail, ''kill'', ''-'' @ sig, ''-1'']"

definition jail_signal :: "(string \<Rightarrow> spawn_kind) \<Rightarrow> 'w tool \<Rightarrow> string \<Rightarrow> string \<Rightarrow> 'w \<Rightarrow> (string + string) \<times> 'w" where
  "jail_signal kind t jail sig w =
     (case t (kill_cmd jail sig) w of
        (Completed rc out err, w') \<Rightarrow>
          (if rc = 0 then Inr (sig @ '' delivered to '' @ jail)
           else Inl (if py_strip err \<noteq> [] then py_strip err
                     else ''jexec kill -'' @ sig @ '' -1 failed (rc='' @ show_int rc @ '')''), w')
      | (Spawn_error e, w') \<Rightarrow>
          (Inl (case kind e of
             Not_found \<Rightarrow> ''jexec not found '' @ em_dash @ '' not running on FreeBSD?''
           | Timed_out \<Rightarrow> ''jexec kill -'' @ sig @ '' -1 timed out (10.0s)''
           | Other_failure \<Rightarrow> e), w'))"

definition available :: "(string \<Rightarrow> spawn_kind) \<Rightarrow> 'w tool \<Rightarrow> 'w \<Rightarrow> bool \<times> 'w" where
  "available kind t w =
     (case t [''jexec'', ''-h''] w of
        (Completed _ _ _, w') \<Rightarrow> (True, w')
      | (Spawn_error e, w') \<Rightarrow> (kind e \<noteq> Not_found, w'))"

definition freeze :: "(string \<Rightarrow> spawn_kind) \<Rightarrow> 'w tool \<Rightarrow> string \<Rightarrow> 'w \<Rightarrow> (string + string) \<times> 'w" where
  "freeze kind t jail = jail_signal kind t jail ''STOP''"

definition thaw :: "(string \<Rightarrow> spawn_kind) \<Rightarrow> 'w tool \<Rightarrow> string \<Rightarrow> 'w \<Rightarrow> (string + string) \<times> 'w" where
  "thaw kind t jail = jail_signal kind t jail ''CONT''"

definition kill_jail :: "(string \<Rightarrow> spawn_kind) \<Rightarrow> 'w tool \<Rightarrow> string \<Rightarrow> 'w \<Rightarrow> (string + string) \<times> 'w" where
  "kill_jail kind t jail = jail_signal kind t jail ''KILL''"

text \<open>\<^verbatim>\<open>hibernate\<close> and \<^verbatim>\<open>restore\<close> raise \<^verbatim>\<open>NotAvailable\<close> and touch nothing.\<close>

definition hibernate :: "string \<Rightarrow> string + unit" where
  "hibernate jail = Inl (''hibernate requires ZFS snapshot integration '' @ em_dash @ '' not yet wired into lifecycle.py'')"

definition restore :: "string \<Rightarrow> string + unit" where
  "restore jail = Inl (''restore requires ZFS snapshot integration '' @ em_dash @ '' not yet wired into lifecycle.py'')"

text \<open>\<^verbatim>\<open>s.split(two newlines)\<close>.\<close>

fun split_blank :: "string \<Rightarrow> string list" where
  "split_blank [] = [[]]"
| "split_blank [c] = [[c]]"
| "split_blank (c # d # cs) =
     (if c = NL \<and> d = NL then [] # split_blank cs
      else (case split_blank (d # cs) of [] \<Rightarrow> [[c]] | p # ps \<Rightarrow> (c # p) # ps))"

definition jail_blocks :: "string \<Rightarrow> string list" where
  "jail_blocks out = filter (\<lambda>b. b \<noteq> []) (map py_strip (split_blank (py_strip out)))"

definition jails_status :: "(string \<Rightarrow> spawn_kind) \<Rightarrow> 'w tool \<Rightarrow> 'w \<Rightarrow> (string + string list) \<times> 'w" where
  "jails_status kind t w =
     (case t [''jls'', ''-n''] w of
        (Completed rc out err, w') \<Rightarrow> (if rc = 0 then Inr (jail_blocks out) else Inl (py_strip err), w')
      | (Spawn_error e, w') \<Rightarrow>
          (Inl (if kind e = Not_found then ''jls not found '' @ em_dash @ '' not running on FreeBSD?'' else e), w'))"

text \<open>\<^verbatim>\<open>teardown\<close> only logs what the signal gave.\<close>

definition lifecycle_teardown :: "(string \<Rightarrow> spawn_kind) \<Rightarrow> 'w tool \<Rightarrow> string \<Rightarrow> 'w \<Rightarrow> 'w" where
  "lifecycle_teardown kind t jail_name w = snd (jail_signal kind t jail_name ''KILL'' w)"

lemma lifecycle_teardown_answers [simp]:
  "lifecycle_teardown kind t jail_name w = snd (t (kill_cmd jail_name ''KILL'') w)"
  by (simp add: lifecycle_teardown_def jail_signal_def split: prod.splits cmd_result.splits)

text \<open>\<^verbatim>\<open>jls -n\<close> prints one line for each jail, and no empty line between them: the blocks of
  \<^verbatim>\<open>status\<close>, which are separated by empty lines, are then all jails in one.\<close>

lemma split_blank_lines:
  "list_all (\<lambda>l. l \<noteq> [] \<and> NL \<notin> set l) ls \<Longrightarrow> ls \<noteq> [] \<Longrightarrow> split_blank (py_join [NL] ls) = [py_join [NL] ls]"
proof (induction ls rule: induct_list012)
  case (2 l)
  then have "NL \<notin> set l" by simp
  then show ?case by (induction l rule: split_blank.induct) auto
next
  case (3 l m ls)
  obtain d ds where rest: "py_join [NL] (m # ls) = d # ds" "d \<noteq> NL"
    using 3(3) by (cases m; cases ls) auto
  have IH: "split_blank (d # ds) = [d # ds]" using 3 rest by simp
  have "NL \<notin> set l \<Longrightarrow> l \<noteq> [] \<Longrightarrow> split_blank (l @ NL # d # ds) = [l @ NL # d # ds]"
  proof (induction l rule: split_blank.induct)
    case (2 c)
    then show ?case using IH rest by simp
  next
    case (3 c e cs)
    then show ?case by auto
  qed simp
  then show ?case using 3(3) rest by simp
qed simp

end
