(* ===== verification/EnginePrep.thy ===== *)
theory EnginePrep
  imports StoreOci Bakery Lifecycle
begin

text \<open>
  \<^verbatim>\<open>runtime/engine.py\<close>, what a run prepares: whether jailrun is itself in a jail, the
  substitution manifest and its caches, the native shadow directory, \<^verbatim>\<open>jail.conf\<close>, resource
  limits, the log file and the command line of \<^verbatim>\<open>jexec\<close>.  The host and the actions on it are
  those of the store; an exception of Python that is not the store's own is \<^const>\<open>Other_error\<close> with the
  name of its class, for \<^verbatim>\<open>RuntimeError\<close> and \<^verbatim>\<open>ValueError\<close> with the message too.
\<close>

definition runtime_error :: "string \<Rightarrow> store_exc" where
  "runtime_error msg = Other_error (''RuntimeError: '' @ msg)"

definition value_error :: "string \<Rightarrow> store_exc" where
  "value_error msg = Other_error (''ValueError: '' @ msg)"

section \<open>Nested jails\<close>

definition jailed_cmd :: "string list" where "jailed_cmd = [''sysctl'', ''-n'', ''security.jail.jailed'']"

definition is_jailed :: "'w runner \<Rightarrow> 'w host \<Rightarrow> bool \<times> 'w host" where
  "is_jailed t h =
     (case subprocess_run t jailed_cmd h of
        (Inl _, h') \<Rightarrow> (False, h')
      | (Inr (rc, out, _), h') \<Rightarrow> (rc = 0 \<and> py_strip out \<notin> {[], ''0''}, h'))"

definition devfs_probe_cmd :: "path \<Rightarrow> string \<Rightarrow> string list" where
  "devfs_probe_cmd scratch probe_name =
     [''jail'', ''-c'', ''path='' @ path_str scratch, ''name='' @ probe_name,
      ''persist'', ''ip4=disable'', ''ip6=disable'', ''mount.devfs'']"

text \<open>\<^verbatim>\<open>scratch\<close> is the new directory of \<^verbatim>\<open>mkdtemp\<close>.  An exception of the command in the \<^verbatim>\<open>finally\<close>
  block replaces the answer, and the scratch directory stays.\<close>

definition devfs_delegation_available :: "'w runner \<Rightarrow> nat \<Rightarrow> string \<Rightarrow> path \<Rightarrow> (bool, 'w) act" where
  "devfs_delegation_available t lim pid scratch =
     (let probe_name = ''jailrun-devfs-probe-'' @ pid in
      then_do (on_tree (fs_mkdir lim scratch)) (\<lambda>_ h.
        let (r, h1) = then_do (on_tree (fs_mkdirs lim (scratch @ [''dev''])))
                        (\<lambda>_. subprocess_run t (devfs_probe_cmd scratch probe_name)) h;
            created = (case r of Inl _ \<Rightarrow> False | Inr (rc, _) \<Rightarrow> rc = 0)
        in then_do (if created then subprocess_run t [''jail'', ''-r'', probe_name] else give (0, [], [])) (\<lambda>_ h2.
             (Inr created, (snd (fs_rmtree lim scratch (fst h2)), snd h2))) h1))"

section \<open>The substitution manifest\<close>

definition MANIFEST_FILENAME :: string where "MANIFEST_FILENAME = ''substitution-manifest.json''"

definition MANIFEST_CACHE_DIR :: path where
  "MANIFEST_CACHE_DIR = [''var'', ''cache'', ''jailrun'', ''manifests'']"

definition persistent_cache :: "string \<Rightarrow> path" where
  "persistent_cache image_id = join_path MANIFEST_CACHE_DIR (image_id @ ''.json'')"

definition clone_cache :: "path \<Rightarrow> path" where
  "clone_cache rootfs_path = rootfs_path @ [''.jailrun'', MANIFEST_FILENAME]"

definition cache_file :: "string option \<Rightarrow> path option" where
  "cache_file image_id = (case image_id of None \<Rightarrow> None | Some i \<Rightarrow> if i = [] then None else Some (persistent_cache i))"

definition load_json :: "nat \<Rightarrow> path \<Rightarrow> (json, 'w) act" where
  "load_json lim p h = (read_json lim (fst h) p, h)"

text \<open>\<^verbatim>\<open>p.parent.mkdir(parents=True, exist_ok=True)\<close>, \<^verbatim>\<open>open("w")\<close> and \<^verbatim>\<open>json.dump(v, fh, indent=2)\<close>.\<close>

definition save_json :: "nat \<Rightarrow> path \<Rightarrow> json \<Rightarrow> (unit, 'w) act" where
  "save_json lim p v =
     then_do (on_tree (fs_mkdirs lim (butlast p))) (\<lambda>_. on_tree (fs_write lim (json_dump 0 v) p))"

text \<open>The probe and the bakery are the argument \<^verbatim>\<open>probe_and_bake\<close>, a function of the root directory
  and the reference.\<close>

definition load_manifest ::
  "(path \<Rightarrow> string \<Rightarrow> (json, 'w) act) \<Rightarrow> nat \<Rightarrow> path \<Rightarrow> string \<Rightarrow> string option \<Rightarrow> (json, 'w) act" where
  "load_manifest probe_and_bake lim rootfs_path image_ref image_id =
     then_do (case cache_file image_id of None \<Rightarrow> give False | Some p \<Rightarrow> tree_exists lim p) (\<lambda>cached.
     if cached then load_json lim (the (cache_file image_id))
     else then_do (tree_exists lim (clone_cache rootfs_path)) (\<lambda>in_clone.
     if in_clone then load_json lim (clone_cache rootfs_path)
     else then_do (probe_and_bake rootfs_path image_ref) (\<lambda>manifest.
          then_do (save_json lim (clone_cache rootfs_path) manifest) (\<lambda>_.
          then_do (case cache_file image_id of None \<Rightarrow> give () | Some p \<Rightarrow> save_json lim p manifest) (\<lambda>_.
          give manifest)))))"

section \<open>The native shadow\<close>

definition NATIVE_BASE_MOUNT :: string where "NATIVE_BASE_MOUNT = ''/jailrun-native/base''"

definition shadow_dir :: "path \<Rightarrow> path" where "shadow_dir rootfs_path = rootfs_path @ [''jailrun-native'', ''bin'']"

definition child_path :: "path \<Rightarrow> string \<Rightarrow> path" where "child_path d name = d @ (if name = [] then [] else [name])"

text \<open>The links for one binary.  The source's two names are a set: the order of the list stands for
  either order of its iteration.\<close>

fun shadow_links :: "nat \<Rightarrow> path \<Rightarrow> string \<Rightarrow> string list \<Rightarrow> (unit, 'w) act" where
  "shadow_links lim d in_jail_path [] = give ()"
| "shadow_links lim d in_jail_path (n # ns) =
     then_do (\<lambda>h. let target = child_path d n in
         if path_exists lim (fst h) target \<or> path_is_symlink lim (fst h) target then (Inr (), h)
         else on_tree (fs_symlink lim in_jail_path target) h) (\<lambda>_.
     shadow_links lim d in_jail_path ns)"

text \<open>What is decided about an entry before the tree is looked at: nothing to shadow, or the path
  in the jail.\<close>

definition shadow_target :: "string option \<Rightarrow> json \<Rightarrow> store_exc + string option" where
  "shadow_target base_prefix entry =
     try_bind (jget ''status'' JNull entry) (\<lambda>status.
     if status \<noteq> JStr ''native'' then Inr None
     else try_bind (jget ''native'' JNull entry) (\<lambda>nv.
     let native = (if jtruth nv then nv else JObj []) in
     try_bind (jget ''artifact_path'' JNull native) (\<lambda>artifact_path.
     if \<not> jtruth artifact_path then try_bind (jget ''provider'' JNull native) (\<lambda>_. Inr None)
     else (case base_prefix of
         None \<Rightarrow> Inr None
       | Some base \<Rightarrow> (case artifact_path of
             JStr a \<Rightarrow> Inr (Some (py_rstrip_char (CHR ''/'') base @ ''/'' @ py_lstrip_char (CHR ''/'') a))
           | _ \<Rightarrow> attribute_error)))))"

definition artifact_name :: "json \<Rightarrow> string" where
  "artifact_name entry =
     (case jget ''native'' JNull entry of
        Inr (JObj ms) \<Rightarrow> (case jlookup ''artifact_path'' ms of Some (JStr a) \<Rightarrow> path_last a | _ \<Rightarrow> [])
      | _ \<Rightarrow> [])"

definition shadow_entry :: "nat \<Rightarrow> path \<Rightarrow> string option \<Rightarrow> json \<Rightarrow> (unit, 'w) act" where
  "shadow_entry lim rootfs_path base_prefix entry =
     then_do (of_sum (shadow_target base_prefix entry)) (\<lambda>r.
     case r of None \<Rightarrow> give ()
     | Some in_jail_path \<Rightarrow>
         then_do (tree_exists lim (rootfs_path @ components (py_lstrip_char (CHR ''/'') in_jail_path))) (\<lambda>real.
         if \<not> real then give ()
         else then_do (of_sum (jitem ''path'' entry)) (\<lambda>p.
              case p of
                JStr image_path \<Rightarrow> shadow_links lim (shadow_dir rootfs_path) in_jail_path
                                     (remdups [artifact_name entry, path_last image_path])
              | _ \<Rightarrow> of_sum type_error)))"

fun shadow_entries :: "nat \<Rightarrow> path \<Rightarrow> string option \<Rightarrow> json list \<Rightarrow> (unit, 'w) act" where
  "shadow_entries lim rootfs_path base_prefix [] = give ()"
| "shadow_entries lim rootfs_path base_prefix (e # es) =
     then_do (shadow_entry lim rootfs_path base_prefix e) (\<lambda>_. shadow_entries lim rootfs_path base_prefix es)"

definition manifest_binaries :: "json \<Rightarrow> store_exc + json list" where
  "manifest_binaries manifest = try_bind (jget ''binaries'' (JArr []) manifest) jiter"

definition assemble_native_shadow :: "nat \<Rightarrow> path \<Rightarrow> json \<Rightarrow> string option \<Rightarrow> (unit, 'w) act" where
  "assemble_native_shadow lim rootfs_path manifest base_prefix =
     then_do (on_tree (fs_mkdirs lim (shadow_dir rootfs_path))) (\<lambda>_.
     then_do (of_sum (manifest_binaries manifest)) (\<lambda>entries.
     shadow_entries lim rootfs_path base_prefix entries))"

fun any_linuxulator :: "json list \<Rightarrow> store_exc + bool" where
  "any_linuxulator [] = Inr False"
| "any_linuxulator (b # bs) =
     try_bind (jget ''status'' JNull b) (\<lambda>s. if s = JStr ''linuxulator'' then Inr True else any_linuxulator bs)"

definition needs_linuxulator :: "json \<Rightarrow> store_exc + bool" where
  "needs_linuxulator manifest =
     try_bind (jget ''linuxulator'' (JObj []) manifest) (\<lambda>block.
     try_bind (jget ''required'' (JBool False) block) (\<lambda>required.
     if jtruth required then Inr True
     else try_bind (manifest_binaries manifest) any_linuxulator))"

section \<open>The jail's configuration\<close>

record jail_params =
  jp_name :: string
  jp_rootfs :: path
  jp_mounts :: "string list"
  jp_extra :: "string list"
  jp_linuxulator :: bool
  jp_network :: string
  jp_raw_sockets :: bool
  jp_ip4_addr :: "string option"
  jp_epair_if :: "string option"
  jp_delegation_ok :: bool

definition NETWORK_MODES :: "string list" where "NETWORK_MODES = [''none'', ''inherit'', ''allow'', ''vnet'']"

definition unset :: "string option \<Rightarrow> bool" where "unset v \<longleftrightarrow> v = None \<or> v = Some []"

definition conf_error :: "jail_params \<Rightarrow> store_exc option" where
  "conf_error jp =
     (if jp_network jp \<notin> set NETWORK_MODES then
        Some (value_error (''network must be '' @ py_join '', '' (map py_repr (butlast NETWORK_MODES)) @ '', or '' @
          py_repr (last NETWORK_MODES) @ '', got '' @ py_repr (jp_network jp)))
      else if jp_network jp = ''allow'' \<and> unset (jp_ip4_addr jp) then
        Some (value_error (''network='' @ py_repr ''allow'' @ '' requires ip4_addr (the jail'' @ [QUOTE] @ ''s alias IP)''))
      else if jp_network jp = ''vnet'' \<and> unset (jp_epair_if jp) then
        Some (value_error (''network='' @ py_repr ''vnet'' @ '' requires epair_if (the jail-side epair name)''))
      else None)"

definition indented :: "string \<Rightarrow> string" where "indented s = ''    '' @ s"

text \<open>The network of the jail.  Text in single quotes is quoted by the source itself, the rest by
  \<^verbatim>\<open>repr\<close>.\<close>

definition network_lines :: "jail_params \<Rightarrow> string list" where
  "network_lines jp =
     (if jp_network jp = ''none'' then [''ip4 = disable;'', ''ip6 = disable;'']
      else if jp_network jp = ''vnet'' then [''vnet;'', ''vnet.interface = '' @ py_repr_opt (jp_epair_if jp) @ '';'']
      else if jp_network jp = ''allow'' then
        [''ip4.addr = '' @ py_repr_opt (jp_ip4_addr jp) @ '';'', ''ip4 = inherit;'', ''ip6 = disable;'']
      else [''ip4 = inherit;'', ''ip6 = inherit;''])"

definition quoted_mount :: "string \<Rightarrow> string" where
  "quoted_mount m = ''mount += '' @ [QUOTE] @ m @ [QUOTE] @ '';''"

definition linuxulator_lines :: "path \<Rightarrow> string list" where
  "linuxulator_lines rootfs_path =
     (let rootfs_str = path_str rootfs_path in
      [quoted_mount (''linprocfs '' @ rootfs_str @ ''/proc linprocfs rw 0 0''),
       quoted_mount (''linsysfs '' @ rootfs_str @ ''/sys linsysfs rw 0 0''),
       quoted_mount (''tmpfs '' @ rootfs_str @ ''/dev/shm tmpfs rw,size=134217728,mode=1777 0 0''),
       quoted_mount (''fdescfs '' @ rootfs_str @ ''/dev/fd fdescfs rw,linrdlnk 0 0'')])"

definition conf_params :: "bool \<Rightarrow> jail_params \<Rightarrow> string list" where
  "conf_params jailed jp =
     [''path = '' @ py_repr (path_str (jp_rootfs jp)) @ '';'', ''persist;'', ''mount.devfs;''] @
     (if jailed \<and> \<not> jp_delegation_ok jp then [''devfs_ruleset = 0;''] else []) @
     (if jp_raw_sockets jp then [''allow.raw_sockets;''] else []) @
     network_lines jp @
     (if jp_linuxulator jp then linuxulator_lines (jp_rootfs jp) else []) @
     map (\<lambda>m. ''mount += '' @ py_repr m @ '';'') (jp_mounts jp) @ jp_extra jp"

definition conf_text :: "bool \<Rightarrow> jail_params \<Rightarrow> string" where
  "conf_text jailed jp =
     py_join [NL] ([jp_name jp @ '' {''] @ map indented (conf_params jailed jp) @ [''}''])"

definition build_jail_conf :: "'w runner \<Rightarrow> jail_params \<Rightarrow> (string, 'w) act" where
  "build_jail_conf t jp h =
     (case conf_error jp of
        Some e \<Rightarrow> (Inl e, h)
      | None \<Rightarrow> (let (jailed, h') = is_jailed t h in (Inr (conf_text jailed jp), h')))"

section \<open>Administrative commands and limits\<close>

definition shlex_join :: "string list \<Rightarrow> string" where "shlex_join ws = py_join '' '' (map shlex_quote ws)"

text \<open>\<^verbatim>\<open>_run_subprocess\<close>: with \<^verbatim>\<open>check\<close> every failure is a \<^verbatim>\<open>RuntimeError\<close>, without it none is.\<close>

definition run_subprocess ::
  "(string \<Rightarrow> spawn_kind) \<Rightarrow> 'w runner \<Rightarrow> bool \<Rightarrow> string list \<Rightarrow> (int \<times> string \<times> string, 'w) act" where
  "run_subprocess kind t check argv h =
     (case t None [] argv h of
        (Spawn_error e, h') \<Rightarrow>
          (if kind e = Timed_out
           then (if check then Inl (runtime_error (''Command timed out after 60.0s: '' @ shlex_join argv))
                 else Inr (-1, [], ''timed out after 60.0s''))
           else (if check then Inl (runtime_error (''Command failed to start: '' @ shlex_join argv @ '': '' @ e))
                 else Inr (-1, [], e)), h')
      | (Completed rc out err, h') \<Rightarrow>
          (if check \<and> rc \<noteq> 0
           then Inl (runtime_error (''Command failed (rc='' @ show_int rc @ ''): '' @ shlex_join argv @ [NL] @ ''stderr: '' @ err))
           else Inr (rc, out, err), h'))"

text \<open>Without \<^verbatim>\<open>check\<close>, where the answer is only logged.\<close>

definition tolerated :: "'w runner \<Rightarrow> string list \<Rightarrow> 'w host \<Rightarrow> 'w host" where
  "tolerated t argv h = snd (t None [] argv h)"

lemma run_subprocess_tolerated:
  "snd (run_subprocess kind t False argv h) = tolerated t argv h"
  by (simp add: run_subprocess_def tolerated_def split: prod.splits cmd_result.splits)

definition DEFAULT_RCTL_RULES :: "string list" where
  "DEFAULT_RCTL_RULES = [''memoryuse:sigkill=8g'', ''pcpu:sigkill=400'', ''maxproc:deny=512'', ''cputime:sigkill=3600'',
     ''readbps:throttle=200m'', ''writebps:throttle=200m'']"

definition racct_enabled :: "(string \<Rightarrow> spawn_kind) \<Rightarrow> 'w runner \<Rightarrow> 'w host \<Rightarrow> bool \<times> 'w host" where
  "racct_enabled kind t h =
     (case run_subprocess kind t False [''sysctl'', ''-n'', ''kern.racct.enable''] h of
        (Inr (rc, out, _), h') \<Rightarrow> (rc = 0 \<and> py_strip out = ''1'', h')
      | (Inl _, h') \<Rightarrow> (False, h'))"

definition rctl_subject :: "string \<Rightarrow> string" where "rctl_subject jail_name = ''jail:'' @ jail_name"

definition apply_rctl :: "(string \<Rightarrow> spawn_kind) \<Rightarrow> 'w runner \<Rightarrow> string \<Rightarrow> string list \<Rightarrow> 'w host \<Rightarrow> 'w host" where
  "apply_rctl kind t jail_name rules h =
     (if rules = [] then h
      else (let (enabled, h') = racct_enabled kind t h in
            if \<not> enabled then h'
            else fold (\<lambda>rule. tolerated t [''rctl'', ''-a'', rctl_subject jail_name @ '':'' @ rule]) rules h'))"

definition clear_rctl :: "'w runner \<Rightarrow> string \<Rightarrow> 'w host \<Rightarrow> 'w host" where
  "clear_rctl t jail_name = tolerated t [''rctl'', ''-r'', rctl_subject jail_name]"

section \<open>The log file and the command line\<close>

definition get_log_dir :: "env \<Rightarrow> string" where
  "get_log_dir env = py_strip (getenv_or (env ''JAILRUN_LOG_DIR'') ''/var/log/jailrun'')"

text \<open>\<^verbatim>\<open>_open_log_file\<close>: the open file is the place in the tree where its path led, or there is none.
  A relative path is taken from the root directory.\<close>

definition open_log_file :: "nat \<Rightarrow> string \<Rightarrow> fs \<Rightarrow> path option \<times> fs" where
  "open_log_file lim log_path fs =
     (let parent = py_dirname log_path;
          (e, fs1) = (if parent = [] then (None, fs) else fs_mkdirs lim (components parent) fs)
      in if e \<noteq> None then (None, fs1)
         else (case fs_write lim [] (components log_path) fs1 of
             (Some _, fs2) \<Rightarrow> (None, fs2)
           | (None, fs2) \<Rightarrow> (follow lim fs1 (components log_path), fs2)))"

definition jexec_argv :: "string \<Rightarrow> string list \<Rightarrow> (string \<times> string) list \<Rightarrow> string option \<Rightarrow> string list" where
  "jexec_argv jail_name cmd env workdir =
     (let words = ''env'' # map (\<lambda>(k, v). k @ ''='' @ v) env @ cmd in
      case workdir of
        Some d \<Rightarrow> if d = [] then [''jexec'', jail_name] @ words
                  else [''jexec'', jail_name, ''sh'', ''-c'', ''cd '' @ shlex_quote d @ '' && '' @ shlex_join words]
      | None \<Rightarrow> [''jexec'', jail_name] @ words)"

end
