(* ===== verification/NetPolicy.thy ===== *)
theory NetPolicy
  imports Prelude "HOL-Library.Word"
begin

text \<open>
  \<^verbatim>\<open>runtime/netpolicy.py\<close>: parsing a network policy, resolving its destinations, choosing a jail
  address, and rendering the pf rules of one jail.  DNS is a parameter.  The rules are modelled
  twice: as the text the code writes and as the rules that text denotes, with pf's evaluation
  (first matching \<^verbatim>\<open>quick\<close> rule, \<^verbatim>\<open>match\<close> rules tag) to say what they let through.
\<close>

section \<open>Parsing --network\<close>

record allow_entry =
  ae_host :: string
  ae_port :: "nat option"

datatype network_spec = Net_none | Net_inherit | Net_allow "allow_entry list"

definition ALLOW :: string where "ALLOW = ''allow=''"

definition parse_allow_entry :: "string \<Rightarrow> string + allow_entry" where
  "parse_allow_entry raw =
     (let token = py_strip raw in
      if token = [] then Inl (''empty entry in allow-list near '' @ py_repr raw)
      else (case py_rcut (CHR '':'') token of
          None \<Rightarrow> Inr \<lparr>ae_host = token, ae_port = None\<rparr>
        | Some (h, port_s) \<Rightarrow>
            (let host = py_strip h in
             if host = [] then Inl (''missing host in '' @ py_repr token)
             else (case parse_nat port_s of
                 None \<Rightarrow> Inl (''port '' @ py_repr port_s @ '' in '' @ py_repr token @ '' is not a number'')
               | Some port \<Rightarrow>
                   if \<not> (1 \<le> port \<and> port \<le> 65535)
                   then Inl (''port '' @ show_nat port @ '' out of range 1..65535'')
                   else Inr \<lparr>ae_host = host, ae_port = Some port\<rparr>))))"

definition parse_network_spec :: "string \<Rightarrow> string + network_spec" where
  "parse_network_spec spec =
     (let s = py_strip spec in
      if s = ''none'' then Inr Net_none
      else if s = ''inherit'' then Inr Net_inherit
      else if s = ALLOW \<or> \<not> py_startswith s ALLOW then
        Inl (''network must be '' @ py_repr ''none'' @ '', '' @ py_repr ''inherit'' @ '', or '' @
             py_repr ''allow=host[:port],...'' @ '', got '' @ py_repr spec)
      else (let body = py_strip (drop (length ALLOW) s) in
        if body = [] then Inl ''allow= needs at least one host[:port] entry''
        else (case try_map parse_allow_entry (py_split (CHR '','') body) of
            Inl e \<Rightarrow> Inl e
          | Inr entries \<Rightarrow> Inr (Net_allow entries))))"

section \<open>IPv4 addresses\<close>

definition octet :: "nat \<Rightarrow> 32 word \<Rightarrow> nat" where
  "octet i a = unat a div 256 ^ i mod 256"

definition show_ipv4 :: "32 word \<Rightarrow> string" where
  "show_ipv4 a = py_join ''.'' [show_nat (octet 3 a), show_nat (octet 2 a), show_nat (octet 1 a), show_nat (octet 0 a)]"

text \<open>\<^verbatim>\<open>ipaddress.IPv4Address\<close>: four decimal octets, at most three digits each, no leading
  zero.\<close>

definition parse_octet :: "string \<Rightarrow> nat option" where
  "parse_octet s =
     (if length s > 3 \<or> (s \<noteq> ''0'' \<and> prefix ''0'' s) then None
      else (case parse_nat s of None \<Rightarrow> None | Some n \<Rightarrow> if n > 255 then None else Some n))"

definition parse_ipv4 :: "string \<Rightarrow> 32 word option" where
  "parse_ipv4 s =
     (case map parse_octet (py_split (CHR ''.'') s) of
        [Some a, Some b, Some c, Some d] \<Rightarrow> Some (of_nat (((a * 256 + b) * 256 + c) * 256 + d))
      | _ \<Rightarrow> None)"

section \<open>Resolving the allow-list\<close>

text \<open>A literal address goes through unchanged; \<^verbatim>\<open>is_ipv6\<close> stands for the IPv6 half of
  \<^verbatim>\<open>ipaddress.ip_address\<close>, \<^verbatim>\<open>resolver\<close> for \<^verbatim>\<open>getaddrinfo\<close>.\<close>

definition entry_ips ::
  "(string \<Rightarrow> bool) \<Rightarrow> (string \<Rightarrow> string + string list) \<Rightarrow> allow_entry \<Rightarrow> string + string list" where
  "entry_ips is_ipv6 resolver e =
     (if parse_ipv4 (ae_host e) \<noteq> None \<or> is_ipv6 (ae_host e) then Inr [ae_host e]
      else resolver (ae_host e))"

definition append_new :: "'a \<Rightarrow> 'a list \<Rightarrow> 'a list" where
  "append_new x xs = (if x \<in> set xs then xs else xs @ [x])"

fun resolve_loop ::
  "(string \<Rightarrow> bool) \<Rightarrow> (string \<Rightarrow> string + string list) \<Rightarrow> allow_entry list
   \<Rightarrow> (string \<times> nat option) list \<Rightarrow> string + (string \<times> nat option) list" where
  "resolve_loop is_ipv6 resolver [] out = Inr out"
| "resolve_loop is_ipv6 resolver (e # es) out =
     (case entry_ips is_ipv6 resolver e of
        Inl err \<Rightarrow> Inl err
      | Inr ips \<Rightarrow> resolve_loop is_ipv6 resolver es (fold (\<lambda>ip. append_new (ip, ae_port e)) ips out))"

definition resolve_allowlist ::
  "(string \<Rightarrow> bool) \<Rightarrow> (string \<Rightarrow> string + string list) \<Rightarrow> allow_entry list
   \<Rightarrow> string + (string \<times> nat option) list" where
  "resolve_allowlist is_ipv6 resolver allow = resolve_loop is_ipv6 resolver allow []"

text \<open>\<^verbatim>\<open>host_resolvers\<close>: the argument is the text of resolv.conf, \<^verbatim>\<open>None\<close> when it cannot be
  read.\<close>

definition nameserver_of :: "string \<Rightarrow> string option" where
  "nameserver_of line =
     (case py_fields line of
        k # v # _ \<Rightarrow> if k = ''nameserver'' then Some v else None
      | _ \<Rightarrow> None)"

definition host_resolvers :: "string option \<Rightarrow> string list" where
  "host_resolvers text =
     (case text of None \<Rightarrow> []
      | Some t \<Rightarrow> fold append_new (List.map_filter nameserver_of (py_splitlines t)) [])"

section \<open>A jail's address\<close>

text \<open>\<^verbatim>\<open>ip_network(a/len, strict=False).hosts()\<close>: all addresses of the block but the first and
  the last, both of a /31 and the one of a /32.\<close>

definition block_size :: "nat \<Rightarrow> nat" where
  "block_size plen = 2 ^ (32 - plen)"

definition network_base :: "32 word \<Rightarrow> nat \<Rightarrow> nat" where
  "network_base a plen = (unat a div block_size plen) * block_size plen"

definition network_hosts :: "32 word \<Rightarrow> nat \<Rightarrow> 32 word list" where
  "network_hosts a plen =
     (let base = network_base a plen; size = block_size plen in
      map of_nat (if plen \<ge> 31 then [base ..< base + size] else [base + 1 ..< base + size - 1]))"

definition alloc_jail_ip :: "string list \<Rightarrow> 32 word \<Rightarrow> nat \<Rightarrow> string option" where
  "alloc_jail_ip used a plen =
     find (\<lambda>ip. \<not> (ip \<in> set used \<or> py_endswith ip ''.1'')) (map show_ipv4 (network_hosts a plen))"

text \<open>The default pool \<^verbatim>\<open>10.99.0.0/24\<close>.\<close>

definition DEFAULT_POOL :: "32 word" where "DEFAULT_POOL = 0x0A630000"

section \<open>The rules of one jail\<close>

definition anchor_name :: "string \<Rightarrow> string" where
  "anchor_name jail_name = ''jailrun/'' @ jail_name"

definition tag_for :: "string \<Rightarrow> string" where
  "tag_for jail_name = ''jailrun_'' @ map (\<lambda>c. if is_alnum c then c else CHR ''_'') jail_name"

datatype pf_rule =
    Match_nat string string string
  | Pass_quick string string "nat option" string
  | Block_quick string string

text \<open>The arguments are the interface, then the source address and the tag of the \<^verbatim>\<open>match\<close> rule,
  the destination, port and tag of a \<^verbatim>\<open>pass\<close> rule, the tag of the \<^verbatim>\<open>block\<close> rule.\<close>

definition anchor_rules ::
  "string \<Rightarrow> string \<Rightarrow> string \<Rightarrow> (string \<times> nat option) list \<Rightarrow> string list \<Rightarrow> pf_rule list" where
  "anchor_rules jail_name jail_ip ext_if resolved resolvers =
     (let tag = tag_for jail_name in
      [Match_nat ext_if jail_ip tag] @
      map (\<lambda>(ip, port). Pass_quick ext_if ip port tag) resolved @
      map (\<lambda>ns. Pass_quick ext_if ns (Some 53) tag) resolvers @
      [Block_quick ext_if tag])"

fun show_rule :: "pf_rule \<Rightarrow> string" where
  "show_rule (Match_nat ext_if jail_ip tag) =
     ''match out on '' @ ext_if @ '' inet from '' @ jail_ip @ '' to any tag '' @ tag @ '' nat-to ('' @ ext_if @ '')''"
| "show_rule (Pass_quick ext_if ip port tag) =
     ''pass out quick on '' @ ext_if @ '' inet proto { tcp udp } to '' @ ip @
     (case port of None \<Rightarrow> [] | Some p \<Rightarrow> '' port = '' @ show_nat p) @ '' tagged '' @ tag @ '' keep state''"
| "show_rule (Block_quick ext_if tag) =
     ''block drop out quick on '' @ ext_if @ '' proto { tcp udp } tagged '' @ tag"

definition render_pf_anchor ::
  "string \<Rightarrow> string \<Rightarrow> string \<Rightarrow> (string \<times> nat option) list \<Rightarrow> string list \<Rightarrow> string" where
  "render_pf_anchor jail_name jail_ip ext_if resolved resolvers =
     py_join [NL]
       ((''# jailrun anchor '' @ anchor_name jail_name @ ''  (jail_ip '' @ jail_ip @ '', ext_if '' @ ext_if @
         '', tag '' @ tag_for jail_name @ '')'') #
        map show_rule (anchor_rules jail_name jail_ip ext_if resolved resolvers)) @ [NL]"

section \<open>What pf makes of the rules\<close>

text \<open>An outgoing packet, with the tag it carries; pf tags it at a \<^verbatim>\<open>match\<close> rule, stops at the
  first \<^verbatim>\<open>quick\<close> rule that applies, and passes it when no rule decides.\<close>

datatype proto = TCP | UDP | Other_proto

record packet =
  pk_if :: string
  pk_src :: string
  pk_dst :: string
  pk_proto :: proto
  pk_port :: nat
  pk_tag :: "string option"

datatype verdict = Pass | Drop

fun pf_eval :: "pf_rule list \<Rightarrow> packet \<Rightarrow> verdict" where
  "pf_eval [] p = Pass"
| "pf_eval (Match_nat i src tag # rs) p =
     pf_eval rs (if pk_if p = i \<and> pk_src p = src then p\<lparr>pk_tag := Some tag\<rparr> else p)"
| "pf_eval (Pass_quick i dst port tag # rs) p =
     (if pk_if p = i \<and> pk_proto p \<in> {TCP, UDP} \<and> pk_dst p = dst \<and> pk_tag p = Some tag
         \<and> (port = None \<or> port = Some (pk_port p)) then Pass else pf_eval rs p)"
| "pf_eval (Block_quick i tag # rs) p =
     (if pk_if p = i \<and> pk_proto p \<in> {TCP, UDP} \<and> pk_tag p = Some tag then Drop else pf_eval rs p)"

section \<open>Properties: the policy\<close>

text \<open>A policy as an operator writes it.\<close>

definition show_entry :: "allow_entry \<Rightarrow> string" where
  "show_entry e = ae_host e @ (case ae_port e of None \<Rightarrow> [] | Some p \<Rightarrow> '':'' @ show_nat p)"

fun show_spec :: "network_spec \<Rightarrow> string" where
  "show_spec Net_none = ''none''"
| "show_spec Net_inherit = ''inherit''"
| "show_spec (Net_allow es) = ALLOW @ py_join '','' (map show_entry es)"

definition entry_wf :: "allow_entry \<Rightarrow> bool" where
  "entry_wf e \<longleftrightarrow> word_ok (ae_host e) \<and> CHR '','' \<notin> set (ae_host e)
     \<and> (case ae_port e of None \<Rightarrow> CHR '':'' \<notin> set (ae_host e) | Some p \<Rightarrow> 1 \<le> p \<and> p \<le> 65535)"

fun spec_wf :: "network_spec \<Rightarrow> bool" where
  "spec_wf (Net_allow es) = (es \<noteq> [] \<and> (\<forall>e \<in> set es. entry_wf e))"
| "spec_wf _ = True"

lemma digit_not_ws: "is_digit c \<Longrightarrow> \<not> is_ws c"
  by (auto simp: is_digit_def is_ws_def Let_def)

lemma show_nat_no_ws: "c \<in> set (show_nat n) \<Longrightarrow> \<not> is_ws c"
  using show_nat_digits [of n] digit_not_ws by (auto simp: all_digits_def)

lemma show_entry_no_ws: "entry_wf e \<Longrightarrow> c \<in> set (show_entry e) \<Longrightarrow> \<not> is_ws c"
  by (auto simp: show_entry_def entry_wf_def word_ok_def show_nat_no_ws split: option.splits)
    (auto simp: is_ws_def)

lemma show_entry_no_comma: "entry_wf e \<Longrightarrow> CHR '','' \<notin> set (show_entry e)"
  by (auto simp: show_entry_def entry_wf_def split: option.splits)

lemma parse_show_entry: "entry_wf e \<Longrightarrow> parse_allow_entry (show_entry e) = Inr e"
proof -
  assume w: "entry_wf e"
  have s: "py_strip (show_entry e) = show_entry e" using show_entry_no_ws [OF w] by (rule py_strip_no_ws)
  have h: "ae_host e \<noteq> []" "py_strip (ae_host e) = ae_host e"
    using w by (auto simp: entry_wf_def word_ok_def)
  show ?thesis
  proof (cases "ae_port e")
    case None
    then have "py_rcut (CHR '':'') (show_entry e) = None" "show_entry e = ae_host e"
      using w by (simp_all add: show_entry_def entry_wf_def py_rcut_None)
    then show ?thesis using s h None by (simp add: parse_allow_entry_def)
  next
    case (Some p)
    then have "py_rcut (CHR '':'') (show_entry e) = Some (ae_host e, show_nat p)" "1 \<le> p \<and> p \<le> 65535"
      using w by (simp_all add: show_entry_def entry_wf_def)
    moreover have "show_entry e \<noteq> []" using h(1) by (simp add: show_entry_def)
    ultimately show ?thesis using s h Some by (simp add: parse_allow_entry_def Let_def)
  qed
qed

lemma spec_body:
  assumes "spec_wf (Net_allow es)"
  shows "\<And>c. c \<in> set (py_join '','' (map show_entry es)) \<Longrightarrow> \<not> is_ws c"
    and "py_join '','' (map show_entry es) \<noteq> []"
    and "py_split (CHR '','') (py_join '','' (map show_entry es)) = map show_entry es"
proof -
  show "\<not> is_ws c" if "c \<in> set (py_join '','' (map show_entry es))" for c
  proof -
    have "c = CHR '','' \<or> (\<exists>e \<in> set es. c \<in> set (show_entry e))"
      using that set_py_join [of "'',''" "map show_entry es"] by auto
    then show ?thesis using assms show_entry_no_ws by (auto simp: is_ws_def)
  qed
  show e: "py_split (CHR '','') (py_join '','' (map show_entry es)) = map show_entry es"
    using assms by (intro py_split_join) (auto simp: show_entry_no_comma)
  obtain e0 es0 where "es = e0 # es0" using assms by (cases es) auto
  moreover have "entry_wf e0 \<Longrightarrow> show_entry e0 \<noteq> []" by (auto simp: show_entry_def entry_wf_def word_ok_def)
  ultimately show "py_join '','' (map show_entry es) \<noteq> []"
    using e assms by (cases "py_join '','' (map show_entry es)") auto
qed

text \<open>Parsing a network policy reads back what was written: every well-formed policy, printed
  as \<^verbatim>\<open>none\<close>, \<^verbatim>\<open>inherit\<close> or \<^verbatim>\<open>allow=host[:port],...\<close>, parses to itself.\<close>

theorem parse_network_spec_roundtrip:
  assumes "spec_wf sp"
  shows "parse_network_spec (show_spec sp) = Inr sp"
proof (cases sp)
  case Net_none
  have "parse_network_spec ''none'' = Inr Net_none" by code_simp
  then show ?thesis using Net_none by simp
next
  case Net_inherit
  have "parse_network_spec ''inherit'' = Inr Net_inherit" by code_simp
  then show ?thesis using Net_inherit by simp
next
  case (Net_allow es)
  let ?b = "py_join '','' (map show_entry es)"
  note b = spec_body [OF assms [unfolded Net_allow]]
  have "\<not> is_ws c" if "c \<in> set (ALLOW @ ?b)" for c
    using that b(1) by (auto simp: ALLOW_def is_ws_def)
  then have s: "py_strip (ALLOW @ ?b) = ALLOW @ ?b" by (rule py_strip_no_ws)
  have "py_strip ?b = ?b" using b(1) by (rule py_strip_no_ws)
  moreover have "try_map parse_allow_entry (map show_entry es) = Inr es"
    using assms Net_allow by (intro try_map_inverse) (simp add: parse_show_entry)
  ultimately show ?thesis
    using s b(2,3) Net_allow by (simp add: parse_network_spec_def Let_def py_startswith_def ALLOW_def)
qed

lemma parse_network_spec_roundtrip_witness:
  "parse_network_spec ''allow=example.org:443,1.2.3.4'' =
     Inr (Net_allow [\<lparr>ae_host = ''example.org'', ae_port = Some 443\<rparr>, \<lparr>ae_host = ''1.2.3.4'', ae_port = None\<rparr>])"
proof -
  have n: "show_nat 443 = ''443''" by code_simp
  show ?thesis
    using parse_network_spec_roundtrip [of "Net_allow [\<lparr>ae_host = ''example.org'', ae_port = Some 443\<rparr>,
        \<lparr>ae_host = ''1.2.3.4'', ae_port = None\<rparr>]"]
    by (simp add: entry_wf_def word_ok_def is_ws_def show_entry_def n ALLOW_def)
qed

lemma parse_allow_entry_sound:
  assumes "parse_allow_entry raw = Inr x"
  shows "ae_host x \<noteq> [] \<and> (\<forall>p. ae_port x = Some p \<longrightarrow> 1 \<le> p \<and> p \<le> 65535)"
proof (cases "py_rcut (CHR '':'') (py_strip raw)")
  case None
  then show ?thesis using assms by (auto simp: parse_allow_entry_def Let_def split: if_splits)
next
  case (Some hp)
  obtain h s where hp: "hp = (h, s)" by (cases hp)
  show ?thesis
  proof (cases "parse_nat s")
    case None
    then show ?thesis using assms Some hp by (simp add: parse_allow_entry_def Let_def split: if_splits)
  next
    fix n assume "parse_nat s = Some n"
    then show ?thesis
      using assms Some hp by (simp add: parse_allow_entry_def Let_def split: if_splits) auto
  qed
qed

text \<open>A network policy is never read as more than it says.  Whatever the text, the parser
  answers \<^verbatim>\<open>inherit\<close> only for the word itself (whitespace around it apart), and an allow-list it
  returns has an entry, no empty host, and no port outside 1 to 65535; all else is an error.\<close>

theorem parse_network_spec_strict:
  "(parse_network_spec spec = Inr Net_inherit \<longleftrightarrow> py_strip spec = ''inherit'')
   \<and> (parse_network_spec spec = Inr Net_none \<longleftrightarrow> py_strip spec = ''none'')
   \<and> (\<forall>es. parse_network_spec spec = Inr (Net_allow es) \<longrightarrow>
        es \<noteq> [] \<and> prefix ALLOW (py_strip spec)
        \<and> (\<forall>e \<in> set es. ae_host e \<noteq> [] \<and> (\<forall>p. ae_port e = Some p \<longrightarrow> 1 \<le> p \<and> p \<le> 65535)))"
proof (intro conjI allI impI)
  show "parse_network_spec spec = Inr Net_inherit \<longleftrightarrow> py_strip spec = ''inherit''"
    and "parse_network_spec spec = Inr Net_none \<longleftrightarrow> py_strip spec = ''none''"
    by (auto simp: parse_network_spec_def Let_def split: sum.splits if_splits)
  fix es assume e: "parse_network_spec spec = Inr (Net_allow es)"
  have t: "try_map parse_allow_entry (py_split (CHR '','') (py_strip (drop (length ALLOW) (py_strip spec)))) = Inr es"
    and p: "prefix ALLOW (py_strip spec)"
    using e by (auto simp: parse_network_spec_def Let_def py_startswith_def split: sum.splits if_splits)
  note a = try_map_InrD [OF t]
  show "es \<noteq> []" using list_all2_lengthD [OF a] by auto
  show "prefix ALLOW (py_strip spec)" by (rule p)
  show "\<forall>e \<in> set es. ae_host e \<noteq> [] \<and> (\<forall>p. ae_port e = Some p \<longrightarrow> 1 \<le> p \<and> p \<le> 65535)"
  proof
    fix x assume "x \<in> set es"
    then obtain raw where "parse_allow_entry raw = Inr x"
      using try_map_result [OF t] by blast
    then show "ae_host x \<noteq> [] \<and> (\<forall>p. ae_port x = Some p \<longrightarrow> 1 \<le> p \<and> p \<le> 65535)"
      by (rule parse_allow_entry_sound)
  qed
qed

lemma parse_network_spec_strict_witness:
  "parse_network_spec ''allow=h'' = Inr (Net_allow [\<lparr>ae_host = ''h'', ae_port = None\<rparr>]) \<and> prefix ALLOW ''allow=h''"
proof -
  have p: "parse_network_spec ''allow=h'' = Inr (Net_allow [\<lparr>ae_host = ''h'', ae_port = None\<rparr>])" by code_simp
  have "py_strip ''allow=h'' = ''allow=h''" by code_simp
  then show ?thesis using parse_network_spec_strict [of "''allow=h''"] p by simp
qed

lemma append_new_set [simp]: "set (append_new x xs) = insert x (set xs)"
  by (auto simp: append_new_def)

lemma append_new_distinct [simp]: "distinct (append_new x xs) \<longleftrightarrow> distinct xs"
  by (auto simp: append_new_def)

lemma fold_append_new:
  "set (fold (\<lambda>y. append_new (g y)) ys xs) = set xs \<union> g ` set ys"
  "distinct (fold (\<lambda>y. append_new (g y)) ys xs) \<longleftrightarrow> distinct xs"
  by (induction ys arbitrary: xs) auto

lemma resolve_loop_spec:
  "resolve_loop v6 r es out = Inr out' \<Longrightarrow>
     set out' = set out \<union> {(ip, ae_port e) |ip e ips. e \<in> set es \<and> entry_ips v6 r e = Inr ips \<and> ip \<in> set ips}
     \<and> (distinct out \<longrightarrow> distinct out') \<and> (\<forall>e \<in> set es. \<exists>ips. entry_ips v6 r e = Inr ips)"
proof (induction es arbitrary: out)
  case Nil
  then show ?case by simp
next
  case (Cons e es)
  then obtain ips where 1: "entry_ips v6 r e = Inr ips" by (cases "entry_ips v6 r e") auto
  have "resolve_loop v6 r es (fold (\<lambda>ip. append_new (ip, ae_port e)) ips out) = Inr out'"
    using Cons.prems 1 by simp
  from Cons.IH [OF this] show ?case
    using 1 by (auto simp: fold_append_new) 
qed

text \<open>The resolved allow-list has exactly the addresses of the entries, each with the entry's
  port, once; a literal address stands for itself without DNS; and an entry that does not
  resolve makes the whole resolution fail instead of being skipped.\<close>

theorem resolve_allowlist_exact:
  assumes "resolve_allowlist v6 r es = Inr out"
  shows "distinct out
    \<and> set out = {(ip, ae_port e) |ip e ips. e \<in> set es \<and> entry_ips v6 r e = Inr ips \<and> ip \<in> set ips}
    \<and> (\<forall>e \<in> set es. parse_ipv4 (ae_host e) \<noteq> None \<longrightarrow> (ae_host e, ae_port e) \<in> set out)
    \<and> (\<forall>e \<in> set es. \<exists>ips. entry_ips v6 r e = Inr ips)"
proof (intro conjI)
  note s = resolve_loop_spec [OF assms [unfolded resolve_allowlist_def]]
  show e: "set out = {(ip, ae_port e) |ip e ips. e \<in> set es \<and> entry_ips v6 r e = Inr ips \<and> ip \<in> set ips}"
    using s by simp
  show "distinct out" and "\<forall>e \<in> set es. \<exists>ips. entry_ips v6 r e = Inr ips" using s by simp_all
  show "\<forall>e \<in> set es. parse_ipv4 (ae_host e) \<noteq> None \<longrightarrow> (ae_host e, ae_port e) \<in> set out"
  proof (intro ballI impI)
    fix e assume "e \<in> set es" "parse_ipv4 (ae_host e) \<noteq> None"
    moreover from this have "entry_ips v6 r e = Inr [ae_host e]" by (simp add: entry_ips_def)
    ultimately show "(ae_host e, ae_port e) \<in> set out"
      unfolding e
      by (intro CollectI exI [of _ "ae_host e"] exI [of _ e] exI [of _ "[ae_host e]"] conjI) simp_all
  qed
qed

lemma resolve_allowlist_exact_witness:
  "distinct (projr (resolve_allowlist (\<lambda>h. h = ''fe80::1'') (\<lambda>_. Inr [''9.9.9.9'', ''9.9.9.9''])
     [\<lparr>ae_host = ''h'', ae_port = Some 443\<rparr>, \<lparr>ae_host = ''fe80::1'', ae_port = None\<rparr>]))"
proof -
  have "resolve_allowlist (\<lambda>h. h = ''fe80::1'') (\<lambda>_. Inr [''9.9.9.9'', ''9.9.9.9''])
     [\<lparr>ae_host = ''h'', ae_port = Some 443\<rparr>, \<lparr>ae_host = ''fe80::1'', ae_port = None\<rparr>]
     = Inr [(''9.9.9.9'', Some 443), (''fe80::1'', None)]"
    by (simp add: resolve_allowlist_def entry_ips_def parse_ipv4_def parse_octet_def parse_nat_def
        all_digits_def is_digit_def append_new_def)
  from resolve_allowlist_exact [OF this] this show ?thesis by simp
qed

section \<open>Properties: the jail's address\<close>

lemma octet_div: "octet i (of_nat n) = (n mod 2 ^ 32) div 256 ^ i mod 256"
  by (simp add: octet_def unat_of_nat)

lemma show_pool_ip:
  assumes "k < 256"
  shows "show_ipv4 (of_nat (0x0A630000 + k)) = ''10.99.0.'' @ show_nat k"
proof -
  have "show_nat 10 = ''10''" "show_nat 99 = ''99''" "show_nat 0 = ''0''" by code_simp+
  moreover have "octet 3 (of_nat (0x0A630000 + k)) = 10" "octet 2 (of_nat (0x0A630000 + k)) = 99"
    "octet (Suc 0) (of_nat (0x0A630000 + k)) = 0" "octet 0 (of_nat (0x0A630000 + k)) = k"
  proof -
    have "(0x0A630000 + k) mod 2 ^ 32 = 0x0A630000 + k" using assms by simp
    moreover have "(0x0A630000 + k) div 16777216 = 10" "(0x0A630000 + k) div 65536 = 2659"
      "(0x0A630000 + k) div 256 = 680704" using assms by (auto intro!: div_nat_eqI)
    moreover have "(0x0A630000 + k) mod 256 = k"
      using assms mod_mult_self1 [of k 680704 256] by (simp add: add.commute)
    ultimately show "octet 3 (of_nat (0x0A630000 + k)) = 10" "octet 2 (of_nat (0x0A630000 + k)) = 99"
      "octet (Suc 0) (of_nat (0x0A630000 + k)) = 0" "octet 0 (of_nat (0x0A630000 + k)) = k"
      unfolding octet_div by simp_all
  qed
  ultimately show ?thesis by (simp add: show_ipv4_def)
qed

definition pool_ip :: "nat \<Rightarrow> string" where
  "pool_ip k = ''10.99.0.'' @ show_nat k"

lemma pool_ip_inj [simp]: "pool_ip j = pool_ip k \<longleftrightarrow> j = k"
  by (simp add: pool_ip_def)

lemma pool_ip_gateway: "py_endswith (pool_ip k) ''.1'' \<longleftrightarrow> k = 1"
proof
  assume "py_endswith (pool_ip k) ''.1''"
  then obtain x where x: "''10.99.0'' @ CHR ''.'' # show_nat k = x @ CHR ''.'' # ''1''"
    by (auto simp: py_endswith_def suffix_def pool_ip_def)
  have "py_rcut (CHR ''.'') (''10.99.0'' @ CHR ''.'' # show_nat k) = Some (''10.99.0'', show_nat k)"
    by (rule py_rcut_append) simp
  moreover have "py_rcut (CHR ''.'') (x @ CHR ''.'' # ''1'') = Some (x, ''1'')"
    by (rule py_rcut_append) simp
  ultimately have "show_nat k = ''1''" using x by simp
  moreover have "show_nat 1 = ''1''" by code_simp
  ultimately show "k = 1" by (metis show_nat_inj)
next
  have "py_endswith (pool_ip 1) ''.1''" by code_simp
  then show "k = 1 \<Longrightarrow> py_endswith (pool_ip k) ''.1''" by simp
qed

lemma upt_shift: "map (\<lambda>k. a + k) [m..<n] = [a + m..<a + n]"
  by (induction n) auto

lemma pool_hosts: "map show_ipv4 (network_hosts DEFAULT_POOL 24) = map pool_ip [1..<255]"
proof -
  have b: "block_size 24 = 256" by (simp add: block_size_def)
  have n: "network_base DEFAULT_POOL 24 = 0x0A630000"
    by (simp add: network_base_def b DEFAULT_POOL_def)
  have "network_hosts DEFAULT_POOL 24 = map of_nat [0x0A630000 + 1 ..< 0x0A630000 + 255]"
    by (simp add: network_hosts_def Let_def b n)
  also have "[0x0A630000 + 1 ..< 0x0A630000 + 255] = map (\<lambda>k. 0x0A630000 + k) [1..<255 :: nat]"
    by (rule upt_shift [symmetric])
  finally have "map show_ipv4 (network_hosts DEFAULT_POOL 24) =
      map (\<lambda>k. show_ipv4 (of_nat (0x0A630000 + k))) [1..<255]" by (simp add: comp_def)
  also have "\<dots> = map pool_ip [1..<255]"
    by (intro map_cong refl) (subst show_pool_ip, simp_all add: pool_ip_def)
  finally show ?thesis .
qed

text \<open>The address of a jail is the lowest free one of the default pool.  The allocator
  answers \<^verbatim>\<open>10.99.0.k\<close> exactly when \<^verbatim>\<open>k\<close> is between 2 and 254, that address is not in use and
  all lower ones from .2 on are; it gives up exactly when all 253 are in use.  In particular an
  address is never handed out twice to a caller that records what it got.\<close>

theorem alloc_jail_ip_lowest_free:
  "(alloc_jail_ip used DEFAULT_POOL 24 = Some ip \<longleftrightarrow>
      (\<exists>k. ip = pool_ip k \<and> 2 \<le> k \<and> k \<le> 254 \<and> ip \<notin> set used
         \<and> (\<forall>j. 2 \<le> j \<and> j < k \<longrightarrow> pool_ip j \<in> set used)))
   \<and> (alloc_jail_ip used DEFAULT_POOL 24 = None \<longleftrightarrow> (\<forall>k. 2 \<le> k \<and> k \<le> 254 \<longrightarrow> pool_ip k \<in> set used))"
proof
  let ?P = "\<lambda>ip. \<not> (ip \<in> set used \<or> py_endswith ip ''.1'')"
  have ok: "?P (pool_ip k) \<longleftrightarrow> k \<noteq> 1 \<and> pool_ip k \<notin> set used" for k by (auto simp: pool_ip_gateway)
  have a: "alloc_jail_ip used DEFAULT_POOL 24 = find ?P (map pool_ip [1..<255])"
    by (simp only: alloc_jail_ip_def pool_hosts)
  have nth: "map pool_ip [1..<255] ! i = pool_ip (Suc i)" if "i < 254" for i
    using that by simp
  have ex: "find ?P (map pool_ip [1..<255]) = Some ip \<longleftrightarrow>
      (\<exists>i < 254. ?P (pool_ip (Suc i)) \<and> ip = pool_ip (Suc i) \<and> (\<forall>j < i. \<not> ?P (pool_ip (Suc j))))"
    unfolding find_Some_iff using nth by (auto simp del: upt_Suc cong: conj_cong)
  show "alloc_jail_ip used DEFAULT_POOL 24 = Some ip \<longleftrightarrow>
      (\<exists>k. ip = pool_ip k \<and> 2 \<le> k \<and> k \<le> 254 \<and> ip \<notin> set used
         \<and> (\<forall>j. 2 \<le> j \<and> j < k \<longrightarrow> pool_ip j \<in> set used))"
    unfolding a ex
  proof
    assume "\<exists>i < 254. ?P (pool_ip (Suc i)) \<and> ip = pool_ip (Suc i) \<and> (\<forall>j < i. \<not> ?P (pool_ip (Suc j)))"
    then obtain i where i: "i < 254" "?P (pool_ip (Suc i))" "ip = pool_ip (Suc i)"
      "\<forall>j < i. \<not> ?P (pool_ip (Suc j))" by blast
    have "pool_ip j \<in> set used" if "2 \<le> j" "j < Suc i" for j
      using i(4) [rule_format, of "j - 1"] ok [of j] that by simp
    then show "\<exists>k. ip = pool_ip k \<and> 2 \<le> k \<and> k \<le> 254 \<and> ip \<notin> set used
         \<and> (\<forall>j. 2 \<le> j \<and> j < k \<longrightarrow> pool_ip j \<in> set used)"
      using i(1-3) ok [of "Suc i"] by (intro exI [of _ "Suc i"]) auto
  next
    assume "\<exists>k. ip = pool_ip k \<and> 2 \<le> k \<and> k \<le> 254 \<and> ip \<notin> set used
         \<and> (\<forall>j. 2 \<le> j \<and> j < k \<longrightarrow> pool_ip j \<in> set used)"
    then obtain k where k: "ip = pool_ip k" "2 \<le> k" "k \<le> 254" "ip \<notin> set used"
      "\<forall>j. 2 \<le> j \<and> j < k \<longrightarrow> pool_ip j \<in> set used" by blast
    have "\<not> ?P (pool_ip (Suc j))" if "j < k - 1" for j
      using k(5) [rule_format, of "Suc j"] ok [of "Suc j"] that by (cases "j = 0") auto
    then show "\<exists>i < 254. ?P (pool_ip (Suc i)) \<and> ip = pool_ip (Suc i) \<and> (\<forall>j < i. \<not> ?P (pool_ip (Suc j)))"
      using k(1-4) ok [of k] by (intro exI [of _ "k - 1"]) auto
  qed
  have "find ?P (map pool_ip [1..<255]) = None \<longleftrightarrow> (\<forall>k. 1 \<le> k \<and> k < 255 \<longrightarrow> \<not> ?P (pool_ip k))"
    by (auto simp: find_None_iff simp del: upt_Suc)
  also have "\<dots> \<longleftrightarrow> (\<forall>k. 2 \<le> k \<and> k \<le> 254 \<longrightarrow> pool_ip k \<in> set used)"
  proof -
    have "1 \<le> k \<and> k < 255 \<and> k \<noteq> 1 \<longleftrightarrow> 2 \<le> k \<and> k \<le> 254" for k :: nat by arith
    then show ?thesis unfolding ok by blast
  qed
  finally show "alloc_jail_ip used DEFAULT_POOL 24 = None \<longleftrightarrow> (\<forall>k. 2 \<le> k \<and> k \<le> 254 \<longrightarrow> pool_ip k \<in> set used)"
    unfolding a .
qed

lemma alloc_jail_ip_lowest_free_witness:
  "alloc_jail_ip [pool_ip 2] DEFAULT_POOL 24 = Some (pool_ip 3)"
  using alloc_jail_ip_lowest_free [of "[pool_ip 2]" "pool_ip 3"]
  by (auto simp: le_less_Suc_eq numeral_eq_Suc)

section \<open>Properties: the rules\<close>

lemma pf_eval_passes:
  "pf_eval (map (\<lambda>(ip, port). Pass_quick i ip port tag) rs @ rest) p =
     (if pk_if p = i \<and> pk_proto p \<in> {TCP, UDP} \<and> pk_tag p = Some tag
         \<and> (\<exists>port. (pk_dst p, port) \<in> set rs \<and> (port = None \<or> port = Some (pk_port p)))
      then Pass else pf_eval rest p)"
  by (induction rs) auto

lemma pf_eval_dns:
  "pf_eval (map (\<lambda>ns. Pass_quick i ns port tag) nss @ rest) p =
     (if pk_if p = i \<and> pk_proto p \<in> {TCP, UDP} \<and> pk_tag p = Some tag
         \<and> pk_dst p \<in> set nss \<and> (port = None \<or> port = Some (pk_port p))
      then Pass else pf_eval rest p)"
  by (induction nss) auto

text \<open>C5: The rules of a jail let out exactly what its policy allows.  A TCP or UDP packet of the
  jail on the egress interface passes if and only if its destination and port are in the
  resolved allow-list (an entry without port stands for all ports) or it is a DNS query to a
  host resolver; every other such packet is dropped.  A packet of another source that does not
  carry the jail's tag is not touched; and neither is a packet of the jail that is neither TCP
  nor UDP, which passes.\<close>

theorem anchor_lets_out_exactly_the_policy:
  "(pk_if p = ext_if \<and> pk_src p = jail_ip \<and> pk_proto p \<in> {TCP, UDP} \<longrightarrow>
     (pf_eval (anchor_rules jail_name jail_ip ext_if resolved resolvers) p = Pass \<longleftrightarrow>
       (\<exists>port. (pk_dst p, port) \<in> set resolved \<and> (port = None \<or> port = Some (pk_port p)))
       \<or> (pk_dst p \<in> set resolvers \<and> pk_port p = 53)))
   \<and> (pk_src p \<noteq> jail_ip \<and> pk_tag p \<noteq> Some (tag_for jail_name) \<or> pk_proto p = Other_proto \<longrightarrow>
     pf_eval (anchor_rules jail_name jail_ip ext_if resolved resolvers) p = Pass)"
  by (auto simp: anchor_rules_def Let_def pf_eval_passes pf_eval_dns)

lemma anchor_lets_out_exactly_the_policy_witness:
  "pf_eval (anchor_rules ''j'' ''10.99.0.2'' ''em0'' [(''1.2.3.4'', Some 443)] [''9.9.9.9''])
     \<lparr>pk_if = ''em0'', pk_src = ''10.99.0.2'', pk_dst = ''1.2.3.4'', pk_proto = TCP, pk_port = 443, pk_tag = None\<rparr> = Pass
   \<and> pf_eval (anchor_rules ''j'' ''10.99.0.2'' ''em0'' [(''1.2.3.4'', Some 443)] [''9.9.9.9''])
     \<lparr>pk_if = ''em0'', pk_src = ''10.99.0.2'', pk_dst = ''1.2.3.4'', pk_proto = TCP, pk_port = 80, pk_tag = None\<rparr> \<noteq> Pass"
  using anchor_lets_out_exactly_the_policy [of
      "\<lparr>pk_if = ''em0'', pk_src = ''10.99.0.2'', pk_dst = ''1.2.3.4'', pk_proto = TCP, pk_port = 443, pk_tag = None\<rparr>"
      "''em0''" "''10.99.0.2''" "''j''" "[(''1.2.3.4'', Some 443)]" "[''9.9.9.9'']"]
    anchor_lets_out_exactly_the_policy [of
      "\<lparr>pk_if = ''em0'', pk_src = ''10.99.0.2'', pk_dst = ''1.2.3.4'', pk_proto = TCP, pk_port = 80, pk_tag = None\<rparr>"
      "''em0''" "''10.99.0.2''" "''j''" "[(''1.2.3.4'', Some 443)]" "[''9.9.9.9'']"]
  by simp

end
