(* ===== verification/NetOps.thy ===== *)
theory NetOps
  imports NetPolicy
begin

text \<open>
  \<^verbatim>\<open>runtime/netops.py\<close>: the commands that apply and tear down a jail's network.  The host is a
  tool; where the code writes rules to a temporary file and names the file in the command, the
  tool gets the rules in the place of the file name.  \<^verbatim>\<open>pf.conf\<close> is read and written through
  two functions of the host.
\<close>

datatype net_error = Runtime_error string | Spawn_failed string

record 'w net_env =
  nv_tool :: "'w tool"
  nv_read_conf :: "'w \<Rightarrow> string option"
  nv_write_conf :: "string \<Rightarrow> 'w \<Rightarrow> string option \<times> 'w"

type_synonym ('a, 'w) net_result = "(net_error + 'a) \<times> 'w"

definition LO_IFACE :: string where "LO_IFACE = ''lo1''"
definition PF_ANCHOR_ROOT :: string where "PF_ANCHOR_ROOT = ''jailrun''"
definition PF_CONF :: string where "PF_CONF = ''/etc/pf.conf''"

text \<open>\<^verbatim>\<open>_run\<close>: a command that cannot be started raises whatever \<^verbatim>\<open>check\<close> says; a non-zero exit
  status raises only with \<^verbatim>\<open>check\<close>.\<close>

definition net_run :: "'w net_env \<Rightarrow> bool \<Rightarrow> string list \<Rightarrow> 'w \<Rightarrow> (int \<times> string, 'w) net_result" where
  "net_run env check argv w =
     (case nv_tool env argv w of
        (Spawn_error e, w') \<Rightarrow> (Inl (Spawn_failed e), w')
      | (Completed rc out err, w') \<Rightarrow>
          if rc \<noteq> 0 \<and> check
          then (Inl (Runtime_error (hd argv @ '' rc='' @ show_int rc @ '': '' @
                  (if py_strip err \<noteq> [] then py_strip err else py_strip out))), w')
          else (Inr (rc, out), w'))"

fun net_then :: "('a, 'w) net_result \<Rightarrow> ('a \<Rightarrow> 'w \<Rightarrow> ('b, 'w) net_result) \<Rightarrow> ('b, 'w) net_result" where
  "net_then (Inl e, w) k = (Inl e, w)"
| "net_then (Inr x, w) k = k x w"

definition net_do :: "'w net_env \<Rightarrow> bool \<Rightarrow> string list \<Rightarrow> 'w \<Rightarrow> (unit, 'w) net_result" where
  "net_do env check argv w = net_then (net_run env check argv w) (\<lambda>_ w. (Inr (), w))"

section \<open>Shared-stack network\<close>

text \<open>\<^verbatim>\<open>re.search(r"^\s*interface:\s*(\S+)", out, re.MULTILINE)\<close>; the flag says that only
  whitespace was seen since the start of a line.\<close>

fun search_interface :: "bool \<Rightarrow> string \<Rightarrow> string option" where
  "search_interface blank [] = None"
| "search_interface blank (c # cs) =
     (let v = takeWhile (\<lambda>x. \<not> is_ws x) (dropWhile is_ws (drop 10 (c # cs))) in
      if blank \<and> prefix ''interface:'' (c # cs) \<and> v \<noteq> [] then Some v
      else search_interface (c = NL \<or> blank \<and> is_ws c) cs)"

definition detect_ext_if :: "'w net_env \<Rightarrow> 'w \<Rightarrow> (string option, 'w) net_result" where
  "detect_ext_if env w =
     net_then (net_run env False [''route'', ''-n'', ''get'', ''default''] w)
       (\<lambda>(_, out) w. (Inr (search_interface True out), w))"

definition ensure_loopback :: "'w net_env \<Rightarrow> 'w \<Rightarrow> (unit, 'w) net_result" where
  "ensure_loopback env w =
     net_then (net_run env False [''ifconfig'', LO_IFACE] w)
       (\<lambda>(rc, _) w. if rc = 0 then (Inr (), w)
          else net_then (net_do env False [''ifconfig'', LO_IFACE, ''create''] w)
                 (\<lambda>_. net_do env False [''ifconfig'', LO_IFACE, ''up'']))"

definition add_alias :: "'w net_env \<Rightarrow> string \<Rightarrow> 'w \<Rightarrow> (unit, 'w) net_result" where
  "add_alias env jail_ip w =
     net_then (ensure_loopback env w)
       (\<lambda>_ w. net_then (net_do env True [''ifconfig'', LO_IFACE, ''inet'', jail_ip @ ''/32'', ''alias''] w)
         (\<lambda>_. net_do env False [''ifconfig'', LO_IFACE, ''up'']))"

definition remove_alias :: "'w net_env \<Rightarrow> string \<Rightarrow> 'w \<Rightarrow> (unit, 'w) net_result" where
  "remove_alias env jail_ip = net_do env False [''ifconfig'', LO_IFACE, ''inet'', jail_ip, ''-alias'']"

definition load_cmd :: "string \<Rightarrow> string \<Rightarrow> string list" where
  "load_cmd jail_name rules = [''pfctl'', ''-a'', ''jailrun/'' @ jail_name, ''-f'', rules]"

definition flush_cmd :: "string \<Rightarrow> string list" where
  "flush_cmd jail_name = [''pfctl'', ''-a'', ''jailrun/'' @ jail_name, ''-F'', ''all'']"

definition load_anchor :: "'w net_env \<Rightarrow> string \<Rightarrow> string \<Rightarrow> 'w \<Rightarrow> (unit, 'w) net_result" where
  "load_anchor env jail_name rules_text = net_do env True (load_cmd jail_name rules_text)"

definition flush_anchor :: "'w net_env \<Rightarrow> string \<Rightarrow> 'w \<Rightarrow> (unit, 'w) net_result" where
  "flush_anchor env jail_name = net_do env False (flush_cmd jail_name)"

definition NAT_HOOK :: string where
  "NAT_HOOK = ''nat-anchor '' @ [CHR 0x22] @ PF_ANCHOR_ROOT @ ''/*'' @ [CHR 0x22]"

definition FILTER_HOOK :: string where
  "FILTER_HOOK = ''anchor '' @ [CHR 0x22] @ PF_ANCHOR_ROOT @ ''/*'' @ [CHR 0x22]"

definition needed_hooks :: "string \<Rightarrow> string list" where
  "needed_hooks conf =
     (if py_contains NAT_HOOK conf then [] else [NAT_HOOK]) @
     (if py_contains FILTER_HOOK conf then [] else [FILTER_HOOK])"

definition wired_conf :: "string \<Rightarrow> string" where
  "wired_conf conf = py_join [NL] (py_splitlines (py_rstrip conf) @ needed_hooks conf) @ [NL]"

definition ensure_anchor_wired :: "'w net_env \<Rightarrow> 'w \<Rightarrow> (unit, 'w) net_result" where
  "ensure_anchor_wired env w =
     (let conf = getenv_or (nv_read_conf env w) '''' in
      if needed_hooks conf = [] then (Inr (), w)
      else (case nv_write_conf env (wired_conf conf) w of
          (Some e, w') \<Rightarrow> (Inl (Spawn_failed e), w')
        | (None, w') \<Rightarrow> net_do env True [''pfctl'', ''-f'', PF_CONF] w'))"

definition apply_network :: "'w net_env \<Rightarrow> string \<Rightarrow> string \<Rightarrow> string \<Rightarrow> 'w \<Rightarrow> (unit, 'w) net_result" where
  "apply_network env jail_name jail_ip rules_text w =
     net_then (ensure_anchor_wired env w)
       (\<lambda>_ w. net_then (add_alias env jail_ip w)
         (\<lambda>_. load_anchor env jail_name rules_text))"

definition teardown_network :: "'w net_env \<Rightarrow> string \<Rightarrow> string \<Rightarrow> 'w \<Rightarrow> (unit, 'w) net_result" where
  "teardown_network env jail_name jail_ip w =
     net_then (flush_anchor env jail_name w) (\<lambda>_. remove_alias env jail_ip)"

section \<open>VNET\<close>

text \<open>The counter is a global of the process.\<close>

definition alloc_vnet_ip :: "nat \<Rightarrow> (string \<times> string) \<times> nat" where
  "alloc_vnet_ip vnet_next_ip =
     ((''10.101.0.'' @ show_nat (vnet_next_ip + 1), ''10.101.0.'' @ show_nat (vnet_next_ip + 2)),
      vnet_next_ip + 4)"

definition epair_ends :: "string \<Rightarrow> string \<times> string" where
  "epair_ends name =
     (name, if py_endswith name ''a'' then butlast name @ ''b'' else name @ ''b'')"

definition create_epair :: "'w net_env \<Rightarrow> 'w \<Rightarrow> (string \<times> string, 'w) net_result" where
  "create_epair env w =
     net_then (net_run env True [''ifconfig'', ''epair'', ''create''] w)
       (\<lambda>(_, out) w. (Inr (epair_ends (py_strip out)), w))"

definition destroy_epair :: "'w net_env \<Rightarrow> string \<Rightarrow> 'w \<Rightarrow> (unit, 'w) net_result" where
  "destroy_epair env host_if = net_do env False [''ifconfig'', host_if, ''destroy'']"

text \<open>\<^verbatim>\<open>except RuntimeError\<close>: a pf that refuses is a warning, a pf that cannot be started is not
  caught.\<close>

fun catch_runtime :: "(unit, 'w) net_result \<Rightarrow> (unit, 'w) net_result" where
  "catch_runtime (Inl (Runtime_error e), w) = (Inr (), w)"
| "catch_runtime r = r"

definition vnet_rules :: "string \<Rightarrow> string" where
  "vnet_rules host_ip =
     ''nat on egress from '' @ host_ip @ ''/30 to any -> (egress)'' @ [NL] @
     ''pass from '' @ host_ip @ ''/30 to any keep state'' @ [NL]"

definition setup_vnet_host :: "'w net_env \<Rightarrow> string \<Rightarrow> string \<Rightarrow> string \<Rightarrow> 'w \<Rightarrow> (unit, 'w) net_result" where
  "setup_vnet_host env host_if host_ip jail_name w =
     net_then (net_do env True [''ifconfig'', host_if, ''inet'', host_ip @ ''/30'', ''up''] w)
       (\<lambda>_ w. catch_runtime (net_do env True (load_cmd jail_name (vnet_rules host_ip)) w))"

definition setup_vnet_jail ::
  "'w net_env \<Rightarrow> string \<Rightarrow> string \<Rightarrow> string \<Rightarrow> bool \<Rightarrow> 'w \<Rightarrow> (unit, 'w) net_result" where
  "setup_vnet_jail env jail_name jail_if jail_ip linuxulator w =
     (if linuxulator then
        net_then (net_do env False
            [''jexec'', jail_name, ''ip'', ''addr'', ''add'', jail_ip @ ''/30'', ''dev'', ''eth0''] w)
          (\<lambda>_. net_do env False [''jexec'', jail_name, ''ip'', ''link'', ''set'', ''eth0'', ''up''])
      else net_do env False
        [''jexec'', jail_name, ''ifconfig'', jail_if, ''inet'', jail_ip @ ''/30'', ''up''] w)"

definition teardown_vnet :: "'w net_env \<Rightarrow> string \<Rightarrow> string \<Rightarrow> 'w \<Rightarrow> (unit, 'w) net_result" where
  "teardown_vnet env host_if jail_name w =
     net_then (net_do env False (flush_cmd jail_name) w) (\<lambda>_. destroy_epair env host_if)"

definition publish_rule :: "string \<Rightarrow> string \<Rightarrow> nat \<times> nat \<times> string \<Rightarrow> string" where
  "publish_rule ext_if jail_ip spec =
     (let (host_port, jail_port, pr) = spec in
      ''rdr pass on '' @ ext_if @ '' proto '' @ pr @ '' from any to ('' @ ext_if @ '') port '' @
      show_nat host_port @ '' -> '' @ jail_ip @ '' port '' @ show_nat jail_port)"

definition publish_rules :: "string \<Rightarrow> string \<Rightarrow> (nat \<times> nat \<times> string) list \<Rightarrow> string" where
  "publish_rules ext_if jail_ip specs = py_join [NL] (map (publish_rule ext_if jail_ip) specs) @ [NL]"

definition setup_publish_ports ::
  "'w net_env \<Rightarrow> string \<Rightarrow> string \<Rightarrow> (nat \<times> nat \<times> string) list \<Rightarrow> 'w \<Rightarrow> (unit, 'w) net_result" where
  "setup_publish_ports env jail_name jail_ip specs w =
     net_then (detect_ext_if env w)
       (\<lambda>ext w. case ext of
            None \<Rightarrow> (Inr (), w)
          | Some ext_if \<Rightarrow>
              catch_runtime (net_do env True (load_cmd jail_name (publish_rules ext_if jail_ip specs)) w))"

section \<open>Properties\<close>

lemma py_contains_refl [simp]: "py_contains s s"
  unfolding py_contains_iff by (metis append_Nil append_Nil2)

lemma py_contains_trans: "py_contains a b \<Longrightarrow> py_contains b c \<Longrightarrow> py_contains a c"
  unfolding py_contains_iff by (metis append.assoc)

lemma py_contains_append: "py_contains a b \<Longrightarrow> py_contains a (x @ b @ y)"
  using py_contains_trans py_contains_iff by blast

lemma py_contains_join: "x \<in> set xs \<Longrightarrow> py_contains x (py_join sep xs)"
proof (induction sep xs rule: py_join.induct)
  case (3 sep y z zs)
  show ?case
  proof (cases "x = y")
    case True
    then show ?thesis using py_contains_append [of x x "[]" "sep @ py_join sep (z # zs)"] by simp
  next
    case False
    then have "py_contains x (py_join sep (z # zs))" using 3 by simp
    then show ?thesis using py_contains_append [of x _ "y @ sep" "[]"] by simp
  qed
qed simp_all

lemma filter_in_nat: "py_contains FILTER_HOOK NAT_HOOK"
proof -
  have "NAT_HOOK = ''nat-'' @ FILTER_HOOK @ []" by (simp add: NAT_HOOK_def FILTER_HOOK_def)
  then show ?thesis unfolding py_contains_iff by blast
qed

lemma needed_hooks_cases:
  "needed_hooks conf = (if py_contains NAT_HOOK conf then []
     else if py_contains FILTER_HOOK conf then [NAT_HOOK] else [NAT_HOOK, FILTER_HOOK])"
  using py_contains_trans [OF filter_in_nat] by (simp add: needed_hooks_def)

text \<open>Wiring pf.conf.  Once the write and the reload succeed the file contains both hooks and
  doing it again does nothing.  But the test for the filter hook is a substring test that the
  nat hook satisfies: on a pf.conf that has only \<^verbatim>\<open>nat-anchor "jailrun/*"\<close>, the function
  succeeds without adding the filter anchor or running any command.\<close>

theorem anchor_wiring:
  fixes env :: "'w net_env" and w w' :: 'w
  assumes rw: "\<forall>t u u'. nv_write_conf env t u = (None, u') \<longrightarrow> nv_read_conf env u' = Some t"
    and keep: "\<forall>argv u. nv_read_conf env (snd (nv_tool env argv u)) = nv_read_conf env u"
  shows "(ensure_anchor_wired env w = (Inr (), w') \<and> \<not> py_contains NAT_HOOK (getenv_or (nv_read_conf env w) '''') \<longrightarrow>
      (\<exists>conf. nv_read_conf env w' = Some conf \<and> py_contains NAT_HOOK conf \<and> py_contains FILTER_HOOK conf)
      \<and> ensure_anchor_wired env w' = (Inr (), w'))
    \<and> (nv_read_conf env w = Some NAT_HOOK \<longrightarrow> ensure_anchor_wired env w = (Inr (), w))"
proof (intro conjI impI)
  assume a: "ensure_anchor_wired env w = (Inr (), w') \<and> \<not> py_contains NAT_HOOK (getenv_or (nv_read_conf env w) '''')"
  let ?c = "wired_conf (getenv_or (nv_read_conf env w) '''')"
  have n: "NAT_HOOK \<in> set (needed_hooks (getenv_or (nv_read_conf env w) ''''))"
    using a by (simp add: needed_hooks_cases)
  then have ne: "needed_hooks (getenv_or (nv_read_conf env w) '''') \<noteq> []" by auto
  then obtain w1 where 1: "nv_write_conf env ?c w = (None, w1)"
    and 2: "net_do env True [''pfctl'', ''-f'', PF_CONF] w1 = (Inr (), w')"
    using a by (auto simp: ensure_anchor_wired_def Let_def split: prod.splits option.splits)
  have "w' = snd (nv_tool env [''pfctl'', ''-f'', PF_CONF] w1)"
    using 2 by (auto simp: net_do_def net_run_def split: prod.splits cmd_result.splits if_splits)
  then have r: "nv_read_conf env w' = Some ?c" using keep rw 1 by simp
  have "py_contains NAT_HOOK (py_join [NL] (py_splitlines (py_rstrip (getenv_or (nv_read_conf env w) '''')) @
      needed_hooks (getenv_or (nv_read_conf env w) '''')))" using n by (intro py_contains_join) simp
  then have c: "py_contains NAT_HOOK ?c"
    unfolding wired_conf_def using py_contains_append [of NAT_HOOK _ "[]" "[NL]"] by simp
  show "\<exists>conf. nv_read_conf env w' = Some conf \<and> py_contains NAT_HOOK conf \<and> py_contains FILTER_HOOK conf"
    using r c py_contains_trans [OF filter_in_nat c] by blast
  show "ensure_anchor_wired env w' = (Inr (), w')"
    using r c by (simp add: ensure_anchor_wired_def needed_hooks_cases getenv_or_def)
next
  assume "nv_read_conf env w = Some NAT_HOOK"
  then show "ensure_anchor_wired env w = (Inr (), w)"
    by (simp add: ensure_anchor_wired_def needed_hooks_cases getenv_or_def)
qed

text \<open>A host that is its pf.conf and the rules of each anchor.\<close>

definition conf_host :: "(string \<times> (string \<Rightarrow> string)) net_env" where
  "conf_host = \<lparr> nv_tool = (\<lambda>argv w. (Completed 0 (if argv = [''route'', ''-n'', ''get'', ''default'']
         then ''interface: em0'' else '''') [],
       if length argv = 5 \<and> argv ! 1 = ''-a'' then (fst w, (snd w)(argv ! 2 := argv ! 4)) else w)),
     nv_read_conf = (\<lambda>w. Some (fst w)), nv_write_conf = (\<lambda>t w. (None, (t, snd w))) \<rparr>"

lemma anchor_wiring_witness:
  "py_contains NAT_HOOK (fst (snd (ensure_anchor_wired conf_host ('''', \<lambda>_. ''''))))"
proof -
  have e: "ensure_anchor_wired conf_host ('''', \<lambda>_. '''') = (Inr (), (wired_conf '''', \<lambda>_. ''''))"
    by (simp add: ensure_anchor_wired_def needed_hooks_cases getenv_or_def conf_host_def net_do_def net_run_def
        NAT_HOOK_def FILTER_HOOK_def)
  have n: "\<not> py_contains NAT_HOOK ''''" by (simp add: NAT_HOOK_def)
  show ?thesis
    using anchor_wiring [of conf_host "('''', \<lambda>_. '''')" "(wired_conf '''', \<lambda>_. '''')"] e n
    by (simp add: conf_host_def getenv_or_def)
qed

definition nth_vnet_pair :: "nat \<Rightarrow> string \<times> string" where
  "nth_vnet_pair n = fst (alloc_vnet_ip (((\<lambda>c. snd (alloc_vnet_ip c)) ^^ n) 0))"

lemma vnet_counter: "((\<lambda>c. snd (alloc_vnet_ip c)) ^^ n) 0 = 4 * n"
  by (induction n) (simp_all add: alloc_vnet_ip_def)

lemma parse_octet_show: "parse_octet (show_nat k) = (if k \<le> 255 then Some k else None)"
proof (cases "k \<le> 255")
  case True
  have "length (show_nat k) \<le> 3" using show_nat_length [of k 2] True by simp
  moreover have "show_nat k = ''0'' \<or> \<not> prefix ''0'' (show_nat k)"
    using show_nat_hd [of k] by (cases "k = 0") (auto simp: show_nat.simps digit_char_def)
  ultimately show ?thesis using True by (auto simp: parse_octet_def)
next
  case False
  then show ?thesis by (simp add: parse_octet_def)
qed

lemma vnet_ip_valid: "parse_ipv4 (''10.101.0.'' @ show_nat k) \<noteq> None \<longleftrightarrow> k \<le> 255"
proof -
  have "py_split (CHR ''.'') (''10.101.0.'' @ show_nat k) = [''10'', ''101'', ''0'', show_nat k]"
    using py_split_single [OF show_nat_no_sep(1)] by simp
  moreover have "parse_octet ''10'' = Some 10" "parse_octet ''101'' = Some 101" "parse_octet ''0'' = Some 0"
    by code_simp+
  ultimately show ?thesis
    by (simp add: parse_ipv4_def parse_octet_show del: append_Cons append_Nil)
qed

text \<open>The addresses of VNET jails.  The n-th call of one process (from 0) gives the pair
  \<^verbatim>\<open>10.101.0.(4n+1)\<close>, \<^verbatim>\<open>10.101.0.(4n+2)\<close>, so no two calls share an address; and the pair is a
  valid pair of IPv4 addresses exactly for the first 64 calls, there is no check for the end of
  the range.\<close>

theorem vnet_addresses:
  "nth_vnet_pair n = (''10.101.0.'' @ show_nat (4 * n + 1), ''10.101.0.'' @ show_nat (4 * n + 2))
   \<and> (fst (nth_vnet_pair m) = fst (nth_vnet_pair n) \<longleftrightarrow> m = n)
   \<and> fst (nth_vnet_pair m) \<noteq> snd (nth_vnet_pair n)
   \<and> (parse_ipv4 (fst (nth_vnet_pair n)) \<noteq> None \<and> parse_ipv4 (snd (nth_vnet_pair n)) \<noteq> None \<longleftrightarrow> n < 64)"
proof -
  have p: "nth_vnet_pair n = (''10.101.0.'' @ show_nat (4 * n + 1), ''10.101.0.'' @ show_nat (4 * n + 2))" for n
    unfolding nth_vnet_pair_def vnet_counter by (simp add: alloc_vnet_ip_def)
  have "4 * m + 1 \<noteq> 4 * n + 2" by presburger
  then have "fst (nth_vnet_pair m) \<noteq> snd (nth_vnet_pair n)"
    and "fst (nth_vnet_pair m) = fst (nth_vnet_pair n) \<longleftrightarrow> m = n"
    unfolding p by (simp_all del: append_Cons)
  moreover have "parse_ipv4 (fst (nth_vnet_pair n)) \<noteq> None \<and> parse_ipv4 (snd (nth_vnet_pair n)) \<noteq> None \<longleftrightarrow> n < 64"
    unfolding p fst_conv snd_conv vnet_ip_valid by auto
  ultimately show ?thesis using p by blast
qed

text \<open>Publishing a port discards the NAT of a VNET jail.  Both load their rules into the same
  anchor, and loading an anchor replaces what it had: after the host side is set up the anchor
  has the NAT rules, and after the ports are published it has the redirections only.\<close>

theorem publish_replaces_nat:
  fixes env :: "'w net_env" and rules :: "'w \<Rightarrow> string \<Rightarrow> string"
  assumes load: "\<forall>u a t. \<exists>u'. nv_tool env [''pfctl'', ''-a'', a, ''-f'', t] u = (Completed 0 [] [], u')
      \<and> rules u' = (rules u)(a := t)"
    and route: "\<forall>u. \<exists>out u'. nv_tool env [''route'', ''-n'', ''get'', ''default''] u = (Completed 0 out [], u')
      \<and> rules u' = rules u \<and> search_interface True out = Some ext_if"
    and up: "\<forall>u. \<exists>u'. nv_tool env [''ifconfig'', host_if, ''inet'', host_ip @ ''/30'', ''up''] u = (Completed 0 [] [], u')"
  shows "\<exists>w1 w2. setup_vnet_host env host_if host_ip jail_name w = (Inr (), w1)
    \<and> setup_publish_ports env jail_name jail_ip specs w1 = (Inr (), w2)
    \<and> rules w1 (anchor_name jail_name) = vnet_rules host_ip
    \<and> rules w2 (anchor_name jail_name) = publish_rules ext_if jail_ip specs"
proof -
  obtain u where u: "nv_tool env [''ifconfig'', host_if, ''inet'', host_ip @ ''/30'', ''up''] w = (Completed 0 [] [], u)"
    using up by blast
  obtain w1 where w1: "nv_tool env (load_cmd jail_name (vnet_rules host_ip)) u = (Completed 0 [] [], w1)"
    "rules w1 = (rules u)(anchor_name jail_name := vnet_rules host_ip)"
    using load unfolding load_cmd_def anchor_name_def by blast
  obtain out u2 where u2: "nv_tool env [''route'', ''-n'', ''get'', ''default''] w1 = (Completed 0 out [], u2)"
    "search_interface True out = Some ext_if" using route by blast
  obtain w2 where w2: "nv_tool env (load_cmd jail_name (publish_rules ext_if jail_ip specs)) u2 = (Completed 0 [] [], w2)"
    "rules w2 = (rules u2)(anchor_name jail_name := publish_rules ext_if jail_ip specs)"
    using load unfolding load_cmd_def anchor_name_def by blast
  have "setup_vnet_host env host_if host_ip jail_name w = (Inr (), w1)"
    using u w1(1) by (simp add: setup_vnet_host_def net_do_def net_run_def)
  moreover have "setup_publish_ports env jail_name jail_ip specs w1 = (Inr (), w2)"
    using u2 w2(1) by (simp add: setup_publish_ports_def detect_ext_if_def net_do_def net_run_def)
  ultimately show ?thesis using w1(2) w2(2) by auto
qed

lemma publish_replaces_nat_witness:
  "\<exists>w1 w2. setup_publish_ports conf_host ''j'' ''10.101.0.2'' [(8080, 80, ''tcp'')] w1 = (Inr (), w2)
    \<and> snd w1 (anchor_name ''j'') = vnet_rules ''10.101.0.1''
    \<and> snd w2 (anchor_name ''j'') = publish_rules ''em0'' ''10.101.0.2'' [(8080, 80, ''tcp'')]"
proof -
  have "search_interface True ''interface: em0'' = Some ''em0''" by code_simp
  then show ?thesis
    using publish_replaces_nat [of conf_host snd "''em0''" "''epair0a''" "''10.101.0.1''" "''j''" "('''', \<lambda>_. '''')"
        "''10.101.0.2''" "[(8080, 80, ''tcp'')]"]
    by (auto simp: conf_host_def)
qed

end
