(* ===== verification/Engine.thy ===== *)
theory Engine
  imports EnginePrep NetOps
begin

text \<open>
  \<^verbatim>\<open>runtime/engine.py\<close>, one run: \<^verbatim>\<open>_run_async\<close> from the image reference to the end of its \<^verbatim>\<open>finally\<close>
  block.  The state holds the host, the ledger, the two globals of the process (used addresses,
  VNET counter) and those local variables of the function that its \<^verbatim>\<open>finally\<close> block reads.  A part
  of the function is a job on that state: a result or an exception, and the new state.  Locks
  have no effect where one run goes on at a time.
\<close>

section \<open>Options, surroundings and state\<close>

record run_opts =
  op_rm :: bool
  op_volumes :: "(string \<times> string \<times> bool) list"
  op_env :: "(string \<times> string) list"
  op_workdir :: "string option"
  op_network :: string
  op_raw_sockets :: bool
  op_rctl_enabled :: bool
  op_rctl_rules :: "string list"
  op_unrestricted_devfs :: bool
  op_image_id :: "string option"
  op_jail_name :: "string option"
  op_publish :: "(nat \<times> nat \<times> string) list"
  op_tmpfs :: "string list"
  op_read_only :: bool
  op_interactive :: bool

text \<open>What jailrun writes while the command runs: pieces of its output or error output, and
  whether writing each of them to the log file works.\<close>

record chunk =
  ck_stderr :: bool
  ck_data :: string
  ck_log_ok :: bool

text \<open>A terminal session that ends: the exit status or the exception, the chunks and the host.
  \<^const>\<open>None\<close> in its place is one that never ends.\<close>

type_synonym 'w pty = "string list \<Rightarrow> 'w host \<Rightarrow> ((store_exc + int) \<times> chunk list \<times> 'w host) option"

record 'w engine_env =
  ee_env :: env
  ee_tool :: "'w runner"
  ee_kind :: "string \<Rightarrow> spawn_kind"
  ee_lim :: nat
  ee_store :: store
  ee_sha256 :: "string \<Rightarrow> string"
  ee_names :: names
  ee_wait :: "nat \<Rightarrow> 'w host \<Rightarrow> 'w host"
  ee_probe_and_bake :: "path \<Rightarrow> string \<Rightarrow> (json, 'w) act"
  ee_is_ipv6 :: "string \<Rightarrow> bool"
  ee_resolver :: "string \<Rightarrow> string + string list"
  ee_faults :: db_faults
  ee_now :: "string \<times> string"
  ee_pid :: string
  ee_scratch :: path
  ee_run_id :: string
  ee_conf_file :: path
  ee_chunks :: "string list \<Rightarrow> 'w host \<Rightarrow> chunk list"
  ee_pty :: "'w pty"

record 'w eng =
  en_host :: "'w host"
  en_ledger :: db_file
  en_used_ips :: "string list"
  en_vnet_next_ip :: nat
  en_handle :: handle
  en_snapshot_id :: "string option"
  en_jail_name :: "string option"
  en_conf_path :: "path option"
  en_jail_created :: bool
  en_run_completed :: bool
  en_log :: "path option"
  en_jail_ip :: "string option"
  en_vnet_host_if :: "string option"
  en_vnet_jail_if :: "string option"
  en_vnet_host_ip :: "string option"
  en_vnet_jail_ip :: "string option"

type_synonym ('a, 'w) job = "'w eng \<Rightarrow> (store_exc + 'a) \<times> 'w eng"

definition done_with :: "'a \<Rightarrow> ('a, 'w) job" where "done_with x s = (Inr x, s)"

definition fail_with :: "store_exc \<Rightarrow> ('a, 'w) job" where "fail_with e s = (Inl e, s)"

definition bind :: "('a, 'w) job \<Rightarrow> ('a \<Rightarrow> ('b, 'w) job) \<Rightarrow> ('b, 'w) job" where
  "bind m f s = (case m s of (Inl e, s') \<Rightarrow> (Inl e, s') | (Inr x, s') \<Rightarrow> f x s')"

definition on_host :: "('a, 'w) act \<Rightarrow> ('a, 'w) job" where
  "on_host m s = (let (r, h) = m (en_host s) in (r, s \<lparr> en_host := h \<rparr>))"

definition change :: "('w eng \<Rightarrow> 'w eng) \<Rightarrow> (unit, 'w) job" where "change f s = (Inr (), f s)"

definition when_so :: "bool \<Rightarrow> (unit, 'w) job \<Rightarrow> (unit, 'w) job" where
  "when_so b m = (if b then m else done_with ())"

definition of_result :: "store_exc + 'a \<Rightarrow> ('a, 'w) job" where "of_result r s = (r, s)"

text \<open>A command whose failure is only logged.\<close>

definition try_command :: "'w engine_env \<Rightarrow> string list \<Rightarrow> (unit, 'w) job" where
  "try_command env argv = change (\<lambda>s. s \<lparr> en_host := tolerated (ee_tool env) argv (en_host s) \<rparr>)"

text \<open>The operations of \<^verbatim>\<open>netops\<close> on the host: commands, and \<^verbatim>\<open>/etc/pf.conf\<close> in the tree.\<close>

definition PF_CONF_PATH :: path where "PF_CONF_PATH = [''etc'', ''pf.conf'']"

definition read_pf_conf :: "nat \<Rightarrow> 'w host \<Rightarrow> string option" where
  "read_pf_conf lim h = (case read_text lim (fst h) PF_CONF_PATH of Inl _ \<Rightarrow> None | Inr c \<Rightarrow> Some c)"

definition write_pf_conf :: "nat \<Rightarrow> string \<Rightarrow> 'w host \<Rightarrow> string option \<times> 'w host" where
  "write_pf_conf lim c h =
     (case fs_write lim c PF_CONF_PATH (fst h) of
        (None, fs') \<Rightarrow> (None, (fs', snd h))
      | (Some _, fs') \<Rightarrow> (Some ''OSError'', (fs', snd h)))"

definition net_env_of :: "'w engine_env \<Rightarrow> 'w host net_env" where
  "net_env_of env = \<lparr> nv_tool = ee_tool env None [], nv_read_conf = read_pf_conf (ee_lim env), nv_write_conf = write_pf_conf (ee_lim env) \<rparr>"

definition net_exc :: "net_error \<Rightarrow> store_exc" where
  "net_exc e = (case e of Runtime_error m \<Rightarrow> runtime_error m | Spawn_failed m \<Rightarrow> Other_error m)"

definition on_net :: "'w engine_env \<Rightarrow> ('w host net_env \<Rightarrow> 'w host \<Rightarrow> ('a, 'w host) net_result) \<Rightarrow> ('a, 'w) job" where
  "on_net env m s =
     (case m (net_env_of env) (en_host s) of
        (Inl e, h) \<Rightarrow> (Inl (net_exc e), s \<lparr> en_host := h \<rparr>)
      | (Inr x, h) \<Rightarrow> (Inr x, s \<lparr> en_host := h \<rparr>))"

section \<open>Before the jail's root exists\<close>

definition network_spec_of :: "string \<Rightarrow> store_exc + network_spec option" where
  "network_spec_of network =
     (if py_startswith network ''allow''
      then (case parse_network_spec network of Inl e \<Rightarrow> Inl (value_error e) | Inr sp \<Rightarrow> Inr (Some sp))
      else Inr None)"

definition refuse_nested :: store_exc where "refuse_nested = Other_error ''RuntimeError: refusing to run''"

definition devfs_guard :: "'w engine_env \<Rightarrow> run_opts \<Rightarrow> (bool, 'w) job" where
  "devfs_guard env opts =
     bind (on_host (\<lambda>h. let (b, h') = is_jailed (ee_tool env) h in (Inr b, h'))) (\<lambda>jailed.
     if \<not> jailed then done_with True
     else bind (on_host (devfs_delegation_available (ee_tool env) (ee_lim env) (ee_pid env) (ee_scratch env))) (\<lambda>ok.
          if \<not> ok \<and> \<not> op_unrestricted_devfs opts then fail_with refuse_nested else done_with ok))"

text \<open>A reference is a native base, a thin base or an image; an empty name after the prefix makes it
  an image.\<close>

datatype root_kind = Native_root string | Thin_root string | Image_root

definition after_colon :: "string \<Rightarrow> string" where
  "after_colon s = (case py_cut (CHR '':'') s of Some (_, b) \<Rightarrow> b | None \<Rightarrow> s)"

definition root_kind_of :: "string \<Rightarrow> root_kind" where
  "root_kind_of image_ref =
     (let name = after_colon image_ref in
      if py_startswith image_ref ''nativebase:'' then (if name = [] then Image_root else Native_root name)
      else if py_startswith image_ref ''thinbase:'' then (if name = [] then Image_root else Thin_root name)
      else Image_root)"

definition resolve_image :: "'w engine_env \<Rightarrow> run_opts \<Rightarrow> string \<Rightarrow> (string, 'w) job" where
  "resolve_image env opts image_ref =
     (case op_image_id opts of
        Some i \<Rightarrow> done_with i
      | None \<Rightarrow> on_host (store_resolve (ee_sha256 env) (ee_env env) (ee_tool env) (ee_lim env) (ee_store env) image_ref None None))"

definition set_snapshot :: "string \<Rightarrow> (unit, 'w) job" where
  "set_snapshot snapshot_id = change (\<lambda>s. s \<lparr> en_snapshot_id := Some snapshot_id \<rparr>)"

text \<open>The image id, where there is one; the snapshot goes into the state.\<close>

definition resolve_and_unpack :: "'w engine_env \<Rightarrow> run_opts \<Rightarrow> string \<Rightarrow> (string option, 'w) job" where
  "resolve_and_unpack env opts image_ref =
     (case root_kind_of image_ref of
        Thin_root _ \<Rightarrow> done_with None
      | Native_root name \<Rightarrow>
          bind (on_host (base_snapshot (ee_tool env) (ee_lim env) (ee_store env) name)) (\<lambda>snap.
          bind (set_snapshot snap) (\<lambda>_. done_with None))
      | Image_root \<Rightarrow>
          bind (resolve_image env opts image_ref) (\<lambda>i.
          bind (on_host (store_unpack (ee_sha256 env) (ee_env env) (ee_tool env) (ee_lim env) (ee_names env) (ee_wait env) (ee_store env) i)) (\<lambda>snap.
          bind (set_snapshot snap) (\<lambda>_. done_with (Some i)))))"

definition mount_into :: "'w engine_env \<Rightarrow> (string \<times> string \<times> bool) list \<Rightarrow> (unit, 'w) job" where
  "mount_into env binds s =
     (let (r, hdl, h) = store_mount (ee_tool env) (ee_lim env) (Some binds) (en_handle s) (en_host s)
      in (r, s \<lparr> en_host := h, en_handle := hdl \<rparr>))"

definition THIN_BASE_DIRS :: "string list" where
  "THIN_BASE_DIRS = [''/bin'', ''/lib'', ''/libexec'', ''/sbin'', ''/usr'']"

definition set_handle :: "path \<times> handle \<Rightarrow> (unit, 'w) job" where
  "set_handle ph = change (\<lambda>s. s \<lparr> en_handle := snd ph \<rparr>)"

definition clone_rootfs :: "'w engine_env \<Rightarrow> string \<Rightarrow> (unit, 'w) job" where
  "clone_rootfs env image_ref s =
     (case root_kind_of image_ref of
        Thin_root _ \<Rightarrow>
          bind (on_host (empty_rootfs (ee_lim env) (ee_store env) (ee_run_id env))) (\<lambda>ph.
          bind (set_handle ph) (\<lambda>_ s.
          mount_into env (map (\<lambda>d. (d, d, True)) (filter (\<lambda>d. path_is_dir (ee_lim env) (fst (en_host s)) (components d)) THIN_BASE_DIRS)) s))
      | _ \<Rightarrow>
          bind (on_host (clone (ee_tool env) (ee_lim env) (ee_store env) (ee_run_id env) (getenv_or (en_snapshot_id s) []))) set_handle) s"

section \<open>Filling the root\<close>

text \<open>\<^verbatim>\<open>len(v)\<close> of a decoded value.\<close>

definition has_len :: "json \<Rightarrow> bool" where
  "has_len v \<longleftrightarrow> (case v of JStr _ \<Rightarrow> True | JArr _ \<Rightarrow> True | JObj _ \<Rightarrow> True | _ \<Rightarrow> False)"

text \<open>The arguments of the log line after loading are evaluated, and raise where the manifest is not
  of the expected shape.\<close>

definition manifest_summary :: "json \<Rightarrow> store_exc + unit" where
  "manifest_summary manifest =
     try_bind (jget ''binaries'' (JArr []) manifest) (\<lambda>bs.
     if \<not> has_len bs then type_error
     else try_bind (jget ''linuxulator'' (JObj []) manifest) (\<lambda>lx.
          try_bind (jget ''required'' JNull lx) (\<lambda>_. Inr ())))"

definition root_manifest :: "'w engine_env \<Rightarrow> string \<Rightarrow> string option \<Rightarrow> (json, 'w) job" where
  "root_manifest env image_ref image_id s =
     (case root_kind_of image_ref of
        Image_root \<Rightarrow>
          bind (on_host (load_manifest (ee_probe_and_bake env) (ee_lim env) (h_rootfs (en_handle s)) image_ref image_id)) (\<lambda>manifest.
          bind (of_result (manifest_summary manifest)) (\<lambda>_. done_with manifest))
      | _ \<Rightarrow> done_with (JObj [])) s"

text \<open>\<^verbatim>\<open>Store.base_mountpoint\<close> on a decoded value: the attribute or the path fails on anything but
  text.\<close>

definition base_of_json :: "store \<Rightarrow> json \<Rightarrow> store_exc + path" where
  "base_of_json st v =
     (case v of JStr snapshot_id \<Rightarrow> Inr (base_mountpoint st snapshot_id)
      | _ \<Rightarrow> (case st_backend st of Zfs \<Rightarrow> attribute_error | Plaindir \<Rightarrow> type_error))"

definition mount_bakery_base :: "'w engine_env \<Rightarrow> json \<Rightarrow> (string option, 'w) job" where
  "mount_bakery_base env manifest =
     bind (of_result (try_bind (jget ''_bakery'' (JObj []) manifest) (jget ''snapshot_id'' JNull))) (\<lambda>snap.
     if \<not> jtruth snap then done_with None
     else bind (of_result (base_of_json (ee_store env) snap)) (\<lambda>base.
          bind (mount_into env [(path_str base, NATIVE_BASE_MOUNT, True)]) (\<lambda>_.
          done_with (Some NATIVE_BASE_MOUNT))))"

definition DEFAULT_PATH :: string where
  "DEFAULT_PATH = ''/jailrun-native/bin:/usr/local/sbin:/usr/local/bin:/usr/sbin:/usr/bin:/sbin:/bin''"

definition with_native_path :: "(string \<times> string) list \<Rightarrow> (string \<times> string) list" where
  "with_native_path e =
     (let base_path = getenv_or (map_of e ''PATH'') DEFAULT_PATH in
      AList.update ''PATH'' (if py_contains ''/jailrun-native/bin'' base_path then base_path
                          else ''/jailrun-native/bin:'' @ base_path) e)"

definition RESOLV_CONF :: path where "RESOLV_CONF = [''etc'', ''resolv.conf'']"

text \<open>\<^verbatim>\<open>shutil.copy2\<close> of the host's file: it writes where the path in the root leads, and refuses to
  copy a file to itself.\<close>

definition copy_resolv :: "nat \<Rightarrow> path \<Rightarrow> (unit, 'w) act" where
  "copy_resolv lim dst h =
     (let fs = fst h; target = (if path_is_dir lim fs dst then dst @ [''resolv.conf''] else dst) in
      if path_exists lim fs target \<and> follow lim fs target = follow lim fs RESOLV_CONF
      then (Inl (Other_error ''SameFileError''), h)
      else then_do (\<lambda>h. (read_text lim fs RESOLV_CONF, h)) (\<lambda>content. on_tree (fs_write lim content target)) h)"

definition copy_resolv_conf :: "'w engine_env \<Rightarrow> string \<Rightarrow> (unit, 'w) job" where
  "copy_resolv_conf env network s =
     (let lim = ee_lim env; rootfs_path = h_rootfs (en_handle s) in
      if network = ''none'' \<or> \<not> path_exists lim (fst (en_host s)) RESOLV_CONF then done_with () s
      else on_host
             (then_do (on_tree (fs_mkdirs lim (rootfs_path @ [''etc'']))) (\<lambda>_.
              copy_resolv lim (rootfs_path @ [''etc'', ''resolv.conf'']))) s)"

definition setup_linuxulator :: "'w engine_env \<Rightarrow> json \<Rightarrow> (bool, 'w) job" where
  "setup_linuxulator env manifest =
     bind (of_result (needs_linuxulator manifest)) (\<lambda>needed.
     bind (when_so needed
       (bind (try_command env [''kldload'', ''linux64'']) (\<lambda>_ s.
        on_host (mkdirs_all (ee_lim env) (map (\<lambda>mp. h_rootfs (en_handle s) @ mp)
                   [[''proc''], [''sys''], [''dev'', ''shm''], [''dev'', ''fd'']])) s))) (\<lambda>_.
     done_with needed))"

text \<open>All of it, in the order of the source; the result is the environment of the command and
  whether the jail needs the Linux ABI.\<close>

definition fill_root ::
  "'w engine_env \<Rightarrow> run_opts \<Rightarrow> string \<Rightarrow> string option \<Rightarrow> ((string \<times> string) list \<times> bool, 'w) job" where
  "fill_root env opts image_ref image_id =
     bind (root_manifest env image_ref image_id) (\<lambda>manifest.
     bind (mount_bakery_base env manifest) (\<lambda>base_prefix.
     bind (\<lambda>s. on_host (assemble_native_shadow (ee_lim env) (h_rootfs (en_handle s)) manifest base_prefix) s) (\<lambda>_.
     bind (when_so (op_volumes opts \<noteq> []) (mount_into env (op_volumes opts))) (\<lambda>_.
     bind (copy_resolv_conf env (op_network opts)) (\<lambda>_.
     bind (setup_linuxulator env manifest) (\<lambda>linuxulator.
     done_with (with_native_path (op_env opts), linuxulator)))))))"

section \<open>The network of the run\<close>

definition name_jail :: "run_opts \<Rightarrow> (string, 'w) job" where
  "name_jail opts s =
     (let n = (case op_jail_name opts of Some n \<Rightarrow> if n = [] then ''jailrun-'' @ h_id (en_handle s) else n
               | None \<Rightarrow> ''jailrun-'' @ h_id (en_handle s))
      in (Inr n, s \<lparr> en_jail_name := Some n, en_handle := (en_handle s) \<lparr> h_jail_name := Some n \<rparr> \<rparr>))"

definition allowed_entries :: "network_spec \<Rightarrow> allow_entry list" where
  "allowed_entries sp = (case sp of Net_allow es \<Rightarrow> es | _ \<Rightarrow> [])"

text \<open>The lowest free address, put into the set of the process.\<close>

definition take_jail_ip :: "(string, 'w) job" where
  "take_jail_ip s =
     (case alloc_jail_ip (en_used_ips s) DEFAULT_POOL 24 of
        None \<Rightarrow> (Inl (value_error ''jail IP pool 10.99.0.0/24 exhausted (all in use)''), s)
      | Some ip \<Rightarrow> (Inr ip, s \<lparr> en_used_ips := ip # en_used_ips s, en_jail_ip := Some ip \<rparr>))"

definition no_default_route :: store_exc where
  "no_default_route = runtime_error (''network='' @ py_repr ''allow'' @ '' requires a default route (detect_ext_if() returned None) '' @
     em_dash @ '' cannot determine the egress interface'')"

definition setup_allow :: "'w engine_env \<Rightarrow> string \<Rightarrow> network_spec \<Rightarrow> (unit, 'w) job" where
  "setup_allow env jail_name sp =
     bind (of_result (case resolve_allowlist (ee_is_ipv6 env) (ee_resolver env) (allowed_entries sp) of
                        Inl e \<Rightarrow> Inl (Other_error e) | Inr r \<Rightarrow> Inr r)) (\<lambda>resolved.
     bind (\<lambda>s. done_with (host_resolvers (case read_text (ee_lim env) (fst (en_host s)) RESOLV_CONF of
                                           Inl _ \<Rightarrow> None | Inr c \<Rightarrow> Some c)) s) (\<lambda>resolvers.
     bind (on_net env detect_ext_if) (\<lambda>ext_if.
     case ext_if of
       None \<Rightarrow> fail_with no_default_route
     | Some ext \<Rightarrow>
         bind take_jail_ip (\<lambda>ip.
         on_net env (\<lambda>nv. apply_network nv jail_name ip (render_pf_anchor jail_name ip ext resolved resolvers))))))"

definition setup_vnet :: "'w engine_env \<Rightarrow> string \<Rightarrow> (unit, 'w) job" where
  "setup_vnet env jail_name =
     bind (on_net env create_epair) (\<lambda>(host_if, jail_if).
     bind (change (\<lambda>s. s \<lparr> en_vnet_host_if := Some host_if, en_vnet_jail_if := Some jail_if \<rparr>)) (\<lambda>_.
     bind (\<lambda>s. let ((host_ip, jail_ip), next) = alloc_vnet_ip (en_vnet_next_ip s)
               in (Inr host_ip, s \<lparr> en_vnet_next_ip := next, en_vnet_host_ip := Some host_ip, en_vnet_jail_ip := Some jail_ip \<rparr>)) (\<lambda>host_ip.
     on_net env (\<lambda>nv. setup_vnet_host nv host_if host_ip jail_name))))"

definition setup_publish :: "'w engine_env \<Rightarrow> run_opts \<Rightarrow> string \<Rightarrow> (unit, 'w) job" where
  "setup_publish env opts jail_name s =
     (case en_vnet_jail_ip s of
        None \<Rightarrow> done_with () s
      | Some ip \<Rightarrow>
          when_so (op_publish opts \<noteq> []) (on_net env (\<lambda>nv. setup_publish_ports nv jail_name ip (op_publish opts))) s)"

definition setup_network :: "'w engine_env \<Rightarrow> run_opts \<Rightarrow> network_spec option \<Rightarrow> string \<Rightarrow> (unit, 'w) job" where
  "setup_network env opts spec jail_name =
     bind (case spec of None \<Rightarrow> done_with () | Some sp \<Rightarrow> setup_allow env jail_name sp) (\<lambda>_.
     bind (when_so (op_network opts = ''vnet'') (setup_vnet env jail_name)) (\<lambda>_.
     setup_publish env opts jail_name))"

section \<open>Starting the jail\<close>

definition tmpfs_line :: "path \<Rightarrow> string \<Rightarrow> string" where
  "tmpfs_line rootfs_path spec =
     (let (p, sz) = (case py_cut (CHR '':'') spec of Some (a, b) \<Rightarrow> (a, b) | None \<Rightarrow> (spec, ''128m'')) in
      ''tmpfs '' @ path_str rootfs_path @ ''/'' @ py_lstrip_char (CHR ''/'') p @ '' tmpfs rw,size='' @ sz @ '',mode=1777 0 0'')"

definition make_read_only :: "'w engine_env \<Rightarrow> run_opts \<Rightarrow> (unit, 'w) job" where
  "make_read_only env opts s =
     when_so (op_read_only opts \<and> h_dataset (en_handle s) \<noteq> [] \<and> st_backend (ee_store env) = Zfs)
       (try_command env [''zfs'', ''set'', ''readonly=on'', h_dataset (en_handle s)]) s"

definition run_jail_params :: "run_opts \<Rightarrow> network_spec option \<Rightarrow> bool \<Rightarrow> bool \<Rightarrow> string \<Rightarrow> 'w eng \<Rightarrow> jail_params" where
  "run_jail_params opts spec delegation_ok linuxulator jail_name s =
     \<lparr> jp_name = jail_name, jp_rootfs = h_rootfs (en_handle s),
       jp_mounts = map (tmpfs_line (h_rootfs (en_handle s))) (op_tmpfs opts), jp_extra = [],
       jp_linuxulator = linuxulator,
       jp_network = (if \<not> unset (en_vnet_jail_if s) then ''vnet'' else if spec \<noteq> None then ''allow'' else op_network opts),
       jp_raw_sockets = op_raw_sockets opts,
       jp_ip4_addr = (if \<not> unset (en_vnet_jail_ip s) then en_vnet_jail_ip s else en_jail_ip s),
       jp_epair_if = en_vnet_jail_if s, jp_delegation_ok = delegation_ok \<rparr>"

text \<open>The temporary file; its name is bound where it could be created.\<close>

definition write_conf :: "'w engine_env \<Rightarrow> string \<Rightarrow> (unit, 'w) job" where
  "write_conf env text =
     bind (on_host (on_tree (fs_write (ee_lim env) text (ee_conf_file env)))) (\<lambda>_.
     change (\<lambda>s. s \<lparr> en_conf_path := Some (ee_conf_file env) \<rparr>))"

definition create_cmd :: "path \<Rightarrow> string \<Rightarrow> string list" where
  "create_cmd conf jail_name = [''jail'', ''-f'', path_str conf, ''-c'', jail_name]"

definition create_jail :: "'w engine_env \<Rightarrow> string \<Rightarrow> (unit, 'w) job" where
  "create_jail env jail_name =
     bind (on_host (run_subprocess (ee_kind env) (ee_tool env) True (create_cmd (ee_conf_file env) jail_name))) (\<lambda>_.
     change (\<lambda>s. s \<lparr> en_jail_created := True \<rparr>))"

definition setup_vnet_inside :: "'w engine_env \<Rightarrow> string \<Rightarrow> bool \<Rightarrow> (unit, 'w) job" where
  "setup_vnet_inside env jail_name linuxulator s =
     (case (en_vnet_host_if s, en_vnet_jail_ip s) of
        (Some _, Some ip) \<Rightarrow>
          on_net env (\<lambda>nv. setup_vnet_jail nv jail_name (getenv_or (en_vnet_jail_if s) []) ip linuxulator) s
      | _ \<Rightarrow> done_with () s)"

definition run_log_path :: "'w engine_env \<Rightarrow> string \<Rightarrow> string" where
  "run_log_path env jail_name = py_path_join (get_log_dir (ee_env env)) (jail_name @ ''.log'')"

definition open_log :: "'w engine_env \<Rightarrow> string \<Rightarrow> (string option, 'w) job" where
  "open_log env jail_name s =
     (let p = run_log_path env jail_name;
          (log_fh, fs') = open_log_file (ee_lim env) p (fst (en_host s))
      in (Inr (if log_fh = None then None else Some p), s \<lparr> en_host := (fs', snd (en_host s)), en_log := log_fh \<rparr>))"

text \<open>A fresh \<^verbatim>\<open>RunDB()\<close>, as in the garbage collector.\<close>

definition open_run_ledger :: "env \<Rightarrow> db_file \<Rightarrow> rundb" where
  "open_run_ledger env f =
     (let d = rundb_init None (env ''JAILRUN_DB'') f in
      if rd_path d = '':memory:'' then d \<lparr> rd_file := \<lparr> df_table = None, df_has_log_path = False \<rparr> \<rparr> else d)"

text \<open>Where no snapshot was bound, as for a thin base, naming it raises; the surrounding \<^verbatim>\<open>try\<close> turns
  that into a warning, and there is no row.\<close>

definition record_run_start :: "'w engine_env \<Rightarrow> string \<Rightarrow> string \<Rightarrow> string option \<Rightarrow> (unit, 'w) job" where
  "record_run_start env jail_name image_ref log_path = change (\<lambda>s.
     case en_snapshot_id s of
       None \<Rightarrow> s
     | Some snap \<Rightarrow>
         s \<lparr> en_ledger := ledger_after
               (snd (record_start (ee_faults env) (fst (ee_now env)) jail_name image_ref snap (h_dataset (en_handle s)) log_path
                      (open_run_ledger (ee_env env) (en_ledger s)))) (en_ledger s) \<rparr>)"

definition run_rules :: "run_opts \<Rightarrow> string list" where
  "run_rules opts =
     (if op_rctl_enabled opts then (if op_rctl_rules opts \<noteq> [] then op_rctl_rules opts else DEFAULT_RCTL_RULES) else [])"

definition limit_jail :: "'w engine_env \<Rightarrow> run_opts \<Rightarrow> string \<Rightarrow> (unit, 'w) job" where
  "limit_jail env opts jail_name = change (\<lambda>s.
     s \<lparr> en_host := apply_rctl (ee_kind env) (ee_tool env) jail_name (run_rules opts) (en_host s) \<rparr>)"

definition start_jail :: "'w engine_env \<Rightarrow> run_opts \<Rightarrow> network_spec option \<Rightarrow> bool \<Rightarrow> bool \<Rightarrow> string \<Rightarrow> (unit, 'w) job" where
  "start_jail env opts spec delegation_ok linuxulator jail_name =
     bind (make_read_only env opts) (\<lambda>_.
     bind (\<lambda>s. on_host (build_jail_conf (ee_tool env) (run_jail_params opts spec delegation_ok linuxulator jail_name s)) s) (\<lambda>text.
     bind (write_conf env text) (\<lambda>_.
     create_jail env jail_name)))"

definition equip_jail :: "'w engine_env \<Rightarrow> run_opts \<Rightarrow> string \<Rightarrow> bool \<Rightarrow> string \<Rightarrow> (unit, 'w) job" where
  "equip_jail env opts image_ref linuxulator jail_name =
     bind (setup_vnet_inside env jail_name linuxulator) (\<lambda>_.
     bind (open_log env jail_name) (\<lambda>log_path.
     bind (record_run_start env jail_name image_ref log_path) (\<lambda>_.
     limit_jail env opts jail_name)))"

section \<open>The command\<close>

text \<open>Copying the output to the log: the first write that fails is the last one tried.\<close>

fun tee :: "chunk list \<Rightarrow> bool \<Rightarrow> string" where
  "tee [] open_log_fh = []"
| "tee (c # cs) open_log_fh =
     (if open_log_fh \<and> ck_log_ok c then ck_data c @ tee cs True else [])"

definition stream_of :: "bool \<Rightarrow> chunk list \<Rightarrow> string" where
  "stream_of err cs = concat (map ck_data (filter (\<lambda>c. ck_stderr c = err) cs))"

definition store_log :: "path option \<Rightarrow> string \<Rightarrow> fs \<Rightarrow> fs" where
  "store_log log_fh text fs =
     (case log_fh of None \<Rightarrow> fs
      | Some q \<Rightarrow> (case look fs q of Some (Reg _) \<Rightarrow> put q (Reg text) fs | _ \<Rightarrow> fs))"

definition remove_cmd :: "path option \<Rightarrow> string \<Rightarrow> string list" where
  "remove_cmd conf jail_name =
     (case conf of Some c \<Rightarrow> [''jail'', ''-f'', path_str c, ''-r'', jail_name] | None \<Rightarrow> [''jail'', ''-r'', jail_name])"

text \<open>\<^verbatim>\<open>_stream_jexec\<close>, with what it leaves in the log.  A command that runs out of time is killed
  with its jail.\<close>

definition timed_out :: "string \<Rightarrow> store_exc" where
  "timed_out jail_name = runtime_error (''jexec in jail '' @ jail_name @ '' timed out; jail removed'')"

definition stream_jexec ::
  "(string \<Rightarrow> spawn_kind) \<Rightarrow> 'w runner \<Rightarrow> path option \<Rightarrow> string \<Rightarrow> string list \<Rightarrow> (string \<times> string) list \<Rightarrow> string option
   \<Rightarrow> (int, 'w) act" where
  "stream_jexec kind t conf_path jail_name cmd env workdir h =
     (case t None [] (jexec_argv jail_name cmd env workdir) h of
        (Completed rc _ _, h') \<Rightarrow> (Inr rc, h')
      | (Spawn_error e, h') \<Rightarrow>
          if kind e = Timed_out then (Inl (timed_out jail_name), tolerated t (remove_cmd conf_path jail_name) h')
          else (Inl (Other_error e), h'))"

definition default_cmd :: "string list \<Rightarrow> string list" where
  "default_cmd cmd = (if cmd = [] then [''/bin/sh''] else cmd)"

definition log_chunks :: "chunk list \<Rightarrow> 'w eng \<Rightarrow> 'w host \<Rightarrow> 'w host" where
  "log_chunks cs s h = (store_log (en_log s) (tee cs True) (fst h), snd h)"

definition run_command ::
  "'w engine_env \<Rightarrow> run_opts \<Rightarrow> string \<Rightarrow> string list \<Rightarrow> (string \<times> string) list \<Rightarrow> 'w eng \<Rightarrow> ((store_exc + int) \<times> 'w eng) option" where
  "run_command env opts jail_name cmd cmd_env s =
     (let argv = jexec_argv jail_name (default_cmd cmd) cmd_env (op_workdir opts);
          finish = (\<lambda>(r, cs, h). (r, s \<lparr> en_host := log_chunks cs s h, en_run_completed := (case r of Inl _ \<Rightarrow> False | Inr _ \<Rightarrow> True) \<rparr>))
      in if op_interactive opts then map_option finish (ee_pty env argv (en_host s))
         else (let (r, h) = stream_jexec (ee_kind env) (ee_tool env) (en_conf_path s) jail_name (default_cmd cmd) cmd_env (op_workdir opts) (en_host s)
               in Some (finish (r, ee_chunks env argv (en_host s), h))))"

section \<open>Teardown\<close>

text \<open>Everything here is best effort: an exception of a step is a warning.\<close>

definition ignoring :: "('a, 'w) job \<Rightarrow> 'w eng \<Rightarrow> 'w eng" where "ignoring m s = snd (m s)"

definition unlink_conf :: "nat \<Rightarrow> 'w eng \<Rightarrow> 'w eng" where
  "unlink_conf lim s =
     (case en_conf_path s of None \<Rightarrow> s
      | Some c \<Rightarrow> s \<lparr> en_host := (snd (fs_unlink lim c (fst (en_host s))), snd (en_host s)) \<rparr>)"

definition remove_jail :: "'w engine_env \<Rightarrow> string \<Rightarrow> 'w eng \<Rightarrow> 'w eng" where
  "remove_jail env jail_name s =
     (let t = ee_tool env;
          s1 = s \<lparr> en_host := lifecycle_teardown (ee_kind env) (t None []) jail_name (en_host s) \<rparr>;
          s2 = unlink_conf (ee_lim env) (s1 \<lparr> en_host := tolerated t (remove_cmd (en_conf_path s) jail_name) (en_host s1) \<rparr>)
      in s2 \<lparr> en_host := clear_rctl t jail_name (en_host s2) \<rparr>)"

definition release_ip :: "'w engine_env \<Rightarrow> string \<Rightarrow> 'w eng \<Rightarrow> 'w eng" where
  "release_ip env jail_name s =
     (case en_jail_ip s of None \<Rightarrow> s
      | Some ip \<Rightarrow>
          (let s1 = ignoring (on_net env (\<lambda>nv. teardown_network nv jail_name ip)) s
           in s1 \<lparr> en_used_ips := filter (\<lambda>x. x \<noteq> ip) (en_used_ips s1) \<rparr>))"

definition release_vnet :: "'w engine_env \<Rightarrow> string \<Rightarrow> 'w eng \<Rightarrow> 'w eng" where
  "release_vnet env jail_name s =
     (case en_vnet_host_if s of None \<Rightarrow> s
      | Some host_if \<Rightarrow> ignoring (on_net env (\<lambda>nv. teardown_vnet nv host_if jail_name)) s)"

definition record_run_exit :: "'w engine_env \<Rightarrow> string \<Rightarrow> store_exc + int \<Rightarrow> 'w eng \<Rightarrow> 'w eng" where
  "record_run_exit env jail_name r s =
     (if \<not> en_jail_created s then s
      else s \<lparr> en_ledger := ledger_after
             (snd (record_exit (ee_faults env) (snd (ee_now env)) jail_name
                     (if en_run_completed s then EXITED else KILLED)
                     (if en_run_completed s then (case r of Inr c \<Rightarrow> Some c | Inl _ \<Rightarrow> None) else None)
                     (open_run_ledger (ee_env env) (en_ledger s)))) (en_ledger s) \<rparr>)"

definition destroy_root :: "'w engine_env \<Rightarrow> run_opts \<Rightarrow> 'w eng \<Rightarrow> 'w eng" where
  "destroy_root env opts s =
     (if op_rm opts
      then (let (_, hdl, h) = destroy (ee_tool env) (ee_lim env) (ee_store env) (en_handle s) (en_host s)
            in s \<lparr> en_host := h, en_handle := hdl \<rparr>)
      else s)"

definition teardown :: "'w engine_env \<Rightarrow> run_opts \<Rightarrow> store_exc + int \<Rightarrow> 'w eng \<Rightarrow> 'w eng" where
  "teardown env opts r s =
     destroy_root env opts
       (case en_jail_name s of None \<Rightarrow> s
        | Some n \<Rightarrow> record_run_exit env n r (release_vnet env n (release_ip env n (remove_jail env n s))))"

section \<open>The run\<close>

text \<open>The local variables at the start; no handle is looked at before there is one.\<close>

definition fresh_locals :: "'w eng \<Rightarrow> 'w eng" where
  "fresh_locals s = s \<lparr> en_handle := new_handle [] [] [] [], en_snapshot_id := None, en_jail_name := None, en_conf_path := None,
     en_jail_created := False, en_run_completed := False, en_log := None, en_jail_ip := None, en_vnet_host_if := None,
     en_vnet_jail_if := None, en_vnet_host_ip := None, en_vnet_jail_ip := None \<rparr>"

text \<open>Before the \<^verbatim>\<open>try\<close>: an exception here leaves everything as it is.\<close>

definition before_try ::
  "'w engine_env \<Rightarrow> run_opts \<Rightarrow> string \<Rightarrow> (network_spec option \<times> bool \<times> string option, 'w) job" where
  "before_try env opts image_ref =
     bind (of_result (network_spec_of (op_network opts))) (\<lambda>spec.
     bind (devfs_guard env opts) (\<lambda>delegation_ok.
     bind (resolve_and_unpack env opts image_ref) (\<lambda>image_id.
     bind (clone_rootfs env image_ref) (\<lambda>_.
     done_with (spec, delegation_ok, image_id)))))"

text \<open>The \<^verbatim>\<open>try\<close> block up to the command: the name of the jail and the command's environment.\<close>

definition make_jail ::
  "'w engine_env \<Rightarrow> run_opts \<Rightarrow> string \<Rightarrow> network_spec option \<Rightarrow> bool \<Rightarrow> string option \<Rightarrow> (string \<times> (string \<times> string) list, 'w) job" where
  "make_jail env opts image_ref spec delegation_ok image_id =
     bind (fill_root env opts image_ref image_id) (\<lambda>(cmd_env, linuxulator).
     bind (name_jail opts) (\<lambda>jail_name.
     bind (setup_network env opts spec jail_name) (\<lambda>_.
     bind (start_jail env opts spec delegation_ok linuxulator jail_name) (\<lambda>_.
     bind (equip_jail env opts image_ref linuxulator jail_name) (\<lambda>_.
     done_with (jail_name, cmd_env))))))"

definition finish_run :: "'w engine_env \<Rightarrow> run_opts \<Rightarrow> (store_exc + int) \<times> 'w eng \<Rightarrow> (store_exc + int) \<times> 'w eng" where
  "finish_run env opts rs = (fst rs, teardown env opts (fst rs) (snd rs))"

definition try_block ::
  "'w engine_env \<Rightarrow> run_opts \<Rightarrow> string \<Rightarrow> string list \<Rightarrow> network_spec option \<Rightarrow> bool \<Rightarrow> string option
   \<Rightarrow> 'w eng \<Rightarrow> ((store_exc + int) \<times> 'w eng) option" where
  "try_block env opts image_ref cmd spec delegation_ok image_id s =
     (case make_jail env opts image_ref spec delegation_ok image_id s of
        (Inl e, s') \<Rightarrow> Some (Inl e, s')
      | (Inr (jail_name, cmd_env), s') \<Rightarrow> run_command env opts jail_name cmd cmd_env s')"

definition run_async ::
  "'w engine_env \<Rightarrow> run_opts \<Rightarrow> string \<Rightarrow> string list \<Rightarrow> 'w eng \<Rightarrow> ((store_exc + int) \<times> 'w eng) option" where
  "run_async env opts image_ref cmd s =
     (case before_try env opts image_ref (fresh_locals s) of
        (Inl e, s') \<Rightarrow> Some (Inl e, s')
      | (Inr (spec, delegation_ok, image_id), s') \<Rightarrow>
          map_option (finish_run env opts) (try_block env opts image_ref cmd spec delegation_ok image_id s'))"

section \<open>What the parts of a run leave alone\<close>

definition keeps :: "('w eng \<Rightarrow> 'c) \<Rightarrow> ('a, 'w) job \<Rightarrow> bool" where
  "keeps p m \<longleftrightarrow> (\<forall>s. p (snd (m s)) = p s)"

lemma keepsD: "keeps p m \<Longrightarrow> m s = (r, s') \<Longrightarrow> p s' = p s"
  unfolding keeps_def by (metis snd_conv)

lemma keeps_bind: "keeps p m \<Longrightarrow> (\<And>x. keeps p (f x)) \<Longrightarrow> keeps p (bind m f)"
  by (auto simp: keeps_def bind_def split: prod.splits sum.splits) (metis snd_conv)+

lemma keeps_basic [simp, intro!]:
  "keeps p (done_with x)" "keeps p (fail_with e)" "keeps p (of_result r)"
  by (simp_all add: keeps_def done_with_def fail_with_def of_result_def)

lemma keeps_when [intro!]: "(b \<Longrightarrow> keeps p m) \<Longrightarrow> keeps p (when_so b m)"
  by (simp add: when_so_def)

lemma keeps_change: "(\<And>s. p (f s) = p s) \<Longrightarrow> keeps p (change f)"
  by (simp add: keeps_def change_def)

lemma keepsI: "(\<And>s. p (snd (m s)) = p s) \<Longrightarrow> keeps p m" and keeps_at: "keeps p m \<Longrightarrow> p (snd (m s)) = p s"
  by (simp_all add: keeps_def)

lemma snd_basic [simp]:
  "snd (done_with x s) = s" "snd (fail_with e s) = s" "snd (of_result r s) = s"
  "snd (when_so b m s) = (if b then snd (m s) else s)" "snd (change f s) = f s"
  by (simp_all add: done_with_def fail_with_def of_result_def when_so_def change_def)

text \<open>The contract of a view of the state that shows neither the host nor anything that is only
  remembered for undoing it: the quiet parts of a run do not change it.  A view of the run's root may show
  the identity of its handle, which mounting keeps; a view of the run shows nothing of the handle.\<close>

locale root_frame =
  fixes view :: "'w eng \<Rightarrow> 'c"
  assumes view_host [simp]: "\<And>s h. view (s \<lparr> en_host := h \<rparr>) = view s"
    and view_same_handle: "\<And>s h x. h_id x = h_id (en_handle s) \<Longrightarrow> view (s \<lparr> en_host := h, en_handle := x \<rparr>) = view s"
begin

lemma view_on_host [simp]: "view (snd (on_host m s)) = view s"
  by (simp add: on_host_def split_beta)

lemma view_on_net [simp]: "view (snd (on_net env m s)) = view s"
  by (simp add: on_net_def split: prod.splits sum.splits)

lemma view_try_command [simp]: "view (snd (try_command env argv s)) = view s"
  by (simp add: try_command_def)

lemma view_mount [simp]: "view (snd (mount_into env binds s)) = view s"
  by (simp add: mount_into_def split_beta view_same_handle store_mount_handle)

lemma keeps_quiet [intro!]:
  "keeps view (on_host m)" "keeps view (on_net env nm)" "keeps view (try_command env argv)" "keeps view (mount_into env binds)"
  by (simp_all add: keeps_def)

lemma keeps_manifest: "keeps view (root_manifest env image_ref image_id)"
proof -
  have "keeps view (bind (on_host k) (\<lambda>manifest. bind (of_result (f manifest)) (\<lambda>_. done_with manifest)))"
    for k :: "(json, 'w) act" and f :: "json \<Rightarrow> store_exc + unit"
    by (intro keeps_bind keeps_quiet keeps_basic)
  then show ?thesis by (intro keepsI) (simp add: root_manifest_def keeps_at split: root_kind.split)
qed

lemma keeps_bakery: "keeps view (mount_bakery_base env manifest)"
  unfolding mount_bakery_base_def by (auto intro!: keeps_bind)

lemma keeps_linuxulator: "keeps view (setup_linuxulator env manifest)"
proof -
  have m: "keeps view (\<lambda>s. on_host (k s) s)" for k :: "'w eng \<Rightarrow> (unit, 'w) act" by (rule keepsI) simp
  show ?thesis unfolding setup_linuxulator_def by (intro keeps_bind keeps_when keeps_quiet keeps_basic m)
qed

lemma keeps_fill: "keeps view (fill_root env opts image_ref image_id)"
proof -
  have a: "keeps view (\<lambda>s. on_host (k s) s)" for k :: "'w eng \<Rightarrow> (unit, 'w) act" by (rule keepsI) simp
  have c: "keeps view (copy_resolv_conf env n)" for n
    by (rule keepsI) (simp add: copy_resolv_conf_def Let_def)
  show ?thesis unfolding fill_root_def
    by (intro keeps_bind keeps_manifest keeps_bakery a c keeps_linuxulator keeps_when keeps_quiet keeps_basic)
qed

end

locale run_frame = root_frame view for view :: "'w eng \<Rightarrow> 'c" +
  assumes view_handle [simp]: "\<And>s x. view (s \<lparr> en_handle := x \<rparr>) = view s"
    and view_conf [simp]: "\<And>s x. view (s \<lparr> en_conf_path := x \<rparr>) = view s"
    and view_log [simp]: "\<And>s x. view (s \<lparr> en_log := x \<rparr>) = view s"
    and view_vnet_ifs [simp]: "\<And>s x y. view (s \<lparr> en_vnet_host_if := x, en_vnet_jail_if := y \<rparr>) = view s"
    and view_vnet_ips [simp]: "\<And>s k x y. view (s \<lparr> en_vnet_next_ip := k, en_vnet_host_ip := x, en_vnet_jail_ip := y \<rparr>) = view s"
begin

lemma keeps_guard: "keeps view (devfs_guard env opts)"
  unfolding devfs_guard_def by (intro keeps_bind) (auto intro!: keeps_bind)

lemma keeps_clone: "keeps view (clone_rootfs env image_ref)"
proof -
  have h: "keeps view (set_handle ph)" for ph by (simp add: set_handle_def keeps_change)
  have m: "keeps view (\<lambda>s. mount_into env (b s) s)" for b by (rule keepsI) simp
  have "keeps view (bind (on_host k) (\<lambda>ph. bind (set_handle ph) (\<lambda>_ s. mount_into env (b s) s)))" for k b
    by (intro keeps_bind keeps_quiet h m)
  moreover have "keeps view (bind (on_host k) set_handle)" for k by (intro keeps_bind keeps_quiet h)
  ultimately show ?thesis
    by (intro keepsI) (simp add: clone_rootfs_def keeps_at split: root_kind.split)
qed

lemma keeps_vnet: "keeps view (setup_vnet env jail_name)"
proof -
  have i: "keeps view (change (\<lambda>s. s \<lparr> en_vnet_host_if := Some host_if, en_vnet_jail_if := Some jail_if \<rparr>))" for host_if jail_if
    by (simp add: keeps_change)
  have a: "keeps view (\<lambda>s. let ((host_ip, jail_ip), next) = alloc_vnet_ip (en_vnet_next_ip s)
               in (Inr host_ip, s \<lparr> en_vnet_next_ip := next, en_vnet_host_ip := Some host_ip, en_vnet_jail_ip := Some jail_ip \<rparr>))"
    by (rule keepsI) (simp add: split_beta)
  have r: "keeps view (case x of (host_if, jail_if) \<Rightarrow> f host_if jail_if)" if "\<And>h j. keeps view (f h j)" for x :: "string \<times> string" and f :: "_ \<Rightarrow> _ \<Rightarrow> (unit, 'w) job"
    using that by (cases x) simp
  show ?thesis unfolding setup_vnet_def by (intro keeps_bind keeps_quiet r i a)
qed

lemma keeps_publish: "keeps view (setup_publish env opts jail_name)"
  by (rule keepsI) (simp add: setup_publish_def split: option.splits)

lemma keeps_conf: "keeps view (write_conf env text)"
  unfolding write_conf_def by (intro keeps_bind keeps_quiet keeps_change) simp

lemma keeps_inside: "keeps view (setup_vnet_inside env jail_name linuxulator)"
  by (rule keepsI) (simp add: setup_vnet_inside_def split: option.splits)

lemma keeps_open_log: "keeps view (open_log env jail_name)"
  by (rule keepsI) (simp add: open_log_def split_beta Let_def)

lemma keeps_limits: "keeps view (limit_jail env opts jail_name)"
  by (simp add: limit_jail_def keeps_change)

lemma keeps_read_only: "keeps view (make_read_only env opts)"
  by (rule keepsI) (simp add: make_read_only_def)

lemma keeps_build_conf:
  "keeps view (\<lambda>s. on_host (build_jail_conf (ee_tool env) (run_jail_params opts spec ok lx jail_name s)) s)"
  by (rule keepsI) simp

text \<open>And the quiet parts of the \<^verbatim>\<open>finally\<close> block.\<close>

lemma view_remove [simp]: "view (remove_jail env jail_name s) = view s"
  by (simp add: remove_jail_def unlink_conf_def Let_def split: option.splits)

lemma view_ignoring [simp]: "view (ignoring (on_net env m) s) = view s"
  by (simp add: ignoring_def)

lemma view_release_vnet [simp]: "view (release_vnet env jail_name s) = view s"
  by (simp add: release_vnet_def split: option.splits)

lemma view_destroy [simp]: "view (destroy_root env opts s) = view s"
  by (simp add: destroy_root_def split_beta Let_def)

end

text \<open>What is left to see: the addresses in use with the run's own, and how far the run has come with
  what the ledger says of it.\<close>

definition ips :: "'w eng \<Rightarrow> string list \<times> string option \<times> string option" where
  "ips s = (en_used_ips s, en_jail_ip s, en_jail_name s)"

interpretation run_ips: run_frame ips
  by unfold_locales (simp_all add: ips_def)

definition progress :: "'w eng \<Rightarrow> db_file \<times> string option \<times> string option \<times> bool \<times> bool" where
  "progress s = (en_ledger s, en_snapshot_id s, en_jail_name s, en_jail_created s, en_run_completed s)"

interpretation run_progress: run_frame progress
  by unfold_locales (simp_all add: progress_def)

definition recorded :: "'w eng \<Rightarrow> db_file \<times> bool" where "recorded s = (en_ledger s, en_jail_created s)"

interpretation run_recorded: run_frame recorded
  by unfold_locales (simp_all add: recorded_def)

definition root_id :: "'w eng \<Rightarrow> string" where "root_id s = h_id (en_handle s)"

interpretation run_root: root_frame root_id
  by unfold_locales (simp_all add: root_id_def)

end
