(* ===== verification/EngineRun.thy ===== *)
theory EngineRun
  imports Engine
begin

text \<open>
  What holds of a whole run of \<^verbatim>\<open>runtime/engine.py\<close>: the addresses it gives back, the exact commands
  of its teardown, its exit code and its row in the ledger, and what it does to others on the host.
\<close>

section \<open>Addresses\<close>

lemma ips_snapshot [intro!]: "keeps ips (set_snapshot snap)"
  by (simp add: set_snapshot_def keeps_change ips_def)

lemma ips_unpack: "keeps ips (resolve_and_unpack env opts image_ref)"
proof -
  have i: "keeps ips (resolve_image env opts image_ref)"
    unfolding resolve_image_def by (auto split: option.split)
  show ?thesis
    unfolding resolve_and_unpack_def
    by (cases "root_kind_of image_ref") (auto intro!: keeps_bind i)
qed

lemma ips_before: "keeps ips (before_try env opts image_ref)"
  unfolding before_try_def by (intro keeps_bind run_ips.keeps_guard run_ips.keeps_clone ips_unpack keeps_basic)

text \<open>From one assertion on the state to another, whatever a job gives.\<close>

definition leads :: "('w eng \<Rightarrow> bool) \<Rightarrow> ('a, 'w) job \<Rightarrow> ('w eng \<Rightarrow> bool) \<Rightarrow> bool" where
  "leads P m Q \<longleftrightarrow> (\<forall>s. P s \<longrightarrow> Q (snd (m s)))"

lemma leads_bind:
  "leads P m R \<Longrightarrow> (\<And>s. R s \<Longrightarrow> Q s) \<Longrightarrow> (\<And>x. leads R (f x) Q) \<Longrightarrow> leads P (bind m f) Q"
  by (auto simp: leads_def bind_def split: prod.splits sum.splits)

text \<open>A run has at most one address, which was not in use before it.\<close>

definition one_ip :: "string list \<Rightarrow> 'w eng \<Rightarrow> bool" where
  "one_ip u s \<longleftrightarrow> (case ips s of (used, None, n) \<Rightarrow> used = u
     | (used, Some ip, n) \<Rightarrow> used = ip # u \<and> ip \<notin> set u \<and> n \<noteq> None)"

lemma one_ip_keeps: "keeps ips m \<Longrightarrow> leads (one_ip u) m (one_ip u)"
  by (simp add: leads_def keeps_def one_ip_def)

lemma take_jail_ip_fresh:
  "leads (\<lambda>s. \<exists>n. ips s = (u, None, Some n)) take_jail_ip (one_ip u)"
proof -
  have "ip \<notin> set u" if "alloc_jail_ip u DEFAULT_POOL 24 = Some ip" for ip
    using that unfolding alloc_jail_ip_def find_Some_iff by auto
  then show ?thesis
    by (auto simp: leads_def take_jail_ip_def one_ip_def ips_def split: option.split)
qed

lemma setup_network_ip:
  "leads (\<lambda>s. \<exists>n. ips s = (u, None, Some n)) (setup_network env opts spec jail_name) (one_ip u)"
proof -
  let ?named = "\<lambda>s. \<exists>n. ips s = (u, None, Some n)"
  have weak: "?named s \<Longrightarrow> one_ip u s" for s :: "'a eng" by (auto simp: one_ip_def)
  have quiet: "keeps ips m \<Longrightarrow> leads ?named m ?named" for m :: "('b, 'a) job"
    by (simp add: leads_def keeps_def)
  have r: "keeps ips (\<lambda>s. done_with (k s) s)" for k :: "'a eng \<Rightarrow> 'b" by (rule keepsI) simp
  have last: "leads ?named (bind take_jail_ip (\<lambda>ip. on_net env (k ip))) (one_ip u)" for k :: "string \<Rightarrow> _ \<Rightarrow> _ \<Rightarrow> (unit, 'a host) net_result"
    by (rule leads_bind [OF take_jail_ip_fresh]) (auto intro: one_ip_keeps)
  have route: "leads ?named (case x of None \<Rightarrow> fail_with no_default_route
      | Some ext \<Rightarrow> bind take_jail_ip (\<lambda>ip. on_net env (k ext ip))) (one_ip u)"
    for x and k :: "string \<Rightarrow> string \<Rightarrow> _ \<Rightarrow> _ \<Rightarrow> (unit, 'a host) net_result"
    using last [of "k _"] weak by (cases x) (simp_all add: leads_def)
  have allow: "leads ?named (setup_allow env jail_name sp) (one_ip u)" for sp
    unfolding setup_allow_def
    by (rule leads_bind [OF quiet weak], rule keeps_basic, assumption)+
      (rule leads_bind [OF quiet weak], rule r, assumption, rule leads_bind [OF quiet weak], rule run_ips.keeps_quiet, assumption, rule route)
  have "leads ?named (case spec of None \<Rightarrow> done_with () | Some sp \<Rightarrow> setup_allow env jail_name sp) (one_ip u)"
    using allow weak by (auto simp: leads_def split: option.split)
  then show ?thesis
    unfolding setup_network_def
    by (rule leads_bind) (auto intro!: one_ip_keeps keeps_bind run_ips.keeps_vnet run_ips.keeps_publish)
qed

lemma ips_start: "keeps ips (start_jail env opts spec ok lx jail_name)"
proof -
  have "keeps ips (create_jail env n)" for n
    unfolding create_jail_def by (intro keeps_bind run_ips.keeps_quiet keeps_change) (simp add: ips_def)
  then show ?thesis
    unfolding start_jail_def
    by (intro keeps_bind run_ips.keeps_read_only run_ips.keeps_build_conf run_ips.keeps_conf)
qed

lemma ips_equip: "keeps ips (equip_jail env opts image_ref lx jail_name)"
proof -
  have "keeps ips (record_run_start env n ref p)" for n ref p
    unfolding record_run_start_def by (rule keeps_change) (simp add: ips_def split: option.split)
  then show ?thesis
    unfolding equip_jail_def
    by (intro keeps_bind run_ips.keeps_inside run_ips.keeps_open_log run_ips.keeps_limits)
qed

lemma make_jail_ip:
  "leads (\<lambda>s. ips s = (u, None, None)) (make_jail env opts image_ref spec ok image_id) (one_ip u)"
proof -
  let ?fresh = "\<lambda>s. ips s = (u, None, None)" and ?named = "\<lambda>s. \<exists>n. ips s = (u, None, Some n)"
  have weak: "?fresh s \<Longrightarrow> one_ip u s" "?named s \<Longrightarrow> one_ip u s" for s :: "'a eng" by (auto simp: one_ip_def)
  have fill: "leads ?fresh (fill_root env opts image_ref image_id) ?fresh"
    by (simp add: leads_def keeps_at [OF run_ips.keeps_fill])
  have name: "leads ?fresh (name_jail opts) ?named"
    by (auto simp: leads_def name_jail_def ips_def Let_def)
  have rest: "leads ?fresh (bind (name_jail opts) (\<lambda>jail_name.
      bind (setup_network env opts spec jail_name) (\<lambda>_.
      bind (start_jail env opts spec ok lx jail_name) (\<lambda>_.
      bind (equip_jail env opts image_ref lx jail_name) (\<lambda>_. done_with (jail_name, cmd_env)))))) (one_ip u)"
    for lx and cmd_env :: "(string \<times> string) list"
    by (rule leads_bind [OF name weak(2)], assumption, rule leads_bind [OF setup_network_ip], assumption,
        rule one_ip_keeps, intro keeps_bind ips_start ips_equip keeps_basic)
  show ?thesis
    unfolding make_jail_def
    by (rule leads_bind [OF fill weak(1)], assumption) (use rest in \<open>simp split: prod.split\<close>)
qed

lemma run_command_ips: "run_command env opts n cmd e s = Some (r, s') \<Longrightarrow> ips s' = ips s"
  by (auto simp: run_command_def ips_def Let_def split: if_splits prod.splits)

lemma try_block_ip:
  assumes "ips s = (u, None, None)" and "try_block env opts image_ref cmd spec ok image_id s = Some (r, s')"
  shows "one_ip u s'"
proof -
  obtain m s1 where m: "make_jail env opts image_ref spec ok image_id s = (m, s1)" by (rule prod.exhaust)
  have "one_ip u s1" using make_jail_ip [of u env opts image_ref spec ok image_id] assms(1) m by (simp add: leads_def) (metis snd_conv)
  moreover have "ips s' = ips s1"
    using assms(2) m run_command_ips by (auto simp: try_block_def split: sum.splits prod.splits)
  ultimately show ?thesis by (simp add: one_ip_def)
qed

lemma ips_exit [simp]: "ips (record_run_exit env n r s) = ips s"
  by (simp add: record_run_exit_def ips_def)

lemma ips_fields: "ips s = (u, i, n) \<longleftrightarrow> en_used_ips s = u \<and> en_jail_ip s = i \<and> en_jail_name s = n"
  by (simp add: ips_def)

lemma release_ip_used:
  assumes "one_ip u s"
  shows "en_used_ips (release_ip env n s) = u"
proof (cases "en_jail_ip s")
  case None
  then show ?thesis using assms by (simp add: release_ip_def one_ip_def ips_def)
next
  case (Some ip)
  define s1 where "s1 = ignoring (on_net env (\<lambda>nv. teardown_network nv n ip)) s"
  have "ips s1 = ips s" by (simp add: s1_def)
  then have "en_used_ips s1 = ip # u" "ip \<notin> set u"
    using assms Some by (simp_all add: one_ip_def ips_def)
  then show ?thesis using Some by (auto simp: release_ip_def filter_id_conv simp flip: s1_def)
qed

lemma teardown_ip:
  assumes "one_ip u s"
  shows "en_used_ips (teardown env opts r s) = u"
proof -
  have used: "en_used_ips (destroy_root env opts x) = en_used_ips x" for x :: "'a eng"
    using run_ips.view_destroy [of env opts x] by (simp add: ips_def)
  show ?thesis
  proof (cases "en_jail_name s")
    case None
    then show ?thesis using assms by (simp add: teardown_def used one_ip_def ips_def split: option.splits)
  next
    case (Some n)
    have "one_ip u (remove_jail env n s)" using assms by (simp add: one_ip_def)
    then have "en_used_ips (release_ip env n (remove_jail env n s)) = u" by (rule release_ip_used)
    then show ?thesis
      using Some ips_exit [of env n r "release_vnet env n (release_ip env n (remove_jail env n s))"]
        run_ips.view_release_vnet [of env n "release_ip env n (remove_jail env n s)"]
      by (simp add: teardown_def used ips_def)
  qed
qed

text \<open>C29: However a run ends, the addresses in use afterwards are those in use before it: an address
  taken for the jail is given back on every path, also where the commands of the teardown fail,
  and no other run's address is given back with it.\<close>

theorem run_gives_address_back:
  "case run_async env opts image_ref cmd s of None \<Rightarrow> True | Some (r, s') \<Rightarrow> en_used_ips s' = en_used_ips s"
proof -
  let ?s0 = "fresh_locals s"
  have s0: "ips ?s0 = (en_used_ips s, None, None)" by (simp add: ips_def fresh_locals_def)
  obtain b s1 where b: "before_try env opts image_ref ?s0 = (b, s1)" by (rule prod.exhaust)
  have s1: "ips s1 = (en_used_ips s, None, None)" using keepsD [OF ips_before b] s0 by simp
  show ?thesis
  proof (cases b)
    case (Inl e)
    then show ?thesis using b s1 by (simp add: run_async_def ips_def)
  next
    case (Inr x)
    obtain spec ok i where x: "x = (spec, ok, i)" by (cases x)
    have "en_used_ips (teardown env opts r s2) = en_used_ips s"
      if "try_block env opts image_ref cmd spec ok i s1 = Some (r, s2)" for r s2
      by (rule teardown_ip) (rule try_block_ip [OF s1 that])
    then show ?thesis
      using b by (auto simp: run_async_def Inr x finish_run_def split: option.split)
  qed
qed

section \<open>The commands of the teardown\<close>

definition destroy_log :: "(string list \<Rightarrow> cmd_result) \<Rightarrow> store \<Rightarrow> handle \<Rightarrow> string list list" where
  "destroy_log f st hdl =
     jail_stop_log hdl @ teardown_log f (h_mounts hdl) @
     (let plain = zfs_destroy_cmd False (h_dataset hdl); force = zfs_destroy_cmd True (h_dataset hdl) in
      if h_thin hdl \<or> st_backend st = Plaindir then []
      else plain # (if answers_ok f plain then [] else force # (if answers_ok f force then [] else [force])))"

lemma destroy_log_answering:
  "snd (snd (snd (destroy (answering f) lim st hdl h))) = snd h @ destroy_log f st hdl"
proof (cases "h_thin hdl \<or> st_backend st = Plaindir")
  case True
  then show ?thesis
    by (auto simp: destroy_answering destroy_log_def teardown_state_def on_tree_def split_beta split: prod.splits option.splits)
next
  case False
  then show ?thesis
    by (simp add: destroy_answering destroy_log_def destroy_dataset_zfs_def run_plain_answering zfs_destroy_cmd_def
        teardown_state_def Let_def)
qed

definition remove_alias_cmd :: "string \<Rightarrow> string list" where
  "remove_alias_cmd ip = [''ifconfig'', LO_IFACE, ''inet'', ip, ''-alias'']"

definition network_log :: "(string list \<Rightarrow> cmd_result) \<Rightarrow> string \<Rightarrow> string option \<Rightarrow> string option \<Rightarrow> string list list" where
  "network_log f n jail_ip host_if =
     (let after = (\<lambda>c. flush_cmd n # (if raised f (flush_cmd n) then [] else [c])) in
      (case jail_ip of None \<Rightarrow> [] | Some ip \<Rightarrow> after (remove_alias_cmd ip)) @
      (case host_if of None \<Rightarrow> [] | Some i \<Rightarrow> after [''ifconfig'', i, ''destroy'']))"

definition jail_removal_log :: "string \<Rightarrow> path option \<Rightarrow> string list list" where
  "jail_removal_log n conf = [kill_cmd n ''KILL'', remove_cmd conf n, [''rctl'', ''-r'', rctl_subject n]]"

definition teardown_commands :: "(string list \<Rightarrow> cmd_result) \<Rightarrow> store \<Rightarrow> run_opts \<Rightarrow> 'w eng \<Rightarrow> string list list" where
  "teardown_commands f st opts s =
     (case en_jail_name s of None \<Rightarrow> []
      | Some n \<Rightarrow> jail_removal_log n (en_conf_path s) @ network_log f n (en_jail_ip s) (en_vnet_host_if s)) @
     (if op_rm opts then destroy_log f st (en_handle s) else [])"

abbreviation log_of :: "string list list eng \<Rightarrow> string list list" where "log_of s \<equiv> snd (en_host s)"

lemma tolerated_answering [simp]: "tolerated (answering f) argv h = (fst h, snd h @ [argv])"
  by (simp add: tolerated_def answering_def)

text \<open>What the last steps of the teardown still read.\<close>

definition undo_view :: "'w eng \<Rightarrow> handle \<times> string option \<times> string option \<times> path option" where
  "undo_view s = (en_handle s, en_jail_ip s, en_vnet_host_if s, en_conf_path s)"

lemma remove_jail_answering:
  assumes "ee_tool env = answering f"
  shows "log_of (remove_jail env n s) = log_of s @ jail_removal_log n (en_conf_path s)"
    and "undo_view (remove_jail env n s) = undo_view s"
  using assms
  by (auto simp: remove_jail_def unlink_conf_def jail_removal_log_def clear_rctl_def undo_view_def Let_def answering_def split: option.splits)

lemma net_do_answering:
  assumes "ee_tool env = answering f"
  shows "net_do (net_env_of env) False argv h =
    (if raised f argv then Inl (case f argv of Spawn_error e \<Rightarrow> Spawn_failed e | Completed _ _ _ \<Rightarrow> undefined) else Inr (),
     (fst h, snd h @ [argv]))"
  using assms by (simp add: net_do_def net_run_def net_env_of_def answering_def raised_def split: cmd_result.splits)

lemma release_answering:
  assumes "ee_tool env = answering f"
  shows "log_of (release_vnet env n (release_ip env n s)) = log_of s @ network_log f n (en_jail_ip s) (en_vnet_host_if s)"
    and "undo_view (release_vnet env n (release_ip env n s)) = undo_view s"
proof -
  have two: "log_of (ignoring (on_net env (\<lambda>nv w. net_then (net_do nv False (flush_cmd n) w) (\<lambda>_. net_do nv False c))) x)
      = log_of x @ flush_cmd n # (if raised f (flush_cmd n) then [] else [c])"
    and same: "undo_view (ignoring (on_net env m) x) = undo_view x" for c m and x :: "string list list eng"
    by (simp_all add: ignoring_def on_net_def net_do_answering [OF assms] undo_view_def split: prod.splits sum.splits)
  have net: "(\<lambda>nv. teardown_network nv n ip) = (\<lambda>nv w. net_then (net_do nv False (flush_cmd n) w) (\<lambda>_. net_do nv False (remove_alias_cmd ip)))"
    for ip by (simp add: teardown_network_def flush_anchor_def remove_alias_def remove_alias_cmd_def fun_eq_iff)
  have vnet: "(\<lambda>nv. teardown_vnet nv i n) = (\<lambda>nv w. net_then (net_do nv False (flush_cmd n) w) (\<lambda>_. net_do nv False [''ifconfig'', i, ''destroy'']))"
    for i by (simp add: teardown_vnet_def destroy_epair_def fun_eq_iff)
  have ip: "log_of (release_ip env n x) = log_of x @ network_log f n (en_jail_ip x) None"
    and ip': "undo_view (release_ip env n x) = undo_view x" for x :: "string list list eng"
    using same [of _ x] by (auto simp: release_ip_def network_log_def net two undo_view_def Let_def split: option.splits)
  have "log_of (release_vnet env n x) = log_of x @ network_log f n None (en_vnet_host_if x)"
    and v': "undo_view (release_vnet env n x) = undo_view x" for x :: "string list list eng"
    using same by (auto simp: release_vnet_def network_log_def vnet two Let_def split: option.splits)
  then show "log_of (release_vnet env n (release_ip env n s)) = log_of s @ network_log f n (en_jail_ip s) (en_vnet_host_if s)"
    using ip' [of s] by (simp add: ip network_log_def Let_def undo_view_def)
  show "undo_view (release_vnet env n (release_ip env n s)) = undo_view s" by (simp add: v' ip')
qed

lemma teardown_answering:
  assumes "ee_tool env = answering f"
  shows "log_of (teardown env opts r s) = log_of s @ teardown_commands f (ee_store env) opts s"
proof -
  have e: "log_of (record_run_exit env n r x) = log_of x" "undo_view (record_run_exit env n r x) = undo_view x"
    for n and x :: "string list list eng" by (simp_all add: record_run_exit_def undo_view_def)
  have d: "log_of (destroy_root env opts x) = log_of x @ (if op_rm opts then destroy_log f (ee_store env) (en_handle x) else [])"
    for x :: "string list list eng"
    using destroy_log_answering [of f "ee_lim env" "ee_store env" "en_handle x" "en_host x"]
    by (simp add: destroy_root_def assms split_beta Let_def)
  show ?thesis
  proof (cases "en_jail_name s")
    case (Some n)
    let ?x = "release_vnet env n (release_ip env n (remove_jail env n s))"
    have "undo_view ?x = undo_view s" by (simp add: release_answering [OF assms] remove_jail_answering [OF assms])
    moreover have "undo_view (remove_jail env n s) = undo_view s" by (rule remove_jail_answering [OF assms])
    ultimately have "log_of ?x = log_of s @ jail_removal_log n (en_conf_path s) @ network_log f n (en_jail_ip s) (en_vnet_host_if s)"
      and "en_handle (record_run_exit env n r ?x) = en_handle s"
      using e(2) [of n ?x] by (simp_all add: release_answering [OF assms] remove_jail_answering [OF assms] undo_view_def)
    then show ?thesis using Some by (simp add: teardown_def teardown_commands_def d e)
  qed (simp add: teardown_def teardown_commands_def d)
qed

lemma run_async_ended:
  assumes "before_try env opts image_ref (fresh_locals s) = (Inr (spec, ok, i), s1)"
    and "try_block env opts image_ref cmd spec ok i s1 = Some (r, s2)"
  shows "run_async env opts image_ref cmd s = Some (r, teardown env opts r s2)"
  using assms by (simp add: run_async_def finish_run_def)

text \<open>C6: The end of a run.  Once the root of a run is there, every way its \<^verbatim>\<open>try\<close> block can end leads
  to the same result for the caller, an exit code or an exception, and to exactly these further
  commands, whatever they answer: if the jail has a name, the signal to its processes, its
  removal (with the configuration file if that was written) and the removal of its limits, then
  the network's own teardown in its two forms, each given up only where \<^verbatim>\<open>pfctl\<close> cannot be
  started; and with \<^verbatim>\<open>--rm\<close> the destruction of the root.\<close>

theorem run_teardown_exact:
  assumes "ee_tool env = answering f"
    and "before_try env opts image_ref (fresh_locals s) = (Inr (spec, ok, i), s1)"
    and "try_block env opts image_ref cmd spec ok i s1 = Some (r, s2)"
  shows "\<exists>s3. run_async env opts image_ref cmd s = Some (r, s3)
    \<and> snd (en_host s3) = snd (en_host s2) @ teardown_commands f (ee_store env) opts s2"
  using run_async_ended [OF assms(2,3)] teardown_answering [OF assms(1)] by blast

definition demo_opts :: run_opts where
  "demo_opts = \<lparr> op_rm = True, op_volumes = [], op_env = [], op_workdir = None, op_network = ''none'', op_raw_sockets = False,
     op_rctl_enabled = False, op_rctl_rules = [], op_unrestricted_devfs = False, op_image_id = None, op_jail_name = None,
     op_publish = [], op_tmpfs = [], op_read_only = False, op_interactive = False \<rparr>"

definition demo_env :: "(string list \<Rightarrow> cmd_result) \<Rightarrow> string list list engine_env" where
  "demo_env f = \<lparr> ee_env = (\<lambda>_. None), ee_tool = answering f, ee_kind = (\<lambda>_. Other_failure), ee_lim = 8,
     ee_store = image_store, ee_sha256 = (\<lambda>s. s), ee_names = demo_names, ee_wait = (\<lambda>_ h. h),
     ee_probe_and_bake = (\<lambda>_ _. give (JObj [])), ee_is_ipv6 = (\<lambda>_. False), ee_resolver = (\<lambda>_. Inr []),
     ee_faults = no_faults, ee_now = (''t1'', ''t2''), ee_pid = ''7'', ee_scratch = [''tmp'', ''p''], ee_run_id = ''r'',
     ee_conf_file = [''tmp'', ''c''], ee_chunks = (\<lambda>_ _. []), ee_pty = (\<lambda>_ _. None) \<rparr>"

definition demo_eng :: "fs \<Rightarrow> run_row list \<Rightarrow> string list list eng" where
  "demo_eng fs rows = fresh_locals (\<lparr> en_host = (fs, []), en_ledger = \<lparr> df_table = Some rows, df_has_log_path = True \<rparr>,
     en_used_ips = [], en_vnet_next_ip = 0, en_handle = new_handle [] [] [] [], en_snapshot_id = None, en_jail_name = None,
     en_conf_path = None, en_jail_created = False, en_run_completed = False, en_log = None, en_jail_ip = None,
     en_vnet_host_if = None, en_vnet_jail_if = None, en_vnet_host_ip = None, en_vnet_jail_ip = None \<rparr>)"

definition all_fine :: "string list \<Rightarrow> cmd_result" where "all_fine c = Completed 0 [] []"

definition tmp_tree :: fs where "tmp_tree = [([''tmp''], Dir), ([''bin''], Dir)]"

lemma demo_before:
  "fst (before_try (demo_env all_fine) demo_opts ''thinbase:x'' (fresh_locals (demo_eng tmp_tree []))) = Inr (None, True, None)"
  by code_simp

lemma demo_try:
  "map_option (\<lambda>(r, s). (r, log_of s)) (try_block (demo_env all_fine) demo_opts ''thinbase:x'' [''ls''] None True None
     (snd (before_try (demo_env all_fine) demo_opts ''thinbase:x'' (fresh_locals (demo_eng tmp_tree [])))))
   = Some (Inr 0,
      [[''sysctl'', ''-n'', ''security.jail.jailed''],
       [''mount_nullfs'', ''-o'', ''ro'', ''/bin'', ''/v/runs/r/bin''],
       [''sysctl'', ''-n'', ''security.jail.jailed''],
       [''jail'', ''-f'', ''/tmp/c'', ''-c'', ''jailrun-r''],
       [''jexec'', ''jailrun-r'', ''env'', ''PATH='' @ DEFAULT_PATH, ''ls'']])"
  by code_simp

lemma run_teardown_exact_witness:
  "\<exists>s2 s3. run_async (demo_env all_fine) demo_opts ''thinbase:x'' [''ls''] (demo_eng tmp_tree []) = Some (Inr 0, s3)
     \<and> length (snd (en_host s2)) = 5
     \<and> snd (en_host s3) = snd (en_host s2) @ teardown_commands all_fine image_store demo_opts s2"
proof -
  let ?e = "demo_env all_fine" and ?s = "demo_eng tmp_tree []"
  obtain b s1 where b: "before_try ?e demo_opts ''thinbase:x'' (fresh_locals ?s) = (b, s1)" by (rule prod.exhaust)
  have b': "b = Inr (None, True, None)" using demo_before b by simp
  obtain s2 where t: "try_block ?e demo_opts ''thinbase:x'' [''ls''] None True None s1 = Some (Inr 0, s2)" "length (snd (en_host s2)) = 5"
    using demo_try unfolding b by auto
  have "ee_tool ?e = answering all_fine" "ee_store ?e = image_store" by (simp_all add: demo_env_def)
  then show ?thesis
    using run_teardown_exact [OF _ b [unfolded b'] t(1), of all_fine] t(2) by auto
qed

section \<open>A name that is taken\<close>

lemma progress_network: "keeps progress (setup_network env opts spec jail_name)"
proof -
  have t: "keeps progress take_jail_ip"
    by (rule keepsI) (simp add: take_jail_ip_def progress_def split: option.split)
  have r: "keeps progress (\<lambda>s. done_with (k s) s)" for k :: "'a eng \<Rightarrow> 'b" by (rule keepsI) simp
  have a: "keeps progress (setup_allow env jail_name sp)" for sp
    unfolding setup_allow_def
    by (intro keeps_bind keeps_basic r run_progress.keeps_quiet) (auto intro!: keeps_bind t split: option.split)
  show ?thesis unfolding setup_network_def
    by (intro keeps_bind run_progress.keeps_vnet run_progress.keeps_publish keeps_when) (auto intro: a split: option.split)
qed

text \<open>The ledger before and after a part of a run that may create the jail.\<close>

definition unrecorded :: "db_file \<Rightarrow> 'w eng \<Rightarrow> bool" where
  "unrecorded l s \<longleftrightarrow> en_jail_created s \<or> en_ledger s = l"

definition not_started :: "db_file \<Rightarrow> 'w eng \<Rightarrow> bool" where
  "not_started l s \<longleftrightarrow> \<not> en_jail_created s \<and> en_ledger s = l"

lemma not_started_unrecorded: "not_started l s \<Longrightarrow> unrecorded l s"
  by (simp add: not_started_def unrecorded_def)

lemma not_started_keeps: "keeps progress m \<Longrightarrow> leads (not_started l) m (not_started l)"
  by (simp add: leads_def keeps_def not_started_def progress_def)

lemma created_stays:
  "keeps progress m \<Longrightarrow> leads en_jail_created m en_jail_created"
  by (simp add: leads_def keeps_def progress_def)

lemma start_jail_unrecorded:
  "leads (not_started l) (start_jail env opts spec ok lx n) (unrecorded l)"
    and start_jail_created: "start_jail env opts spec ok lx n s = (Inr (), s') \<Longrightarrow> en_jail_created s'"
proof -
  have c: "leads (not_started l) (create_jail env n) (unrecorded l)"
    unfolding create_jail_def
    by (rule leads_bind [OF not_started_keeps])
      (auto simp: leads_def unrecorded_def not_started_def)
  show "leads (not_started l) (start_jail env opts spec ok lx n) (unrecorded l)"
    unfolding start_jail_def
    by (intro leads_bind [OF not_started_keeps not_started_unrecorded] run_progress.keeps_read_only
        run_progress.keeps_build_conf run_progress.keeps_conf c)
  show "en_jail_created s'" if "start_jail env opts spec ok lx n s = (Inr (), s')"
    using that unfolding start_jail_def create_jail_def
    by (auto simp: bind_def change_def split: prod.splits sum.splits)
qed

lemma leads_bind_ok:
  "leads P m Q \<Longrightarrow> (\<And>x s s'. P s \<Longrightarrow> m s = (Inr x, s') \<Longrightarrow> R s') \<Longrightarrow> (\<And>x. leads R (f x) Q) \<Longrightarrow> leads P (bind m f) Q"
  unfolding leads_def bind_def by (fastforce split: prod.splits sum.splits)

lemma record_start_progress:
  "en_jail_created (snd (record_run_start env n ref p s)) = en_jail_created s"
  by (simp add: record_run_start_def split: option.split)

lemma equip_created: "leads en_jail_created (equip_jail env opts image_ref lx n) en_jail_created"
  unfolding equip_jail_def
  by (rule leads_bind [OF created_stays], rule run_progress.keeps_inside, assumption,
      rule leads_bind [OF created_stays], rule run_progress.keeps_open_log, assumption,
      rule leads_bind [where R = en_jail_created], simp add: leads_def record_start_progress, assumption,
      rule created_stays, rule run_progress.keeps_limits)

lemma make_jail_unrecorded:
  "leads (not_started l) (make_jail env opts image_ref spec ok image_id) (unrecorded l)"
proof -
  have e: "leads en_jail_created (bind (equip_jail env opts image_ref lx n) (\<lambda>_. done_with x)) (unrecorded l)"
    for lx n and x :: "string \<times> (string \<times> string) list"
    using equip_created [of env opts image_ref lx n]
    by (auto simp: leads_def unrecorded_def bind_def done_with_def split: prod.splits sum.splits)
  have j: "leads (not_started l) (bind (start_jail env opts spec ok lx n) (\<lambda>_. bind (equip_jail env opts image_ref lx n) (\<lambda>_. done_with x))) (unrecorded l)"
    for lx n and x :: "string \<times> (string \<times> string) list"
    by (rule leads_bind_ok [OF start_jail_unrecorded _ e]) (simp add: start_jail_created)
  have name: "leads (not_started l) (name_jail opts) (not_started l)"
    by (simp add: leads_def name_jail_def not_started_def Let_def)
  have rest: "leads (not_started l) (bind (name_jail opts) (\<lambda>jail_name.
      bind (setup_network env opts spec jail_name) (\<lambda>_.
      bind (start_jail env opts spec ok lx jail_name) (\<lambda>_.
      bind (equip_jail env opts image_ref lx jail_name) (\<lambda>_. done_with (jail_name, cmd_env)))))) (unrecorded l)"
    for lx and cmd_env :: "(string \<times> string) list"
    by (intro leads_bind [OF name not_started_unrecorded] leads_bind [OF not_started_keeps not_started_unrecorded] progress_network j)
  show ?thesis
    unfolding make_jail_def
    by (rule leads_bind [OF not_started_keeps not_started_unrecorded], rule run_progress.keeps_fill, assumption)
      (use rest in \<open>simp split: prod.split\<close>)
qed

lemma recorded_before: "keeps recorded (before_try env opts image_ref)"
proof -
  have s: "keeps recorded (set_snapshot snap)" for snap
    by (simp add: set_snapshot_def keeps_change recorded_def)
  have i: "keeps recorded (resolve_image env opts image_ref)"
    unfolding resolve_image_def by (auto split: option.split)
  have "keeps recorded (resolve_and_unpack env opts image_ref)"
    unfolding resolve_and_unpack_def by (cases "root_kind_of image_ref") (auto intro!: keeps_bind i s)
  then show ?thesis
    unfolding before_try_def by (intro keeps_bind run_recorded.keeps_guard run_recorded.keeps_clone keeps_basic)
qed

lemma before_try_not_started:
  "before_try env opts image_ref (fresh_locals s) = (b, s1) \<Longrightarrow> not_started (en_ledger s) s1"
  using keepsD [OF recorded_before] by (force simp: not_started_def recorded_def fresh_locals_def)

lemma teardown_unrecorded:
  assumes "\<not> en_jail_created s"
  shows "en_ledger (teardown env opts r s) = en_ledger s"
proof -
  have same: "recorded x = recorded y \<longleftrightarrow> en_ledger x = en_ledger y \<and> en_jail_created x = en_jail_created y" for x y :: "'a eng"
    by (simp add: recorded_def)
  have ip: "recorded (release_ip env n x) = recorded x" for n and x :: "'a eng"
  proof -
    have "recorded (ignoring (on_net env m) x) = recorded x" for m :: "'a host net_env \<Rightarrow> 'a host \<Rightarrow> (unit, 'a host) net_result"
      by simp
    then show ?thesis unfolding same by (simp add: release_ip_def Let_def split: option.split)
  qed
  have "recorded (case en_jail_name s of None \<Rightarrow> s
        | Some n \<Rightarrow> record_run_exit env n r (release_vnet env n (release_ip env n (remove_jail env n s)))) = recorded s"
  proof (cases "en_jail_name s")
    case (Some n)
    let ?x = "release_vnet env n (release_ip env n (remove_jail env n s))"
    have x: "recorded ?x = recorded s" by (simp add: ip)
    then have "\<not> en_jail_created ?x" using assms unfolding same by blast
    then show ?thesis using x Some by (simp add: record_run_exit_def)
  qed simp
  then have "recorded (teardown env opts r s) = recorded s" by (simp add: teardown_def)
  then show ?thesis by (simp add: same)
qed

text \<open>A run that cannot have its name takes the owner's jail down.  A run whose \<^verbatim>\<open>jail -c\<close> failed, as it
  does where a jail of the name given with \<^verbatim>\<open>--name\<close> exists already, has created no jail; it
  still signals all processes of the jail of that name and removes that jail.  The ledger stays
  as it was, so the row of the run that owned the jail still says it is running.\<close>

theorem failed_run_removes_namesake:
  assumes "ee_tool env = answering f"
    and "before_try env opts image_ref (fresh_locals s) = (Inr (spec, ok, i), s1)"
    and "make_jail env opts image_ref spec ok i s1 = (Inl e, s2)"
    and "en_jail_name s2 = Some n" and "\<not> en_jail_created s2"
  shows "\<exists>s3 after. run_async env opts image_ref cmd s = Some (Inl e, s3)
    \<and> snd (en_host s3) = snd (en_host s2) @ [kill_cmd n ''KILL'', remove_cmd (en_conf_path s2) n] @ after
    \<and> en_ledger s3 = en_ledger s"
proof -
  let ?s3 = "teardown env opts (Inl e) s2"
  have t: "try_block env opts image_ref cmd spec ok i s1 = Some (Inl e, s2)" using assms(3) by (simp add: try_block_def)
  have "unrecorded (en_ledger s) s2"
    using make_jail_unrecorded before_try_not_started [OF assms(2)] assms(3) unfolding leads_def by (metis snd_conv)
  then have "en_ledger ?s3 = en_ledger s"
    using assms(5) teardown_unrecorded [OF assms(5)] by (simp add: unrecorded_def)
  moreover have "log_of ?s3 = log_of s2 @ teardown_commands f (ee_store env) opts s2" by (rule teardown_answering [OF assms(1)])
  ultimately show ?thesis
    using run_async_ended [OF assms(2) t] assms(4) by (auto simp: teardown_commands_def jail_removal_log_def)
qed

text \<open>A host with a jail of the name.\<close>

definition taken :: "string list \<Rightarrow> cmd_result" where
  "taken c = (if c = [''jail'', ''-f'', ''/tmp/c'', ''-c'', ''db''] then Completed 1 [] ''jail: db already exists'' else Completed 0 [] [])"

definition named_opts :: run_opts where "named_opts = demo_opts \<lparr> op_jail_name := Some ''db'' \<rparr>"

lemma named_run:
  "(case before_try (demo_env taken) named_opts ''thinbase:x'' (fresh_locals (demo_eng tmp_tree [])) of
      (b, s1) \<Rightarrow> b = Inr (None, True, None) \<and>
        (case make_jail (demo_env taken) named_opts ''thinbase:x'' None True None s1 of
           (r, s2) \<Rightarrow> is_error r \<and> en_jail_name s2 = Some ''db'' \<and> \<not> en_jail_created s2))"
  by code_simp

lemma failed_run_removes_namesake_witness:
  "\<exists>e (s2 :: string list list eng) s3 after. run_async (demo_env taken) named_opts ''thinbase:x'' [] (demo_eng tmp_tree []) = Some (Inl e, s3)
    \<and> snd (en_host s3) = snd (en_host s2) @ [kill_cmd ''db'' ''KILL'', remove_cmd (en_conf_path s2) ''db''] @ after"
proof -
  let ?e = "demo_env taken" and ?s = "demo_eng tmp_tree []"
  obtain b s1 where b: "before_try ?e named_opts ''thinbase:x'' (fresh_locals ?s) = (b, s1)" by (rule prod.exhaust)
  obtain r s2 where m: "make_jail ?e named_opts ''thinbase:x'' None True None s1 = (r, s2)" by (rule prod.exhaust)
  have n: "b = Inr (None, True, None)" "is_error r" "en_jail_name s2 = Some ''db''" "\<not> en_jail_created s2"
    using named_run unfolding b prod.case m by simp_all
  obtain x where r: "r = Inl x" using n(2) by (cases r) simp_all
  have "ee_tool ?e = answering taken" by (simp add: demo_env_def)
  from failed_run_removes_namesake [OF this b [unfolded n(1)] m [unfolded r] n(3,4), of "[]"] show ?thesis by fast
qed

section \<open>The ledger of a run\<close>

lemma bind_Inr:
  assumes "bind m f s = (Inr y, s2)"
  obtains x s1 where "m s = (Inr x, s1)" and "f x s1 = (Inr y, s2)"
  using assms by (auto simp: bind_def split: prod.splits sum.splits)

definition run_rows :: "env \<Rightarrow> db_file \<Rightarrow> run_row list" where
  "run_rows env f = visible_rows (open_run_ledger env f)"

text \<open>The engine and the garbage collector open the same ledger.\<close>

lemma run_ledger_is_gc_ledger:
  "ge_db_path genv = env ''JAILRUN_DB'' \<Longrightarrow> open_run_ledger env f = open_ledger genv f"
  by (simp add: open_run_ledger_def open_ledger_def)

lemma run_rows_written:
  assumes "env ''JAILRUN_DB'' \<noteq> Some '':memory:''"
  shows "run_rows env (ledger_after (set_rows rows (snd (get_conn no_faults (open_run_ledger env f)))) f) = rows"
proof -
  let ?g = "list_env \<lparr> ge_db_path := env ''JAILRUN_DB'' \<rparr>"
  have p: "rd_path (rundb_init None (ge_db_path ?g) x) \<noteq> '':memory:''" for x
    using assms by (auto simp: rundb_init_def DEFAULT_DB_PATH_def split: option.split)
  have o: "open_run_ledger env x = rundb_init None (ge_db_path ?g) x" for x
    using run_ledger_is_gc_ledger [of ?g env x] open_ledger_file [OF p [of x]] by simp
  let ?d = "rundb_init None (ge_db_path ?g) f"
  have "visible_rows (open_ledger ?g (rd_file (set_rows rows (snd (get_conn no_faults ?d))))) = rows"
    using get_conn_file [of ?d] by (intro visible_reopened p) (simp_all add: set_rows_def)
  then show ?thesis
    using p [of f] run_ledger_is_gc_ledger [of ?g env] by (simp add: run_rows_def ledger_after_def o)
qed

definition started_ledger :: "'w engine_env \<Rightarrow> string \<Rightarrow> string \<Rightarrow> string option \<Rightarrow> string \<Rightarrow> string option \<Rightarrow> db_file \<Rightarrow> db_file" where
  "started_ledger env n image_ref snapshot_id dataset log_path f =
     (case snapshot_id of None \<Rightarrow> f
      | Some snap \<Rightarrow> ledger_after (snd (record_start (ee_faults env) (fst (ee_now env)) n image_ref snap dataset log_path
                         (open_run_ledger (ee_env env) f))) f)"

lemma progress_fields:
  "progress s = progress s' \<longleftrightarrow> en_ledger s = en_ledger s' \<and> en_snapshot_id s = en_snapshot_id s' \<and> en_jail_name s = en_jail_name s'
     \<and> en_jail_created s = en_jail_created s' \<and> en_run_completed s = en_run_completed s'"
  by (simp add: progress_def)

lemma start_jail_progress:
  assumes "start_jail env opts spec ok lx n s = (Inr u, s')"
  shows "en_jail_created s'" and "en_jail_name s' = en_jail_name s" and "en_ledger s' = en_ledger s"
    and "en_snapshot_id s' = en_snapshot_id s"
proof -
  obtain s1 conf s2 s3 where r: "make_read_only env opts s = (Inr (), s1)"
    and b: "on_host (build_jail_conf (ee_tool env) (run_jail_params opts spec ok lx n s1)) s1 = (Inr conf, s2)"
    and w: "write_conf env conf s2 = (Inr (), s3)" and c: "create_jail env n s3 = (Inr u, s')"
    using assms unfolding start_jail_def by (auto elim!: bind_Inr)
  have "progress s1 = progress s" by (rule keepsD [OF run_progress.keeps_read_only r])
  moreover have "progress s2 = progress s1" using run_progress.view_on_host b by (metis snd_conv)
  moreover have "progress s3 = progress s2" by (rule keepsD [OF run_progress.keeps_conf w])
  moreover have "en_jail_created s' \<and> en_jail_name s' = en_jail_name s3 \<and> en_ledger s' = en_ledger s3 \<and> en_snapshot_id s' = en_snapshot_id s3"
    using c unfolding create_jail_def by (auto elim!: bind_Inr simp: change_def on_host_def split_beta Let_def)
  ultimately show "en_jail_created s'" "en_jail_name s' = en_jail_name s" "en_ledger s' = en_ledger s" "en_snapshot_id s' = en_snapshot_id s"
    by (simp_all add: progress_def)
qed

lemma equip_jail_progress:
  assumes "equip_jail env opts image_ref lx n s = (Inr u, s')"
  shows "en_jail_created s' = en_jail_created s" and "en_jail_name s' = en_jail_name s"
    and "\<exists>dataset log_path. en_ledger s' = started_ledger env n image_ref (en_snapshot_id s) dataset log_path (en_ledger s)"
proof -
  obtain s1 log_path s2 s3 where v: "setup_vnet_inside env n lx s = (Inr (), s1)" and o: "open_log env n s1 = (Inr log_path, s2)"
    and r: "record_run_start env n image_ref log_path s2 = (Inr (), s3)" and l: "limit_jail env opts n s3 = (Inr u, s')"
    using assms unfolding equip_jail_def by (auto elim!: bind_Inr)
  have e: "progress s2 = progress s"
    using keepsD [OF run_progress.keeps_inside v] keepsD [OF run_progress.keeps_open_log o] by simp
  have e': "progress s' = progress s3" by (rule keepsD [OF run_progress.keeps_limits l])
  show "en_jail_created s' = en_jail_created s" "en_jail_name s' = en_jail_name s"
    using e e' r by (auto simp: record_run_start_def change_def progress_fields split: option.splits)
  have "en_ledger s' = started_ledger env n image_ref (en_snapshot_id s) (h_dataset (en_handle s2)) log_path (en_ledger s)"
    using e e' r by (auto simp: record_run_start_def change_def started_ledger_def progress_fields split: option.splits)
  then show "\<exists>dataset log_path. en_ledger s' = started_ledger env n image_ref (en_snapshot_id s) dataset log_path (en_ledger s)" by blast
qed

lemma make_jail_started:
  assumes "make_jail env opts image_ref spec ok i s = (Inr (n, e), s')"
  shows "en_jail_name s' = Some n" and "en_jail_created s'"
    and "\<exists>dataset log_path. en_ledger s' = started_ledger env n image_ref (en_snapshot_id s) dataset log_path (en_ledger s)"
proof -
  obtain lx s1 s2 s3 s4 where fill: "fill_root env opts image_ref i s = (Inr (e, lx), s1)" and name: "name_jail opts s1 = (Inr n, s2)"
    and net: "setup_network env opts spec n s2 = (Inr (), s3)" and start: "start_jail env opts spec ok lx n s3 = (Inr (), s4)"
    and equip: "equip_jail env opts image_ref lx n s4 = (Inr (), s')"
    using assms unfolding make_jail_def by (auto elim!: bind_Inr simp: done_with_def)
  have "progress s1 = progress s" "progress s3 = progress s2"
    by (rule keepsD [OF run_progress.keeps_fill fill], rule keepsD [OF progress_network net])
  moreover have "en_jail_name s2 = Some n" "en_ledger s2 = en_ledger s1" "en_snapshot_id s2 = en_snapshot_id s1"
    using name by (auto simp: name_jail_def Let_def)
  ultimately show "en_jail_name s' = Some n" "en_jail_created s'"
    "\<exists>dataset log_path. en_ledger s' = started_ledger env n image_ref (en_snapshot_id s) dataset log_path (en_ledger s)"
    using start_jail_progress [OF start] equip_jail_progress [OF equip] by (simp_all add: progress_fields)
qed

lemma progress_release [simp]: "progress (release_ip env n s) = progress s"
proof -
  have "progress (ignoring (on_net env m) s) = progress s" for m :: "'a host net_env \<Rightarrow> 'a host \<Rightarrow> (unit, 'a host) net_result"
    by simp
  then show ?thesis unfolding progress_fields by (simp add: release_ip_def Let_def split: option.split)
qed

lemma teardown_recorded:
  assumes "en_jail_name s = Some n" and "en_jail_created s"
  shows "en_ledger (teardown env opts r s) = ledger_after (snd (record_exit (ee_faults env) (snd (ee_now env)) n
      (if en_run_completed s then EXITED else KILLED)
      (if en_run_completed s then (case r of Inr c \<Rightarrow> Some c | Inl _ \<Rightarrow> None) else None)
      (open_run_ledger (ee_env env) (en_ledger s)))) (en_ledger s)"
proof -
  let ?x = "release_vnet env n (release_ip env n (remove_jail env n s))"
  have "progress ?x = progress s" by simp
  then have "en_ledger ?x = en_ledger s" "en_jail_created ?x" "en_run_completed ?x = en_run_completed s"
    using assms by (simp_all add: progress_def)
  moreover have "en_ledger (destroy_root env opts y) = en_ledger y" for y :: "'a eng"
    using run_progress.view_destroy [of env opts y] by (simp add: progress_def)
  ultimately show ?thesis using assms by (simp add: teardown_def record_run_exit_def)
qed

lemma run_command_progress:
  assumes "run_command env opts n cmd e s = Some (r, s')"
  shows "en_ledger s' = en_ledger s" and "en_jail_name s' = en_jail_name s" and "en_jail_created s' = en_jail_created s"
    and "en_run_completed s' \<longleftrightarrow> \<not> is_error r"
  using assms by (auto simp: run_command_def is_error_def Let_def split: if_splits prod.splits sum.splits)

text \<open>The rows after a start and an exit.\<close>

lemma rows_of_run:
  fixes n img dg ds lp t0 st c t1 rows
  defines "row \<equiv> (start_row n img dg ds lp t0) \<lparr> rr_status := st, rr_exit_code := c, rr_ended_at := Some t1 \<rparr>"
  shows "update_exit n st c t1 (insert_or_replace (start_row n img dg ds lp t0) rows) = filter (\<lambda>x. rr_jail_name x \<noteq> n) rows @ [row]"
  by (auto simp: update_exit_def insert_or_replace_def row_def start_row_def intro!: map_idI)

lemma update_exit_same:
  "filter (\<lambda>x. rr_jail_name x = n) (update_exit n st c t rows) =
   map (\<lambda>x. x \<lparr> rr_status := st, rr_exit_code := c, rr_ended_at := Some t \<rparr>) (filter (\<lambda>x. rr_jail_name x = n) rows)"
  by (induction rows) (simp_all add: update_exit_def)

lemma update_exit_others:
  "filter (\<lambda>x. rr_jail_name x \<noteq> n) (update_exit n st c t rows) = filter (\<lambda>x. rr_jail_name x \<noteq> n) rows"
  by (induction rows) (simp_all add: update_exit_def)

definition outcome_columns :: "store_exc + int \<Rightarrow> string \<times> int option" where
  "outcome_columns r = (case r of Inr c \<Rightarrow> (EXITED, Some c) | Inl _ \<Rightarrow> (KILLED, None))"

lemma rows_while_running:
  assumes "ee_faults env = no_faults" and "ee_env env ''JAILRUN_DB'' \<noteq> Some '':memory:''"
    and "before_try env opts image_ref (fresh_locals s) = (Inr (spec, ok, i), s1)" and "en_snapshot_id s1 = Some snap"
    and "make_jail env opts image_ref spec ok i s1 = (Inr (n, e), s2)"
  obtains ds lp where "run_rows (ee_env env) (en_ledger s2)
    = insert_or_replace (start_row n image_ref snap ds lp (fst (ee_now env))) (run_rows (ee_env env) (en_ledger s))"
proof -
  let ?rows = "run_rows (ee_env env)"
  have l1: "en_ledger s1 = en_ledger s" using before_try_not_started [OF assms(3)] by (simp add: not_started_def)
  obtain ds lp where l2: "en_ledger s2 = started_ledger env n image_ref (Some snap) ds lp (en_ledger s)"
    using make_jail_started(3) [OF assms(5)] assms(4) l1 by auto
  have "?rows (en_ledger s2) = insert_or_replace (start_row n image_ref snap ds lp (fst (ee_now env))) (?rows (en_ledger s))"
    unfolding l2 started_ledger_def option.case assms(1)
    by (simp add: record_start_healthy run_rows_written [of "ee_env env", OF assms(2)]) (simp add: run_rows_def)
  then show thesis by (rule that)
qed

lemma rows_at_end:
  assumes "ee_faults env = no_faults" and "ee_env env ''JAILRUN_DB'' \<noteq> Some '':memory:''"
    and "before_try env opts image_ref (fresh_locals s) = (Inr (spec, ok, i), s1)"
    and "make_jail env opts image_ref spec ok i s1 = (Inr (n, e), s2)"
    and "run_command env opts n cmd e s2 = Some (r, s3)"
  obtains s4 where "run_async env opts image_ref cmd s = Some (r, s4)"
    "run_rows (ee_env env) (en_ledger s4) =
       update_exit n (fst (outcome_columns r)) (snd (outcome_columns r)) (snd (ee_now env)) (run_rows (ee_env env) (en_ledger s2))"
proof -
  let ?rows = "run_rows (ee_env env)" and ?s4 = "teardown env opts r s3"
  have t: "try_block env opts image_ref cmd spec ok i s1 = Some (r, s3)" using assms(4,5) by (simp add: try_block_def)
  note m = make_jail_started(1,2) [OF assms(4)] and c = run_command_progress [OF assms(5)]
  have x: "(if en_run_completed s3 then EXITED else KILLED) = fst (outcome_columns r)"
    "(if en_run_completed s3 then (case r of Inr c \<Rightarrow> Some c | Inl _ \<Rightarrow> None) else None) = snd (outcome_columns r)"
    using c(4) by (cases r; simp add: outcome_columns_def is_error_def)+
  have "status_check (fst (outcome_columns r))"
    by (cases r) (simp_all add: outcome_columns_def status_check_def)
  then have "?rows (en_ledger ?s4) = update_exit n (fst (outcome_columns r)) (snd (outcome_columns r)) (snd (ee_now env)) (?rows (en_ledger s3))"
    using m c(2,3)
    by (simp add: teardown_recorded assms(1) x record_exit_healthy run_rows_written [of "ee_env env", OF assms(2)]) (simp add: run_rows_def)
  then show thesis using that [OF run_async_ended [OF assms(3) t]] c(1) by simp
qed

lemma rows_after_run:
  assumes "ee_faults env = no_faults" and "ee_env env ''JAILRUN_DB'' \<noteq> Some '':memory:''"
    and "before_try env opts image_ref (fresh_locals s) = (Inr (spec, ok, i), s1)" and "en_snapshot_id s1 = Some snap"
    and "make_jail env opts image_ref spec ok i s1 = (Inr (n, e), s2)"
    and "run_command env opts n cmd e s2 = Some (r, s3)"
  obtains s4 row where "run_async env opts image_ref cmd s = Some (r, s4)"
    "run_rows (ee_env env) (en_ledger s4) = filter (\<lambda>x. rr_jail_name x \<noteq> n) (run_rows (ee_env env) (en_ledger s)) @ [row]"
    "rr_jail_name row = n" "rr_image row = image_ref" "rr_image_digest row = snap"
    "(rr_status row, rr_exit_code row) = outcome_columns r"
proof -
  let ?rows = "run_rows (ee_env env)"
  obtain ds lp where r2: "?rows (en_ledger s2) = insert_or_replace (start_row n image_ref snap ds lp (fst (ee_now env))) (?rows (en_ledger s))"
    by (rule rows_while_running [OF assms(1-5)])
  obtain s4 where s4: "run_async env opts image_ref cmd s = Some (r, s4)"
    "?rows (en_ledger s4) = update_exit n (fst (outcome_columns r)) (snd (outcome_columns r)) (snd (ee_now env)) (?rows (en_ledger s2))"
    by (rule rows_at_end [OF assms(1,2,3,5,6)])
  show thesis
    using that [OF s4(1) s4(2) [unfolded r2 rows_of_run]] by (simp add: start_row_def)
qed


definition base_tree :: fs where
  "base_tree = tmp_tree @ [([''jailrun''], Dir), ([''jailrun'', ''bases''], Dir), ([''jailrun'', ''bases'', ''b''], Dir)]"

definition old_row :: run_row where "old_row = start_row ''jailrun-old'' ''i'' ''d'' ''ds'' None ''t0''"

lemma native_run:
  "(case before_try (demo_env all_fine) demo_opts ''nativebase:b'' (fresh_locals (demo_eng base_tree [old_row])) of
      (b, s1) \<Rightarrow> b = Inr (None, True, None) \<and> en_snapshot_id s1 = Some ''/jailrun/bases/b'' \<and>
        (case make_jail (demo_env all_fine) demo_opts ''nativebase:b'' None True None s1 of
           (r, s2) \<Rightarrow> r = Inr (''jailrun-r'', [(''PATH'', DEFAULT_PATH)])
             \<and> map_option fst (run_command (demo_env all_fine) demo_opts ''jailrun-r'' [''ls''] [(''PATH'', DEFAULT_PATH)] s2) = Some (Inr 0)))"
  by code_simp


text \<open>A run of a thin base is not in the ledger, and the garbage collector takes its jail for an
  orphan.  Its jail is created and given the name jailrun-\<open>id\<close>, but no row is written, because the
  snapshot the row names does not exist; while the command runs, \<^verbatim>\<open>gc\<close> on the same ledger flags
  the live jail, for which \<^verbatim>\<open>gc --fix\<close> runs \<^verbatim>\<open>jail -r\<close>.\<close>

theorem thin_run_is_orphan:
  assumes "root_kind_of image_ref = Thin_root x"
    and "before_try env opts image_ref (fresh_locals s) = (Inr (spec, ok, i), s1)"
    and "make_jail env opts image_ref spec ok i s1 = (Inr (n, e), s2)"
    and "prefix JAILRUN_PREFIX n" and "lookup_row n (run_rows (ee_env env) (en_ledger s)) = None" and "n \<in> set jails"
  shows "en_ledger s2 = en_ledger s \<and> en_jail_created s2 \<and> (''orphaned_jail'', n) \<in>
    set (map tag_of (reconcile (Some jails) (Some (newest_first (run_rows (ee_env env) (en_ledger s2)))) datasets))"
proof -
  let ?rows = "newest_first (run_rows (ee_env env) (en_ledger s))"
  have "keeps progress (before_try env opts image_ref)"
    unfolding before_try_def resolve_and_unpack_def assms(1) root_kind.case
    by (intro keeps_bind run_progress.keeps_guard run_progress.keeps_clone keeps_basic)
  then have "progress s1 = progress (fresh_locals s)" by (rule keepsD) (rule assms(2))
  then have "en_snapshot_id s1 = None" "en_ledger s1 = en_ledger s" by (simp_all add: progress_def fresh_locals_def)
  then have l: "en_ledger s2 = en_ledger s" "en_jail_created s2"
    using make_jail_started [OF assms(3)] by (simp_all add: started_ledger_def)
  have "rundb_by_name ?rows n = None"
    using assms(5) by (simp add: rundb_by_name_def lookup_None_iff)
  then have "(''orphaned_jail'', n) \<in> set (map tag_of (orphaned_jails jails ?rows))"
    using assms(4,6) by (induction jails) (auto simp: tag_of_def orphaned_jail_def py_startswith_def)
  then show ?thesis using l by (auto simp: reconcile_def)
qed

lemma thin_run:
  "(case before_try (demo_env all_fine) demo_opts ''thinbase:x'' (fresh_locals (demo_eng tmp_tree [old_row])) of
      (b, s1) \<Rightarrow> b = Inr (None, True, None) \<and>
        fst (make_jail (demo_env all_fine) demo_opts ''thinbase:x'' None True None s1) = Inr (''jailrun-r'', [(''PATH'', DEFAULT_PATH)]))"
  "lookup_row ''jailrun-r'' (run_rows (ee_env (demo_env all_fine)) (en_ledger (demo_eng tmp_tree [old_row]))) = None"
  "root_kind_of ''thinbase:x'' = Thin_root ''x''" "prefix JAILRUN_PREFIX ''jailrun-r''"
  by code_simp+

lemma thin_run_is_orphan_witness:
  "\<exists>s2 :: string list list eng. en_jail_created s2 \<and> (''orphaned_jail'', ''jailrun-r'') \<in>
    set (map tag_of (reconcile (Some [''www'', ''jailrun-r'']) (Some (newest_first (run_rows (ee_env (demo_env all_fine)) (en_ledger s2)))) None))"
proof -
  let ?e = "demo_env all_fine" and ?s = "demo_eng tmp_tree [old_row]"
  obtain b s1 where b: "before_try ?e demo_opts ''thinbase:x'' (fresh_locals ?s) = (b, s1)" by (rule prod.exhaust)
  obtain r s2 where m: "make_jail ?e demo_opts ''thinbase:x'' None True None s1 = (r, s2)" by (rule prod.exhaust)
  note n = thin_run(1) [unfolded b prod.case m fst_conv]
  have b': "before_try ?e demo_opts ''thinbase:x'' (fresh_locals ?s) = (Inr (None, True, None), s1)"
    and m': "make_jail ?e demo_opts ''thinbase:x'' None True None s1 = (Inr (''jailrun-r'', [(''PATH'', DEFAULT_PATH)]), s2)"
    using b m n by simp_all
  have "''jailrun-r'' \<in> set [''www'', ''jailrun-r'']" by simp
  from thin_run_is_orphan [OF thin_run(3) b' m' thin_run(4,2) this, of None] show ?thesis by blast
qed

end
