(* ===== verification/RunGc.thy ===== *)
theory RunGc
  imports EngineRun
begin

text \<open>
  A run (\<^verbatim>\<open>runtime/engine.py\<close>) as the collector (\<^verbatim>\<open>runtime/gc.py\<close>) sees it: before it is recorded, while its command
  goes on, and when it is over.
\<close>

section \<open>What the collector sees\<close>

text \<open>The orphans, by kind and name, that \<^verbatim>\<open>reconcile\<close> finds in the ledger as \<^verbatim>\<open>collect\<close> reads it; a ledger
  without the row of one jail; and a list of datasets without that of one run.\<close>

definition seen :: "string list \<Rightarrow> run_row list \<Rightarrow> dataset_entry list \<Rightarrow> (string \<times> string) set" where
  "seen jails rows datasets = tag_of ` set (reconcile (Some jails) (Some (newest_first rows)) (Some datasets))"

lemma seen_iff:
  assumes "rows_ok rows"
  shows "(k, i) \<in> seen jails rows datasets \<longleftrightarrow>
      (k = ''stale_rundb_row'' \<and> row_status rows i = Some RUNNING \<and> i \<notin> set jails)
    \<or> (k = ''orphaned_jail'' \<and> i \<in> set jails \<and> py_startswith i JAILRUN_PREFIX \<and> row_status rows i \<noteq> Some RUNNING)
    \<or> (k = ''orphaned_dataset'' \<and> (\<exists>d \<in> set datasets. de_dataset d = i
         \<and> JAILRUN_PREFIX @ de_run_id d \<notin> set jails \<and> row_status rows (JAILRUN_PREFIX @ de_run_id d) \<noteq> Some RUNNING))"
  using reconcile_tags [OF rows_ok_newest [OF assms], of k i jails datasets] by (simp add: seen_def row_status_newest [OF assms])

definition others :: "string \<Rightarrow> run_row list \<Rightarrow> run_row list" where
  "others n rows = filter (\<lambda>r. rr_jail_name r \<noteq> n) rows"

definition others_data :: "string \<Rightarrow> dataset_entry list \<Rightarrow> dataset_entry list" where
  "others_data run_id datasets = filter (\<lambda>d. de_run_id d \<noteq> run_id) datasets"

lemma others_ok: "rows_ok rows \<Longrightarrow> rows_ok (others n rows)"
  by (auto simp: rows_ok_def others_def distinct_map_filter)

lemma others_status: "row_status (others n rows) i = (if i = n then None else row_status rows i)"
  by (induction rows) (auto simp: others_def row_status_def lookup_row_def)

lemma status_of_others: "(\<And>r. r \<in> set new \<Longrightarrow> rr_jail_name r = n) \<Longrightarrow> i \<noteq> n \<Longrightarrow> row_status (others n rows @ new) i = row_status rows i"
proof -
  assume new: "\<And>r. r \<in> set new \<Longrightarrow> rr_jail_name r = n" and i: "i \<noteq> n"
  have "row_status (rs @ new) i = row_status rs i" for rs
    using new i by (induction rs) (auto simp: row_status_def lookup_row_def find_None_iff)
  then show ?thesis using others_status [of n rows i] i by simp
qed

lemma status_of_new: "rr_jail_name r = n \<Longrightarrow> row_status (others n rows @ [r]) n = Some (rr_status r)"
  by (induction rows) (auto simp: others_def row_status_def lookup_row_def)

lemma rows_ok_new: "rows_ok rows \<Longrightarrow> rr_jail_name r = n \<Longrightarrow> status_check (rr_status r) \<Longrightarrow> rows_ok (others n rows @ [r])"
  using others_ok [of rows n] by (auto simp: rows_ok_def others_def)

section \<open>A run and the collector\<close>

text \<open>A row that says running, with its jail alive; and one that says something else, with the jail gone.\<close>

lemma seen_running:
  assumes "rows_ok rows" and "rr_jail_name r = n" and "rr_status r = RUNNING" and "n \<in> set jails" and "n = JAILRUN_PREFIX @ run_id"
  shows "seen jails (others n rows @ [r]) datasets = seen (filter (\<lambda>j. j \<noteq> n) jails) (others n rows) (others_data run_id datasets)"
proof -
  have own: "others_data run_id datasets = filter (\<lambda>d. JAILRUN_PREFIX @ de_run_id d \<noteq> n) datasets"
    by (simp add: others_data_def assms(5))
  let ?rows = "others n rows @ [r]"
  have ok: "rows_ok ?rows" using rows_ok_new [OF assms(1,2)] assms(3) by (simp add: status_check_def)
  have st: "row_status ?rows i = (if i = n then Some RUNNING else row_status rows i)" for i
    using status_of_new [OF assms(2)] status_of_others [of "[r]" n i rows] assms(2,3) by auto
  have a: "row_status ?rows i = Some RUNNING \<and> i \<notin> set jails
      \<longleftrightarrow> row_status (others n rows) i = Some RUNNING \<and> i \<notin> set (filter (\<lambda>j. j \<noteq> n) jails)" for i
    unfolding st others_status using assms(4) by (cases "i = n") simp_all
  have b: "i \<in> set jails \<and> py_startswith i JAILRUN_PREFIX \<and> row_status ?rows i \<noteq> Some RUNNING
      \<longleftrightarrow> i \<in> set (filter (\<lambda>j. j \<noteq> n) jails) \<and> py_startswith i JAILRUN_PREFIX \<and> row_status (others n rows) i \<noteq> Some RUNNING" for i
    unfolding st others_status by (cases "i = n") simp_all
  have "m \<notin> set jails \<and> row_status ?rows m \<noteq> Some RUNNING
      \<longleftrightarrow> m \<noteq> n \<and> m \<notin> set (filter (\<lambda>j. j \<noteq> n) jails) \<and> row_status (others n rows) m \<noteq> Some RUNNING" for m
    unfolding st others_status using assms(4) by (cases "m = n") simp_all
  then have c: "(\<exists>d \<in> set datasets. de_dataset d = i \<and> JAILRUN_PREFIX @ de_run_id d \<notin> set jails \<and> row_status ?rows (JAILRUN_PREFIX @ de_run_id d) \<noteq> Some RUNNING)
      \<longleftrightarrow> (\<exists>d \<in> set (others_data run_id datasets). de_dataset d = i \<and> JAILRUN_PREFIX @ de_run_id d \<notin> set (filter (\<lambda>j. j \<noteq> n) jails)
            \<and> row_status (others n rows) (JAILRUN_PREFIX @ de_run_id d) \<noteq> Some RUNNING)" for i
    unfolding own set_filter by blast
  have "(k, i) \<in> seen jails ?rows datasets \<longleftrightarrow> (k, i) \<in> seen (filter (\<lambda>j. j \<noteq> n) jails) (others n rows) (others_data run_id datasets)" for k i
    unfolding seen_iff [OF ok] seen_iff [OF others_ok [OF assms(1)]] a b c ..
  then show ?thesis by (simp add: set_eq_iff split_paired_all)
qed

lemma seen_ended:
  assumes "rows_ok rows" and "rr_jail_name r = n" and "rr_status r \<noteq> RUNNING" and "status_check (rr_status r)"
  shows "seen jails (others n rows @ [r]) datasets = seen jails (others n rows) datasets"
proof -
  let ?rows = "others n rows @ [r]"
  have ok: "rows_ok ?rows" using rows_ok_new [OF assms(1,2,4)] .
  have st: "row_status ?rows i = Some RUNNING \<longleftrightarrow> row_status (others n rows) i = Some RUNNING" for i
    using status_of_new [OF assms(2)] status_of_others [of "[r]" n i rows] assms(2,3) by (auto simp: others_status)
  have "(k, i) \<in> seen jails ?rows datasets \<longleftrightarrow> (k, i) \<in> seen jails (others n rows) datasets" for k i
    unfolding seen_iff [OF ok] seen_iff [OF others_ok [OF assms(1)]] st ..
  then show ?thesis by (simp add: set_eq_iff split_paired_all)
qed

lemma insert_others: "insert_or_replace r rows = others (rr_jail_name r) rows @ [r]"
  by (simp add: insert_or_replace_def others_def)

text \<open>The jail of a run without a name of its own is called after the run.\<close>

lemma default_name:
  assumes "make_jail env opts image_ref spec ok i s = (Inr (n, e), s')" and "op_jail_name opts = None \<or> op_jail_name opts = Some []"
  shows "n = JAILRUN_PREFIX @ h_id (en_handle s)"
proof -
  obtain lx s1 s2 where fill: "fill_root env opts image_ref i s = (Inr (e, lx), s1)" and name: "name_jail opts s1 = (Inr n, s2)"
    using assms(1) unfolding make_jail_def by (auto elim!: bind_Inr simp: done_with_def)
  have "h_id (en_handle s1) = h_id (en_handle s)"
    using keepsD [OF run_root.keeps_fill fill] by (simp add: root_id_def)
  then show ?thesis using name assms(2) by (auto simp: name_jail_def JAILRUN_PREFIX_def Let_def)
qed


definition busy_run :: "string list list eng" where "busy_run = demo_eng base_tree [old_row]"

definition clone_of_r :: dataset_entry where "clone_of_r = \<lparr> de_run_id = ''r'', de_dataset = ''z/runs/r'' \<rparr>"

lemma busy_rows: "run_rows (ee_env (demo_env all_fine)) (en_ledger busy_run) = [old_row]"
  by code_simp

lemma busy_rows_ok: "rows_ok (run_rows (ee_env (demo_env all_fine)) (en_ledger busy_run))"
  unfolding busy_rows by (simp add: rows_ok_def old_row_def start_row_def status_check_def)

lemma busy_seen:
  "seen [] [old_row] [clone_of_r] = {(''stale_rundb_row'', ''jailrun-old''), (''orphaned_dataset'', ''z/runs/r'')}"
  "seen [] [old_row] [] = {(''stale_rundb_row'', ''jailrun-old'')}"
  "others ''jailrun-r'' [old_row] = [old_row]" "others_data ''r'' [clone_of_r] = []"
  by code_simp+

lemma busy_clone: "h_id (en_handle (snd (before_try (demo_env all_fine) demo_opts ''nativebase:b'' (fresh_locals busy_run)))) = ''r''"
  by code_simp


section \<open>A run that is not recorded yet\<close>

text \<open>C34: A run that is being prepared is an orphan to the collector.  From the making of its clone until
  its root has been filled, with the probe of the image and the provisioning of its native base, a run has neither
  a jail nor a row: whenever \<^verbatim>\<open>gc\<close> lists the datasets meanwhile, it flags the clone, which \<^verbatim>\<open>gc --fix\<close> destroys.\<close>

theorem gc_flags_run_in_preparation:
  assumes "rows_ok (run_rows (ee_env env) (en_ledger s))"
    and "before_try env opts image_ref (fresh_locals s) = (Inr (spec, ok, i), s1)" and "fill_root env opts image_ref i s1 = (r, s2)"
    and "JAILRUN_PREFIX @ h_id (en_handle s1) \<notin> set jails"
    and "row_status (run_rows (ee_env env) (en_ledger s)) (JAILRUN_PREFIX @ h_id (en_handle s1)) \<noteq> Some RUNNING"
    and "d \<in> set datasets" and "de_run_id d = h_id (en_handle s1)" and "t \<in> {s1, s2}"
  shows "(''orphaned_dataset'', de_dataset d) \<in> seen jails (run_rows (ee_env env) (en_ledger t)) datasets"
proof -
  have l1: "en_ledger s1 = en_ledger s" using before_try_not_started [OF assms(2)] by (simp add: not_started_def)
  moreover have "progress s2 = progress s1" by (rule keepsD [OF run_progress.keeps_fill assms(3)])
  ultimately have "en_ledger t = en_ledger s" using assms(8) by (auto simp: progress_fields)
  then show ?thesis using assms(4-7) by (auto simp: seen_iff [OF assms(1)])
qed

lemma gc_flags_run_in_preparation_witness:
  "\<exists>s1 r s2. fill_root (demo_env all_fine) demo_opts ''nativebase:b'' None s1 = (r, s2)
    \<and> (''orphaned_dataset'', ''z/runs/r'') \<in> seen [] (run_rows (ee_env (demo_env all_fine)) (en_ledger s2)) [clone_of_r]"
proof -
  let ?e = "demo_env all_fine"
  obtain b s1 where b: "before_try ?e demo_opts ''nativebase:b'' (fresh_locals busy_run) = (b, s1)" by (rule prod.exhaust)
  obtain r s2 where f: "fill_root ?e demo_opts ''nativebase:b'' None s1 = (r, s2)" by (rule prod.exhaust)
  have b': "before_try ?e demo_opts ''nativebase:b'' (fresh_locals busy_run) = (Inr (None, True, None), s1)"
    using native_run [folded busy_run_def, unfolded b prod.case] b by simp
  have id: "h_id (en_handle s1) = ''r''" using busy_clone unfolding b by simp
  have "row_status [old_row] (JAILRUN_PREFIX @ ''r'') \<noteq> Some RUNNING" by code_simp
  then have "(''orphaned_dataset'', de_dataset clone_of_r) \<in> seen [] (run_rows (ee_env ?e) (en_ledger s2)) [clone_of_r]"
    by (intro gc_flags_run_in_preparation [OF busy_rows_ok b' f]) (simp_all add: id busy_rows clone_of_r_def)
  then show ?thesis using f by (auto simp: clone_of_r_def)
qed

end
