(* ===== verification/Probe.thy ===== *)
theory Probe
  imports FileSys
begin

text \<open>
  \<^verbatim>\<open>probe/probe.py\<close>: find the executables of an unpacked image and classify each.  The image
  lies in the file system of FileSys; which files have an execute bit is a parameter
  (\<^verbatim>\<open>xbit\<close>), the provider table is data the repository loads from JSON, also a parameter.
\<close>

section \<open>ELF headers\<close>

record elf_info =
  ei_valid :: bool
  ei_osabi :: int
  ei_class :: int
  ei_machine :: int

definition no_elf :: elf_info where
  "no_elf = \<lparr> ei_valid = False, ei_osabi = -1, ei_class = -1, ei_machine = -1 \<rparr>"

definition ELFMAG :: string where "ELFMAG = [CHR 0x7F] @ ''ELF''"

definition byte_at :: "string \<Rightarrow> nat \<Rightarrow> int" where
  "byte_at s i = int (of_char (s ! i))"

text \<open>\<^verbatim>\<open>struct.unpack_from("<H" or ">H", header, 18)\<close>.\<close>

definition unpack_H :: "bool \<Rightarrow> string \<Rightarrow> nat \<Rightarrow> int" where
  "unpack_H little s i =
     (if little then byte_at s i + 256 * byte_at s (i + 1) else 256 * byte_at s i + byte_at s (i + 1))"

definition read_elf_header :: "string \<Rightarrow> elf_info" where
  "read_elf_header content =
     (let header = take 20 content in
      if length header < 20 then no_elf
      else if take 4 header \<noteq> ELFMAG then no_elf
      else \<lparr> ei_valid = True, ei_osabi = byte_at header 7, ei_class = byte_at header 4,
             ei_machine = unpack_H (byte_at header 5 = 1) header 18 \<rparr>)"

datatype abi = Abi_linux | Abi_freebsd | Abi_script | Abi_unknown
datatype role = Load_bearing | Auxiliary | Role_unknown
datatype status = Native | Linuxulator | Status_unknown

definition classify_elf :: "elf_info \<Rightarrow> abi" where
  "classify_elf info =
     (if \<not> ei_valid info then Abi_unknown
      else if ei_osabi info = 9 then Abi_freebsd
      else if ei_osabi info \<in> {3, 0} then Abi_linux
      else Abi_unknown)"

definition read_shebang :: "string \<Rightarrow> string option" where
  "read_shebang content =
     (let first = take 512 content in
      if \<not> py_startswith first ''#!'' then None
      else (let rest = drop 2 first;
                line = py_strip (case py_cut NL rest of None \<Rightarrow> rest | Some (a, _) \<Rightarrow> a)
            in if line = [] then None else Some (hd (py_fields line))))"

section \<open>Role, native proposal, status\<close>

definition LOAD_BEARING_NAMES :: "string list" where
  "LOAD_BEARING_NAMES =
     [''gcc'', ''g++'', ''clang'', ''clang++'', ''cc'', ''c++'',
      ''python'', ''python3'', ''python3.11'', ''python3.10'', ''python3.12'',
      ''node'', ''nodejs'', ''ruby'', ''perl'', ''perl5'', ''java'', ''lua'',
      ''cmake'', ''ninja'', ''make'', ''gmake'', ''meson'', ''bazel'',
      ''ld'', ''ld.bfd'', ''ld.gold'', ''lld'', ''esphome'']"

definition LOAD_BEARING_PREFIXES :: "string list" where
  "LOAD_BEARING_PREFIXES = [''xtensa-'', ''riscv32-esp-'', ''riscv64-'', ''arm-'', ''aarch64-'']"

definition LOAD_BEARING_SIZE_BYTES :: nat where
  "LOAD_BEARING_SIZE_BYTES = 1 * 1024 * 1024"

definition classify_role :: "(string \<Rightarrow> string option) \<Rightarrow> string \<Rightarrow> abi \<Rightarrow> nat option \<Rightarrow> role" where
  "classify_role providers basename a sz =
     (let name = py_lower basename in
      if a = Abi_script then Auxiliary
      else if a = Abi_unknown then Role_unknown
      else if name \<in> set LOAD_BEARING_NAMES then Load_bearing
      else if \<exists>p \<in> set LOAD_BEARING_PREFIXES. py_startswith name p then Load_bearing
      else if providers name \<noteq> None then Load_bearing
      else (case sz of
          Some n \<Rightarrow> if n \<ge> LOAD_BEARING_SIZE_BYTES then Load_bearing else Auxiliary
        | None \<Rightarrow> Auxiliary))"

record native_block =
  nb_provider :: string
  nb_artifact_path :: "string option"
  nb_verification :: string

definition propose_native :: "(string \<Rightarrow> string option) \<Rightarrow> string \<Rightarrow> native_block option" where
  "propose_native providers name =
     map_option (\<lambda>p. \<lparr> nb_provider = p, nb_artifact_path = None, nb_verification = ''guessed'' \<rparr>)
       (providers (py_lower name))"

definition classify_status :: "abi \<Rightarrow> native_block option \<Rightarrow> status" where
  "classify_status a native =
     (case a of
        Abi_freebsd \<Rightarrow> Native
      | Abi_linux \<Rightarrow> if native \<noteq> None then Native else Linuxulator
      | Abi_script \<Rightarrow> Native
      | Abi_unknown \<Rightarrow> Status_unknown)"

section \<open>Finding the executables\<close>

definition EXEC_SEARCH_DIRS :: "path list" where
  "EXEC_SEARCH_DIRS =
     [[''usr'', ''bin''], [''usr'', ''sbin''], [''usr'', ''local'', ''bin''], [''usr'', ''local'', ''sbin''],
      [''bin''], [''sbin''], [''usr'', ''lib''], [''usr'', ''local'', ''lib''],
      [''usr'', ''libexec''], [''usr'', ''local'', ''libexec'']]"

definition EXTENDED_SEARCH_PATTERNS :: "string list" where
  "EXTENDED_SEARCH_PATTERNS = [''.platformio'', ''.espressif'']"

definition SKIP_DIRS :: "string list" where
  "SKIP_DIRS = [''proc'', ''sys'', ''dev'', ''run'']"

text \<open>\<^verbatim>\<open>is_executable_file\<close>: a regular file, links followed, with an execute bit.\<close>

definition is_executable_file :: "(path \<Rightarrow> bool) \<Rightarrow> nat \<Rightarrow> fs \<Rightarrow> path \<Rightarrow> bool" where
  "is_executable_file xbit lim fs p =
     (case follow lim fs p of
        None \<Rightarrow> False
      | Some q \<Rightarrow> (case look fs q of Some (Reg _) \<Rightarrow> xbit q | _ \<Rightarrow> False))"

text \<open>One entry of \<^verbatim>\<open>_walk\<close>.  For a directory the code calls \<^verbatim>\<open>_walk\<close>, a generator, without
  \<^verbatim>\<open>yield from\<close>: the generator is made and dropped, so a directory yields nothing.  A link loop
  makes \<^verbatim>\<open>resolve\<close> raise \<^verbatim>\<open>RuntimeError\<close>, which the \<^verbatim>\<open>except OSError\<close> does not catch.\<close>

definition walk_entry ::
  "(path \<Rightarrow> bool) \<Rightarrow> nat \<Rightarrow> fs \<Rightarrow> path \<Rightarrow> path \<Rightarrow> path \<Rightarrow> string \<Rightarrow> string + (path \<times> path) list" where
  "walk_entry xbit lim fs rootfs start rel_base name =
     (if name \<in> set SKIP_DIRS then Inr []
      else (case resolve lim fs (start @ [name]) of
          None \<Rightarrow> Inl ''Symlink loop''
        | Some resolved \<Rightarrow>
            if \<not> prefix rootfs resolved then Inr []
            else if path_is_dir lim fs (start @ [name]) then Inr []
            else if is_executable_file xbit lim fs (start @ [name])
            then Inr [(start @ [name], rel_base @ [name])]
            else Inr []))"

definition walk ::
  "(path \<Rightarrow> bool) \<Rightarrow> nat \<Rightarrow> fs \<Rightarrow> path \<Rightarrow> path \<Rightarrow> path \<Rightarrow> string + (path \<times> path) list" where
  "walk xbit lim fs rootfs start rel_base =
     (case follow lim fs start of
        None \<Rightarrow> Inr []
      | Some d \<Rightarrow>
          if look fs d \<noteq> Some Dir then Inr []
          else (case try_map (walk_entry xbit lim fs rootfs start rel_base) (child_names fs d) of
              Inl e \<Rightarrow> Inl e
            | Inr found \<Rightarrow> Inr (concat found)))"

definition extended_dirs :: "nat \<Rightarrow> fs \<Rightarrow> path \<Rightarrow> path list" where
  "extended_dirs lim fs rootfs =
     concat (map (\<lambda>pat. map (drop (length rootfs))
         (filter (\<lambda>q. strict_prefix rootfs q \<and> last q = pat \<and> path_is_dir lim fs q) (map fst fs)))
       EXTENDED_SEARCH_PATTERNS)"

definition search_dirs :: "nat \<Rightarrow> fs \<Rightarrow> path \<Rightarrow> path list" where
  "search_dirs lim fs rootfs =
     filter (\<lambda>d. path_exists lim fs (rootfs @ d)) EXEC_SEARCH_DIRS @ extended_dirs lim fs rootfs"

definition iter_executables ::
  "(path \<Rightarrow> bool) \<Rightarrow> nat \<Rightarrow> fs \<Rightarrow> path \<Rightarrow> string + (path \<times> path) list" where
  "iter_executables xbit lim fs rootfs =
     (case try_map (\<lambda>d. walk xbit lim fs rootfs (rootfs @ d) d) (search_dirs lim fs rootfs) of
        Inl e \<Rightarrow> Inl e
      | Inr found \<Rightarrow> Inr (concat found))"

section \<open>Risk and the manifest\<close>

datatype risk = Risk_none | Risk_low | Risk_medium | Risk_high

record binary_entry =
  be_path :: path
  be_role :: role
  be_abi :: abi
  be_status :: status
  be_native :: "native_block option"
  be_notes :: string

definition compute_risk :: "binary_entry list \<Rightarrow> risk" where
  "compute_risk bs =
     (if bs = [] then Risk_none
      else if length (filter (\<lambda>b. be_role b = Load_bearing) bs) > 0 then Risk_high
      else if length bs \<le> 2 then Risk_low else Risk_medium)"

definition EM_NAMES :: "int \<Rightarrow> string option" where
  "EM_NAMES = map_of [(3, ''x86''), (20, ''ppc''), (21, ''ppc64''), (40, ''arm''), (62, ''x86_64''),
     (183, ''aarch64''), (243, ''riscv'')]"

text \<open>\<^verbatim>\<open>f"{n:#06x}"\<close> for a 16-bit number.\<close>

definition hex16 :: "int \<Rightarrow> string" where
  "hex16 n = ''0x'' @ map (\<lambda>k. hex_digit (nat (n div 16 ^ k mod 16))) [3, 2, 1, 0]"

definition elf_notes :: "elf_info \<Rightarrow> string" where
  "elf_notes info = ''ELF OSABI='' @ show_int (ei_osabi info) @ '' machine='' @
     (case EM_NAMES (ei_machine info) of Some m \<Rightarrow> m
      | None \<Rightarrow> ''e_machine='' @ hex16 (ei_machine info))"

definition classify_binary :: "(string \<Rightarrow> string option) \<Rightarrow> path \<Rightarrow> string \<Rightarrow> binary_entry" where
  "classify_binary providers image_path content =
     (let name = last image_path;
          elf = read_elf_header content;
          interp = (if ei_valid elf then None else read_shebang content);
          a = (if ei_valid elf then classify_elf elf else if interp \<noteq> None then Abi_script else Abi_unknown);
          native = (if a = Abi_linux then propose_native providers name else None)
      in \<lparr> be_path = image_path,
           be_role = classify_role providers name a (Some (length content)),
           be_abi = a, be_status = classify_status a native, be_native = native,
           be_notes = (if ei_valid elf then elf_notes elf
                       else case interp of Some i \<Rightarrow> ''shebang: '' @ i | None \<Rightarrow> '''') \<rparr>)"

fun first_of_each :: "path set \<Rightarrow> (path \<times> path) list \<Rightarrow> (path \<times> path) list" where
  "first_of_each seen [] = []"
| "first_of_each seen ((h, p) # xs) =
     (if p \<in> seen then first_of_each seen xs else (h, p) # first_of_each (insert p seen) xs)"

record probe_manifest =
  pm_image :: string
  pm_binaries :: "binary_entry list"
  pm_lx_required :: bool
  pm_lx_risk :: risk
  pm_snapshot :: "string option"

definition file_content :: "nat \<Rightarrow> fs \<Rightarrow> path \<Rightarrow> string" where
  "file_content lim fs p = (case stat lim fs p of Some (Reg c) \<Rightarrow> c | _ \<Rightarrow> [])"

definition build_manifest ::
  "(string \<Rightarrow> string option) \<Rightarrow> nat \<Rightarrow> fs \<Rightarrow> (path \<times> path) list \<Rightarrow> string \<Rightarrow> string \<Rightarrow> string \<Rightarrow> probe_manifest" where
  "build_manifest providers lim fs found rootfs_dir image_ref snapshot_id =
     (let bs = map (\<lambda>(h, p). classify_binary providers p (file_content lim fs h)) (first_of_each {} found);
          lx = filter (\<lambda>b. be_status b = Linuxulator) bs
      in \<lparr> pm_image = (if image_ref \<noteq> [] then image_ref else rootfs_dir),
           pm_binaries = bs, pm_lx_required = (length lx > 0), pm_lx_risk = compute_risk lx,
           pm_snapshot = (if snapshot_id \<noteq> [] then Some snapshot_id else None) \<rparr>)"

definition probe ::
  "(string \<Rightarrow> string option) \<Rightarrow> (path \<Rightarrow> bool) \<Rightarrow> nat \<Rightarrow> fs \<Rightarrow> path \<Rightarrow> string \<Rightarrow> string \<Rightarrow> string \<Rightarrow> string + probe_manifest" where
  "probe providers xbit lim fs rootfs_path rootfs_dir image_ref snapshot_id =
     (case resolve lim fs rootfs_path of
        None \<Rightarrow> Inl ''Symlink loop''
      | Some rootfs \<Rightarrow>
          if \<not> path_is_dir lim fs rootfs then Inl (''rootfs not found: '' @ rootfs_dir)
          else (case iter_executables xbit lim fs rootfs of
              Inl e \<Rightarrow> Inl e
            | Inr found \<Rightarrow> Inr (build_manifest providers lim fs found rootfs_dir image_ref snapshot_id)))"

section \<open>Properties\<close>

text \<open>A header with given fields, in either byte order.\<close>

definition elf_header :: "bool \<Rightarrow> nat \<Rightarrow> nat \<Rightarrow> nat \<Rightarrow> string" where
  "elf_header little cls osabi machine =
     ELFMAG @ [char_of cls, char_of (if little then 1 else 2 :: nat), char_of (1 :: nat), char_of osabi] @
     replicate 10 (CHR 0x00) @
     (if little then [char_of (machine mod 256), char_of (machine div 256)]
      else [char_of (machine div 256), char_of (machine mod 256)])"

text \<open>Reading an ELF header gives back the fields that were written, in little- and big-endian
  files alike, whatever follows the first 20 bytes; anything shorter than 20 bytes or without
  the magic number is not an ELF file.\<close>

theorem read_elf_header_roundtrip:
  assumes "cls < 256" and "osabi < 256" and "machine < 65536"
  shows "read_elf_header (elf_header little cls osabi machine @ rest) =
      \<lparr> ei_valid = True, ei_osabi = int osabi, ei_class = int cls, ei_machine = int machine \<rparr>
    \<and> (length content < 20 \<or> take 4 content \<noteq> ELFMAG \<longrightarrow> read_elf_header content = no_elf)"
proof -
  let ?h = "elf_header little cls osabi machine"
  have l: "length ?h = 20" by (simp add: elf_header_def ELFMAG_def)
  have m: "machine div 256 < 256" "machine mod 256 < 256" using assms(3) by auto
  have "take 20 (?h @ rest) = ?h" using l by simp
  moreover have "take 4 ?h = ELFMAG" by (simp add: elf_header_def ELFMAG_def)
  moreover have "byte_at ?h 7 = int osabi" "byte_at ?h 4 = int cls" "byte_at ?h 5 = 1 \<longleftrightarrow> little"
    using assms by (simp_all add: byte_at_def elf_header_def ELFMAG_def)
  moreover have "unpack_H little ?h 18 = int machine"
  proof -
    have "int (machine mod 256) + 256 * int (machine div 256) = int machine"
      by (metis add.commute div_mult_mod_eq mult.commute of_nat_add of_nat_mult of_nat_numeral)
    then show ?thesis using m
      by (cases little) (simp_all add: unpack_H_def byte_at_def elf_header_def ELFMAG_def nth_append)
  qed
  ultimately show ?thesis using l by (auto simp: read_elf_header_def Let_def)
qed

lemma read_elf_header_roundtrip_witness:
  "ei_machine (read_elf_header (elf_header False 2 9 62 @ ''rest'')) = 62"
  using read_elf_header_roundtrip [of 2 9 62 False "''rest''" "''''"] by simp

lemma walk_entry_result:
  "walk_entry xbit lim fs rootfs start rel n = Inr xs \<Longrightarrow> (h, p) \<in> set xs \<Longrightarrow>
     h = start @ [n] \<and> p = rel @ [n] \<and> n \<notin> set SKIP_DIRS \<and> is_executable_file xbit lim fs h
     \<and> (\<exists>r. resolve lim fs h = Some r \<and> prefix rootfs r)"
  by (auto simp: walk_entry_def split: if_splits option.splits)

lemma walk_result:
  assumes "walk xbit lim fs rootfs start rel = Inr xs" and "(h, p) \<in> set xs"
  shows "\<exists>n. h = start @ [n] \<and> p = rel @ [n] \<and> n \<notin> set SKIP_DIRS \<and> is_executable_file xbit lim fs h
     \<and> (\<exists>r. resolve lim fs h = Some r \<and> prefix rootfs r)"
proof -
  obtain d found where f: "try_map (walk_entry xbit lim fs rootfs start rel) (child_names fs d) = Inr found"
    and "(h, p) \<in> set (concat found)"
    using assms by (auto simp: walk_def split: option.splits if_splits sum.splits)
  then obtain ys where "ys \<in> set found" "(h, p) \<in> set ys" by auto
  moreover obtain n where "walk_entry xbit lim fs rootfs start rel n = Inr ys"
    using try_map_result [OF f \<open>ys \<in> set found\<close>] by blast
  ultimately show ?thesis using walk_entry_result by blast
qed

lemma iter_result:
  assumes "iter_executables xbit lim fs rootfs = Inr xs" and "(h, p) \<in> set xs"
  shows "\<exists>d \<in> set (search_dirs lim fs rootfs). \<exists>n. h = rootfs @ d @ [n] \<and> p = d @ [n] \<and> n \<notin> set SKIP_DIRS
     \<and> is_executable_file xbit lim fs h \<and> (\<exists>r. resolve lim fs h = Some r \<and> prefix rootfs r)"
proof -
  obtain found where f: "try_map (\<lambda>d. walk xbit lim fs rootfs (rootfs @ d) d) (search_dirs lim fs rootfs) = Inr found"
    and "(h, p) \<in> set (concat found)"
    using assms by (auto simp: iter_executables_def split: sum.splits)
  then obtain ys where "ys \<in> set found" "(h, p) \<in> set ys" by auto
  moreover obtain d where "d \<in> set (search_dirs lim fs rootfs)" "walk xbit lim fs rootfs (rootfs @ d) d = Inr ys"
    using try_map_result [OF f \<open>ys \<in> set found\<close>] by blast
  ultimately show ?thesis using walk_result by fastforce
qed

text \<open>C25: Nothing outside the image is ever probed: whatever links the image has, every file that
  the search yields resolves, with all links followed, to a path inside the root.\<close>

theorem probe_stays_inside:
  assumes "iter_executables xbit lim fs rootfs = Inr xs" and "(h, p) \<in> set xs"
  shows "h = rootfs @ p \<and> (\<exists>r. resolve lim fs h = Some r \<and> prefix rootfs r \<and> xbit r)"
proof -
  obtain d n where "h = rootfs @ d @ [n]" "p = d @ [n]" "is_executable_file xbit lim fs h"
    and r: "\<exists>r. resolve lim fs h = Some r \<and> prefix rootfs r"
    using iter_result [OF assms] by blast
  moreover have "\<exists>q. follow lim fs h = Some q \<and> xbit q"
    using \<open>is_executable_file xbit lim fs h\<close>
    by (auto simp: is_executable_file_def split: option.splits node.splits)
  ultimately show ?thesis using follow_resolve by fastforce
qed

text \<open>An image with one program in \<^verbatim>\<open>/bin\<close>, one deeper, a link out of the image.\<close>

definition demo_image :: fs where
  "demo_image = [([''r''], Dir), ([''r'', ''bin''], Dir), ([''r'', ''bin'', ''sh''], Reg ''#!/x''),
     ([''r'', ''bin'', ''out''], Symlink ''/host''), ([''r'', ''bin'', ''core''], Dir),
     ([''r'', ''bin'', ''core'', ''git''], Reg ''#!/y''), ([''host''], Reg ''#!/z'')]"

lemma demo_iter: "iter_executables (\<lambda>_. True) 8 demo_image [''r''] = Inr [([''r'', ''bin'', ''sh''], [''bin'', ''sh''])]"
  by code_simp

lemma probe_stays_inside_witness:
  "\<exists>r. resolve 8 demo_image [''r'', ''bin'', ''sh''] = Some r \<and> prefix [''r''] r"
  using probe_stays_inside [OF demo_iter] by auto

text \<open>The search does not descend.  Every executable the probe reports lies directly in one of
  the search directories; a program in a subdirectory of one is never found, although the code
  recurses into it: the recursive generator is created and never iterated.\<close>

theorem probe_never_descends:
  assumes "iter_executables xbit lim fs rootfs = Inr xs" and "(h, p) \<in> set xs"
  shows "butlast p \<in> set (search_dirs lim fs rootfs) \<and> last p \<notin> set SKIP_DIRS"
  using iter_result [OF assms] by auto

lemma probe_never_descends_witness:
  "is_executable_file (\<lambda>_. True) 8 demo_image [''r'', ''bin'', ''core'', ''git'']
   \<and> butlast [''bin'', ''sh''] \<in> set (search_dirs 8 demo_image [''r''])
   \<and> [''bin'', ''core'', ''git''] \<notin> snd ` set (projr (iter_executables (\<lambda>_. True) 8 demo_image [''r'']))"
proof -
  have "is_executable_file (\<lambda>_. True) 8 demo_image [''r'', ''bin'', ''core'', ''git'']" by code_simp
  then show ?thesis
    using probe_never_descends [OF demo_iter, of "[''r'', ''bin'', ''sh'']" "[''bin'', ''sh'']"] demo_iter by simp
qed

text \<open>Risk levels are ordered.\<close>

instantiation risk :: linorder
begin

fun risk_level :: "risk \<Rightarrow> nat" where
  "risk_level Risk_none = 0"
| "risk_level Risk_low = 1"
| "risk_level Risk_medium = 2"
| "risk_level Risk_high = 3"

definition less_eq_risk :: "risk \<Rightarrow> risk \<Rightarrow> bool" where
  "less_eq_risk a b \<longleftrightarrow> risk_level a \<le> risk_level b"

definition less_risk :: "risk \<Rightarrow> risk \<Rightarrow> bool" where
  "less_risk a b \<longleftrightarrow> risk_level a < risk_level b"

instance
proof
  fix x y z :: risk
  show "x < y \<longleftrightarrow> x \<le> y \<and> \<not> y \<le> x" by (auto simp: less_risk_def less_eq_risk_def)
  show "x \<le> x" by (simp add: less_eq_risk_def)
  show "x \<le> y \<Longrightarrow> y \<le> z \<Longrightarrow> x \<le> z" by (simp add: less_eq_risk_def)
  show "x \<le> y \<Longrightarrow> y \<le> x \<Longrightarrow> x = y" by (cases x; cases y) (auto simp: less_eq_risk_def)
  show "x \<le> y \<or> y \<le> x" by (auto simp: less_eq_risk_def)
qed

end

lemma compute_risk_mono: "set bs \<subseteq> set cs \<Longrightarrow> length bs \<le> length cs \<Longrightarrow> compute_risk bs \<le> compute_risk cs"
  by (auto simp: compute_risk_def less_eq_risk_def filter_empty_conv)

lemma classify_binary_consistent:
  assumes "b = classify_binary providers p content"
  shows "(be_status b = Linuxulator \<longleftrightarrow> be_abi b = Abi_linux \<and> be_native b = None)
    \<and> (be_native b \<noteq> None \<longleftrightarrow> be_abi b = Abi_linux \<and> providers (py_lower (last p)) \<noteq> None)
    \<and> (be_native b \<noteq> None \<longrightarrow> be_role b = Load_bearing)
    \<and> (be_status b = Status_unknown \<longleftrightarrow> be_abi b = Abi_unknown)"
  unfolding assms
  by (auto simp: classify_binary_def classify_status_def propose_native_def classify_role_def Let_def
      split: abi.splits option.splits)

lemma first_of_each_distinct:
  "distinct (map snd (first_of_each seen xs)) \<and> snd ` set (first_of_each seen xs) = snd ` set xs - seen"
proof (induction seen xs rule: first_of_each.induct)
  case (2 seen h p xs)
  then show ?case by (cases "p \<in> seen") auto
qed simp

text \<open>The manifest is consistent.  It lists every found path once; a binary stays on the
  Linuxulator exactly if it is a Linux ELF without a native provider, and has a native proposal
  exactly if it is one with a provider, which also makes it load-bearing; the Linuxulator is
  required exactly if some binary stays on it, and the risk is \<^verbatim>\<open>none\<close> exactly then not, and
  \<^verbatim>\<open>high\<close> exactly if a load-bearing binary stays.\<close>

theorem probe_manifest_consistent:
  assumes "probe providers xbit lim fs r rd img snap = Inr m"
  shows "distinct (map be_path (pm_binaries m))
    \<and> (\<forall>b \<in> set (pm_binaries m).
         (be_status b = Linuxulator \<longleftrightarrow> be_abi b = Abi_linux \<and> be_native b = None)
       \<and> (be_native b \<noteq> None \<longleftrightarrow> be_abi b = Abi_linux \<and> providers (py_lower (last (be_path b))) \<noteq> None)
       \<and> (be_native b \<noteq> None \<longrightarrow> be_role b = Load_bearing))
    \<and> (pm_lx_required m \<longleftrightarrow> (\<exists>b \<in> set (pm_binaries m). be_status b = Linuxulator))
    \<and> (pm_lx_risk m = Risk_none \<longleftrightarrow> \<not> pm_lx_required m)
    \<and> (pm_lx_risk m = Risk_high \<longleftrightarrow>
         (\<exists>b \<in> set (pm_binaries m). be_status b = Linuxulator \<and> be_role b = Load_bearing))"
proof -
  obtain found where "m = build_manifest providers lim fs found rd img snap"
    using assms by (auto simp: probe_def split: option.splits if_splits sum.splits)
  then have m: "pm_binaries m = map (\<lambda>(h, p). classify_binary providers p (file_content lim fs h)) (first_of_each {} found)"
    "pm_lx_required m = (length (filter (\<lambda>b. be_status b = Linuxulator) (pm_binaries m)) > 0)"
    "pm_lx_risk m = compute_risk (filter (\<lambda>b. be_status b = Linuxulator) (pm_binaries m))"
    by (simp_all add: build_manifest_def Let_def filter_map)
  have bp: "be_path (classify_binary providers p c) = p" for p c by (simp add: classify_binary_def Let_def)
  have "map be_path (pm_binaries m) = map snd (first_of_each {} found)"
    unfolding m(1) by (simp add: comp_def case_prod_unfold bp)
  then have d: "distinct (map be_path (pm_binaries m))" using first_of_each_distinct [of "{}" found] by simp
  have c: "\<forall>b \<in> set (pm_binaries m). \<exists>p c. b = classify_binary providers p c \<and> be_path b = p"
    unfolding m(1) by (auto simp: bp)
  have r: "compute_risk bs = Risk_none \<longleftrightarrow> bs = []"
    "compute_risk bs = Risk_high \<longleftrightarrow> (\<exists>b \<in> set bs. be_role b = Load_bearing)" for bs
    by (auto simp: compute_risk_def filter_empty_conv)
  have "(be_status b = Linuxulator \<longleftrightarrow> be_abi b = Abi_linux \<and> be_native b = None)
       \<and> (be_native b \<noteq> None \<longleftrightarrow> be_abi b = Abi_linux \<and> providers (py_lower (last (be_path b))) \<noteq> None)
       \<and> (be_native b \<noteq> None \<longrightarrow> be_role b = Load_bearing)" if bm: "b \<in> set (pm_binaries m)" for b
  proof -
    obtain p x where e: "b = classify_binary providers p x" "be_path b = p" using c bm by blast
    show ?thesis using classify_binary_consistent [OF e(1)] unfolding e(2) by (intro conjI) argo+
  qed
  moreover have "pm_lx_required m \<longleftrightarrow> (\<exists>b \<in> set (pm_binaries m). be_status b = Linuxulator)"
    unfolding m(2) by (auto simp: filter_empty_conv)
  moreover have "pm_lx_risk m = Risk_none \<longleftrightarrow> \<not> pm_lx_required m"
    unfolding m(2,3) r by simp
  moreover have "pm_lx_risk m = Risk_high \<longleftrightarrow>
      (\<exists>b \<in> set (pm_binaries m). be_status b = Linuxulator \<and> be_role b = Load_bearing)"
    unfolding m(3) r by auto
  ultimately show ?thesis using d by blast
qed

lemma demo_probe:
  "probe (\<lambda>n. if n = ''sh'' then Some ''pkg:sh'' else None) (\<lambda>_. True) 8 demo_image [''r''] ''r'' '''' ''''
   = Inr (build_manifest (\<lambda>n. if n = ''sh'' then Some ''pkg:sh'' else None) 8 demo_image
       [([''r'', ''bin'', ''sh''], [''bin'', ''sh''])] ''r'' '''' '''')"
proof -
  have "resolve 8 demo_image [''r''] = Some [''r'']" "path_is_dir 8 demo_image [''r'']" by code_simp+
  then show ?thesis using demo_iter by (simp add: probe_def)
qed

lemma probe_manifest_consistent_witness:
  "\<not> pm_lx_required (build_manifest (\<lambda>n. if n = ''sh'' then Some ''pkg:sh'' else None) 8 demo_image
       [([''r'', ''bin'', ''sh''], [''bin'', ''sh''])] ''r'' '''' '''')"
  using probe_manifest_consistent [OF demo_probe] by code_simp

end
