(* ===== verification/Backfill.thy ===== *)
theory Backfill
  imports Bakery
begin

text \<open>
  \<^verbatim>\<open>providers/backfill.py\<close>: the verification backfill of the whole provider map, which resolves
  each entry the way the bakery does, looks the artifact up on the host (level 1) and runs
  its smoke command (level 2).  The host check and the runner are arguments, as in the code;
  the record of a dict entry has a field per key, absent keys are \<^const>\<open>None\<close>.
\<close>

record evidence =
  ev_method :: string
  ev_result :: string
  ev_source :: string
  ev_smoke_cmd :: "string list option"
  ev_exit_code :: "int option"

record backfill_entry =
  bf_provider :: string
  bf_artifact_path :: "string option"
  bf_verification :: string
  bf_evidence :: evidence

type_synonym backfill_doc = "(string \<times> backfill_entry) list"

definition resolve_artifact :: "registry \<Rightarrow> string \<Rightarrow> string \<Rightarrow> string + string option \<times> string" where
  "resolve_artifact rg basename provider =
     (case parse_provider provider of
        Inl exc \<Rightarrow> Inl exc
      | Inr (K_pkg, target) \<Rightarrow>
          Inr (if target \<in> set (rg_multi_pkgs rg)
               then (Some (''/usr/local/bin/'' @ basename @ getenv_or (rg_multi_suffix rg target) []),
                     ''multi-binary-pkg'')
               else (Some (resolve_pkg rg target),
                     if rg_pkg_artifacts rg target \<noteq> None then ''pkg-artifacts'' else ''heuristic''))
      | Inr (K_port, target) \<Rightarrow>
          Inr (case resolve_port rg target of Inr p \<Rightarrow> (Some p, ''port-artifacts'')
               | Inl _ \<Rightarrow> (None, ''unresolved-port''))
      | Inr (K_build, target) \<Rightarrow>
          Inr (case resolve_build target of Inr r \<Rightarrow> (Some (br_artifact_path r), ''build-recipe'')
               | Inl _ \<Rightarrow> (None, ''unresolved-build'')))"

definition collect_entry :: "registry \<Rightarrow> (string \<Rightarrow> bool) \<Rightarrow> string \<times> string \<Rightarrow> string + string \<times> backfill_entry" where
  "collect_entry rg exists item =
     (case resolve_artifact rg (fst item) (snd item) of
        Inl exc \<Rightarrow> Inl exc
      | Inr (artifact, source) \<Rightarrow>
          (let (verification, result) =
             (case artifact of None \<Rightarrow> (''guessed'', ''unresolved'')
              | Some a \<Rightarrow> if exists a then (''exists'', ''present'') else (''guessed'', ''absent''))
           in Inr (fst item, \<lparr> bf_provider = snd item, bf_artifact_path = artifact,
                bf_verification = verification,
                bf_evidence = \<lparr> ev_method = ''path-exists'', ev_result = result, ev_source = source,
                                ev_smoke_cmd = None, ev_exit_code = None \<rparr> \<rparr>)))"

definition collect :: "registry \<Rightarrow> (string \<Rightarrow> bool) \<Rightarrow> (string \<times> string) list \<Rightarrow> string + backfill_doc" where
  "collect rg exists provider_map = try_map (collect_entry rg exists) (sort_key fst provider_map)"

definition SMOKE_ARGS :: "string \<Rightarrow> string list option" where
  "SMOKE_ARGS = map_of [(''java'', [''-version'']), (''dash'', [''-c'', ''exit 0'']), (''lua'', [''-v'']),
     (''openssl'', [''version'']), (''unzip'', [''-v''])]"

definition smoke_cmd :: "string \<Rightarrow> string \<Rightarrow> string list" where
  "smoke_cmd basename artifact_path =
     artifact_path # (case SMOKE_ARGS basename of None \<Rightarrow> [''--version''] | Some args \<Rightarrow> args)"

definition smoke_result :: "string list \<Rightarrow> int \<Rightarrow> backfill_entry \<Rightarrow> backfill_entry" where
  "smoke_result cmd rc e =
     (let e1 = e \<lparr> bf_evidence := (bf_evidence e) \<lparr> ev_method := ''smoke-jail'', ev_smoke_cmd := Some cmd,
                                                   ev_exit_code := Some rc \<rparr> \<rparr>
      in if rc = 0 then e1 \<lparr> bf_verification := ''runs'' \<rparr> else e1)"

text \<open>An entry at level 1 always has an artifact path when it comes from \<^verbatim>\<open>collect\<close>.\<close>

fun verify_runs :: "(string list \<Rightarrow> 'w \<Rightarrow> int \<times> 'w) \<Rightarrow> backfill_doc \<Rightarrow> 'w \<Rightarrow> backfill_doc \<times> 'w" where
  "verify_runs runner [] w = ([], w)"
| "verify_runs runner ((basename, entry) # rest) w =
     (if bf_verification entry \<noteq> ''exists''
      then (let (rest', w') = verify_runs runner rest w in ((basename, entry) # rest', w'))
      else (let cmd = smoke_cmd basename (getenv_or (bf_artifact_path entry) ''None'');
                (rc, w1) = runner cmd w;
                (rest', w') = verify_runs runner rest w1
            in ((basename, smoke_result cmd rc entry) # rest', w')))"

record host_record =
  hi_host :: string
  hi_freebsd_version :: string
  hi_checked_at :: string
  hi_method :: string

definition host_info :: "'w tool \<Rightarrow> string \<Rightarrow> string \<Rightarrow> string \<Rightarrow> 'w \<Rightarrow> host_record \<times> 'w" where
  "host_info t release node now w =
     (let (r, w') = t [''freebsd-version'', ''-u''] w;
          fv = (case r of Spawn_error _ \<Rightarrow> [] | Completed _ out _ \<Rightarrow> py_strip out);
          fv = (if fv = [] then (if release = [] then ''unknown'' else release) else fv)
      in (\<lparr> hi_host = node, hi_freebsd_version = fv, hi_checked_at = now, hi_method = ''path-exists'' \<rparr>, w'))"

definition count_entries :: "(backfill_entry \<Rightarrow> bool) \<Rightarrow> backfill_doc \<Rightarrow> nat" where
  "count_entries P d = length (filter (P \<circ> snd) d)"

definition summary_counts :: "backfill_doc \<Rightarrow> nat \<times> int \<times> int \<times> int" where
  "summary_counts d =
     (let n = length d;
          exists_n = int (count_entries (\<lambda>e. bf_verification e = ''exists'') d);
          unresolved = int (count_entries (\<lambda>e. ev_result (bf_evidence e) = ''unresolved'') d)
      in (n, exists_n, int n - exists_n - unresolved, unresolved))"

definition summary :: "backfill_doc \<Rightarrow> string" where
  "summary d =
     (let (n, e, a, u) = summary_counts d in
      show_nat n @ '' entries: '' @ show_int e @ '' at L1 (exists), '' @
      show_int a @ '' at L0 (absent), '' @ show_int u @ '' unresolved'')"

record verification_json =
  vj_schema_version :: int
  vj_generated :: host_record
  vj_entries :: backfill_doc

definition render :: "backfill_doc \<Rightarrow> host_record \<Rightarrow> verification_json" where
  "render collected info = \<lparr> vj_schema_version = 1, vj_generated = info, vj_entries = collected \<rparr>"

text \<open>\<^verbatim>\<open>main\<close>: the printed summary and the document to write, if any.\<close>

definition backfill_main ::
  "registry \<Rightarrow> (string \<Rightarrow> bool) \<Rightarrow> (string \<times> string) list \<Rightarrow> 'w tool \<Rightarrow> string \<Rightarrow> string \<Rightarrow> string
   \<Rightarrow> string list \<Rightarrow> 'w \<Rightarrow> (string + string \<times> verification_json option) \<times> 'w" where
  "backfill_main rg exists provider_map t release node now argv w =
     (case collect rg exists provider_map of
        Inl exc \<Rightarrow> (Inl exc, w)
      | Inr collected \<Rightarrow>
          (let (info, w') = host_info t release node now w
           in (Inr (summary collected,
                    if ''--check'' \<in> set argv then None else Some (render collected info)), w')))"

section \<open>Properties\<close>

lemma collect_entry_result:
  assumes "collect_entry rg exists item = Inr (n, e)"
  obtains src where "n = fst item" and "bf_provider e = snd item"
    and "resolve_artifact rg n (snd item) = Inr (bf_artifact_path e, src)"
    and "bf_verification e =
           (if (case bf_artifact_path e of None \<Rightarrow> False | Some a \<Rightarrow> exists a) then ''exists'' else ''guessed'')"
    and "ev_result (bf_evidence e) =
           (case bf_artifact_path e of None \<Rightarrow> ''unresolved'' | Some a \<Rightarrow> if exists a then ''present'' else ''absent'')"
    and "ev_smoke_cmd (bf_evidence e) = None"
  using assms by (auto simp: collect_entry_def Let_def split: sum.splits prod.splits option.splits if_splits)

lemma collect_entries:
  assumes "collect rg exists pm = Inr d" and "(n, e) \<in> set d"
  obtains p where "(n, p) \<in> set pm" and "collect_entry rg exists (n, p) = Inr (n, e)"
proof -
  obtain item where i: "item \<in> set pm" "collect_entry rg exists item = Inr (n, e)"
    using try_map_result [OF assms(1) [unfolded collect_def] assms(2)] by auto
  moreover from i(2) have "n = fst item" by (rule collect_entry_result)
  ultimately show ?thesis using that [of "snd item"] by simp
qed

lemma collect_keys: "collect rg exists pm = Inr d \<Longrightarrow> map fst d = map fst (sort_key fst pm)"
proof -
  assume "collect rg exists pm = Inr d"
  then have "list_all2 (\<lambda>x y. collect_entry rg exists x = Inr y) (sort_key fst pm) d"
    unfolding collect_def by (rule try_map_InrD)
  then show ?thesis
    by (induction rule: list_all2_induct) (auto elim: collect_entry_result)
qed

text \<open>A collected document has the entries of the provider map in the order of their names, each
  with the artifact path its provider resolves to; an entry is at level 1 exactly if that path
  exists on the host and at level 0 otherwise, never higher; and the printed counts add up to
  what is recorded as present, absent and unresolved.\<close>

theorem collect_levels:
  assumes "collect rg exists pm = Inr d"
  shows "map fst d = map fst (sort_key fst pm)
    \<and> list_all (\<lambda>(n, e).
         bf_verification e = (if (case bf_artifact_path e of None \<Rightarrow> False | Some a \<Rightarrow> exists a)
                              then ''exists'' else ''guessed'')
         \<and> (\<exists>src. resolve_artifact rg n (bf_provider e) = Inr (bf_artifact_path e, src))) d
    \<and> summary_counts d =
        (length d, int (count_entries (\<lambda>e. ev_result (bf_evidence e) = ''present'') d),
         int (count_entries (\<lambda>e. ev_result (bf_evidence e) = ''absent'') d),
         int (count_entries (\<lambda>e. ev_result (bf_evidence e) = ''unresolved'') d))"
proof -
  have each: "bf_verification e = (if (case bf_artifact_path e of None \<Rightarrow> False | Some a \<Rightarrow> exists a)
                              then ''exists'' else ''guessed'')
         \<and> (\<exists>src. resolve_artifact rg n (bf_provider e) = Inr (bf_artifact_path e, src))
         \<and> ev_result (bf_evidence e) = (case bf_artifact_path e of None \<Rightarrow> ''unresolved''
              | Some a \<Rightarrow> if exists a then ''present'' else ''absent'')" if ne: "(n, e) \<in> set d" for n e
  proof -
    obtain p where "collect_entry rg exists (n, p) = Inr (n, e)" by (rule collect_entries [OF assms ne])
    then show ?thesis by (rule collect_entry_result) auto
  qed
  then have 1: "list_all (\<lambda>(n, e).
         bf_verification e = (if (case bf_artifact_path e of None \<Rightarrow> False | Some a \<Rightarrow> exists a)
                              then ''exists'' else ''guessed'')
         \<and> (\<exists>src. resolve_artifact rg n (bf_provider e) = Inr (bf_artifact_path e, src))) d"
    by (auto simp: list_all_iff)
  have counts: "length ds = count_entries (\<lambda>e. ev_result (bf_evidence e) = ''present'') ds
        + count_entries (\<lambda>e. ev_result (bf_evidence e) = ''absent'') ds
        + count_entries (\<lambda>e. ev_result (bf_evidence e) = ''unresolved'') ds
      \<and> count_entries (\<lambda>e. bf_verification e = ''exists'') ds =
          count_entries (\<lambda>e. ev_result (bf_evidence e) = ''present'') ds"
    if "set ds \<subseteq> set d" for ds
    using that
  proof (induction ds)
    case Nil
    then show ?case by (simp add: count_entries_def)
  next
    case (Cons x ds)
    then show ?case using each [of "fst x" "snd x"]
      by (auto simp: count_entries_def split: option.splits if_splits)
  qed
  show ?thesis using 1 collect_keys [OF assms] counts [OF subset_refl]
    by (simp add: summary_counts_def Let_def)
qed

lemma collect_levels_witness:
  "map fst (projr (collect demo_registry (\<lambda>p. p = ''/usr/local/bin/cmake'') [(''ld'', ''pkg:binutils''), (''cmake'', ''pkg:cmake'')]))
     = [''cmake'', ''ld'']"
proof -
  let ?pm = "[(''ld'', ''pkg:binutils''), (''cmake'', ''pkg:cmake'')]"
  have r: "\<not> isl (collect demo_registry (\<lambda>p. p = ''/usr/local/bin/cmake'') ?pm)" by code_simp
  then obtain d where d: "collect demo_registry (\<lambda>p. p = ''/usr/local/bin/cmake'') ?pm = Inr d"
    by (metis sum.collapse(2))
  have "map fst (sort_key fst ?pm) = [''cmake'', ''ld'']" by code_simp
  then show ?thesis using collect_levels [OF d] d by simp
qed

text \<open>C37: Backfill and bakery never disagree on where a binary lives: for a native binary of a
  manifest, the bakery fills in exactly the path the backfill resolves for its file name and
  provider (or raises what looking for that path raises), and leaves the binary as it is where the
  backfill resolves none.\<close>

theorem bakery_agrees_with_backfill:
  assumes "b \<in> set bs" and "bb_status b = Some ''native''" and "bb_path b = Some p"
    and "bb_native b = Some nv" and "nv_provider nv = Some pr"
    and "resolve_artifact rg (path_last p) pr = Inr (art, src)"
  shows "fill_binary rg exists (fst (build_plan rg bs)) b =
     (case art of None \<Rightarrow> Inr b | Some a \<Rightarrow> (case exists a of Inl exc \<Rightarrow> Inl exc | Inr there \<Rightarrow> Inr (refill there a b nv)))"
proof -
  obtain k t where kt: "parse_provider pr = Inr (k, t)"
    using assms(6) by (cases "parse_provider pr") (auto simp: resolve_artifact_def)
  then have ne: "pr \<noteq> []" using parse_provider_Nil by auto
  have bp: "binary_provider b = Some pr"
    using assms by (simp add: binary_provider_def native_truthy_def getenv_or_def)
  have wf: "plan_wf rg (fst (build_plan rg bs))"
    and keys: "plan_keys (fst (build_plan rg bs)) = \<Union> (binary_keys rg ` set bs)"
    using build_plan_stage [of rg bs] by (simp_all add: stage_def)
  have sub: "target_keys rg k t \<subseteq> plan_keys (fst (build_plan rg bs))"
    using assms(1) bp kt unfolding keys by (force simp: binary_keys_def)
  have idx: "resolved_index (fst (build_plan rg bs)) (k, t) = target_artifact rg k t"
    using sub by (cases k)
      (auto simp: resolved_index_artifact [OF wf] target_artifact_def port_keys_def resolve_port_def
        resolve_build_def split: option.splits)
  have fill: "fill_binary rg exists (fst (build_plan rg bs)) b =
      (case target_artifact rg k t of None \<Rightarrow> Inr b
       | Some a0 \<Rightarrow> (case filled_path rg b k t a0 of Inl exc \<Rightarrow> Inl exc
           | Inr a \<Rightarrow> (case exists a of Inl exc \<Rightarrow> Inl exc | Inr there \<Rightarrow> Inr (refill there a b nv))))"
    using assms(2,4,5) kt ne idx
    by (simp add: fill_binary_def native_truthy_def getenv_or_def refill_def Let_def split: option.split sum.split)
  have "case art of None \<Rightarrow> target_artifact rg k t = None
      | Some a \<Rightarrow> (\<exists>a0. target_artifact rg k t = Some a0 \<and> filled_path rg b k t a0 = Inr a)"
    using assms(3,6) kt
    by (cases k) (auto simp: resolve_artifact_def filled_path_def target_artifact_def resolve_port_def resolve_build_def getenv_or_def
        split: option.splits)
  then show ?thesis unfolding fill by (cases art) auto
qed

lemma bakery_agrees_with_backfill_witness:
  "fill_binary demo_registry (\<lambda>_. Inr True) (fst (build_plan demo_registry [demo_binary])) demo_binary =
     Inr (refill True ''/usr/local/bin/cmake'' demo_binary (the (bb_native demo_binary)))"
proof -
  have r: "resolve_artifact demo_registry (path_last ''/usr/bin/cmake'') ''pkg:cmake'' =
      Inr (Some ''/usr/local/bin/cmake'', ''pkg-artifacts'')" by code_simp
  show ?thesis
    using bakery_agrees_with_backfill [OF _ _ _ _ _ r, of demo_binary "[demo_binary]" "the (bb_native demo_binary)" "\<lambda>_. Inr True"]
    by (simp add: demo_binary_def)
qed

text \<open>The smoke commands of the entries at level 1.\<close>

definition smoke_cmds :: "backfill_doc \<Rightarrow> string list list" where
  "smoke_cmds d = map (\<lambda>(n, e). smoke_cmd n (getenv_or (bf_artifact_path e) ''None''))
     (filter (\<lambda>(n, e). bf_verification e = ''exists'') d)"

lemma smoke_cmds_simps [simp]:
  "smoke_cmds [] = []"
  "smoke_cmds ((n, e) # d) = (if bf_verification e = ''exists''
     then smoke_cmd n (getenv_or (bf_artifact_path e) ''None'') # smoke_cmds d else smoke_cmds d)"
  by (simp_all add: smoke_cmds_def)

definition logged_runner :: "(string list \<Rightarrow> int) \<Rightarrow> string list \<Rightarrow> string list list \<Rightarrow> int \<times> string list list" where
  "logged_runner f cmd log = (f cmd, log @ [cmd])"

text \<open>The second rung runs the smoke command of every level 1 entry, once, in order, and of no
  other entry; it lifts an entry to level 2 exactly if its command exits 0, records command
  and exit code of each attempt, and changes no entry it did not run.\<close>

theorem verify_runs_ladder:
  "verify_runs (logged_runner f) d log =
     (map (\<lambda>(n, e). (n, let cmd = smoke_cmd n (getenv_or (bf_artifact_path e) ''None'') in
            if bf_verification e \<noteq> ''exists'' then e
            else e \<lparr> bf_verification := (if f cmd = 0 then ''runs'' else ''exists''),
                     bf_evidence := (bf_evidence e) \<lparr> ev_method := ''smoke-jail'', ev_smoke_cmd := Some cmd,
                                                      ev_exit_code := Some (f cmd) \<rparr> \<rparr>)) d,
      log @ smoke_cmds d)"
proof (induction d arbitrary: log)
  case Nil
  then show ?case by simp
next
  case (Cons x d)
  obtain n e where x: "x = (n, e)" by fastforce
  then show ?case
    using Cons by (cases e) (simp add: logged_runner_def smoke_result_def Let_def)
qed

end
