(* ===== verification/EngineExec.thy ===== *)
theory EngineExec
  imports EngineRun
begin

text \<open>
  \<^verbatim>\<open>runtime/engine.py\<close>, the rest: the terminal session of \<^verbatim>\<open>run -it\<close> (\<^verbatim>\<open>_stream_jexec_pty\<close>), whether a
  jail is live, and \<^verbatim>\<open>jailrun exec\<close> with its forwarding of signals.
\<close>

section \<open>A terminal session\<close>

text \<open>What one pass of the session's loop meets: the time since its start, what the terminal of the
  process gives (an exception, nothing yet, or output), whether that can be written to the log,
  what jailrun's own input gives, the state of the process, and an interrupt.  Only the terminal
  is set non-blocking: a read of the input may wait for ever.\<close>

datatype stdin_read = Typed string | No_input | Blocks

record tick =
  tk_elapsed :: nat
  tk_master :: "store_exc + string option"
  tk_log_ok :: bool
  tk_stdin :: stdin_read
  tk_poll :: "int option"
  tk_interrupt :: bool

datatype session_end = Out_of_time | Process_exited int | Interrupted | Session_failed store_exc

definition master_chunks :: "string option \<Rightarrow> bool \<Rightarrow> chunk list" where
  "master_chunks data ok =
     (case data of None \<Rightarrow> [] | Some d \<Rightarrow> if d = [] then [] else [\<lparr> ck_stderr = False, ck_data = d, ck_log_ok = ok \<rparr>])"

definition typed_text :: "stdin_read \<Rightarrow> string" where
  "typed_text r = (case r of Typed s \<Rightarrow> s | _ \<Rightarrow> [])"

definition out_of_time :: "nat option \<Rightarrow> tick \<Rightarrow> bool" where
  "out_of_time timeout t = (case timeout of None \<Rightarrow> False | Some limit \<Rightarrow> limit < tk_elapsed t)"

text \<open>The loop from its pass \<^verbatim>\<open>n\<close> on: how and in which pass it ends, the output, and the input passed
  on.  \<^const>\<open>None\<close> is a loop that does not end.\<close>

partial_function (option) pty_loop ::
  "nat option \<Rightarrow> (nat \<Rightarrow> tick) \<Rightarrow> nat \<Rightarrow> (session_end \<times> nat \<times> chunk list \<times> string) option" where
  "pty_loop timeout ticks n =
     (if out_of_time timeout (ticks n) then Some (Out_of_time, n, [], [])
      else (case tk_master (ticks n) of
          Inl e \<Rightarrow> Some (Session_failed e, n, [], [])
        | Inr data \<Rightarrow>
            if tk_stdin (ticks n) = Blocks then None
            else (case tk_poll (ticks n) of
                Some rc \<Rightarrow> Some (Process_exited rc, n, master_chunks data (tk_log_ok (ticks n)), typed_text (tk_stdin (ticks n)))
              | None \<Rightarrow>
                  if tk_interrupt (ticks n) then Some (Interrupted, n, master_chunks data (tk_log_ok (ticks n)), typed_text (tk_stdin (ticks n)))
                  else Option.bind (pty_loop timeout ticks (Suc n)) (\<lambda>(e, k, cs, inp).
                       Some (e, k, master_chunks data (tk_log_ok (ticks n)) @ cs, typed_text (tk_stdin (ticks n)) @ inp)))))"

text \<open>A session: its passes, the exit status that waiting for the process gives when the loop ended
  in a pass (killed or not; \<^const>\<open>None\<close> where the process does not end), and the host then.\<close>

record 'w session =
  ss_ticks :: "nat \<Rightarrow> tick"
  ss_wait :: "bool \<Rightarrow> nat \<Rightarrow> int option"
  ss_host :: "nat \<Rightarrow> 'w host"

definition session_result :: "'w session \<Rightarrow> nat \<Rightarrow> session_end \<Rightarrow> (store_exc + int) option" where
  "session_result ss n e =
     (case e of
        Process_exited rc \<Rightarrow> Some (Inr rc)
      | Out_of_time \<Rightarrow> map_option Inr (ss_wait ss True n)
      | Interrupted \<Rightarrow> map_option Inr (ss_wait ss False n)
      | Session_failed x \<Rightarrow> map_option (\<lambda>_. Inl x) (ss_wait ss False n))"

text \<open>\<^verbatim>\<open>spawn\<close> starts the command line on a terminal, or does not.\<close>

definition stream_jexec_pty :: "(string list \<Rightarrow> 'w host \<Rightarrow> string + 'w session) \<Rightarrow> nat option \<Rightarrow> 'w pty" where
  "stream_jexec_pty spawn timeout argv h =
     (case spawn argv h of
        Inl e \<Rightarrow> Some (Inl (Other_error e), [], h)
      | Inr ss \<Rightarrow>
          Option.bind (pty_loop timeout (ss_ticks ss) 0) (\<lambda>(e, n, cs, _).
          map_option (\<lambda>r. (r, cs, ss_host ss n)) (session_result ss n e)))"

text \<open>The passes that end the loop, and those that never come to their own end.\<close>

definition tick_ends :: "nat option \<Rightarrow> tick \<Rightarrow> bool" where
  "tick_ends timeout t \<longleftrightarrow> out_of_time timeout t \<or> is_error (tk_master t) \<or>
     (tk_stdin t \<noteq> Blocks \<and> (tk_poll t \<noteq> None \<or> tk_interrupt t))"

definition tick_hangs :: "nat option \<Rightarrow> tick \<Rightarrow> bool" where
  "tick_hangs timeout t \<longleftrightarrow> \<not> out_of_time timeout t \<and> \<not> is_error (tk_master t) \<and> tk_stdin t = Blocks"

lemma pty_loop_end:
  "tick_ends timeout (ticks n) \<Longrightarrow> pty_loop timeout ticks n \<noteq> None"
  by (subst pty_loop.simps) (auto simp: tick_ends_def is_error_def split: sum.splits option.splits)

lemma pty_loop_hang: "tick_hangs timeout (ticks n) \<Longrightarrow> pty_loop timeout ticks n = None"
  by (subst pty_loop.simps) (auto simp: tick_hangs_def is_error_def split: sum.splits)

lemma pty_loop_next:
  "\<not> tick_ends timeout (ticks n) \<Longrightarrow> \<not> tick_hangs timeout (ticks n)
   \<Longrightarrow> pty_loop timeout ticks n = None \<longleftrightarrow> pty_loop timeout ticks (Suc n) = None"
  by (subst pty_loop.simps) (auto simp: tick_ends_def tick_hangs_def is_error_def bind_eq_None_conv split: sum.splits option.splits prod.splits)

lemma pty_loop_ends:
  assumes "tick_ends timeout (ticks (n + k))" and "\<forall>m < k. \<not> tick_hangs timeout (ticks (n + m))"
  shows "pty_loop timeout ticks n \<noteq> None"
  using assms
proof (induction k arbitrary: n)
  case 0
  then show ?case using pty_loop_end by fastforce
next
  case (Suc k)
  have "\<forall>m < k. \<not> tick_hangs timeout (ticks (Suc n + m))" using Suc.prems(2) by auto
  then have "pty_loop timeout ticks (Suc n) \<noteq> None" using Suc by simp
  moreover have "\<not> tick_hangs timeout (ticks n)" using Suc.prems(2) by (metis add.right_neutral zero_less_Suc)
  ultimately show ?case using pty_loop_end pty_loop_next by metis
qed

lemma pty_loop_ended:
  assumes "pty_loop timeout ticks n = Some y"
  shows "\<exists>k. tick_ends timeout (ticks (n + k)) \<and> (\<forall>m < k. \<not> tick_hangs timeout (ticks (n + m))) \<and> fst (snd y) = n + k"
  using assms
proof (induction rule: pty_loop.raw_induct [rotated, consumes 1, case_names Pass])
  case (Pass loop timeout ticks n y)
  show ?case
  proof (cases "tick_ends timeout (ticks n)")
    case True
    then have "fst (snd y) = n"
      using Pass(2) by (auto simp: tick_ends_def is_error_def split: if_splits sum.splits option.splits)
    then show ?thesis using True by (intro exI [of _ 0]) simp
  next
    case False
    then obtain z where z: "loop timeout ticks (Suc n) = Some z" "fst (snd y) = fst (snd z)" "\<not> tick_hangs timeout (ticks n)"
      using Pass(2) by (auto simp: tick_ends_def tick_hangs_def is_error_def bind_eq_Some_conv split: if_splits sum.splits option.splits)
    obtain k where k: "tick_ends timeout (ticks (Suc n + k))" "\<forall>m < k. \<not> tick_hangs timeout (ticks (Suc n + m))" "fst (snd z) = Suc n + k"
      using Pass(1) [OF z(1)] by blast
    have "\<forall>m < Suc k. \<not> tick_hangs timeout (ticks (n + m))"
      using k(2) z(3) by (auto simp: less_Suc_eq_0_disj)
    then show ?thesis using k z by (intro exI [of _ "Suc k"]) simp
  qed
qed


text \<open>What a pass shows of the process, and how the pass that ends the loop ends it.\<close>

definition tick_output :: "tick \<Rightarrow> chunk list" where
  "tick_output t = (case tk_master t of Inl _ \<Rightarrow> [] | Inr data \<Rightarrow> master_chunks data (tk_log_ok t))"

definition tick_end :: "nat option \<Rightarrow> tick \<Rightarrow> session_end" where
  "tick_end timeout t =
     (if out_of_time timeout t then Out_of_time
      else case tk_master t of Inl e \<Rightarrow> Session_failed e
        | Inr _ \<Rightarrow> (case tk_poll t of Some rc \<Rightarrow> Process_exited rc | None \<Rightarrow> Interrupted))"

definition tick_last :: "nat option \<Rightarrow> tick \<Rightarrow> chunk list" where
  "tick_last timeout t = (if out_of_time timeout t then [] else tick_output t)"

definition first_end :: "nat option \<Rightarrow> (nat \<Rightarrow> tick) \<Rightarrow> nat \<Rightarrow> bool" where
  "first_end timeout ticks k \<longleftrightarrow>
     tick_ends timeout (ticks k) \<and> (\<forall>m < k. \<not> tick_ends timeout (ticks m) \<and> \<not> tick_hangs timeout (ticks m))"

lemma pty_loop_at:
  assumes "tick_ends timeout (ticks (n + k))"
    and "\<forall>m < k. \<not> tick_ends timeout (ticks (n + m)) \<and> \<not> tick_hangs timeout (ticks (n + m))"
  shows "\<exists>inp. pty_loop timeout ticks n = Some (tick_end timeout (ticks (n + k)), n + k,
    concat (map (\<lambda>m. tick_output (ticks m)) [n..<n + k]) @ tick_last timeout (ticks (n + k)), inp)"
  using assms
proof (induction k arbitrary: n)
  case 0
  then show ?case
    by (subst pty_loop.simps)
      (auto simp: tick_ends_def tick_end_def tick_last_def tick_output_def is_error_def split: sum.splits option.splits)
next
  case (Suc k)
  have "\<forall>m < k. \<not> tick_ends timeout (ticks (Suc n + m)) \<and> \<not> tick_hangs timeout (ticks (Suc n + m))"
    using Suc.prems(2) by auto
  then obtain inp where i: "pty_loop timeout ticks (Suc n) = Some (tick_end timeout (ticks (Suc n + k)), Suc n + k,
      concat (map (\<lambda>m. tick_output (ticks m)) [Suc n..<Suc n + k]) @ tick_last timeout (ticks (Suc n + k)), inp)"
    using Suc.IH [of "Suc n"] Suc.prems(1) unfolding add_Suc_shift by blast
  have t: "\<not> tick_ends timeout (ticks n)" "\<not> tick_hangs timeout (ticks n)"
    using Suc.prems(2) by (metis add.right_neutral zero_less_Suc)+
  have u: "[n..<n + Suc k] = n # [Suc n..<Suc n + k]" by (simp add: upt_conv_Cons del: upt_Suc)
  have "pty_loop timeout ticks n = Some (tick_end timeout (ticks (Suc n + k)), Suc n + k, tick_output (ticks n) @
      concat (map (\<lambda>m. tick_output (ticks m)) [Suc n..<Suc n + k]) @ tick_last timeout (ticks (Suc n + k)),
      typed_text (tk_stdin (ticks n)) @ inp)"
    using t by (subst pty_loop.simps, cases "tk_master (ticks n)"; cases "tk_poll (ticks n)")
      (simp_all add: i tick_ends_def tick_hangs_def tick_output_def is_error_def del: upt_Suc)
  then show ?case unfolding u by (simp del: upt_Suc)
qed

lemma pty_loop_first:
  "pty_loop timeout ticks 0 \<noteq> None \<longleftrightarrow> (\<exists>k. first_end timeout ticks k)"
proof
  assume "pty_loop timeout ticks 0 \<noteq> None"
  then obtain k where k: "tick_ends timeout (ticks k)" "\<forall>m < k. \<not> tick_hangs timeout (ticks m)"
    using pty_loop_ended [of timeout ticks 0] by auto
  obtain i where i: "tick_ends timeout (ticks i)" "i \<le> k" "\<forall>m < i. \<not> tick_ends timeout (ticks m)"
    using ex_least_nat_le [of "\<lambda>i. tick_ends timeout (ticks i)" k] k(1) by blast
  then have "first_end timeout ticks i" using k(2) by (simp add: first_end_def)
  then show "\<exists>k. first_end timeout ticks k" by blast
next
  assume "\<exists>k. first_end timeout ticks k"
  then show "pty_loop timeout ticks 0 \<noteq> None"
    using pty_loop_ends [of timeout ticks 0] by (auto simp: first_end_def)
qed

lemma first_end_unique: "first_end timeout ticks k \<Longrightarrow> first_end timeout ticks k' \<Longrightarrow> k = k'"
  unfolding first_end_def by (metis linorder_neqE_nat)

lemma pty_loop_result:
  "first_end timeout ticks k \<Longrightarrow> \<exists>inp. pty_loop timeout ticks 0 = Some (tick_end timeout (ticks k), k,
    concat (map (\<lambda>m. tick_output (ticks m)) [0..<k]) @ tick_last timeout (ticks k), inp)"
  using pty_loop_at [of timeout ticks 0 k] by (simp add: first_end_def)

text \<open>C22: A terminal session that could be started ends exactly if one of its passes ends it (the time
  is over, the terminal fails, the process has ended, or an interrupt), in no pass before that a read
  of jailrun's own input waits for ever, and the process, where it is waited for, ends.  Of the first
  pass \<^verbatim>\<open>k\<close> that ends it: when the time is over, the exit status is that of the killed process, and the
  terminal is not read again; when the terminal fails, its exception is raised, though not before the
  process is over; when the process has ended, its exit status is given, else that which waiting for
  it gives.  The output is that of all passes, in their order.\<close>

theorem pty_session_ends:
  assumes "spawn argv h = Inr ss"
  shows "stream_jexec_pty spawn timeout argv h = Some (r, cs, w) \<longleftrightarrow>
    (\<exists>k. let t = ss_ticks ss k in
       tick_ends timeout t
     \<and> (\<forall>m < k. \<not> tick_ends timeout (ss_ticks ss m) \<and> \<not> tick_hangs timeout (ss_ticks ss m))
     \<and> w = ss_host ss k
     \<and> cs = concat (map (\<lambda>m. tick_output (ss_ticks ss m)) [0..<k]) @ (if out_of_time timeout t then [] else tick_output t)
     \<and> (if out_of_time timeout t then \<exists>c. ss_wait ss True k = Some c \<and> r = Inr c
        else case tk_master t of
          Inl e \<Rightarrow> ss_wait ss False k \<noteq> None \<and> r = Inl e
        | Inr _ \<Rightarrow> (case tk_poll t of
            Some rc \<Rightarrow> r = Inr rc
          | None \<Rightarrow> \<exists>c. ss_wait ss False k = Some c \<and> r = Inr c)))"
  (is "?lhs \<longleftrightarrow> (\<exists>k. ?end k)")
proof -
  let ?t = "ss_ticks ss"
  have e: "?end k \<longleftrightarrow> first_end timeout ?t k \<and> w = ss_host ss k
      \<and> cs = concat (map (\<lambda>m. tick_output (?t m)) [0..<k]) @ tick_last timeout (?t k)
      \<and> session_result ss k (tick_end timeout (?t k)) = Some r" for k
  proof (cases "out_of_time timeout (?t k)")
    case True
    then show ?thesis by (auto simp: Let_def first_end_def tick_last_def tick_end_def session_result_def)
  next
    case False
    then show ?thesis
      by (cases "tk_master (?t k)"; cases "tk_poll (?t k)")
        (auto simp: Let_def first_end_def tick_last_def tick_end_def session_result_def)
  qed
  show ?thesis
  proof (cases "\<exists>k. first_end timeout ?t k")
    case True
    then obtain k where k: "first_end timeout ?t k" by blast
    obtain inp where i: "pty_loop timeout ?t 0 = Some (tick_end timeout (?t k), k,
        concat (map (\<lambda>m. tick_output (?t m)) [0..<k]) @ tick_last timeout (?t k), inp)"
      using pty_loop_result [OF k] by blast
    have "?lhs \<longleftrightarrow> ?end k" unfolding e using assms i k by (auto simp: stream_jexec_pty_def)
    moreover have "?end k' \<Longrightarrow> k' = k" for k' unfolding e using k first_end_unique by blast
    ultimately show ?thesis by blast
  next
    case False
    then have "pty_loop timeout ?t 0 = None" using pty_loop_first by blast
    then show ?thesis unfolding e using assms False by (simp add: stream_jexec_pty_def)
  qed
qed

text \<open>A process that runs for ever; whoever sits at the terminal types, or does not.\<close>

definition endless :: "stdin_read \<Rightarrow> 'w host \<Rightarrow> 'w session" where
  "endless inp h = \<lparr> ss_ticks = (\<lambda>n. \<lparr> tk_elapsed = 50 * n, tk_master = Inr None, tk_log_ok = True, tk_stdin = inp,
       tk_poll = None, tk_interrupt = False \<rparr>), ss_wait = (\<lambda>_ _. Some (-9)), ss_host = (\<lambda>_. h) \<rparr>"

text \<open>At a terminal where nobody types, with input that does not block, a time limit of 100 ends the
  session in the third pass; with a process that ends in its second pass it gives its exit status and
  its output.\<close>

definition brief :: "'w host \<Rightarrow> 'w session" where
  "brief h = \<lparr> ss_ticks = (\<lambda>n. \<lparr> tk_elapsed = 50 * n, tk_master = Inr (if n = 0 then Some ''ok'' else None), tk_log_ok = True,
       tk_stdin = No_input, tk_poll = (if n = 0 then None else Some 3), tk_interrupt = False \<rparr>),
     ss_wait = (\<lambda>_ _. Some 0), ss_host = (\<lambda>_. h) \<rparr>"

lemma pty_session_ends_witness:
  "stream_jexec_pty (\<lambda>_ h. Inr (endless No_input h)) (Some 100) [''jexec''] ([], ()) = Some (Inr (-9), [], ([], ()))
   \<and> stream_jexec_pty (\<lambda>_ h. Inr (brief h)) None [''jexec''] ([], ()) =
       Some (Inr 3, [\<lparr> ck_stderr = False, ck_data = ''ok'', ck_log_ok = True \<rparr>], ([], ()))"
proof
  show "stream_jexec_pty (\<lambda>_ h. Inr (endless No_input h)) (Some 100) [''jexec''] ([], ()) = Some (Inr (-9), [], ([], ()))"
    by (rule pty_session_ends [of "\<lambda>_ h. Inr (endless No_input h)" "[''jexec'']" "([], ())" "endless No_input ([], ())", OF refl, THEN iffD2],
        rule exI [of _ 3])
      (simp add: tick_ends_def tick_hangs_def out_of_time_def endless_def tick_output_def master_chunks_def is_error_def upt_rec)
  show "stream_jexec_pty (\<lambda>_ h. Inr (brief h)) None [''jexec''] ([], ()) =
       Some (Inr 3, [\<lparr> ck_stderr = False, ck_data = ''ok'', ck_log_ok = True \<rparr>], ([], ()))"
    by (rule pty_session_ends [of "\<lambda>_ h. Inr (brief h)" "[''jexec'']" "([], ())" "brief ([], ())", OF refl, THEN iffD2],
        rule exI [of _ 1])
      (simp add: tick_ends_def tick_hangs_def out_of_time_def brief_def tick_output_def master_chunks_def is_error_def)
qed

text \<open>A silent terminal outlives its time limit.  In an interactive run whose process gives no sign
  of an end in the first pass, and at whose terminal nobody types, the first read of the input
  waits for ever: the run does not return, whatever time limit it has and whatever the process
  does afterwards, and nothing of its teardown is reached, neither the removal of the jail nor the
  exit in the ledger.\<close>

theorem silent_terminal_outlives_timeout:
  assumes "op_interactive opts" and "ee_pty env = stream_jexec_pty spawn timeout"
    and "before_try env opts image_ref (fresh_locals s) = (Inr (spec, ok, i), s1)"
    and "make_jail env opts image_ref spec ok i s1 = (Inr (n, e), s2)"
    and "spawn (jexec_argv n (default_cmd cmd) e (op_workdir opts)) (en_host s2) = Inr ss"
    and "tick_hangs timeout (ss_ticks ss 0)"
  shows "run_async env opts image_ref cmd s = None"
proof -
  have "stream_jexec_pty spawn timeout (jexec_argv n (default_cmd cmd) e (op_workdir opts)) (en_host s2) = None"
    using assms(5) pty_loop_hang [of timeout "ss_ticks ss" 0, OF assms(6)] by (simp add: stream_jexec_pty_def)
  then have "run_command env opts n cmd e s2 = None"
    using assms(1,2) by (simp add: run_command_def)
  then show ?thesis using assms(3,4) by (simp add: run_async_def try_block_def)
qed

definition terminal_env :: "string list list engine_env" where
  "terminal_env = demo_env all_fine \<lparr> ee_pty := stream_jexec_pty (\<lambda>_ h. Inr (endless Blocks h)) (Some 9) \<rparr>"

definition terminal_opts :: run_opts where "terminal_opts = demo_opts \<lparr> op_interactive := True \<rparr>"

lemma terminal_run:
  "(case before_try terminal_env terminal_opts ''nativebase:b'' (fresh_locals (demo_eng base_tree [])) of
      (b, s1) \<Rightarrow> b = Inr (None, True, None) \<and>
        fst (make_jail terminal_env terminal_opts ''nativebase:b'' None True None s1) = Inr (''jailrun-r'', [(''PATH'', DEFAULT_PATH)]))"
  by code_simp

lemma silent_terminal_outlives_timeout_witness:
  "run_async terminal_env terminal_opts ''nativebase:b'' [''sh''] (demo_eng base_tree []) = None"
proof -
  let ?e = terminal_env and ?s = "demo_eng base_tree []"
  obtain b s1 where b: "before_try ?e terminal_opts ''nativebase:b'' (fresh_locals ?s) = (b, s1)" by (rule prod.exhaust)
  obtain r s2 where m: "make_jail ?e terminal_opts ''nativebase:b'' None True None s1 = (r, s2)" by (rule prod.exhaust)
  note n = terminal_run [unfolded b prod.case m fst_conv]
  have b': "before_try ?e terminal_opts ''nativebase:b'' (fresh_locals ?s) = (Inr (None, True, None), s1)"
    and m': "make_jail ?e terminal_opts ''nativebase:b'' None True None s1 = (Inr (''jailrun-r'', [(''PATH'', DEFAULT_PATH)]), s2)"
    using b m n by simp_all
  show ?thesis
    by (rule silent_terminal_outlives_timeout [OF _ _ b' m', where spawn = "\<lambda>_ h. Inr (endless Blocks h)" and timeout = "Some 9"
          and ss = "endless Blocks (en_host s2)"])
      (simp_all add: terminal_opts_def terminal_env_def tick_hangs_def out_of_time_def is_error_def endless_def)
qed

section \<open>Live jails\<close>

text \<open>The same listing as the garbage collector's, written again.\<close>

definition list_live_jail_names :: "'w tool \<Rightarrow> 'w \<Rightarrow> string list option \<times> 'w" where
  "list_live_jail_names t w =
     (case t [''jls'', ''-n'', ''name''] w of
        (Spawn_error e, w') \<Rightarrow> (None, w')
      | (Completed rc out err, w') \<Rightarrow>
          (if rc \<noteq> 0 then None else Some (List.map_filter (search_name False) (py_splitlines out)), w'))"

lemma live_jail_names_as_gc: "list_live_jail_names t w = list_jail_names t w"
  by (simp add: list_live_jail_names_def list_jail_names_def parse_jls_def split: prod.split cmd_result.split)

definition jls_unavailable :: string where
  "jls_unavailable = ''jailrun exec: could not enumerate live jails via `jls -n name` '' @
     ''on this host (not FreeBSD, or jls unavailable)''"

definition no_live_jail :: "string \<Rightarrow> string" where
  "no_live_jail jail_name = ''jailrun exec: no live jail named '' @ py_repr jail_name @ '' (jls -n name)''"

text \<open>The ledger is read for a warning only; opening it may create or migrate its table.\<close>

definition check_jail_live :: "'w engine_env \<Rightarrow> string \<Rightarrow> 'w host \<times> db_file \<Rightarrow> (bool \<times> string) \<times> 'w host \<times> db_file" where
  "check_jail_live env jail_name hf =
     (case list_live_jail_names (ee_tool env None []) (fst hf) of
        (None, h) \<Rightarrow> ((False, jls_unavailable), h, snd hf)
      | (Some known_jails, h) \<Rightarrow>
          if jail_name \<notin> set known_jails then ((False, no_live_jail jail_name), h, snd hf)
          else ((True, []), h,
                ledger_after (snd (list_runs (ee_faults env) (Some RUNNING) (open_run_ledger (ee_env env) (snd hf)))) (snd hf)))"

lemma check_jail_live_iff:
  "fst (fst (check_jail_live env n hf)) \<longleftrightarrow> (\<exists>ns. fst (list_live_jail_names (ee_tool env None []) (fst hf)) = Some ns \<and> n \<in> set ns)"
  by (auto simp: check_jail_live_def split: prod.split option.split)

section \<open>A command in a live jail\<close>

definition exec_async ::
  "'w engine_env \<Rightarrow> string \<Rightarrow> string list \<Rightarrow> (string \<times> string) list \<Rightarrow> string option \<Rightarrow> (int, 'w) act" where
  "exec_async env jail_name cmd cmd_env workdir =
     stream_jexec (ee_kind env) (ee_tool env) None jail_name (default_cmd cmd) cmd_env workdir"


text \<open>Handlers of signals come and go around it; they change nothing that is modelled above, and are
  modelled below.\<close>

definition exec_run ::
  "'w engine_env \<Rightarrow> string \<Rightarrow> string list \<Rightarrow> (string \<times> string) list \<Rightarrow> string option \<Rightarrow> (int, 'w) act" where
  "exec_run env jail_name cmd cmd_env workdir = exec_async env jail_name cmd cmd_env workdir"

lemma exec_run_answering:
  fixes n cmd e workdir
  assumes "ee_tool env = answering f"
  defines "argv \<equiv> jexec_argv n (default_cmd cmd) e workdir"
  shows "exec_run env n cmd e workdir h =
    (case f argv of
       Completed rc _ _ \<Rightarrow> (Inr rc, (fst h, snd h @ [argv]))
     | Spawn_error x \<Rightarrow>
         if ee_kind env x = Timed_out then (Inl (timed_out n), (fst h, snd h @ [argv, remove_cmd None n]))
         else (Inl (Other_error x), (fst h, snd h @ [argv])))"
  using assms
  by (simp add: exec_run_def exec_async_def stream_jexec_def answering_def tolerated_def split: cmd_result.split)

section \<open>Forwarding signals\<close>

text \<open>The handlers of the process in \<^verbatim>\<open>jailrun exec\<close>.  Each exec has a \<^verbatim>\<open>proc_holder\<close> of its own, the
  handlers it installs (\<open>Ours i\<close>) read the holder \<open>i\<close>, and a holder keeps the child of its exec.  A
  handler of the caller may raise, as Python's own handler of SIGINT does (\<^verbatim>\<open>KeyboardInterrupt\<close>): the
  exception leaves the context manager where it was raised, and \<^verbatim>\<open>fw_raised\<close> notes these places.  A
  child can be gone before its exit status is known.\<close>

datatype sig = SIGINT | SIGTERM

datatype handler = Theirs nat | Ours nat

datatype fwd_place = Outside | Saved | Int_installed | Inside | Int_restored

record child =
  ch_pid :: nat
  ch_gone :: bool
  ch_reaped :: bool

record fwd =
  fw_place :: fwd_place
  fw_int :: handler
  fw_term :: handler
  fw_saved :: "handler \<times> handler"
  fw_holders :: "child option list"
  fw_spawned :: "nat list"
  fw_sent :: "(nat \<times> sig) list"
  fw_theirs :: "(nat \<times> sig) list"
  fw_raised :: "fwd_place list"

definition fwd_start :: "nat \<Rightarrow> nat \<Rightarrow> fwd" where
  "fwd_start j k = \<lparr> fw_place = Outside, fw_int = Theirs j, fw_term = Theirs k, fw_saved = (Theirs j, Theirs k),
     fw_holders = [], fw_spawned = [], fw_sent = [], fw_theirs = [], fw_raised = [] \<rparr>"

definition holder_now :: "fwd \<Rightarrow> nat" where
  "holder_now s = length (fw_holders s) - 1"

definition handler_of :: "sig \<Rightarrow> fwd \<Rightarrow> handler" where
  "handler_of sg s = (case sg of SIGINT \<Rightarrow> fw_int s | SIGTERM \<Rightarrow> fw_term s)"

definition forward :: "nat \<Rightarrow> sig \<Rightarrow> fwd \<Rightarrow> fwd" where
  "forward i sg s =
     (case fw_holders s ! i of
        None \<Rightarrow> s
      | Some proc \<Rightarrow>
          if ch_reaped proc then s
          else if ch_gone proc then s
          else s \<lparr> fw_sent := fw_sent s @ [(ch_pid proc, sg)] \<rparr>)"

definition deliver :: "sig \<Rightarrow> fwd \<Rightarrow> fwd" where
  "deliver sg s =
     (case handler_of sg s of
        Theirs k \<Rightarrow> s \<lparr> fw_theirs := fw_theirs s @ [(k, sg)] \<rparr>
      | Ours i \<Rightarrow> forward i sg s)"

text \<open>The steps: those of the context manager one by one, those of the child, and signals at any time,
  whose handler returns or, where it is the caller's, raises.\<close>

inductive fwd_step :: "fwd \<Rightarrow> fwd \<Rightarrow> bool" where
  Save: "fw_place s = Outside \<Longrightarrow>
    fwd_step s (s \<lparr> fw_place := Saved, fw_saved := (fw_int s, fw_term s), fw_holders := fw_holders s @ [None] \<rparr>)"
| Install_int: "fw_place s = Saved \<Longrightarrow> fwd_step s (s \<lparr> fw_place := Int_installed, fw_int := Ours (holder_now s) \<rparr>)"
| Install_term: "fw_place s = Int_installed \<Longrightarrow> fwd_step s (s \<lparr> fw_place := Inside, fw_term := Ours (holder_now s) \<rparr>)"
| Spawn: "fw_place s = Inside \<Longrightarrow> fw_holders s ! holder_now s = None \<Longrightarrow> pid \<notin> set (fw_spawned s) \<Longrightarrow>
    fwd_step s (s \<lparr> fw_holders := (fw_holders s) [holder_now s := Some \<lparr> ch_pid = pid, ch_gone = False, ch_reaped = False \<rparr>],
                   fw_spawned := pid # fw_spawned s \<rparr>)"
| Child_exits: "i < length (fw_holders s) \<Longrightarrow> fw_holders s ! i = Some c \<Longrightarrow>
    fwd_step s (s \<lparr> fw_holders := (fw_holders s) [i := Some (c \<lparr> ch_gone := True \<rparr>)] \<rparr>)"
| Child_reaped: "i < length (fw_holders s) \<Longrightarrow> fw_holders s ! i = Some c \<Longrightarrow> ch_gone c \<Longrightarrow>
    fwd_step s (s \<lparr> fw_holders := (fw_holders s) [i := Some (c \<lparr> ch_reaped := True \<rparr>)] \<rparr>)"
| Signal: "fwd_step s (deliver sg s)"
| Handler_raises: "handler_of sg s = Theirs k \<Longrightarrow>
    fwd_step s ((deliver sg s) \<lparr> fw_place := Outside, fw_raised := fw_raised s @ [fw_place s] \<rparr>)"
| Restore_int: "fw_place s = Inside \<Longrightarrow> fwd_step s (s \<lparr> fw_place := Int_restored, fw_int := fst (fw_saved s) \<rparr>)"
| Restore_term: "fw_place s = Int_restored \<Longrightarrow> fwd_step s (s \<lparr> fw_place := Outside, fw_term := snd (fw_saved s) \<rparr>)"

inductive_cases fwd_stepE: "fwd_step s s'"

abbreviation fwd_reach :: "fwd \<Rightarrow> fwd \<Rightarrow> bool" where "fwd_reach \<equiv> fwd_step\<^sup>*\<^sup>*"

text \<open>The handler of a signal between two execs: the caller's, or for good a forwarding one if the
  caller's other handler raised in the window \<open>w\<close>.\<close>

definition fwd_between :: "fwd_place \<Rightarrow> nat \<Rightarrow> fwd \<Rightarrow> handler \<Rightarrow> bool" where
  "fwd_between w k s h \<longleftrightarrow>
     (if w \<in> set (fw_raised s) then \<exists>i < length (fw_holders s). h = Ours i else h = Theirs k)"

definition fwd_inv :: "nat \<Rightarrow> nat \<Rightarrow> fwd \<Rightarrow> bool" where
  "fwd_inv j k s \<longleftrightarrow>
     (fw_place s \<noteq> Outside \<longrightarrow> fw_holders s \<noteq> [] \<and> fwd_between Int_installed j s (fst (fw_saved s))
        \<and> fwd_between Int_restored k s (snd (fw_saved s))) \<and>
     (if fw_place s \<in> {Int_installed, Inside} then fw_int s = Ours (holder_now s)
      else fwd_between Int_installed j s (fw_int s)) \<and>
     (if fw_place s \<in> {Inside, Int_restored} then fw_term s = Ours (holder_now s)
      else fwd_between Int_restored k s (fw_term s)) \<and>
     set (map fst (fw_sent s)) \<subseteq> set (fw_spawned s) \<and>
     (\<forall>c. Some c \<in> set (fw_holders s) \<longrightarrow> ch_pid c \<in> set (fw_spawned s))"

lemma forward_keeps [simp]:
  "fw_place (forward i sg s) = fw_place s" "fw_int (forward i sg s) = fw_int s" "fw_term (forward i sg s) = fw_term s"
  "fw_saved (forward i sg s) = fw_saved s" "fw_holders (forward i sg s) = fw_holders s"
  "fw_spawned (forward i sg s) = fw_spawned s" "fw_theirs (forward i sg s) = fw_theirs s" "fw_raised (forward i sg s) = fw_raised s"
  by (simp_all add: forward_def split: option.split)

lemma deliver_keeps [simp]:
  "fw_place (deliver sg s) = fw_place s" "fw_int (deliver sg s) = fw_int s" "fw_term (deliver sg s) = fw_term s"
  "fw_saved (deliver sg s) = fw_saved s" "fw_holders (deliver sg s) = fw_holders s"
  "fw_spawned (deliver sg s) = fw_spawned s" "fw_raised (deliver sg s) = fw_raised s"
  by (simp_all add: deliver_def split: handler.split)

lemma deliver_sent:
  "fw_sent (deliver sg s) = fw_sent s \<or>
   (\<exists>i c. handler_of sg s = Ours i \<and> fw_holders s ! i = Some c \<and> \<not> ch_gone c \<and>
      fw_sent (deliver sg s) = fw_sent s @ [(ch_pid c, sg)])"
  by (auto simp: deliver_def forward_def split: handler.split option.split)

lemma fwd_between_update [simp]:
  "fwd_between w k (s \<lparr> fw_place := p \<rparr>) = fwd_between w k s" "fwd_between w k (s \<lparr> fw_int := x \<rparr>) = fwd_between w k s"
  "fwd_between w k (s \<lparr> fw_term := x \<rparr>) = fwd_between w k s" "fwd_between w k (s \<lparr> fw_saved := y \<rparr>) = fwd_between w k s"
  "fwd_between w k (s \<lparr> fw_spawned := z \<rparr>) = fwd_between w k s" "fwd_between w k (deliver sg s) = fwd_between w k s"
  by (simp_all add: fwd_between_def fun_eq_iff)

lemma fwd_between_grow:
  "fwd_between w k s h \<Longrightarrow> fw_raised s' = fw_raised s \<Longrightarrow> fw_holders s' = fw_holders s @ [x] \<Longrightarrow> fwd_between w k s' h"
  by (auto simp: fwd_between_def split: if_splits)

lemma fwd_between_holder [simp]: "fwd_between w k (s \<lparr> fw_holders := (fw_holders s) [i := x] \<rparr>) = fwd_between w k s"
  by (simp add: fwd_between_def fun_eq_iff)

lemma fwd_inv_range: "fwd_inv j k s \<Longrightarrow> handler_of sg s = Ours i \<Longrightarrow> i < length (fw_holders s)"
  by (cases sg) (auto simp: fwd_inv_def fwd_between_def handler_of_def holder_now_def split: if_splits)

lemma fwd_inv_deliver:
  assumes i: "fwd_inv j k s"
  shows "fwd_inv j k (deliver sg s)"
proof -
  have old: "set (map fst (fw_sent s)) \<subseteq> set (fw_spawned s)"
    and pids: "\<And>c. Some c \<in> set (fw_holders s) \<Longrightarrow> ch_pid c \<in> set (fw_spawned s)"
    using i by (simp_all add: fwd_inv_def)
  have "set (map fst (fw_sent (deliver sg s))) \<subseteq> set (fw_spawned s)"
    using deliver_sent [of sg s]
  proof (elim disjE exE conjE)
    fix n c
    assume "handler_of sg s = Ours n" and c: "fw_holders s ! n = Some c" and e: "fw_sent (deliver sg s) = fw_sent s @ [(ch_pid c, sg)]"
    then have "Some c \<in> set (fw_holders s)" using fwd_inv_range [OF i] by (metis nth_mem)
    then show ?thesis using old pids e by simp
  qed (use old in simp)
  then show ?thesis using i by (simp add: fwd_inv_def holder_now_def)
qed

lemma fwd_inv_raise:
  assumes i: "fwd_inv j k s" and h: "handler_of sg s = Theirs n"
  shows "fwd_inv j k ((deliver sg s) \<lparr> fw_place := Outside, fw_raised := fw_raised s @ [fw_place s] \<rparr>)"
  using fwd_inv_deliver [OF i, of sg] h
  by (cases sg; cases "fw_place s")
    (auto simp: fwd_inv_def fwd_between_def handler_of_def holder_now_def split: if_splits)

lemma fwd_inv_step: "fwd_step s s' \<Longrightarrow> fwd_inv j k s \<Longrightarrow> fwd_inv j k s'"
proof (induction rule: fwd_step.induct)
  case (Save s)
  then show ?case by (auto simp: fwd_inv_def intro!: fwd_between_grow [of _ _ s])
next
  case (Child_exits i s c)
  then show ?case by (auto simp: fwd_inv_def holder_now_def in_set_conv_nth nth_list_update split: if_splits)
next
  case (Child_reaped i s c)
  then show ?case by (auto simp: fwd_inv_def holder_now_def in_set_conv_nth nth_list_update split: if_splits)
next
  case (Spawn s pid)
  then show ?case by (auto simp: fwd_inv_def holder_now_def in_set_conv_nth nth_list_update split: if_splits)
next
  case (Signal s sg)
  then show ?case by (simp add: fwd_inv_deliver)
next
  case (Handler_raises sg s n)
  then show ?case by (simp add: fwd_inv_raise)
qed (auto simp: fwd_inv_def holder_now_def)

lemma fwd_inv_reach: "fwd_reach (fwd_start j k) s \<Longrightarrow> fwd_inv j k s"
proof (induction rule: rtranclp_induct)
  case base
  then show ?case by (simp add: fwd_start_def fwd_inv_def fwd_between_def)
qed (rule fwd_inv_step)

lemma fwd_inv_inside: "fwd_inv j k s \<Longrightarrow> fw_place s = Inside \<Longrightarrow> handler_of sg s = Ours (holder_now s)"
  by (cases sg) (simp_all add: fwd_inv_def handler_of_def)

text \<open>What a step sends and which handlers of the caller it runs.\<close>

lemma fwd_step_sends:
  assumes "fwd_step s s'" and i: "fwd_inv j k s"
  shows "fw_sent s' = fw_sent s \<or>
    (\<exists>n c sg. n < length (fw_holders s) \<and> fw_holders s ! n = Some c \<and> \<not> ch_gone c \<and>
       fw_sent s' = fw_sent s @ [(ch_pid c, sg)] \<and> (fw_place s = Inside \<longrightarrow> n = holder_now s))"
  using assms(1)
proof cases
  case (Signal sg)
  from deliver_sent [of sg s] show ?thesis
  proof (elim disjE exE conjE)
    fix n c
    assume h: "handler_of sg s = Ours n" and "fw_holders s ! n = Some c" "\<not> ch_gone c"
      and "fw_sent (deliver sg s) = fw_sent s @ [(ch_pid c, sg)]"
    moreover have "n < length (fw_holders s)" using fwd_inv_range [OF i h] .
    moreover have "fw_place s = Inside \<longrightarrow> n = holder_now s" using fwd_inv_inside [OF i, of sg] h by simp
    ultimately show ?thesis using Signal by (intro disjI2 exI conjI) simp_all
  qed (simp add: Signal)
qed (auto simp: deliver_def)

lemma fwd_step_theirs:
  assumes "fwd_step s s'" and i: "fwd_inv j k s" and p: "fw_place s = Inside"
  shows "fw_theirs s' = fw_theirs s"
  using assms(1)
proof cases
  case (Signal sg)
  then show ?thesis using fwd_inv_inside [OF i p, of sg] by (simp add: deliver_def)
next
  case (Handler_raises sg n)
  then show ?thesis using fwd_inv_inside [OF i p, of sg] by simp
qed simp_all


text \<open>An exec that has come to its command: \<^verbatim>\<open>fwd_running\<close>, with the child 7.  And one whose caller gets
  a \<^verbatim>\<open>KeyboardInterrupt\<close>-like exception from its handler of SIGTERM between the two installs: the
  forwarding handler of SIGINT stays, and since its holder has no child it swallows every SIGINT.\<close>

definition fwd_half :: fwd where
  "fwd_half = (fwd_start 0 1) \<lparr> fw_place := Int_installed, fw_int := Ours 0, fw_holders := [None] \<rparr>"

lemma fwd_half_reached: "fwd_reach (fwd_start 0 1) fwd_half"
proof -
  let ?s0 = "fwd_start 0 1"
  let ?s1 = "?s0 \<lparr> fw_place := Saved, fw_saved := (fw_int ?s0, fw_term ?s0), fw_holders := fw_holders ?s0 @ [None] \<rparr>"
  let ?s2 = "?s1 \<lparr> fw_place := Int_installed, fw_int := Ours (holder_now ?s1) \<rparr>"
  note into = rtranclp.rtrancl_into_rtrancl [where r = fwd_step]
  have "fwd_reach ?s0 ?s1" by (rule into [OF rtranclp.rtrancl_refl Save]) (simp add: fwd_start_def)
  then have "fwd_reach ?s0 ?s2" by (rule into [OF _ Install_int]) simp
  then show ?thesis by (simp add: fwd_half_def fwd_start_def holder_now_def)
qed

definition fwd_running :: fwd where
  "fwd_running = fwd_half \<lparr> fw_place := Inside, fw_term := Ours 0,
     fw_holders := [Some \<lparr> ch_pid = 7, ch_gone = False, ch_reaped = False \<rparr>], fw_spawned := [7] \<rparr>"

lemma fwd_running_reached: "fwd_reach (fwd_start 0 1) fwd_running"
proof -
  let ?s3 = "fwd_half \<lparr> fw_place := Inside, fw_term := Ours (holder_now fwd_half) \<rparr>"
  let ?s4 = "?s3 \<lparr> fw_holders := (fw_holders ?s3) [holder_now ?s3 := Some \<lparr> ch_pid = 7, ch_gone = False, ch_reaped = False \<rparr>],
                    fw_spawned := 7 # fw_spawned ?s3 \<rparr>"
  note into = rtranclp.rtrancl_into_rtrancl [where r = fwd_step]
  have "fwd_reach (fwd_start 0 1) ?s3" by (rule into [OF fwd_half_reached Install_term]) (simp add: fwd_half_def)
  then have "fwd_reach (fwd_start 0 1) ?s4" by (rule into [OF _ Spawn]) (simp_all add: fwd_half_def fwd_start_def holder_now_def)
  then show ?thesis by (simp add: fwd_running_def fwd_half_def fwd_start_def holder_now_def)
qed

definition fwd_leaked :: fwd where
  "fwd_leaked = (deliver SIGTERM fwd_half) \<lparr> fw_place := Outside, fw_raised := fw_raised fwd_half @ [fw_place fwd_half] \<rparr>"

lemma leaked_handler_swallows:
  "fwd_step fwd_half fwd_leaked" "fw_int fwd_leaked = Ours 0" "deliver SIGINT fwd_leaked = fwd_leaked"
proof -
  have "handler_of SIGTERM fwd_half = Theirs 1" by (simp add: fwd_half_def fwd_start_def handler_of_def)
  then show "fwd_step fwd_half fwd_leaked" unfolding fwd_leaked_def by (rule Handler_raises)
qed (simp_all add: fwd_leaked_def fwd_half_def fwd_start_def deliver_def forward_def handler_of_def)


end
