(* ===== verification/Manifest.thy ===== *)
theory Manifest
  imports StoreOci Probe
begin

text \<open>
  The substitution manifest as a JSON value: \<^verbatim>\<open>schemas/substitution-manifest.schema.json\<close> as a
  predicate, the dictionary that \<^verbatim>\<open>probe/probe.py\<close> builds from what it found, and the proof that
  this dictionary is of the schema.  The consumers' theorems (the engine, explain, scan) take the
  predicate as their hypothesis.
\<close>

section \<open>The schema\<close>

text \<open>A property, optional or required; and no others than the named ones.\<close>

definition optional :: "string \<Rightarrow> (json \<Rightarrow> bool) \<Rightarrow> (string \<times> json) list \<Rightarrow> bool" where
  "optional k ok ms \<longleftrightarrow> (case jlookup k ms of None \<Rightarrow> True | Some v \<Rightarrow> ok v)"

definition required :: "string \<Rightarrow> (json \<Rightarrow> bool) \<Rightarrow> (string \<times> json) list \<Rightarrow> bool" where
  "required k ok ms \<longleftrightarrow> (case jlookup k ms of None \<Rightarrow> False | Some v \<Rightarrow> ok v)"

definition only_keys :: "string list \<Rightarrow> (string \<times> json) list \<Rightarrow> bool" where
  "only_keys ks ms \<longleftrightarrow> list_all (\<lambda>(k, _). k \<in> set ks) ms"

definition is_object :: "((string \<times> json) list \<Rightarrow> bool) \<Rightarrow> json \<Rightarrow> bool" where
  "is_object ok v \<longleftrightarrow> (case v of JObj ms \<Rightarrow> ok ms | _ \<Rightarrow> False)"

definition is_array :: "(json \<Rightarrow> bool) \<Rightarrow> json \<Rightarrow> bool" where
  "is_array ok v \<longleftrightarrow> (case v of JArr vs \<Rightarrow> list_all ok vs | _ \<Rightarrow> False)"

definition is_text :: "json \<Rightarrow> bool" where
  "is_text v \<longleftrightarrow> (case v of JStr _ \<Rightarrow> True | _ \<Rightarrow> False)"

definition is_boolean :: "json \<Rightarrow> bool" where
  "is_boolean v \<longleftrightarrow> (case v of JBool _ \<Rightarrow> True | _ \<Rightarrow> False)"

definition one_of :: "string list \<Rightarrow> json \<Rightarrow> bool" where
  "one_of ss v \<longleftrightarrow> (case v of JStr s \<Rightarrow> s \<in> set ss | _ \<Rightarrow> False)"

definition or_null :: "(json \<Rightarrow> bool) \<Rightarrow> json \<Rightarrow> bool" where "or_null ok v \<longleftrightarrow> v = JNull \<or> ok v"

definition native_schema :: "json \<Rightarrow> bool" where
  "native_schema = is_object (\<lambda>ms.
     only_keys [''provider'', ''artifact_path'', ''verification''] ms \<and> required ''provider'' is_text ms \<and>
     optional ''artifact_path'' (or_null is_text) ms \<and>
     optional ''verification'' (one_of [''guessed'', ''exists'', ''runs'', ''behaves'', ''proven'']) ms)"

definition binary_schema :: "json \<Rightarrow> bool" where
  "binary_schema = is_object (\<lambda>ms.
     only_keys [''path'', ''role'', ''abi'', ''status'', ''native'', ''syscalls_needed'', ''notes''] ms \<and>
     required ''path'' is_text ms \<and>
     optional ''role'' (one_of [''load-bearing'', ''auxiliary'', ''unknown'']) ms \<and>
     required ''abi'' (one_of [''linux'', ''freebsd'', ''script'', ''unknown'']) ms \<and>
     required ''status'' (one_of [''native'', ''linuxulator'', ''missing'', ''unknown'']) ms \<and>
     optional ''native'' (or_null native_schema) ms \<and>
     optional ''syscalls_needed'' (is_array is_text) ms \<and> optional ''notes'' is_text ms)"

definition linuxulator_schema :: "json \<Rightarrow> bool" where
  "linuxulator_schema = is_object (\<lambda>ms.
     only_keys [''required'', ''gaps'', ''risk''] ms \<and> required ''required'' is_boolean ms \<and>
     optional ''gaps'' (is_array is_text) ms \<and> optional ''risk'' (one_of [''none'', ''low'', ''medium'', ''high'']) ms)"

definition bakery_schema :: "json \<Rightarrow> bool" where
  "bakery_schema = is_object (\<lambda>ms.
     only_keys [''base_name'', ''snapshot_id'', ''plan'', ''warnings''] ms \<and> optional ''base_name'' is_text ms \<and>
     optional ''snapshot_id'' (or_null is_text) ms \<and> optional ''plan'' (is_object (\<lambda>_. True)) ms \<and>
     optional ''warnings'' (is_array is_text) ms)"

definition manifest_schema :: "json \<Rightarrow> bool" where
  "manifest_schema = is_object (\<lambda>ms.
     only_keys [''image'', ''generated_at'', ''rootfs_snapshot'', ''binaries'', ''linuxulator'', ''_bakery''] ms \<and>
     required ''image'' is_text ms \<and> optional ''generated_at'' is_text ms \<and> optional ''rootfs_snapshot'' is_text ms \<and>
     required ''binaries'' (is_array binary_schema) ms \<and> required ''linuxulator'' linuxulator_schema ms \<and>
     optional ''_bakery'' bakery_schema ms)"

lemmas schema_parts = is_object_def is_array_def is_text_def is_boolean_def one_of_def or_null_def required_def optional_def

text \<open>What a consumer reads of a manifest of the schema.\<close>

lemma binary_schemaD:
  assumes "binary_schema b"
  obtains ms p a s nv where "b = JObj ms" "jlookup ''path'' ms = Some (JStr p)" "jlookup ''abi'' ms = Some (JStr a)"
    "jlookup ''status'' ms = Some (JStr s)" "jget ''native'' JNull b = Inr nv" "or_null native_schema nv"
  using assms unfolding binary_schema_def
  by (auto simp: schema_parts jget_def split: json.splits option.splits)

lemma native_schemaD:
  assumes "native_schema nv"
  obtains ms p a v where "nv = JObj ms" "jlookup ''provider'' ms = Some (JStr p)" "jget ''artifact_path'' JNull nv = Inr a"
    "or_null is_text a" "jget ''verification'' JNull nv = Inr v" "or_null is_text v"
  using assms unfolding native_schema_def
  by (auto simp: schema_parts jget_def split: json.splits option.splits)

lemma manifest_schemaD:
  assumes "manifest_schema m"
  obtains ms img bs lx r where "m = JObj ms" "jlookup ''image'' ms = Some (JStr img)" "jlookup ''binaries'' ms = Some (JArr bs)"
    "list_all binary_schema bs" "jlookup ''linuxulator'' ms = Some (JObj lx)" "jlookup ''required'' lx = Some (JBool r)"
    "optional ''_bakery'' bakery_schema ms"
proof -
  from assms obtain ms where m: "m = JObj ms" "required ''image'' is_text ms" "required ''binaries'' (is_array binary_schema) ms"
      "required ''linuxulator'' linuxulator_schema ms" "optional ''_bakery'' bakery_schema ms"
    by (auto simp: manifest_schema_def is_object_def split: json.splits)
  obtain img where "jlookup ''image'' ms = Some (JStr img)" using m(2) by (auto simp: required_def is_text_def split: json.splits option.splits)
  moreover obtain bs where "jlookup ''binaries'' ms = Some (JArr bs)" "list_all binary_schema bs"
    using m(3) by (auto simp: required_def is_array_def split: json.splits option.splits)
  moreover obtain lx where lx: "jlookup ''linuxulator'' ms = Some (JObj lx)" "required ''required'' is_boolean lx"
    using m(4) by (auto simp: required_def linuxulator_schema_def is_object_def split: json.splits option.splits)
  moreover obtain r where "jlookup ''required'' lx = Some (JBool r)"
    using lx(2) by (auto simp: required_def is_boolean_def split: json.splits option.splits)
  ultimately show thesis using that m(1,5) by blast
qed

section \<open>The manifest of the probe\<close>

definition abi_text :: "abi \<Rightarrow> string" where
  "abi_text a = (case a of Abi_linux \<Rightarrow> ''linux'' | Abi_freebsd \<Rightarrow> ''freebsd'' | Abi_script \<Rightarrow> ''script'' | Abi_unknown \<Rightarrow> ''unknown'')"

definition role_text :: "role \<Rightarrow> string" where
  "role_text r = (case r of Load_bearing \<Rightarrow> ''load-bearing'' | Auxiliary \<Rightarrow> ''auxiliary'' | Role_unknown \<Rightarrow> ''unknown'')"

definition status_text :: "status \<Rightarrow> string" where
  "status_text s = (case s of Native \<Rightarrow> ''native'' | Linuxulator \<Rightarrow> ''linuxulator'' | Status_unknown \<Rightarrow> ''unknown'')"

definition risk_text :: "risk \<Rightarrow> string" where
  "risk_text r = (case r of Risk_none \<Rightarrow> ''none'' | Risk_low \<Rightarrow> ''low'' | Risk_medium \<Rightarrow> ''medium'' | Risk_high \<Rightarrow> ''high'')"

definition text_or_null :: "string option \<Rightarrow> json" where
  "text_or_null v = (case v of None \<Rightarrow> JNull | Some s \<Rightarrow> JStr s)"

definition native_json :: "native_block \<Rightarrow> json" where
  "native_json nb = JObj [(''provider'', JStr (nb_provider nb)), (''artifact_path'', text_or_null (nb_artifact_path nb)),
     (''verification'', JStr (nb_verification nb))]"

definition binary_json :: "binary_entry \<Rightarrow> json" where
  "binary_json b = JObj ([(''path'', JStr (path_str (be_path b))), (''role'', JStr (role_text (be_role b))),
     (''abi'', JStr (abi_text (be_abi b))), (''status'', JStr (status_text (be_status b))),
     (''syscalls_needed'', JArr []), (''notes'', JStr (be_notes b))] @
     (case be_native b of None \<Rightarrow> [] | Some nb \<Rightarrow> [(''native'', native_json nb)]))"

definition probe_json :: "probe_manifest \<Rightarrow> json" where
  "probe_json m = JObj ([(''image'', JStr (pm_image m)), (''binaries'', JArr (map binary_json (pm_binaries m))),
     (''linuxulator'', JObj [(''required'', JBool (pm_lx_required m)), (''gaps'', JArr []), (''risk'', JStr (risk_text (pm_lx_risk m)))])] @
     (case pm_snapshot m of None \<Rightarrow> [] | Some s \<Rightarrow> [(''rootfs_snapshot'', JStr s)]))"

lemma probe_json_ok: "json_ok (probe_json m)"
  by (auto simp: probe_json_def binary_json_def native_json_def text_or_null_def list_all_iff split: option.splits)

text \<open>The probe proposes at its lowest level of trust.\<close>

definition entry_guessed :: "binary_entry \<Rightarrow> bool" where
  "entry_guessed b \<longleftrightarrow> (case be_native b of None \<Rightarrow> True | Some nb \<Rightarrow> nb_verification nb = ''guessed'')"

lemma classify_guessed: "entry_guessed (classify_binary providers p content)"
  by (auto simp: entry_guessed_def classify_binary_def propose_native_def Let_def split: option.split)

lemma enum_texts:
  "abi_text a \<in> {''linux'', ''freebsd'', ''script'', ''unknown''}" "role_text r \<in> {''load-bearing'', ''auxiliary'', ''unknown''}"
  "status_text s \<in> {''native'', ''linuxulator'', ''missing'', ''unknown''}" "risk_text k \<in> {''none'', ''low'', ''medium'', ''high''}"
  by (simp_all add: abi_text_def role_text_def status_text_def risk_text_def split: abi.split role.split status.split risk.split)

lemma native_json_schema: "nb_verification nb = ''guessed'' \<Longrightarrow> native_schema (native_json nb)"
  by (simp add: native_schema_def native_json_def schema_parts only_keys_def jlookup_def text_or_null_def split: option.split)

lemma binary_json_schema: "entry_guessed b \<Longrightarrow> binary_schema (binary_json b)"
  using enum_texts native_json_schema
  by (auto simp: binary_schema_def binary_json_def entry_guessed_def schema_parts only_keys_def jlookup_def split: option.splits)

lemma probe_json_schema: "\<forall>b \<in> set (pm_binaries m). entry_guessed b \<Longrightarrow> manifest_schema (probe_json m)"
  using enum_texts binary_json_schema
  by (auto simp: manifest_schema_def linuxulator_schema_def probe_json_def schema_parts only_keys_def jlookup_def list_all_iff split: option.splits)

lemma probe_guessed: "probe providers xbit lim fs p d r sn = Inr m \<Longrightarrow> b \<in> set (pm_binaries m) \<Longrightarrow> entry_guessed b"
  by (auto simp: probe_def build_manifest_def Let_def classify_guessed split: option.splits if_splits sum.splits)


text \<open>C12: Whatever the probe finds, its manifest is of the schema of the repository, and it survives the
  cache: written as JSON and read again it is the same value, so a cached manifest is of the
  schema too.\<close>

theorem probe_manifest_valid:
  assumes "probe providers xbit lim fs rootfs_path rootfs_dir image_ref snapshot_id = Inr m"
  shows "manifest_schema (probe_json m) \<and> json_loads (json_dump 0 (probe_json m)) = Some (probe_json m)"
  using probe_json_schema [of m] probe_guessed [OF assms] probe_json_ok by (auto intro: json_loads_dump)

definition demo_root :: fs where
  "demo_root = [([''r''], Dir), ([''r'', ''bin''], Dir), ([''r'', ''bin'', ''python''], Reg (elf_header True 2 3 62))]"

definition demo_provider :: "string \<Rightarrow> string option" where
  "demo_provider n = (if n = ''python'' then Some ''pkg:python311'' else None)"

lemma probed_demo:
  "(case probe demo_provider (\<lambda>_. True) 4 demo_root [''r''] ''/r'' ''alpine'' [] of Inl e \<Rightarrow> False
    | Inr m \<Rightarrow> map be_native (pm_binaries m) = [Some \<lparr> nb_provider = ''pkg:python311'', nb_artifact_path = None, nb_verification = ''guessed'' \<rparr>])"
  by code_simp

lemma probe_manifest_valid_witness:
  "\<exists>m. pm_binaries m \<noteq> [] \<and> manifest_schema (probe_json m) \<and> json_loads (json_dump 0 (probe_json m)) = Some (probe_json m)"
proof -
  obtain m where m: "probe demo_provider (\<lambda>_. True) 4 demo_root [''r''] ''/r'' ''alpine'' [] = Inr m" "pm_binaries m \<noteq> []"
    using probed_demo by (auto split: sum.splits)
  then show ?thesis using probe_manifest_valid [OF m(1)] by blast
qed

end
