(* ===== verification/EngineRoot.thy ===== *)
theory EngineRoot
  imports EngineRun Manifest
begin

text \<open>
  What holds of the parts of \<^verbatim>\<open>runtime/engine.py\<close> that fill the root of a run: the manifest and what an
  image can do with it, the files jailrun itself puts into the image's tree, and the network in
  \<^verbatim>\<open>jail.conf\<close>.
\<close>

section \<open>Manifests of the schema\<close>

text \<open>No exception of the kind that a value of an unexpected shape raises.\<close>

definition shape_errors :: "string list" where
  "shape_errors = [''TypeError'', ''AttributeError'', ''KeyError'']"

definition well_shaped :: "store_exc + 'a \<Rightarrow> bool" where
  "well_shaped r \<longleftrightarrow> (case r of Inr _ \<Rightarrow> True | Inl e \<Rightarrow> (\<exists>x. e = Tree_error x))"

definition shaped :: "('a, 'w) act \<Rightarrow> bool" where "shaped m \<longleftrightarrow> (\<forall>h. well_shaped (fst (m h)))"

lemma shaped_then: "shaped m \<Longrightarrow> (\<And>x. shaped (f x)) \<Longrightarrow> shaped (then_do m f)"
proof -
  assume m: "shaped m" and f: "\<And>x. shaped (f x)"
  have "well_shaped (fst (then_do m f h))" for h
  proof -
    obtain r h1 where r: "m h = (r, h1)" by (rule prod.exhaust)
    then have "well_shaped r" using m unfolding shaped_def by (metis fst_conv)
    then show ?thesis
      using r f by (cases r; cases h1) (auto simp: then_do_def well_shaped_def shaped_def)
  qed
  then show ?thesis by (simp add: shaped_def)
qed

lemma then_do_of_sum [simp]: "then_do (of_sum (Inr x)) f = f x"
  by (simp add: then_do_def of_sum_def fun_eq_iff)

lemma shaped_basic [intro!]: "shaped (give x)" "shaped (on_tree f)" "shaped (tree_exists lim p)" "shaped (of_sum (Inr x))"
  by (auto simp: shaped_def well_shaped_def give_def on_tree_def tree_exists_def of_sum_def split: prod.splits option.splits)

lemma shaped_links: "shaped (shadow_links lim d p ns)"
proof (induction ns)
  case (Cons n ns)
  have "shaped (\<lambda>h. let target = child_path d n in
         if path_exists lim (fst h) target \<or> path_is_symlink lim (fst h) target then (Inr (), h)
         else on_tree (fs_symlink lim p target) h)"
    by (auto simp: shaped_def well_shaped_def on_tree_def Let_def split: prod.splits option.splits)
  then show ?case using Cons by (auto intro: shaped_then)
qed auto

lemma shadow_target_typed:
  assumes "binary_schema b"
  shows "\<exists>r. shadow_target base b = Inr r"
proof -
  from assms obtain ms p a s nv where b: "b = JObj ms" "jlookup ''status'' ms = Some (JStr s)"
      "jget ''native'' JNull b = Inr nv" "or_null native_schema nv"
    by (rule binary_schemaD)
  show ?thesis
  proof (cases "nv = JNull")
    case True
    then show ?thesis using b by (auto simp: shadow_target_def jget_def jlookup_def)
  next
    case False
    then have "native_schema nv" using b(4) by (simp add: or_null_def)
    then obtain ns pr ap v where n: "nv = JObj ns" "jlookup ''provider'' ns = Some (JStr pr)"
        "jget ''artifact_path'' JNull nv = Inr ap" "or_null is_text ap"
      by (rule native_schemaD)
    have "ns \<noteq> []" using n(2) by (auto simp: jlookup_def)
    then show ?thesis
      using b n by (auto simp: shadow_target_def jget_def or_null_def is_text_def split: option.splits json.splits)
  qed
qed

lemma shaped_entry: "binary_schema b \<Longrightarrow> shaped (shadow_entry lim root base b)"
proof -
  assume s: "binary_schema b"
  then obtain r where r: "shadow_target base b = Inr r" using shadow_target_typed by blast
  obtain p where p: "jitem ''path'' b = Inr (JStr p)" using s by (auto elim!: binary_schemaD simp: jitem_def)
  show ?thesis
    unfolding shadow_entry_def r p then_do_of_sum
    by (auto intro!: shaped_then shaped_links simp del: shadow_links.simps remdups.simps split: option.split)
qed

lemma shaped_entries: "list_all binary_schema bs \<Longrightarrow> shaped (shadow_entries lim root base bs)"
  by (induction bs) (auto intro!: shaped_then shaped_entry)

lemma any_linuxulator_typed:
  "list_all binary_schema bs \<Longrightarrow> any_linuxulator bs = Inr (\<exists>b \<in> set bs. jget ''status'' JNull b = Inr (JStr ''linuxulator''))"
proof (induction bs)
  case (Cons b bs)
  have "\<exists>s. jget ''status'' JNull b = Inr (JStr s)"
    using Cons.prems by (auto elim!: binary_schemaD simp: jget_def)
  then obtain s where "jget ''status'' JNull b = Inr (JStr s)" by blast
  then show ?case using Cons by auto
qed simp

lemma bakery_field_typed:
  assumes "optional ''_bakery'' bakery_schema ms"
  shows "\<exists>v. try_bind (jget ''_bakery'' (JObj []) (JObj ms)) (jget ''snapshot_id'' JNull) = Inr v \<and> or_null is_text v"
proof (cases "jlookup ''_bakery'' ms")
  case None
  then show ?thesis by (simp add: jget_def jlookup_def or_null_def)
next
  case (Some v)
  then have "bakery_schema v" using assms by (simp add: optional_def)
  then obtain bs where "v = JObj bs" "optional ''snapshot_id'' (or_null is_text) bs"
    by (auto simp: bakery_schema_def is_object_def split: json.splits)
  then show ?thesis using Some by (auto simp: jget_def optional_def or_null_def split: option.splits)
qed

lemma shadow_shaped:
  assumes "manifest_schema m"
  shows "shaped (assemble_native_shadow lim root m base)"
proof -
  from assms obtain ms bs where "m = JObj ms" "jlookup ''binaries'' ms = Some (JArr bs)" "list_all binary_schema bs"
    by (rule manifest_schemaD)
  then show ?thesis
    using shaped_entries [of bs]
    by (auto simp: assemble_native_shadow_def manifest_binaries_def jget_def jiter_def intro!: shaped_then)
qed

text \<open>The engine takes every manifest of the schema.  Reading it for the log line, looking up the
  base, and deciding about the Linux ABI give a value; linking the native artifacts into the root
  raises nothing but errors of the file system; and the Linux ABI is needed exactly if the
  manifest says so itself or one of its binaries does.\<close>

theorem valid_manifest_no_shape_error:
  assumes "manifest_schema m"
  shows "manifest_summary m = Inr ()
    \<and> (\<exists>v. try_bind (jget ''_bakery'' (JObj []) m) (jget ''snapshot_id'' JNull) = Inr v \<and> or_null is_text v)
    \<and> well_shaped (fst (assemble_native_shadow lim root m base h))
    \<and> (\<exists>ms bs lx. m = JObj ms \<and> jlookup ''binaries'' ms = Some (JArr bs) \<and> jlookup ''linuxulator'' ms = Some (JObj lx)
         \<and> needs_linuxulator m = Inr (jlookup ''required'' lx = Some (JBool True)
             \<or> (\<exists>b \<in> set bs. jget ''status'' JNull b = Inr (JStr ''linuxulator''))))"
proof -
  from assms obtain ms img bs lx r where m: "m = JObj ms" "jlookup ''binaries'' ms = Some (JArr bs)" "list_all binary_schema bs"
      "jlookup ''linuxulator'' ms = Some (JObj lx)" "jlookup ''required'' lx = Some (JBool r)" "optional ''_bakery'' bakery_schema ms"
    by (rule manifest_schemaD)
  have s: "manifest_summary m = Inr ()" using m by (simp add: manifest_summary_def jget_def has_len_def)
  note b = bakery_field_typed [OF m(6), folded m(1)]
  have "needs_linuxulator m = Inr (jlookup ''required'' lx = Some (JBool True)
             \<or> (\<exists>b \<in> set bs. jget ''status'' JNull b = Inr (JStr ''linuxulator'')))"
    using m any_linuxulator_typed [OF m(3)] by (simp add: needs_linuxulator_def jget_def manifest_binaries_def jiter_def)
  moreover have "well_shaped (fst (assemble_native_shadow lim root m base h))" using shadow_shaped [OF assms] unfolding shaped_def by blast
  ultimately show ?thesis using s b m by blast
qed

lemma valid_manifest_no_shape_error_witness:
  "needs_linuxulator (probe_json \<lparr> pm_image = ''alpine'', pm_binaries = [], pm_lx_required = True, pm_lx_risk = Risk_low, pm_snapshot = None \<rparr>)
     = Inr True"
  using valid_manifest_no_shape_error [OF probe_json_schema [of "\<lparr> pm_image = ''alpine'', pm_binaries = [], pm_lx_required = True,
      pm_lx_risk = Risk_low, pm_snapshot = None \<rparr>"], of 0 "[]" None "([], ())"]
  by (simp add: probe_json_def jlookup_def)


section \<open>The cache of manifests\<close>

lemma write_read:
  assumes "fs_write lim c p fs = (None, fs')"
  shows "read_text lim fs' p = Inr c"
proof -
  obtain q where q: "follow lim fs p = Some q" "look fs q \<noteq> Some Dir" "fs' = put q (Reg c) fs"
    using assms by (auto simp: fs_write_def split: option.splits node.splits if_splits)
  then have "q \<noteq> []" by auto
  have "\<forall>t. look fs q \<noteq> Some (Symlink t)"
    using resolve_not_link [of True lim fs "[]" p q] q(1) by (simp add: follow_def)
  then have "follow lim fs' p = Some q"
    using q resolve_put_reg [of lim fs "[]" p q c] by (simp add: follow_def)
  then show ?thesis using q(3) \<open>q \<noteq> []\<close> by (simp add: read_text_def)
qed

lemma save_json_read:
  assumes "save_json lim p v h = (Inr (), h')" and "json_ok v"
  shows "path_exists lim (fst h') p" and "read_json lim (fst h') p = Inr v"
proof -
  obtain fs1 fs2 where w: "fs_write lim (json_dump 0 v) p fs1 = (None, fs2)" "h' = (fs2, snd h)"
    using assms(1) by (auto simp: save_json_def then_do_def on_tree_def split: prod.splits sum.splits option.splits)
  then show "path_exists lim (fst h') p" "read_json lim (fst h') p = Inr v"
    using write_exists [OF w(1)] write_read [OF w(1)] json_loads_dump [OF assms(2)] by (simp_all add: read_json_def)
qed

text \<open>C28: A manifest is computed once for an image id.  After a run of an image that had no manifest in
  either cache, every later load for the same id gives exactly the manifest of that run, from
  whatever root directory, for whatever reference and whatever the probe would say by then, and
  changes nothing.\<close>

theorem manifest_cache_roundtrip:
  assumes "image_id \<noteq> []"
    and "\<not> path_exists lim (fst h) (persistent_cache image_id)" and "\<not> path_exists lim (fst h) (clone_cache rootfs_path)"
    and "load_manifest probe_and_bake lim rootfs_path image_ref (Some image_id) h = (Inr m, h')" and "json_ok m"
  shows "load_manifest probe_and_bake' lim rootfs_path' image_ref' (Some image_id) h' = (Inr m, h')"
proof -
  let ?p = "persistent_cache image_id"
  have c: "cache_file (Some image_id) = Some ?p" using assms(1) by (simp add: cache_file_def)
  obtain h1 where s: "save_json lim ?p m h1 = (Inr (), h')"
    using assms(2-4) unfolding load_manifest_def c option.case option.sel
    by (auto simp: then_do_def tree_exists_def give_def split: prod.splits sum.splits if_splits)
  show ?thesis
    using save_json_read [OF s assms(5)] c
    by (simp add: load_manifest_def then_do_def tree_exists_def load_json_def)
qed

definition cache_tree :: fs where
  "cache_tree = [([''var''], Dir), ([''var'', ''cache''], Dir), ([''var'', ''cache'', ''jailrun''], Dir),
     ([''var'', ''cache'', ''jailrun'', ''manifests''], Dir), ([''r''], Dir)]"

lemma cache_first:
  "fst (load_manifest (\<lambda>_ _. give (JObj [])) 8 [''r''] ''alpine'' (Some ''i'') (cache_tree, ())) = Inr (JObj [])"
  "\<not> path_exists 8 cache_tree (persistent_cache ''i'')" "\<not> path_exists 8 cache_tree (clone_cache [''r''])"
  by code_simp+

lemma manifest_cache_roundtrip_witness:
  "\<exists>h'. load_manifest (\<lambda>_ _. give (JObj [])) 8 [''r''] ''alpine'' (Some ''i'') (cache_tree, ()) = (Inr (JObj []), h')
    \<and> load_manifest (\<lambda>_ _. raise_exc (Other_error ''probe'')) 8 [''other''] ''debian'' (Some ''i'') h' = (Inr (JObj []), h')"
proof -
  obtain r h' where l: "load_manifest (\<lambda>_ _. give (JObj [])) 8 [''r''] ''alpine'' (Some ''i'') (cache_tree, ()) = (r, h')"
    by (rule prod.exhaust)
  have r: "r = Inr (JObj [])" using cache_first(1) l by simp
  have "load_manifest (\<lambda>_ _. raise_exc (Other_error ''probe'')) 8 [''other''] ''debian'' (Some ''i'') h' = (Inr (JObj []), h')"
    by (rule manifest_cache_roundtrip [OF _ _ _ l [unfolded r]]) (simp_all add: cache_first)
  then show ?thesis using l r by blast
qed

section \<open>What an image decides\<close>

text \<open>An image chooses what is mounted into its own jail.  Where no manifest is cached for its id, a
  file \<^verbatim>\<open>/.jailrun/substitution-manifest.json\<close> in the image itself is taken for the manifest, without
  a probe; the snapshot it names as its base is never checked to be one, and its directory on the
  host, on a plain-directory store just the path the image wrote there, is mounted read-only into
  the jail.\<close>

theorem image_manifest_chooses_base:
  assumes "root_kind_of image_ref = Image_root"
    and "case cache_file image_id of None \<Rightarrow> True | Some p \<Rightarrow> \<not> path_exists (ee_lim env) (fst (en_host s)) p"
    and "path_exists (ee_lim env) (fst (en_host s)) (clone_cache (h_rootfs (en_handle s)))"
    and "read_json (ee_lim env) (fst (en_host s)) (clone_cache (h_rootfs (en_handle s))) = Inr (JObj ms)"
    and "manifest_summary (JObj ms) = Inr ()"
    and "jlookup ''_bakery'' ms = Some (JObj bs)" and "jlookup ''snapshot_id'' bs = Some (JStr p)" and "p \<noteq> []"
  shows "bind (root_manifest env image_ref image_id) (mount_bakery_base env) s
    = bind (mount_into env [(path_str (base_mountpoint (ee_store env) p), NATIVE_BASE_MOUNT, True)])
        (\<lambda>_. done_with (Some NATIVE_BASE_MOUNT)) s"
proof -
  have l: "load_manifest (ee_probe_and_bake env) (ee_lim env) (h_rootfs (en_handle s)) image_ref image_id (en_host s) = (Inr (JObj ms), en_host s)"
    using assms(2-4) by (simp add: load_manifest_def then_do_def tree_exists_def give_def load_json_def split: option.splits)
  have "on_host (load_manifest (ee_probe_and_bake env) (ee_lim env) (h_rootfs (en_handle s)) image_ref image_id) s = (Inr (JObj ms), s)"
    using l by (simp add: on_host_def)
  then have "root_manifest env image_ref image_id s = (Inr (JObj ms), s)"
    using assms(1,5) by (simp add: root_manifest_def bind_def of_result_def done_with_def)
  then show ?thesis
    using assms(6-8)
    by (simp add: bind_def mount_bakery_base_def jget_def of_result_def base_of_json_def)
qed

definition greedy :: "(string \<times> json) list" where
  "greedy = [(''binaries'', JArr []), (''linuxulator'', JObj []), (''_bakery'', JObj [(''snapshot_id'', JStr ''/'')])]"

definition greedy_tree :: fs where
  "greedy_tree = [([''r''], Dir), ([''r'', ''.jailrun''], Dir),
     ([''r'', ''.jailrun'', ''substitution-manifest.json''], Reg (json_dump 0 (JObj greedy)))]"

definition greedy_eng :: "string list list eng" where
  "greedy_eng = (demo_eng greedy_tree []) \<lparr> en_handle := new_handle ''x'' [''r''] ''/r'' ''/images/i'' \<rparr>"

definition plain_env :: "string list list engine_env" where
  "plain_env = demo_env all_fine \<lparr> ee_store := demo_store Plaindir \<rparr>"

lemma greedy_read:
  "path_exists 8 greedy_tree (clone_cache [''r''])" "root_kind_of ''alpine'' = Image_root"
  "follow 8 greedy_tree (clone_cache [''r'']) = Some [''r'', ''.jailrun'', ''substitution-manifest.json'']"
  by code_simp+

lemma greedy_mounts:
  "snd (en_host (snd (mount_into plain_env [(''/'', NATIVE_BASE_MOUNT, True)] greedy_eng)))
   = [[''mount_nullfs'', ''-o'', ''ro'', ''/'', ''/r/jailrun-native/base'']]"
  by code_simp

lemma image_manifest_chooses_base_witness:
  "log_of (snd (bind (root_manifest plain_env ''alpine'' None) (mount_bakery_base plain_env) greedy_eng))
   = [[''mount_nullfs'', ''-o'', ''ro'', ''/'', ''/r/jailrun-native/base'']]"
proof -
  have f: "ee_lim plain_env = 8" "fst (en_host greedy_eng) = greedy_tree" "h_rootfs (en_handle greedy_eng) = [''r'']"
    by (simp_all add: plain_env_def demo_env_def greedy_eng_def demo_eng_def fresh_locals_def new_handle_def)
  have ok: "json_ok (JObj greedy)" by (simp add: greedy_def)
  have r: "read_json 8 greedy_tree (clone_cache [''r'']) = Inr (JObj greedy)"
  proof -
    have "look greedy_tree [''r'', ''.jailrun'', ''substitution-manifest.json''] = Some (Reg (json_dump 0 (JObj greedy)))"
      by (simp add: greedy_tree_def look_def del: json_dump.simps)
    then show ?thesis
      using json_loads_dump [OF ok, of 0] by (simp add: read_json_def read_text_def greedy_read(3) del: json_dump.simps)
  qed
  have "bind (root_manifest plain_env ''alpine'' None) (mount_bakery_base plain_env) greedy_eng
    = bind (mount_into plain_env [(path_str (base_mountpoint (ee_store plain_env) ''/''), NATIVE_BASE_MOUNT, True)])
        (\<lambda>_. done_with (Some NATIVE_BASE_MOUNT)) greedy_eng"
    by (rule image_manifest_chooses_base [where ms = greedy and bs = "[(''snapshot_id'', JStr ''/'')]"])
      (simp_all add: f greedy_read r cache_file_def, simp_all add: greedy_def manifest_summary_def jget_def jlookup_def has_len_def)
  moreover have "path_str (base_mountpoint (ee_store plain_env) ''/'') = ''/''" by code_simp
  ultimately show ?thesis
    using greedy_mounts by (auto simp: bind_def done_with_def split: prod.split sum.split)
qed

text \<open>C40: The copy of the host's \<^verbatim>\<open>resolv.conf\<close> follows the image's links.  Where the image's
  \<^verbatim>\<open>/etc/resolv.conf\<close> is a link, as in images made for other init systems, the file it leads to from
  the host's own root is overwritten, wherever it is: a run with a network replaces the content of
  any host file the image names.\<close>

theorem resolv_conf_overwrites_host_file:
  assumes "op_network opts \<noteq> ''none''" and "read_text (ee_lim env) (fst (en_host s)) RESOLV_CONF = Inr c"
    and "fs_mkdirs (ee_lim env) (h_rootfs (en_handle s) @ [''etc'']) (fst (en_host s)) = (None, fst (en_host s))"
    and "follow (ee_lim env) (fst (en_host s)) (h_rootfs (en_handle s) @ [''etc'', ''resolv.conf'']) = Some q"
    and "look (fst (en_host s)) q = Some (Reg old)" and "follow (ee_lim env) (fst (en_host s)) RESOLV_CONF \<noteq> Some q"
  shows "\<exists>s'. copy_resolv_conf env (op_network opts) s = (Inr (), s') \<and> look (fst (en_host s')) q = Some (Reg c)"
proof -
  let ?fs = "fst (en_host s)" and ?dst = "h_rootfs (en_handle s) @ [''etc'', ''resolv.conf'']"
  have e: "path_exists (ee_lim env) ?fs RESOLV_CONF"
    using assms(2) by (auto simp: read_text_def path_exists_def stat_def split: option.splits)
  have d: "\<not> path_is_dir (ee_lim env) ?fs ?dst" using assms(4,5) by (simp add: path_is_dir_def stat_def)
  have q: "q \<noteq> []" using assms(5) by auto
  have "fs_write (ee_lim env) c ?dst ?fs = (None, put q (Reg c) ?fs)"
    using assms(4,5) by (simp add: fs_write_def)
  then have "copy_resolv (ee_lim env) ?dst (en_host s) = (Inr (), (put q (Reg c) ?fs, snd (en_host s)))"
    using assms(2,4,6) d by (auto simp: copy_resolv_def Let_def then_do_def on_tree_def)
  then show ?thesis
    using assms(1,3) e q by (simp add: copy_resolv_conf_def then_do_def on_tree_def on_host_def)
qed

definition linked_tree :: fs where
  "linked_tree = [([''etc''], Dir), ([''etc'', ''resolv.conf''], Reg ''nameserver 1.1.1.1''), ([''etc'', ''master.passwd''], Reg ''root''),
     ([''r''], Dir), ([''r'', ''etc''], Dir), ([''r'', ''etc'', ''resolv.conf''], Symlink ''/etc/master.passwd'')]"

definition linked_eng :: "string list list eng" where
  "linked_eng = (demo_eng linked_tree []) \<lparr> en_handle := new_handle ''x'' [''r''] ''/r'' ''/images/i'' \<rparr>"

lemma linked_reads:
  "read_text 8 linked_tree RESOLV_CONF = Inr ''nameserver 1.1.1.1''" "fs_mkdirs 8 [''r'', ''etc''] linked_tree = (None, linked_tree)"
  "follow 8 linked_tree [''r'', ''etc'', ''resolv.conf''] = Some [''etc'', ''master.passwd'']"
  "follow 8 linked_tree RESOLV_CONF = Some RESOLV_CONF" "RESOLV_CONF \<noteq> [''etc'', ''master.passwd'']"
  "look linked_tree [''etc'', ''master.passwd''] = Some (Reg ''root'')"
  by code_simp+

lemma resolv_conf_overwrites_host_file_witness:
  "\<exists>s'. copy_resolv_conf (demo_env all_fine) ''inherit'' linked_eng = (Inr (), s')
    \<and> look (fst (en_host s')) [''etc'', ''master.passwd''] = Some (Reg ''nameserver 1.1.1.1'')"
proof -
  have f: "ee_lim (demo_env all_fine) = 8" "fst (en_host linked_eng) = linked_tree" "h_rootfs (en_handle linked_eng) = [''r'']"
    by (simp_all add: demo_env_def linked_eng_def demo_eng_def fresh_locals_def new_handle_def)
  show ?thesis
    using resolv_conf_overwrites_host_file [of "demo_opts \<lparr> op_network := ''inherit'' \<rparr>" "demo_env all_fine" linked_eng]
    by (simp add: f linked_reads)
qed

end
