(* ===== verification/Explain.thy ===== *)
theory Explain
  imports Manifest
begin

text \<open>
  \<^verbatim>\<open>runtime/explain.py\<close>: the report on a substitution manifest, as text or as JSON.  The manifest is
  any JSON value; where it is not of the expected shape, the report raises what Python raises.
\<close>

section \<open>Text of values\<close>

text \<open>\<^verbatim>\<open>len(s)\<close> counts characters, not bytes; \<^verbatim>\<open>f"{s:<n}"\<close> fills up with spaces.\<close>

definition py_len :: "string \<Rightarrow> nat" where "py_len s = length (text_points s)"

definition py_ljust :: "nat \<Rightarrow> string \<Rightarrow> string" where
  "py_ljust n s = s @ replicate (n - py_len s) (CHR 0x20)"

text \<open>\<^verbatim>\<open>str(v)\<close> and \<^verbatim>\<open>repr(v)\<close> of a decoded value; numbers as they are written, which is right for integers.\<close>

fun json_repr :: "json \<Rightarrow> string" and json_reprs :: "json list \<Rightarrow> string list" and member_reprs :: "(string \<times> json) list \<Rightarrow> string list" where
  "json_repr JNull = ''None''"
| "json_repr (JBool b) = (if b then ''True'' else ''False'')"
| "json_repr (JNum n) = n"
| "json_repr (JStr s) = py_repr s"
| "json_repr (JArr vs) = ''['' @ py_join '', '' (json_reprs vs) @ '']''"
| "json_repr (JObj ms) = ''{'' @ py_join '', '' (member_reprs ms) @ ''}''"
| "json_reprs [] = []"
| "json_reprs (v # vs) = json_repr v # json_reprs vs"
| "member_reprs [] = []"
| "member_reprs ((k, v) # ms) = (py_repr k @ '': '' @ json_repr v) # member_reprs ms"

definition json_str :: "json \<Rightarrow> string" where
  "json_str v = (case v of JStr s \<Rightarrow> s | _ \<Rightarrow> json_repr v)"

text \<open>\<^verbatim>\<open>v or d\<close>.\<close>

definition json_or :: "json \<Rightarrow> json \<Rightarrow> json" where "json_or v d = (if jtruth v then v else d)"

section \<open>Rows\<close>

record explain_row =
  xr_path :: json
  xr_basename :: string
  xr_abi :: json
  xr_status :: json
  xr_provider :: json
  xr_verification :: json
  xr_why :: "string option"

definition explain_basename :: "json \<Rightarrow> store_exc + string" where
  "explain_basename path =
     (if \<not> jtruth path then Inr ''<unknown>''
      else (case path of
          JStr s \<Rightarrow> (let name = py_after_last (CHR ''/'') s in Inr (if name = [] then s else name))
        | _ \<Rightarrow> type_error))"

definition why_linuxulator :: "json \<Rightarrow> store_exc + string option" where
  "why_linuxulator entry =
     try_bind (jget ''status'' JNull entry) (\<lambda>status.
     if status \<noteq> JStr ''linuxulator'' then Inr None
     else try_bind (jget ''native'' JNull entry) (\<lambda>native.
     if \<not> jtruth native then Inr (Some ''no native provider mapped'')
     else try_bind (jget ''artifact_path'' JNull native) (\<lambda>artifact_path.
     if \<not> jtruth artifact_path then Inr (Some ''provider proposed but not resolved'') else Inr None)))"

definition explain_row_of :: "json \<Rightarrow> store_exc + explain_row" where
  "explain_row_of entry =
     try_bind (jget ''native'' JNull entry) (\<lambda>nv. let native = json_or nv (JObj []) in
     try_bind (jget ''path'' (JStr []) entry) (\<lambda>path.
     try_bind (explain_basename path) (\<lambda>basename.
     try_bind (jget ''abi'' (JStr ''unknown'') entry) (\<lambda>abi.
     try_bind (jget ''status'' (JStr ''unknown'') entry) (\<lambda>status.
     try_bind (jget ''provider'' JNull native) (\<lambda>provider.
     try_bind (jget ''verification'' JNull native) (\<lambda>verification.
     try_bind (why_linuxulator entry) (\<lambda>why.
     Inr \<lparr> xr_path = path, xr_basename = basename, xr_abi = abi, xr_status = status, xr_provider = provider,
           xr_verification = verification, xr_why = why \<rparr>))))))))"

definition hint_for :: "explain_row \<Rightarrow> store_exc + string" where
  "hint_for row =
     (if \<not> jtruth (xr_provider row) then Inr (''add a pkg:/port: mapping for '' @ xr_basename row)
      else (case xr_provider row of
          JStr provider \<Rightarrow>
            Inr (if py_startswith provider ''pkg:'' then ''pkg install '' @ drop 4 provider @ ''    # resolves '' @ xr_basename row
                 else ''resolve '' @ provider @ '' for '' @ xr_basename row @ '' (bakery has not produced an artifact yet)'')
        | _ \<Rightarrow> attribute_error))"

section \<open>The text report\<close>

text \<open>The cells of a row; a value that is not text fails in \<^verbatim>\<open>len\<close> or in the format.\<close>

record explain_cells =
  xc_basename :: string
  xc_abi :: string
  xc_status :: string
  xc_provider :: string
  xc_verification :: string

definition cell_text :: "json \<Rightarrow> store_exc + string" where
  "cell_text v = (case v of JStr s \<Rightarrow> Inr s | _ \<Rightarrow> type_error)"

definition row_cells :: "explain_row \<Rightarrow> store_exc + explain_cells" where
  "row_cells r =
     try_bind (cell_text (xr_abi r)) (\<lambda>a.
     try_bind (cell_text (xr_status r)) (\<lambda>s.
     try_bind (cell_text (json_or (xr_provider r) (JStr em_dash))) (\<lambda>p.
     Inr \<lparr> xc_basename = xr_basename r, xc_abi = a, xc_status = s, xc_provider = p,
           xc_verification = json_str (json_or (xr_verification r) (JStr em_dash)) \<rparr>)))"

definition widest :: "nat \<Rightarrow> string list \<Rightarrow> nat" where "widest least cs = fold (\<lambda>c w. max w (py_len c)) cs least"

definition table_line :: "nat \<times> nat \<times> nat \<times> nat \<Rightarrow> explain_cells \<Rightarrow> string" where
  "table_line ws c =
     (case ws of (col_bin, col_abi, col_status, col_provider) \<Rightarrow>
        py_ljust col_bin (xc_basename c) @ ''  '' @ py_ljust col_abi (xc_abi c) @ ''  '' @ py_ljust col_status (xc_status c) @ ''  '' @
        py_ljust col_provider (xc_provider c) @ ''  '' @ xc_verification c)"

definition table_header :: explain_cells where
  "table_header = \<lparr> xc_basename = ''BINARY'', xc_abi = ''ABI'', xc_status = ''STATUS'', xc_provider = ''PROVIDER'',
     xc_verification = ''VERIFICATION'' \<rparr>"

definition table_lines :: "explain_cells list \<Rightarrow> string list" where
  "table_lines cs =
     (if cs = [] then [''(no binaries in manifest)'']
      else (let ws = (widest 6 (map xc_basename cs), widest 3 (map xc_abi cs), widest 6 (map xc_status cs), widest 8 (map xc_provider cs));
                header = table_line ws table_header
            in [header, replicate (py_len header) (CHR ''-'')] @ map (table_line ws) cs))"

definition why_lines :: "explain_row list \<Rightarrow> string list" where
  "why_lines rows =
     (let why_rows = filter (\<lambda>r. getenv_or (xr_why r) [] \<noteq> []) rows in
      if why_rows = [] then []
      else [''WHY (linuxulator):''] @ map (\<lambda>r. ''  '' @ xr_basename r @ '': '' @ getenv_or (xr_why r) []) why_rows @ [[]])"

definition status_count :: "string \<Rightarrow> explain_row list \<Rightarrow> nat" where
  "status_count s rows = length (filter (\<lambda>r. xr_status r = JStr s) rows)"

definition linuxulator_required :: "json \<Rightarrow> store_exc + bool" where
  "linuxulator_required manifest =
     try_bind (jget ''linuxulator'' (JObj []) manifest) (\<lambda>lx.
     try_bind (jget ''required'' (JBool False) lx) (\<lambda>v. Inr (jtruth v)))"

definition hint_lines :: "explain_row list \<Rightarrow> store_exc + string list" where
  "hint_lines rows =
     (let linuxulator_rows = filter (\<lambda>r. xr_status r = JStr ''linuxulator'') rows in
      if linuxulator_rows = [] then Inr []
      else try_bind (try_map hint_for linuxulator_rows) (\<lambda>hs.
           Inr (''HINTS (what would make this run more natively):'' # map (\<lambda>h. ''  - '' @ h) hs)))"

definition render_explain_text :: "json \<Rightarrow> explain_row list \<Rightarrow> store_exc + string" where
  "render_explain_text manifest rows =
     try_bind (jget ''image'' JNull manifest) (\<lambda>img.
     let title = ''jailrun explain: '' @ json_str (json_or img (JStr ''<manifest file>'')) in
     try_bind (try_map row_cells rows) (\<lambda>cells.
     try_bind (linuxulator_required manifest) (\<lambda>required.
     try_bind (hint_lines rows) (\<lambda>hints.
     Inr (py_rstrip_char NL (py_join [NL]
       ([title, replicate (max (py_len title) 40) (CHR ''=''), []] @ table_lines cells @ [[]] @ why_lines rows @
        [''SUMMARY: '' @ show_nat (status_count ''native'' rows) @ ''/'' @ show_nat (length rows) @ '' native'',
         ''Linuxulator required: '' @ (if required then ''yes'' else ''no''), []] @ hints)))))))"

section \<open>The JSON report\<close>

definition jnat :: "nat \<Rightarrow> json" where "jnat n = JNum (show_nat n)"

definition row_json :: "explain_row \<Rightarrow> json" where
  "row_json r = JObj [(''path'', xr_path r), (''abi'', xr_abi r), (''status'', xr_status r), (''provider'', xr_provider r),
     (''verification'', xr_verification r), (''why'', text_or_null (xr_why r))]"

definition explain_summary :: "explain_row list \<Rightarrow> bool \<Rightarrow> json" where
  "explain_summary rows rq = JObj
     [(''counts'', JObj [(''native'', jnat (status_count ''native'' rows)), (''linuxulator'', jnat (status_count ''linuxulator'' rows)),
        (''total'', jnat (length rows))]),
      (''linuxulator_required'', JBool rq), (''binaries'', JArr (map row_json rows))]"

definition explain_rows :: "json \<Rightarrow> store_exc + explain_row list" where
  "explain_rows manifest =
     try_bind (jget ''binaries'' (JArr []) manifest) (\<lambda>v. try_bind (jiter v) (try_map explain_row_of))"

definition render_explain :: "json \<Rightarrow> string \<Rightarrow> store_exc + string" where
  "render_explain manifest fmt =
     try_bind (explain_rows manifest) (\<lambda>rows.
     if fmt = ''json'' then try_bind (linuxulator_required manifest) (\<lambda>required. Inr (json_dump 0 (explain_summary rows required)))
     else render_explain_text manifest rows)"


section \<open>The reports on a manifest of the schema\<close>

text \<open>The native block of an entry names an artifact.\<close>

definition entry_resolved :: "json \<Rightarrow> bool" where
  "entry_resolved b = (case jget ''native'' JNull b of
       Inr (JObj ns) \<Rightarrow> (case jlookup ''artifact_path'' ns of Some v \<Rightarrow> jtruth v | None \<Rightarrow> False)
     | _ \<Rightarrow> False)"

text \<open>A row whose cells can be printed, and what it says about the entry it comes from.\<close>

definition row_plain :: "explain_row \<Rightarrow> bool" where
  "row_plain r \<longleftrightarrow> is_text (xr_path r) \<and> is_text (xr_abi r) \<and> is_text (xr_status r) \<and>
     or_null is_text (xr_provider r) \<and> or_null is_text (xr_verification r)"

definition row_about :: "json \<Rightarrow> explain_row \<Rightarrow> bool" where
  "row_about b r \<longleftrightarrow> jget ''path'' JNull b = Inr (xr_path r) \<and> jget ''status'' JNull b = Inr (xr_status r) \<and>
     (xr_why r = None \<longleftrightarrow> xr_status r \<noteq> JStr ''linuxulator'' \<or> entry_resolved b)"

lemma explain_row_schema:
  assumes "binary_schema b"
  shows "\<exists>r. explain_row_of b = Inr r \<and> row_plain r \<and> row_about b r"
proof -
  obtain ms p a s nv where b: "b = JObj ms" "jlookup ''path'' ms = Some (JStr p)" "jlookup ''abi'' ms = Some (JStr a)"
      "jlookup ''status'' ms = Some (JStr s)" "jget ''native'' JNull b = Inr nv" "or_null native_schema nv"
    using assms by (rule binary_schemaD)
  have path: "\<exists>n. explain_basename (JStr p) = Inr n" by (auto simp: explain_basename_def Let_def)
  show ?thesis
  proof (cases "nv = JNull")
    case True
    then show ?thesis using b path
      by (auto simp: explain_row_of_def why_linuxulator_def json_or_def jget_def jlookup_def [of _ "[]"] row_plain_def row_about_def
          is_text_def or_null_def entry_resolved_def Let_def)
  next
    case False
    then have "native_schema nv" using b(6) by (simp add: or_null_def)
    then obtain ns pr ap v where n: "nv = JObj ns" "jlookup ''provider'' ns = Some (JStr pr)"
        "jget ''artifact_path'' JNull nv = Inr ap" "or_null is_text ap" "jget ''verification'' JNull nv = Inr v" "or_null is_text v"
      by (rule native_schemaD)
    have "ns \<noteq> []" using n(2) by (auto simp: jlookup_def)
    then show ?thesis using b n path
      by (auto simp: explain_row_of_def why_linuxulator_def json_or_def jget_def row_plain_def row_about_def
          is_text_def or_null_def entry_resolved_def Let_def split: option.splits)
  qed
qed

lemma explain_rows_schema:
  assumes "list_all binary_schema bs"
  shows "\<exists>rows. try_map explain_row_of bs = Inr rows \<and> list_all row_plain rows \<and> list_all2 row_about bs rows"
  using assms
proof (induction bs)
  case (Cons b bs)
  obtain r where "explain_row_of b = Inr r" "row_plain r" "row_about b r" using Cons.prems explain_row_schema [of b] by auto
  moreover obtain rows where "try_map explain_row_of bs = Inr rows" "list_all row_plain rows" "list_all2 row_about bs rows"
    using Cons by auto
  ultimately show ?case by simp
qed simp

lemma row_cells_plain: "row_plain r \<Longrightarrow> \<exists>c. row_cells r = Inr c"
  by (auto simp: row_plain_def row_cells_def cell_text_def json_or_def is_text_def or_null_def split: json.splits)

lemma hint_for_plain: "row_plain r \<Longrightarrow> \<exists>h. hint_for r = Inr h"
  by (auto simp: row_plain_def hint_for_def is_text_def or_null_def split: json.splits)

lemma try_map_total: "\<forall>x \<in> set xs. \<exists>y. f x = Inr y \<Longrightarrow> \<exists>ys. try_map f xs = Inr ys"
  by (induction xs) (auto split: sum.splits)

lemma hint_lines_plain:
  assumes "list_all row_plain rows"
  shows "\<exists>hs. hint_lines rows = Inr hs"
proof -
  have "\<exists>hs. try_map hint_for (filter (\<lambda>r. xr_status r = JStr ''linuxulator'') rows) = Inr hs"
    using assms hint_for_plain by (intro try_map_total) (auto simp: list_all_iff)
  then show ?thesis by (auto simp: hint_lines_def Let_def)
qed

lemma int_text_show_nat: "int_text (show_nat n)"
proof (cases "n = 0")
  case True
  moreover have "int_text (show_nat 0)" by code_simp
  ultimately show ?thesis by simp
next
  case False
  then have "\<not> prefix ''0'' (show_nat n)" by (intro show_nat_hd) simp
  moreover have "\<not> prefix ''-'' (show_nat n)" using show_nat_digits [of n]
    by (auto simp: prefix_def all_digits_def is_digit_def)
  ultimately show ?thesis using show_nat_digits [of n] by (simp add: int_text_def Let_def)
qed

lemma plain_json_ok: "is_text v \<Longrightarrow> json_ok v" "or_null is_text v \<Longrightarrow> json_ok v"
  by (cases v; simp add: is_text_def or_null_def)+

lemma row_json_ok: "row_plain r \<Longrightarrow> json_ok (row_json r)"
  using plain_json_ok by (simp add: row_plain_def row_json_def text_or_null_def split: option.split)

lemma explain_summary_ok: "list_all row_plain rows \<Longrightarrow> json_ok (explain_summary rows lx)"
  by (simp add: explain_summary_def jnat_def int_text_show_nat list_all_iff row_json_ok)


text \<open>On every manifest of the schema both reports are written.  The JSON report, read back, is exactly the
  counts and the rows; there is one row per entry, in order, with the entry's path and status.  A row
  is without an explanation exactly if its status is not \<^verbatim>\<open>linuxulator\<close> or its native block
  already names an artifact, so the promise that every \<^verbatim>\<open>linuxulator\<close> entry is explained
  holds for unresolved entries only.\<close>

theorem explain_reports_schema_manifest:
  assumes "manifest_schema m"
  shows "\<exists>bs rows lx txt out.
    jget ''binaries'' (JArr []) m = Inr (JArr bs) \<and> explain_rows m = Inr rows \<and> list_all2 row_about bs rows \<and>
    linuxulator_required m = Inr lx \<and>
    render_explain m ''text'' = Inr txt \<and> render_explain m ''json'' = Inr out \<and> json_loads out = Some (explain_summary rows lx)"
proof -
  obtain ms img bs lx rq where m: "m = JObj ms" "jlookup ''image'' ms = Some (JStr img)" "jlookup ''binaries'' ms = Some (JArr bs)"
      "list_all binary_schema bs" "jlookup ''linuxulator'' ms = Some (JObj lx)" "jlookup ''required'' lx = Some (JBool rq)"
      "optional ''_bakery'' bakery_schema ms"
    using assms by (rule manifest_schemaD)
  obtain rows where r: "try_map explain_row_of bs = Inr rows" "list_all row_plain rows" "list_all2 row_about bs rows"
    using explain_rows_schema [OF m(4)] by blast
  have rows: "explain_rows m = Inr rows" using m(1,3) r(1) by (simp add: explain_rows_def jget_def jiter_def)
  have lx: "linuxulator_required m = Inr rq" using m(1,5,6) by (simp add: linuxulator_required_def jget_def)
  have "\<exists>cells. try_map row_cells rows = Inr cells"
    using r(2) row_cells_plain by (intro try_map_total) (auto simp: list_all_iff)
  then have "\<exists>txt. render_explain m ''text'' = Inr txt"
    using hint_lines_plain [OF r(2)] m(1,2) rows lx by (auto simp: render_explain_def render_explain_text_def jget_def Let_def)
  moreover have "render_explain m ''json'' = Inr (json_dump 0 (explain_summary rows rq))"
    using rows lx by (simp add: render_explain_def del: json_dump.simps)
  moreover have "json_loads (json_dump 0 (explain_summary rows rq)) = Some (explain_summary rows rq)"
    using r(2) by (intro json_loads_dump explain_summary_ok)
  ultimately show ?thesis using m(1,3) r(3) rows lx by (auto simp: jget_def)
qed

definition demo_explain :: json where
  "demo_explain = JObj [(''image'', JStr ''alpine''), (''binaries'', JArr
     [JObj [(''path'', JStr ''/bin/sh''), (''abi'', JStr ''linux''), (''status'', JStr ''linuxulator''),
        (''native'', JObj [(''provider'', JStr ''pkg:bash''), (''artifact_path'', JStr ''/b'')])]]),
     (''linuxulator'', JObj [(''required'', JBool True)])]"

lemma explain_reports_schema_manifest_witness:
  "\<exists>row lx out. explain_rows demo_explain = Inr [row] \<and> xr_status row = JStr ''linuxulator'' \<and> xr_why row = None \<and>
     render_explain demo_explain ''json'' = Inr out \<and> json_loads out = Some (explain_summary [row] lx)"
proof -
  have s: "manifest_schema demo_explain" by code_simp
  have b: "jget ''binaries'' (JArr []) demo_explain = Inr (JArr bs) \<Longrightarrow> length bs = 1 \<and> entry_resolved (hd bs) \<and>
      jget ''status'' JNull (hd bs) = Inr (JStr ''linuxulator'')" for bs
    by (auto simp: demo_explain_def jget_def jlookup_def entry_resolved_def)
  show ?thesis
    using explain_reports_schema_manifest [OF s] b
    by (fastforce simp: row_about_def length_Suc_conv list_all2_Cons1)
qed

end
