(* ===== verification/PyFloat.thy ===== *)
theory PyFloat
  imports Complex_Main Prelude
begin

text \<open>
  The floats of Python that the sources compute with: IEEE 754 doubles, as rational numbers.  An
  operation rounds its exact result to the nearest double, to the even one of two; printing with
  a number of decimals rounds the exact value of the double in the same way.
\<close>

section \<open>Rounding\<close>

definition round_even :: "rat \<Rightarrow> int" where
  "round_even x =
     (let n = \<lfloor>x\<rfloor>; d = x - of_int n in
      if d < 1 / 2 then n else if d > 1 / 2 then n + 1 else if even n then n else n + 1)"

fun bits :: "nat \<Rightarrow> nat" where
  "bits n = (if n = 0 then 0 else Suc (bits (n div 2)))"

declare bits.simps [simp del]

definition pow2 :: "int \<Rightarrow> rat" where
  "pow2 k = 2 powi k"

text \<open>The exponent of a positive number, and the distance of the doubles around it; below the normal
  range that is the least positive double.\<close>

definition float_exp :: "rat \<Rightarrow> int" where
  "float_exp x =
     (let (a, b) = quotient_of x; k = int (bits (nat a)) - int (bits (nat b))
      in if pow2 k \<le> x then k else k - 1)"

definition ulp :: "rat \<Rightarrow> rat" where "ulp x = pow2 (max (float_exp x - 52) (-1074))"

definition fl :: "rat \<Rightarrow> rat" where
  "fl x = (if x = 0 then 0 else of_int (round_even (x / ulp \<bar>x\<bar>)) * ulp \<bar>x\<bar>)"

section \<open>Printing\<close>

text \<open>\<^verbatim>\<open>f"{x:.1f}"\<close> and \<^verbatim>\<open>f"{x:.0f}"\<close> for a number that is not negative.\<close>

definition fixed1 :: "rat \<Rightarrow> string" where
  "fixed1 x = (let t = nat (round_even (10 * x)) in show_nat (t div 10) @ ''.'' @ show_nat (t mod 10))"

definition fixed0 :: "rat \<Rightarrow> string" where "fixed0 x = show_nat (nat (round_even x))"

text \<open>\<^verbatim>\<open>repr\<close> of a positive double: the fewest digits that read back as it, the nearest such number.\<close>

definition pow10 :: "int \<Rightarrow> rat" where
  "pow10 k = 10 powi k"

definition dec_point :: "rat \<Rightarrow> int" where
  "dec_point x =
     (if 1 \<le> x then int (length (show_nat (nat \<lfloor>x\<rfloor>)))
      else (case List.find (\<lambda>j. 1 \<le> x * 10 ^ j) [1..<330] of Some j \<Rightarrow> 1 - int j | None \<Rightarrow> 0))"

definition digits_of :: "rat \<Rightarrow> nat \<Rightarrow> int option" where
  "digits_of x p =
     (let s = x * pow10 (int p - dec_point x)
      in List.find (\<lambda>c. fl (of_int c * pow10 (dec_point x - int p)) = x) [round_even s, \<lfloor>s\<rfloor>, \<lfloor>s\<rfloor> + 1])"

definition shortest_digits :: "rat \<Rightarrow> string \<times> int" where
  "shortest_digits x =
     (case List.find (\<lambda>p. digits_of x p \<noteq> None) [1..<18] of
        None \<Rightarrow> ([], 0)
      | Some p \<Rightarrow> (let s = show_nat (nat (the (digits_of x p)))
                   in (py_rstrip_char (CHR ''0'') s, dec_point x + int (length s) - int p)))"

definition float_repr :: "rat \<Rightarrow> string" where
  "float_repr x =
     (if x = 0 then ''0.0''
      else (let (ds, point) = shortest_digits x in
        if -4 < point \<and> point \<le> 16 then
          (if point \<le> 0 then ''0.'' @ replicate (nat (- point)) (CHR ''0'') @ ds
           else if length ds \<le> nat point then ds @ replicate (nat point - length ds) (CHR ''0'') @ ''.0''
           else take (nat point) ds @ ''.'' @ drop (nat point) ds)
        else (let e = point - 1; t = show_nat (nat \<bar>e\<bar>) in
          take 1 ds @ (if drop 1 ds = [] then [] else ''.'' @ drop 1 ds) @
          ''e'' @ (if e < 0 then ''-'' else ''+'') @ (if length t < 2 then ''0'' @ t else t))))"

lemma round_even_int [simp]: "round_even (of_int n) = n"
  by (simp add: round_even_def Let_def)

lemma round_even_near: "\<bar>of_int (round_even x) - x\<bar> \<le> 1 / 2"
proof -
  have "of_int \<lfloor>x\<rfloor> \<le> x" "x < of_int \<lfloor>x\<rfloor> + 1" by linarith+
  then show ?thesis by (simp add: round_even_def Let_def abs_le_iff)
qed

lemma round_even_mono: assumes "x \<le> y" shows "round_even x \<le> round_even y"
proof (cases "\<lfloor>x\<rfloor> = \<lfloor>y\<rfloor>")
  case True
  then show ?thesis using assms by (auto simp: round_even_def Let_def)
next
  case False
  then have "\<lfloor>x\<rfloor> + 1 \<le> \<lfloor>y\<rfloor>" using floor_mono [OF assms] by linarith
  then show ?thesis by (auto simp: round_even_def Let_def)
qed

lemma bits_bound: "n < 2 ^ bits n" and bits_low: "0 < n \<Longrightarrow> 2 ^ bits n \<le> 2 * n"
proof (induction n rule: bits.induct)
  case (1 n)
  { case 1 then show ?case using "1.IH"(1) by (cases "n = 0") (auto simp: bits.simps [of n]) }
  { case 2 then show ?case using "1.IH"(2) by (cases "n div 2 = 0") (auto simp: bits.simps [of n] bits.simps [of 0]) }
qed

lemma pow2_pos [simp]: "0 < pow2 k" by (simp add: pow2_def)

lemma pow2_add: "pow2 (i + j) = pow2 i * pow2 j" by (simp add: pow2_def power_int_add)

lemma pow2_less_iff: "pow2 i < pow2 j \<longleftrightarrow> i < j"
  using power_int_strict_increasing [of i j "2 :: rat"] power_int_increasing [of j i "2 :: rat"] by (force simp: pow2_def)

lemma pow2_nat [simp]: "pow2 (int n) = 2 ^ n" by (simp add: pow2_def)

lemma pow2_one [simp]: "pow2 1 = 2" and pow2_zero [simp]: "pow2 0 = 1" by (simp_all add: pow2_def)

lemma float_exp_bounds:
  assumes "0 < x"
  shows "pow2 (float_exp x) \<le> x" "x < pow2 (float_exp x + 1)"
proof -
  obtain a b where q: "quotient_of x = (a, b)" by (cases "quotient_of x")
  then have x: "x = of_int a / of_int b" and b: "0 < b" by (simp_all add: quotient_of_div quotient_of_denom_pos)
  then have a: "0 < a" using assms by (simp add: zero_less_divide_iff)
  define i j where "i = bits (nat a)" and "j = bits (nat b)"
  obtain m where m: "a = int m" "0 < m" using a by (metis zero_less_imp_eq_int)
  obtain n where n: "b = int n" "0 < n" using b by (metis zero_less_imp_eq_int)
  have r: "rat_of_int a < 2 ^ i" "2 ^ i \<le> 2 * rat_of_int a" "rat_of_int b < 2 ^ j" "2 ^ j \<le> 2 * rat_of_int b"
    using bits_bound [of m] bits_low [of m] bits_bound [of n] bits_low [of n] m n
      of_nat_less_iff [of m "2 ^ i", where 'a = rat] of_nat_le_iff [of "2 ^ i" "2 * m", where 'a = rat]
      of_nat_less_iff [of n "2 ^ j", where 'a = rat] of_nat_le_iff [of "2 ^ j" "2 * n", where 'a = rat]
    by (simp_all add: i_def j_def)
  have p: "pow2 (int i - int j) * 2 ^ j = 2 ^ i" using pow2_add [of "int i - int j" "int j"] by simp
  have "x * of_int b = of_int a" using x b by simp
  then have up: "x < pow2 (int i - int j) * 2" and low: "pow2 (int i - int j) < x * 2"
  proof -
    assume m: "x * of_int b = of_int a"
    have "x * 2 ^ j \<le> x * (2 * of_int b)" using r(4) assms by (intro mult_left_mono) simp_all
    also have "\<dots> = 2 * of_int a" using m by simp
    also have "\<dots> < 2 * 2 ^ i" using r(1) by simp
    also have "\<dots> = pow2 (int i - int j) * 2 * 2 ^ j" using p by simp
    finally show "x < pow2 (int i - int j) * 2" by simp
    have "pow2 (int i - int j) * 2 ^ j \<le> 2 * (x * of_int b)" using p r(2) m by simp
    also have "\<dots> < 2 * (x * 2 ^ j)" using r(3) assms by simp
    finally show "pow2 (int i - int j) < x * 2" by (simp add: mult.assoc)
  qed
  have e: "float_exp x = (if pow2 (int i - int j) \<le> x then int i - int j else int i - int j - 1)"
    by (simp add: float_exp_def q i_def j_def Let_def)
  have s: "pow2 (k + 1) = pow2 k * 2" for k using pow2_add [of k 1] by simp
  have h: "pow2 (int i - int j - 1) * 2 = pow2 (int i - int j)" using s [of "int i - int j - 1"] by simp
  show "pow2 (float_exp x) \<le> x" "x < pow2 (float_exp x + 1)"
    using up low s [of "int i - int j"] h by (auto simp: e)
qed

lemma ulp_pos [simp]: "0 < ulp x" by (simp add: ulp_def)

lemma fl_near: "\<bar>fl x - x\<bar> \<le> ulp \<bar>x\<bar> / 2"
proof (cases "x = 0")
  case True
  then show ?thesis using ulp_pos [of 0] by (simp add: fl_def less_imp_le)
next
  case False
  let ?u = "ulp \<bar>x\<bar>"
  have "?u \<noteq> 0" using ulp_pos [of "\<bar>x\<bar>"] by linarith
  then have "fl x - x = (of_int (round_even (x / ?u)) - x / ?u) * ?u"
    using False by (simp add: fl_def left_diff_distrib)
  then have "\<bar>fl x - x\<bar> = \<bar>of_int (round_even (x / ?u)) - x / ?u\<bar> * ?u"
    using ulp_pos [of "\<bar>x\<bar>"] by (simp add: abs_mult less_imp_le)
  also have "\<dots> \<le> (1 / 2) * ?u"
    using round_even_near less_imp_le [OF ulp_pos] by (rule mult_right_mono)
  finally show ?thesis by simp
qed

lemma fl_small_int:
  assumes "n < 2 ^ 53"
  shows "fl (of_nat n) = of_nat n"
proof (cases "n = 0")
  case False
  define e where "e = float_exp (of_nat n)"
  have b: "pow2 e \<le> of_nat n" "of_nat n < pow2 (e + 1)" using float_exp_bounds [of "of_nat n"] False by (simp_all add: e_def)
  have "pow2 e < pow2 53"
  proof -
    have "rat_of_nat n < rat_of_nat (2 ^ 53)" using assms by (rule of_nat_less_iff [THEN iffD2])
    also have "rat_of_nat (2 ^ 53) = pow2 53" using pow2_nat [of 53] by simp
    finally show ?thesis using b(1) by simp
  qed
  then have e52: "e \<le> 52" unfolding pow2_less_iff by simp
  have "pow2 0 < pow2 (e + 1)"
  proof -
    have "1 \<le> rat_of_nat n" using False by simp
    then show ?thesis using b(2) by simp
  qed
  then have e0: "0 \<le> e" unfolding pow2_less_iff by simp
  have u: "ulp (of_nat n) = pow2 (e - 52)" using e0 by (simp add: ulp_def e_def max_def)
  have "pow2 (e - 52) * pow2 (52 - e) = 1" using pow2_add [of "e - 52" "52 - e"] by simp
  moreover have "pow2 (52 - e) = of_nat (2 ^ nat (52 - e))" using e52 pow2_nat [of "nat (52 - e)"] by simp
  moreover have nz: "pow2 (e - 52) \<noteq> 0" using pow2_pos [of "e - 52"] by linarith
  ultimately have q: "of_nat n / pow2 (e - 52) = of_int (int (n * 2 ^ nat (52 - e)))"
    by (simp add: divide_eq_eq mult.assoc mult.commute [of "2 ^ nat (52 - e)"])
  then have "of_int (round_even (of_nat n / pow2 (e - 52))) * pow2 (e - 52) = of_nat n"
    using nz by (metis round_even_int nonzero_mult_div_cancel_right times_divide_eq_left)
  then show ?thesis using False by (simp add: fl_def u)
qed (simp add: fl_def)

text \<open>Numbers below \<^verbatim>\<open>2 ^ k\<close> that are more than a double of that size apart keep their order.\<close>

lemma ulp_below:
  assumes "0 \<le> x" "x < pow2 k" "-1021 \<le> k"
  shows "x = 0 \<or> ulp x \<le> pow2 (k - 53)"
proof (cases "x = 0")
  case False
  then have "pow2 (float_exp x) < pow2 k" using float_exp_bounds(1) [of x] assms by simp
  then have "max (float_exp x - 52) (-1074) \<le> k - 53" using assms(3) by (simp add: pow2_less_iff)
  then show ?thesis using pow2_less_iff [of "k - 53"] unfolding ulp_def by (metis linorder_not_less)
qed simp

lemma fl_strict:
  assumes "0 \<le> x" "x + pow2 (k - 53) < y" "y < pow2 k" "-1021 \<le> k"
  shows "fl x < fl y"
proof -
  have d: "\<bar>fl z - z\<bar> \<le> pow2 (k - 53) / 2" if "0 \<le> z" "z < pow2 k" for z
    using fl_near [of z] ulp_below [OF that assms(4)] that(1) less_imp_le [OF pow2_pos [of "k - 53"]]
    by (cases "z = 0") (simp_all add: fl_def)
  have "x < pow2 k" "0 \<le> y" using assms pow2_pos [of "k - 53"] by linarith+
  then have "\<bar>fl x - x\<bar> \<le> pow2 (k - 53) / 2" "\<bar>fl y - y\<bar> \<le> pow2 (k - 53) / 2" using d assms by simp_all
  then show ?thesis using assms(2) unfolding abs_le_iff by linarith
qed

section \<open>Reading\<close>

datatype pyfloat = Finite rat | Infinite bool | Not_a_number

definition to_float :: "rat \<Rightarrow> pyfloat" where
  "to_float x = (if pow2 1024 \<le> \<bar>fl x\<bar> then Infinite (x < 0) else Finite (fl x))"

text \<open>Digits that may be grouped by single underscores.\<close>

definition digit_groups :: "string \<Rightarrow> string option" where
  "digit_groups s =
     (let gs = py_split (CHR ''_'') s in if list_all all_digits gs then Some (concat gs) else None)"

definition unsigned_float :: "string \<Rightarrow> pyfloat option" where
  "unsigned_float s =
     (let low = py_lower s in
      if low \<in> {''inf'', ''infinity''} then Some (Infinite False)
      else if low = ''nan'' then Some Not_a_number
      else (let (mantissa, expo) = (case py_cut (CHR ''e'') low of None \<Rightarrow> (low, Some 0)
                  | Some (m, e) \<Rightarrow> (m, if prefix ''-'' e then map_option (\<lambda>d. - int (digits_value d)) (digit_groups (drop 1 e))
                                       else map_option (\<lambda>d. int (digits_value d)) (digit_groups (if prefix ''+'' e then drop 1 e else e))));
                (whole, frac) = (case py_cut (CHR ''.'') mantissa of None \<Rightarrow> (mantissa, None) | Some (a, b) \<Rightarrow> (a, Some b));
                part = (\<lambda>t. if t = [] then Some [] else digit_groups t)
            in case (part whole, (case frac of None \<Rightarrow> Some [] | Some b \<Rightarrow> part b), expo) of
                 (Some a, Some b, Some e) \<Rightarrow>
                   if a = [] \<and> b = [] then None
                   else Some (to_float (of_nat (digits_value (a @ b)) * pow10 (e - int (length b))))
               | _ \<Rightarrow> None))"

text \<open>\<^verbatim>\<open>float(s)\<close> of ASCII text; the sign of a zero is not kept.\<close>

definition float_neg :: "pyfloat \<Rightarrow> pyfloat" where
  "float_neg x = (case x of Finite r \<Rightarrow> Finite (- r) | Infinite b \<Rightarrow> Infinite (\<not> b) | Not_a_number \<Rightarrow> Not_a_number)"

definition float_of_text :: "string \<Rightarrow> pyfloat option" where
  "float_of_text s =
     (let t = py_strip s in
      if prefix ''-'' t then map_option float_neg (unsigned_float (drop 1 t))
      else unsigned_float (if prefix ''+'' t then drop 1 t else t))"

text \<open>\<^verbatim>\<open>x * n\<close> for a positive integer of at most 53 bits, and \<^verbatim>\<open>int(x)\<close>: towards zero, an exception for what is no
  number.\<close>

definition float_scale :: "pyfloat \<Rightarrow> nat \<Rightarrow> pyfloat" where
  "float_scale x n = (case x of Finite r \<Rightarrow> to_float (r * of_nat n) | y \<Rightarrow> y)"

definition float_int :: "pyfloat \<Rightarrow> string + int" where
  "float_int x = (case x of Finite r \<Rightarrow> Inr (if r < 0 then - \<lfloor>- r\<rfloor> else \<lfloor>r\<rfloor>)
     | Infinite _ \<Rightarrow> Inl ''OverflowError: cannot convert float infinity to integer''
     | Not_a_number \<Rightarrow> Inl ''ValueError: cannot convert float NaN to integer'')"

end
