(* ===== verification/Scan.thy ===== *)
theory Scan
  imports EngineRun Explain PyFloat
begin

text \<open>
  \<^verbatim>\<open>runtime/scan.py\<close>: one image unpacked, cloned, probed and its clone destroyed again; the roll-up of
  several images, ranked by their share of native binaries, with the float arithmetic of Python; and
  its two forms of report.
\<close>

section \<open>One image\<close>

record summary =
  sm_image :: string
  sm_native :: nat
  sm_total :: nat
  sm_linuxulator :: bool

text \<open>\<^verbatim>\<open>probe.probe(str(rootfs_path), image_ref)\<close> on a tree that it does not change; its \<^verbatim>\<open>SystemExit\<close>
  is an exception like others here.\<close>

definition probe_rootfs :: "(string \<Rightarrow> string option) \<Rightarrow> (path \<Rightarrow> bool) \<Rightarrow> nat \<Rightarrow> path \<Rightarrow> string \<Rightarrow> (json, 'w) act" where
  "probe_rootfs providers xbit depth rootfs_path image_ref h =
     (case probe providers xbit depth (fst h) rootfs_path (path_str rootfs_path) image_ref [] of
        Inl e \<Rightarrow> (Inl (Other_error e), h)
      | Inr m \<Rightarrow> (Inr (probe_json m), h))"

definition count_status :: "string \<Rightarrow> json list \<Rightarrow> store_exc + nat" where
  "count_status s bs = try_bind (try_map (jget ''status'' JNull) bs) (\<lambda>vs. Inr (length (filter (\<lambda>v. v = JStr s) vs)))"

definition summarize :: "string \<Rightarrow> json \<Rightarrow> store_exc + summary" where
  "summarize image_ref manifest =
     try_bind (jget ''binaries'' (JArr []) manifest) (\<lambda>v.
     try_bind (jiter v) (\<lambda>bs.
     try_bind (count_status ''native'' bs) (\<lambda>n.
     try_bind (linuxulator_required manifest) (\<lambda>lx.
     Inr \<lparr> sm_image = image_ref, sm_native = n, sm_total = length bs, sm_linuxulator = lx \<rparr>))))"

text \<open>The \<^verbatim>\<open>finally\<close> block: its own exception replaces the result.\<close>

definition scan_image ::
  "'w engine_env \<Rightarrow> (path \<Rightarrow> string \<Rightarrow> (json, 'w) act) \<Rightarrow> string \<Rightarrow> (summary, 'w) act" where
  "scan_image env prober image_ref =
     then_do (store_resolve (ee_sha256 env) (ee_env env) (ee_tool env) (ee_lim env) (ee_store env) image_ref None None) (\<lambda>image_id.
     then_do (store_unpack (ee_sha256 env) (ee_env env) (ee_tool env) (ee_lim env) (ee_names env) (ee_wait env) (ee_store env) image_id) (\<lambda>snapshot_id.
     then_do (clone (ee_tool env) (ee_lim env) (ee_store env) (ee_run_id env) snapshot_id) (\<lambda>(rootfs_path, hdl) h.
       let (r, h1) = prober rootfs_path image_ref h; (d, _, h2) = destroy (ee_tool env) (ee_lim env) (ee_store env) hdl h1
       in (case d of Inl e \<Rightarrow> (Inl e, h2)
           | Inr _ \<Rightarrow> (try_bind r (summarize image_ref), h2)))))"

section \<open>The roll-up\<close>

definition native_pct :: "nat \<Rightarrow> nat \<Rightarrow> rat" where
  "native_pct native_count total_count =
     (if total_count = 0 then 0 else fl (fl (100 * fl (of_nat native_count)) / fl (of_nat total_count)))"

record scan_row =
  sc_image :: string
  sc_native :: nat
  sc_total :: nat
  sc_pct :: rat
  sc_linuxulator :: bool

record roll_up =
  ag_images :: nat
  ag_native :: nat
  ag_binaries :: nat
  ag_pct :: rat
  ag_rows :: "scan_row list"

definition scan_row_of :: "summary \<Rightarrow> scan_row" where
  "scan_row_of s = \<lparr> sc_image = sm_image s, sc_native = sm_native s, sc_total = sm_total s,
     sc_pct = native_pct (sm_native s) (sm_total s), sc_linuxulator = sm_linuxulator s \<rparr>"

text \<open>\<^verbatim>\<open>sort(reverse=True)\<close> keeps the order of rows with the same key.\<close>

definition sort_descending :: "('a \<Rightarrow> 'k :: linorder) \<Rightarrow> 'a list \<Rightarrow> 'a list" where
  "sort_descending f xs = rev (sort_key f (rev xs))"

definition aggregate :: "summary list \<Rightarrow> roll_up" where
  "aggregate summaries =
     (let total_native = sum_list (map sm_native summaries); total_binaries = sum_list (map sm_total summaries)
      in \<lparr> ag_images = length summaries, ag_native = total_native, ag_binaries = total_binaries,
           ag_pct = native_pct total_native total_binaries,
           ag_rows = sort_descending sc_pct (map scan_row_of summaries) \<rparr>)"

section \<open>The reports\<close>

definition py_rjust :: "nat \<Rightarrow> string \<Rightarrow> string" where
  "py_rjust n s = replicate (n - py_len s) (CHR 0x20) @ s"

definition scan_line :: "nat \<Rightarrow> string \<Rightarrow> string \<Rightarrow> string \<Rightarrow> string \<Rightarrow> string" where
  "scan_line col_image img share pct lx =
     py_ljust col_image img @ ''  '' @ py_ljust 12 share @ ''  '' @ py_rjust 7 pct @ ''  '' @ lx"

definition scan_table :: "scan_row list \<Rightarrow> string list" where
  "scan_table rows =
     (if rows = [] then [''(no images scanned)'']
      else (let col = widest 5 (map sc_image rows); header = scan_line col ''IMAGE'' ''NATIVE/TOTAL'' ''NATIVE%'' ''LINUXULATOR'' in
        header # replicate (py_len header) (CHR ''-'') #
        map (\<lambda>r. scan_line col (sc_image r) (show_nat (sc_native r) @ ''/'' @ show_nat (sc_total r)) (fixed1 (sc_pct r) @ ''%'')
               (if sc_linuxulator r then ''yes'' else ''no'')) rows))"

definition image_pct :: "scan_row \<Rightarrow> string" where
  "image_pct r = sc_image r @ '' ('' @ fixed1 (sc_pct r) @ ''%)''"

definition render_scan_text :: "roll_up \<Rightarrow> string" where
  "render_scan_text a =
     py_rstrip_char NL (py_join [NL]
       ([''jailrun scan: compat matrix summary'', replicate 40 (CHR ''=''), []] @ scan_table (ag_rows a) @ [[]] @
        [''SUMMARY: '' @ show_nat (ag_images a) @ '' image(s) scanned'',
         ''Overall native: '' @ show_nat (ag_native a) @ ''/'' @ show_nat (ag_binaries a) @ '' ('' @ fixed1 (ag_pct a) @ ''%)''] @
        (if ag_rows a = [] then []
         else [''Highest native%: '' @ image_pct (hd (ag_rows a)), ''Lowest native%:  '' @ image_pct (last (ag_rows a))])))"

definition scan_row_json :: "scan_row \<Rightarrow> json" where
  "scan_row_json r = JObj [(''image'', JStr (sc_image r)), (''native_count'', jnat (sc_native r)), (''total_count'', jnat (sc_total r)),
     (''native_pct'', JNum (float_repr (sc_pct r))), (''linuxulator_required'', JBool (sc_linuxulator r))]"

definition roll_up_json :: "roll_up \<Rightarrow> json" where
  "roll_up_json a = JObj [(''total_images'', jnat (ag_images a)), (''total_native'', jnat (ag_native a)),
     (''total_binaries'', jnat (ag_binaries a)), (''overall_native_pct'', JNum (float_repr (ag_pct a))),
     (''images'', JArr (map scan_row_json (ag_rows a)))]"

definition render_scan :: "roll_up \<Rightarrow> string \<Rightarrow> string" where
  "render_scan a fmt = (if fmt = ''json'' then json_dump 0 (roll_up_json a) else render_scan_text a)"

section \<open>The ranking\<close>

text \<open>The share of native binaries as a fraction, and the ranking by it.\<close>

definition exact_share :: "summary \<Rightarrow> rat" where
  "exact_share s = (if sm_total s = 0 then 0 else of_nat (sm_native s) / of_nat (sm_total s))"

definition modest :: "summary \<Rightarrow> bool" where
  "modest s \<longleftrightarrow> sm_native s \<le> sm_total s \<and> sm_total s < 2 ^ 26"

lemma insort_key_cong:
  "(\<And>y. y \<in> set xs \<Longrightarrow> f x \<le> f y \<longleftrightarrow> g x \<le> g y) \<Longrightarrow> insort_key f x xs = insort_key g x xs"
proof (induction xs)
  case (Cons y ys)
  have "f x \<le> f y \<longleftrightarrow> g x \<le> g y" by (rule Cons.prems) simp
  moreover have "insort_key f x ys = insort_key g x ys" by (rule Cons.IH) (rule Cons.prems, simp)
  ultimately show ?case by (simp del: not_le)
qed simp

lemma sort_key_cong:
  "(\<And>x y. x \<in> set xs \<Longrightarrow> y \<in> set xs \<Longrightarrow> f x \<le> f y \<longleftrightarrow> g x \<le> g y) \<Longrightarrow> sort_key f xs = sort_key g xs"
proof (induction xs)
  case (Cons x xs)
  have "sort_key f xs = sort_key g xs" by (rule Cons.IH) (rule Cons.prems, simp_all)
  moreover have "insort_key f x (sort_key g xs) = insort_key g x (sort_key g xs)"
    by (rule insort_key_cong) (rule Cons.prems, simp_all)
  ultimately show ?case by simp
qed simp

lemma sort_key_map: "sort_key f (map g xs) = map g (sort_key (f \<circ> g) xs)"
proof -
  have "insort_key f (g x) (map g ys) = map g (insort_key (f \<circ> g) x ys)" for x ys by (induction ys) auto
  then show ?thesis by (induction xs) simp_all
qed

lemma native_pct_modest:
  assumes "modest s"
  shows "native_pct (sm_native s) (sm_total s) = fl (100 * exact_share s)"
proof (cases "sm_total s = 0")
  case False
  have n: "sm_native s < 2 ^ 26" "sm_total s < 2 ^ 26" using assms by (simp_all add: modest_def)
  then have "100 * sm_native s < 2 ^ 53" "sm_native s < 2 ^ 53" "sm_total s < 2 ^ 53" by simp_all
  note fl_small_int [OF this(1)] fl_small_int [OF this(2)] fl_small_int [OF this(3)]
  then show ?thesis using False by (simp add: native_pct_def exact_share_def)
qed (simp add: native_pct_def exact_share_def fl_def)

lemma pct_strict:
  assumes "modest a" "modest b" "exact_share a < exact_share b"
  shows "fl (100 * exact_share a) < fl (100 * exact_share b)"
proof -
  have sa: "0 \<le> exact_share a" by (simp add: exact_share_def)
  then have tb: "sm_total b \<noteq> 0" using assms(3) by (intro notI) (simp add: exact_share_def [of b])
  have sb: "exact_share b \<le> 1" using assms(2) tb by (simp add: exact_share_def modest_def)
  define M where "M = (2 ^ 26 :: rat)"
  have gap: "1 \<le> (exact_share b - exact_share a) * (M * M)"
  proof -
    define na ta nb tb' where "na = (if sm_total a = 0 then 0 else int (sm_native a))" and "ta = (if sm_total a = 0 then 1 else int (sm_total a))"
      and "nb = int (sm_native b)" and "tb' = int (sm_total b)"
    have e: "exact_share a = of_int na / of_int ta" "exact_share b = of_int nb / of_int tb'"
      using tb by (simp_all add: exact_share_def na_def ta_def nb_def tb'_def)
    have p: "0 < ta" "0 < tb'" "ta \<le> 2 ^ 26" "tb' \<le> 2 ^ 26"
      using tb assms(1,2) by (auto simp: ta_def tb'_def modest_def)
    have "na * tb' < nb * ta"
    proof -
      have "rat_of_int na * of_int tb' < of_int nb * of_int ta"
        using assms(3) p(1,2) unfolding e by (simp add: divide_simps mult.commute)
      then show ?thesis by (metis of_int_less_iff of_int_mult)
    qed
    then have "1 \<le> nb * ta - na * tb'" by simp
    then have one: "1 \<le> rat_of_int (nb * ta - na * tb')" by (metis of_int_1 of_int_le_iff)
    have d: "exact_share b - exact_share a = of_int (nb * ta - na * tb') / (of_int ta * of_int tb')"
      using p unfolding e by (simp add: diff_frac_eq mult.commute)
    have t: "rat_of_int ta * of_int tb' \<le> M * M"
    proof (rule mult_mono)
      show "rat_of_int ta \<le> M" "rat_of_int tb' \<le> M" using p(3,4) unfolding M_def by (metis of_int_le_iff of_int_power of_int_numeral)+
    qed (use p in \<open>simp_all add: M_def\<close>)
    have pos: "0 < rat_of_int ta * of_int tb'" using p by simp
    have "rat_of_int ta * of_int tb' \<le> 1 * (M * M)" using t by simp
    also have "\<dots> \<le> rat_of_int (nb * ta - na * tb') * (M * M)" using one by (rule mult_right_mono) (simp add: M_def)
    finally have m: "1 * (of_int ta * of_int tb') \<le> rat_of_int (nb * ta - na * tb') * (M * M)" unfolding mult_1 .
    have "1 \<le> rat_of_int (nb * ta - na * tb') * (M * M) / (of_int ta * of_int tb')"
      by (rule iffD2 [OF pos_le_divide_eq [OF pos] m])
    then show ?thesis unfolding d times_divide_eq_left .
  qed
  have u: "pow2 (7 - 53) * (M * M) = 2 ^ 6"
  proof -
    have "pow2 (7 - 53) * 2 ^ 46 = 1" using pow2_add [of "-46" 46] pow2_nat [of 46] by simp
    moreover have "M * M = 2 ^ 46 * 2 ^ 6" by (simp add: M_def)
    ultimately show ?thesis by (simp only: mult.assoc [symmetric] mult_1)
  qed
  have "100 * exact_share a + pow2 (7 - 53) < 100 * exact_share b"
  proof -
    have "2 ^ 6 < 100 * x" if "1 \<le> x" for x :: rat using that by simp
    from this [OF gap] have "2 ^ 6 < 100 * ((exact_share b - exact_share a) * (M * M))" .
    then have "pow2 (7 - 53) * (M * M) < 100 * ((exact_share b - exact_share a) * (M * M))" by (simp only: u)
    then have "pow2 (7 - 53) * (M * M) < (100 * (exact_share b - exact_share a)) * (M * M)" by (simp only: mult.assoc)
    then have "pow2 (7 - 53) < 100 * (exact_share b - exact_share a)" by (rule mult_right_less_imp_less) (simp add: M_def)
    then show ?thesis unfolding right_diff_distrib by linarith
  qed
  moreover have "100 * exact_share b < pow2 7" using sb by (simp add: pow2_def)
  ultimately show ?thesis using sa by (intro fl_strict [of _ 7]) simp_all
qed

lemma pct_order:
  assumes "modest a" "modest b"
  shows "native_pct (sm_native a) (sm_total a) \<le> native_pct (sm_native b) (sm_total b) \<longleftrightarrow> exact_share a \<le> exact_share b"
  using pct_strict [OF assms] pct_strict [OF assms(2,1)] assms
  by (simp add: native_pct_modest) (metis linorder_less_linear order_less_imp_le order_refl linorder_not_less)

text \<open>C23: The ranking of the compatibility matrix.  For images of fewer than \<^verbatim>\<open>2 ^ 26\<close> binaries, ranking by the
  computed percentage is ranking by the exact fraction of native binaries: the rows come in its
  descending order, images with the same fraction in the order they were given, and the rounding of
  floats neither swaps two images nor ties two different fractions.\<close>

theorem ranking_is_by_exact_share:
  assumes "\<forall>s \<in> set summaries. modest s"
  shows "ag_rows (aggregate summaries) = map scan_row_of (sort_descending exact_share summaries)"
proof -
  have "sort_key (sc_pct \<circ> scan_row_of) (rev summaries) = sort_key exact_share (rev summaries)"
    by (rule sort_key_cong) (use assms pct_order in \<open>simp add: scan_row_of_def\<close>)
  then show ?thesis by (simp add: aggregate_def sort_descending_def rev_map sort_key_map Let_def)
qed

definition demo_summary :: "string \<Rightarrow> nat \<Rightarrow> nat \<Rightarrow> summary" where
  "demo_summary img n t = \<lparr> sm_image = img, sm_native = n, sm_total = t, sm_linuxulator = True \<rparr>"

lemma ranking_is_by_exact_share_witness:
  "ag_rows (aggregate [demo_summary ''a'' 1 3, demo_summary ''b'' 2 3, demo_summary ''c'' 2 6])
   = map scan_row_of [demo_summary ''b'' 2 3, demo_summary ''a'' 1 3, demo_summary ''c'' 2 6]"
  by (subst ranking_is_by_exact_share)
    (simp_all add: demo_summary_def modest_def sort_descending_def exact_share_def)

end
