(* ===== verification/Doctor.thy ===== *)
theory Doctor
  imports EnginePrep
begin

text \<open>
  \<^verbatim>\<open>runtime/doctor.py\<close>: nine checks of the host, the report and the exit code.  The name of the
  system, the search in \<^verbatim>\<open>PATH\<close>, the reading of \<^verbatim>\<open>/etc/pf.conf\<close> and a failing import of the engine
  are inputs of the record \<^verbatim>\<open>doctor_env\<close>.
\<close>

section \<open>Results and surroundings\<close>

datatype check_status = Check_ok | Check_fail | Check_skip | Check_info

record check_result =
  cr_name :: string
  cr_status :: check_status
  cr_detail :: string
  cr_fix :: string

datatype conf_read = Conf_missing | Conf_denied | Conf_error string | Conf_text string

record 'w doctor_env =
  dc_env :: env
  dc_tool :: "'w runner"
  dc_kind :: "string \<Rightarrow> spawn_kind"
  dc_lim :: nat
  dc_system :: string
  dc_which :: "string \<Rightarrow> string option"
  dc_read_conf :: "'w host \<Rightarrow> conf_read"
  dc_import_error :: "string option"
  dc_pid :: string
  dc_scratch :: path

definition check_result :: "string \<Rightarrow> check_status \<Rightarrow> string \<Rightarrow> string \<Rightarrow> check_result" where
  "check_result name status detail fix_text = \<lparr> cr_name = name, cr_status = status, cr_detail = detail, cr_fix = fix_text \<rparr>"

definition skipped :: "string \<Rightarrow> check_result" where
  "skipped name = check_result name Check_skip ''skipped (not FreeBSD)'' []"

definition on_freebsd :: "'w doctor_env \<Rightarrow> bool" where "on_freebsd env \<longleftrightarrow> dc_system env = ''FreeBSD''"

text \<open>One command and what its outcome means: the exit status and output, or the kind of exception.\<close>

definition probe_command ::
  "'w doctor_env \<Rightarrow> string list \<Rightarrow> (int \<Rightarrow> string \<Rightarrow> check_result) \<Rightarrow> (spawn_kind \<Rightarrow> string \<Rightarrow> check_result)
   \<Rightarrow> 'w host \<Rightarrow> check_result \<times> 'w host" where
  "probe_command env argv completed failed h =
     (case dc_tool env None [] argv h of
        (Completed rc out _, h') \<Rightarrow> (completed rc out, h')
      | (Spawn_error e, h') \<Rightarrow> (failed (dc_kind env e) e, h'))"

section \<open>The checks\<close>

definition check_os_is_freebsd :: "'w doctor_env \<Rightarrow> check_result" where
  "check_os_is_freebsd env =
     (if on_freebsd env then check_result ''os_is_freebsd'' Check_ok (''platform.system()='' @ dc_system env) []
      else check_result ''os_is_freebsd'' Check_fail (''platform.system()='' @ dc_system env)
        ''jailrun's runtime needs FreeBSD; you can edit/test on any OS but runs require a FreeBSD 15+ host.'')"

definition found_in_path :: "'w doctor_env \<Rightarrow> string \<Rightarrow> string \<Rightarrow> string \<Rightarrow> check_result" where
  "found_in_path env name program fix_text =
     (case dc_which env program of
        Some p \<Rightarrow> if p \<noteq> [] then check_result name Check_ok (''found at '' @ p) []
                  else check_result name Check_fail ''not found in PATH'' fix_text
      | None \<Rightarrow> check_result name Check_fail ''not found in PATH'' fix_text)"

definition check_skopeo_present :: "'w doctor_env \<Rightarrow> check_result" where
  "check_skopeo_present env = found_in_path env ''skopeo_present'' ''skopeo'' ''pkg install skopeo''"

definition check_bsdtar_present :: "'w doctor_env \<Rightarrow> check_result" where
  "check_bsdtar_present env = found_in_path env ''bsdtar_present'' ''bsdtar''
     (''bsdtar missing '' @ em_dash @ '' expected in FreeBSD base system; on other OSes install libarchive-tools.'')"

definition ZPOOL_FIX :: string where
  "ZPOOL_FIX = ''create a dedicated pool, e.g.: zpool create jailrun <device> (see docs/DEV_ENVIRONMENT.md).''"

definition check_zpool_present :: "'w doctor_env \<Rightarrow> 'w host \<Rightarrow> check_result \<times> 'w host" where
  "check_zpool_present env h =
     (if \<not> on_freebsd env then (skipped ''zpool_present'', h)
      else (let zpool = getenv_or (dc_env env ''JAILRUN_ZPOOL'') ''jailrun'';
                bad = (\<lambda>detail. check_result ''zpool_present'' Check_fail detail ZPOOL_FIX) in
        probe_command env [''zpool'', ''list'', zpool]
          (\<lambda>rc _. if rc = 0 then check_result ''zpool_present'' Check_ok (''pool '' @ [QUOTE] @ zpool @ [QUOTE] @ '' is available'') []
                  else bad (''zpool list '' @ zpool @ '' failed (exit '' @ show_int rc @ '')''))
          (\<lambda>k e. bad (case k of Not_found \<Rightarrow> ''zpool command not found'' | Timed_out \<Rightarrow> ''zpool list timed out''
                       | Other_failure \<Rightarrow> ''zpool check failed: '' @ e)) h))"

definition RACCT_FIX :: string where
  "RACCT_FIX = ''rctl limits need it: add kern.racct.enable=1 to /boot/loader.conf and reboot (loader tunable).''"

definition check_racct_enabled :: "'w doctor_env \<Rightarrow> 'w host \<Rightarrow> check_result \<times> 'w host" where
  "check_racct_enabled env h =
     (if \<not> on_freebsd env then (skipped ''racct_enabled'', h)
      else (let bad = (\<lambda>detail. check_result ''racct_enabled'' Check_fail detail RACCT_FIX) in
        probe_command env [''sysctl'', ''-n'', ''kern.racct.enable'']
          (\<lambda>rc out. if rc = 0
             then (if py_strip out = ''1'' then check_result ''racct_enabled'' Check_ok ''kern.racct.enable=1'' []
                   else bad (''kern.racct.enable='' @ py_strip out @ '' (need 1)''))
             else bad (''sysctl failed (exit '' @ show_int rc @ '')''))
          (\<lambda>k e. bad (case k of Not_found \<Rightarrow> ''sysctl command not found'' | Timed_out \<Rightarrow> ''sysctl timed out''
                       | Other_failure \<Rightarrow> ''racct check failed: '' @ e)) h))"

definition LINUX64_FIX :: string where
  "LINUX64_FIX = ''only needed for the Tier-2 Linuxulator fallback; load with: kldload linux64 '' @
     ''(or provision-freebsd.sh --tier2). Not required for the native path.''"

definition check_linux64_loaded :: "'w doctor_env \<Rightarrow> 'w host \<Rightarrow> check_result \<times> 'w host" where
  "check_linux64_loaded env h =
     (if \<not> on_freebsd env then (skipped ''linux64_loaded'', h)
      else (let note = (\<lambda>detail. check_result ''linux64_loaded'' Check_info detail LINUX64_FIX) in
        probe_command env [''kldstat'', ''-q'', ''-m'', ''linux64'']
          (\<lambda>rc _. if rc = 0 then check_result ''linux64_loaded'' Check_ok ''linux64 module is loaded'' []
                  else note ''linux64 module is not loaded'')
          (\<lambda>k e. note (case k of Not_found \<Rightarrow> ''kldstat command not found'' | Timed_out \<Rightarrow> ''kldstat timed out''
                        | Other_failure \<Rightarrow> ''linux64 check failed: '' @ e)) h))"

definition check_pkg_trust_keys :: "'w doctor_env \<Rightarrow> 'w host \<Rightarrow> check_result" where
  "check_pkg_trust_keys env h =
     (if \<not> on_freebsd env then skipped ''pkg_trust_keys''
      else if path_is_dir (dc_lim env) (fst h) [''usr'', ''share'', ''keys'', ''pkg'']
      then check_result ''pkg_trust_keys'' Check_ok ''/usr/share/keys/pkg exists'' []
      else check_result ''pkg_trust_keys'' Check_fail ''/usr/share/keys/pkg does not exist''
        ''seed pkg trust keys into fresh bases (see store.py _seed_pkg_trust_keys / provision-freebsd.sh).'')"

definition quoted_jailrun :: "string \<Rightarrow> string \<Rightarrow> string" where
  "quoted_jailrun keyword rest = keyword @ '' '' @ [DQUOTE] @ ''jailrun'' @ rest"

definition PF_FIX :: string where
  "PF_FIX = ''add the following to /etc/pf.conf before the scrub/rdr rules:'' @ [NL] @
     ''    '' @ quoted_jailrun ''nat-anchor'' (''/*'' @ [DQUOTE]) @ [NL] @
     ''    '' @ quoted_jailrun ''anchor'' (''/*'' @ [DQUOTE]) @ [NL] @
     ''The anchor is auto-populated by jailrun at runtime for --network allow isolation. '' @
     ''Without it, containers with --network allow will have unrestricted network access.''"

definition check_pf_anchor_hooks :: "'w doctor_env \<Rightarrow> 'w host \<Rightarrow> check_result" where
  "check_pf_anchor_hooks env h =
     (if \<not> on_freebsd env then skipped ''pf_anchor_hooks''
      else (case dc_read_conf env h of
        Conf_missing \<Rightarrow> check_result ''pf_anchor_hooks'' Check_info ''/etc/pf.conf not found''
          ''create /etc/pf.conf with nat-anchor and anchor rules for jailrun (see docs/ADVANCED.md).''
      | Conf_denied \<Rightarrow> check_result ''pf_anchor_hooks'' Check_info ''/etc/pf.conf not readable'' ''check file permissions.''
      | Conf_error e \<Rightarrow> check_result ''pf_anchor_hooks'' Check_info (''cannot read /etc/pf.conf: '' @ e) ''check file permissions.''
      | Conf_text content \<Rightarrow>
          (let has_nat = py_contains (quoted_jailrun ''nat-anchor'' []) content;
               has_anchor = py_contains (quoted_jailrun ''anchor'' []) content in
           if has_nat \<and> has_anchor
           then check_result ''pf_anchor_hooks'' Check_ok ''/etc/pf.conf defines nat-anchor and anchor for jailrun'' []
           else check_result ''pf_anchor_hooks'' Check_info
             (''/etc/pf.conf missing: '' @ py_join '', ''
               ((if has_nat then [] else [quoted_jailrun ''nat-anchor'' (''/*'' @ [DQUOTE])]) @
                (if has_anchor then [] else [quoted_jailrun ''anchor'' (''/*'' @ [DQUOTE])]))) PF_FIX)))"

definition DEVFS_FIX :: string where
  "DEVFS_FIX = ''recreate the OUTER jail (the one jailrun itself runs inside) with:'' @ [NL] @
     ''    allow.mount;'' @ [NL] @ ''    allow.mount.devfs;'' @ [NL] @ ''    enforce_statfs = 1;'' @ [NL] @
     ''    devfs_ruleset = 4;'' @ [NL] @ ''    children.max = <N>;'' @ [NL] @
     ''No jailrun-side change is needed once these are set '' @ em_dash @
     '' nested run-jails will get ruleset 4 automatically. See ROADMAP.md.''"

text \<open>The only check that can raise: the commands that make and remove the probe's jail and directory.\<close>

definition check_devfs_delegation :: "'w doctor_env \<Rightarrow> (check_result, 'w) act" where
  "check_devfs_delegation env h =
     (if \<not> on_freebsd env then (Inr (skipped ''devfs_delegation''), h)
      else (case dc_import_error env of
        Some e \<Rightarrow> (Inr (check_result ''devfs_delegation'' Check_info (''could not check (runtime.engine import failed: '' @ e @ '')'') []), h)
      | None \<Rightarrow>
          (let (jailed, h1) = is_jailed (dc_tool env) h in
           if \<not> jailed
           then (Inr (check_result ''devfs_delegation'' Check_skip (''not running nested '' @ em_dash @
                   '' jailrun is on the bare host, mount.devfs already gets ruleset 4 natively'') []), h1)
           else then_do (devfs_delegation_available (dc_tool env) (dc_lim env) (dc_pid env) (dc_scratch env)) (\<lambda>ok.
             give (if ok
               then check_result ''devfs_delegation'' Check_ok (''outer jail delegates devfs ruleset 4 '' @ em_dash @
                      '' nested run-jails get a restricted /dev with no opt-in needed'') []
               else check_result ''devfs_delegation'' Check_info
                      (''outer jail does not delegate devfs ruleset 4 to its children '' @ em_dash @
                       '' nested `jailrun run` refuses by default (or falls back to an unrestricted /dev under '' @
                       ''--allow-unrestricted-devfs)'') DEVFS_FIX)) h1)))"

section \<open>The report\<close>

definition run_checks :: "'w doctor_env \<Rightarrow> (check_result list, 'w) act" where
  "run_checks env h =
     (let zpool = check_zpool_present env h;
          racct = check_racct_enabled env (snd zpool);
          linux64 = check_linux64_loaded env (snd racct);
          keys = check_pkg_trust_keys env (snd linux64)
      in then_do (check_devfs_delegation env) (\<lambda>devfs h'.
           (Inr [check_os_is_freebsd env, check_skopeo_present env, check_bsdtar_present env, fst zpool, fst racct, fst linux64,
              keys, devfs, check_pf_anchor_hooks env h'], h')) (snd linux64))"

definition check_status_text :: "check_status \<Rightarrow> string" where
  "check_status_text s = (case s of Check_ok \<Rightarrow> ''ok'' | Check_fail \<Rightarrow> ''fail'' | Check_skip \<Rightarrow> ''skip'' | Check_info \<Rightarrow> ''info'')"

definition marker :: "check_status \<Rightarrow> string" where
  "marker s = (case s of Check_ok \<Rightarrow> ''[OK]'' | Check_fail \<Rightarrow> ''[FAIL]'' | Check_skip \<Rightarrow> ''[SKIP]'' | Check_info \<Rightarrow> ''[INFO]'')"

definition check_json :: "check_result \<Rightarrow> json" where
  "check_json r = JObj [(''name'', JStr (cr_name r)), (''status'', JStr (check_status_text (cr_status r))),
     (''detail'', JStr (cr_detail r)), (''fix'', JStr (cr_fix r))]"

definition render_checks :: "check_result list \<Rightarrow> string \<Rightarrow> string" where
  "render_checks results fmt =
     (if fmt = ''json'' then json_dump 0 (JArr (map check_json results))
      else py_join [NL] (concat (map (\<lambda>r.
        (marker (cr_status r) @ '' '' @ cr_name r @ '': '' @ cr_detail r) #
        (if cr_fix r \<noteq> [] then [''    Fix: '' @ cr_fix r] else [])) results)))"

definition exit_code_for_results :: "check_result list \<Rightarrow> int" where
  "exit_code_for_results results = (if list_ex (\<lambda>r. cr_status r = Check_fail) results then 1 else 0)"


section \<open>What the verdict means\<close>

definition in_path :: "'w doctor_env \<Rightarrow> string \<Rightarrow> bool" where
  "in_path env program \<longleftrightarrow> getenv_or (dc_which env program) [] \<noteq> []"

definition host_ready :: "'w doctor_env \<Rightarrow> (string list \<Rightarrow> cmd_result) \<Rightarrow> fs \<Rightarrow> bool" where
  "host_ready env f fs \<longleftrightarrow> on_freebsd env \<and> in_path env ''skopeo'' \<and> in_path env ''bsdtar'' \<and>
     answers_ok f [''zpool'', ''list'', getenv_or (dc_env env ''JAILRUN_ZPOOL'') ''jailrun''] \<and>
     (\<exists>out err. f [''sysctl'', ''-n'', ''kern.racct.enable''] = Completed 0 out err \<and> py_strip out = ''1'') \<and>
     path_is_dir (dc_lim env) fs [''usr'', ''share'', ''keys'', ''pkg'']"

definition nested :: "(string list \<Rightarrow> cmd_result) \<Rightarrow> bool" where
  "nested f \<longleftrightarrow> (\<exists>out err. f jailed_cmd = Completed 0 out err \<and> py_strip out \<notin> {[], ''0''})"

definition probe_jail_name :: "'w doctor_env \<Rightarrow> string" where
  "probe_jail_name env = ''jailrun-devfs-probe-'' @ dc_pid env"

text \<open>The probe's directory cannot be made, or its jail was made and the command that removes it does not
  come to an exit status.\<close>

definition probe_raises :: "'w doctor_env \<Rightarrow> (string list \<Rightarrow> cmd_result) \<Rightarrow> fs \<Rightarrow> bool" where
  "probe_raises env f fs \<longleftrightarrow> on_freebsd env \<and> dc_import_error env = None \<and> nested f \<and>
     (let made = fs_mkdir (dc_lim env) (dc_scratch env) fs in
      fst made \<noteq> None \<or>
      (fst (fs_mkdirs (dc_lim env) (dc_scratch env @ [''dev'']) (snd made)) = None \<and>
       answers_ok f (devfs_probe_cmd (dc_scratch env) (probe_jail_name env)) \<and> raised f [''jail'', ''-r'', probe_jail_name env]))"

lemma probe_command_answering:
  "dc_tool env = answering f \<Longrightarrow> probe_command env argv c x h =
     ((case f argv of Completed rc out err \<Rightarrow> c rc out | Spawn_error e \<Rightarrow> x (dc_kind env e) e), (fst h, snd h @ [argv]))"
  by (simp add: probe_command_def answering_def split: cmd_result.split)

lemma check_status_simp [simp]: "cr_status (check_result n s d x) = s" "cr_status (skipped n) = Check_skip"
  by (simp_all add: check_result_def skipped_def)

lemma os_failed: "cr_status (check_os_is_freebsd env) = Check_fail \<longleftrightarrow> \<not> on_freebsd env"
  by (simp add: check_os_is_freebsd_def)

lemma path_failed: "cr_status (found_in_path env n p x) = Check_fail \<longleftrightarrow> \<not> in_path env p"
  by (simp add: found_in_path_def in_path_def getenv_or_def split: option.split)

lemma zpool_failed:
  "dc_tool env = answering f \<Longrightarrow> cr_status (fst (check_zpool_present env h)) = Check_fail \<longleftrightarrow>
     on_freebsd env \<and> \<not> answers_ok f [''zpool'', ''list'', getenv_or (dc_env env ''JAILRUN_ZPOOL'') ''jailrun'']"
  by (simp add: check_zpool_present_def probe_command_answering answers_ok_def Let_def split: cmd_result.split)

lemma racct_failed:
  "dc_tool env = answering f \<Longrightarrow> cr_status (fst (check_racct_enabled env h)) = Check_fail \<longleftrightarrow>
     on_freebsd env \<and> \<not> (\<exists>out err. f [''sysctl'', ''-n'', ''kern.racct.enable''] = Completed 0 out err \<and> py_strip out = ''1'')"
  by (auto simp: check_racct_enabled_def probe_command_answering Let_def split: cmd_result.split)

lemma linux64_not_failed:
  "dc_tool env = answering f \<Longrightarrow> cr_status (fst (check_linux64_loaded env h)) \<noteq> Check_fail"
  by (simp add: check_linux64_loaded_def probe_command_answering Let_def split: cmd_result.split)

lemma keys_failed:
  "cr_status (check_pkg_trust_keys env h) = Check_fail \<longleftrightarrow>
     on_freebsd env \<and> \<not> path_is_dir (dc_lim env) (fst h) [''usr'', ''share'', ''keys'', ''pkg'']"
  by (simp add: check_pkg_trust_keys_def)

lemma pf_not_failed: "cr_status (check_pf_anchor_hooks env h) \<noteq> Check_fail"
  by (simp add: check_pf_anchor_hooks_def Let_def split: conf_read.split)

lemma devfs_not_failed: "check_devfs_delegation env h = (Inr r, h') \<Longrightarrow> cr_status r \<noteq> Check_fail"
  by (auto simp: check_devfs_delegation_def then_do_def give_def split: if_splits option.splits prod.splits sum.splits)

lemma checks_keep_tree:
  "dc_tool env = answering f \<Longrightarrow> fst (snd (check_zpool_present env h)) = fst h"
  "dc_tool env = answering f \<Longrightarrow> fst (snd (check_racct_enabled env h)) = fst h"
  "dc_tool env = answering f \<Longrightarrow> fst (snd (check_linux64_loaded env h)) = fst h"
  by (simp_all add: check_zpool_present_def check_racct_enabled_def check_linux64_loaded_def probe_command_answering Let_def)

lemma devfs_raises:
  assumes "dc_tool env = answering f"
  shows "(\<exists>e h'. check_devfs_delegation env h = (Inl e, h')) \<longleftrightarrow> probe_raises env f (fst h)"
proof (cases "on_freebsd env \<and> dc_import_error env = None \<and> nested f")
  case False
  then show ?thesis using assms
    by (auto simp: check_devfs_delegation_def probe_raises_def is_jailed_def subprocess_run_def answering_def nested_def
        split: option.split cmd_result.splits)
next
  case True
  then have j: "is_jailed (dc_tool env) h = (True, (fst h, snd h @ [jailed_cmd]))"
    using assms by (auto simp: is_jailed_def subprocess_run_def answering_def nested_def)
  show ?thesis using True
    apply (simp add: check_devfs_delegation_def j probe_raises_def probe_jail_name_def)
    apply (auto simp: devfs_delegation_available_def assms then_do_def on_tree_def subprocess_run_def answering_def answers_ok_def
        raised_def give_def Let_def split: prod.splits option.splits sum.splits cmd_result.splits if_splits)
    done
qed


lemma run_checks_result:
  assumes "dc_tool env = answering f"
  shows "(\<exists>e h'. run_checks env h = (Inl e, h')) \<longleftrightarrow> probe_raises env f (fst h)"
    and "run_checks env h = (Inr rs, h') \<Longrightarrow> length rs = 9 \<and> (exit_code_for_results rs = 0 \<longleftrightarrow> host_ready env f (fst h))"
proof -
  define h1 where "h1 = snd (check_linux64_loaded env (snd (check_racct_enabled env (snd (check_zpool_present env h)))))"
  have tree: "fst h1 = fst h" by (simp add: h1_def checks_keep_tree [OF assms])
  obtain d h2 where d: "check_devfs_delegation env h1 = (d, h2)" by (rule prod.exhaust)
  have "(\<exists>e h'. run_checks env h = (Inl e, h')) \<longleftrightarrow> (\<exists>e. d = Inl e)"
    by (auto simp: run_checks_def then_do_def Let_def d split: sum.split simp flip: h1_def)
  also have "\<dots> \<longleftrightarrow> probe_raises env f (fst h)" using devfs_raises [OF assms, of h1] d tree by auto
  finally show "(\<exists>e h'. run_checks env h = (Inl e, h')) \<longleftrightarrow> probe_raises env f (fst h)" .
  show "run_checks env h = (Inr rs, h') \<Longrightarrow> length rs = 9 \<and> (exit_code_for_results rs = 0 \<longleftrightarrow> host_ready env f (fst h))"
  proof (cases d)
    case (Inr r)
    moreover have "cr_status r \<noteq> Check_fail" using devfs_not_failed d Inr by blast
    moreover assume "run_checks env h = (Inr rs, h')"
    ultimately show ?thesis using tree
      by (auto simp: run_checks_def then_do_def Let_def d exit_code_for_results_def host_ready_def os_failed path_failed
          check_skopeo_present_def check_bsdtar_present_def zpool_failed [OF assms] racct_failed [OF assms]
          linux64_not_failed [OF assms] keys_failed pf_not_failed checks_keep_tree [OF assms] simp flip: h1_def)
  qed (auto simp: run_checks_def then_do_def Let_def d simp flip: h1_def)
qed

text \<open>The verdict of \<^verbatim>\<open>jailrun doctor\<close>.  On a host whose commands leave the tree alone, the nine checks come
  to an end unless jailrun is nested and the probe of the outer jail raises: its scratch directory
  cannot be made, or the probe's jail was created and the command that removes it times out or is
  missing.  If they end, the exit code is 0 exactly if the system is FreeBSD, \<^verbatim>\<open>skopeo\<close> and
  \<^verbatim>\<open>bsdtar\<close> are found, the pool is listed, \<^verbatim>\<open>racct\<close> is on and the keys are there; the Linux module,
  the anchors of \<^verbatim>\<open>pf\<close> and the outer jail never change it.\<close>

theorem doctor_verdict:
  assumes "dc_tool env = answering f"
  shows "case run_checks env h of
      (Inl e, h') \<Rightarrow> probe_raises env f (fst h)
    | (Inr rs, h') \<Rightarrow> \<not> probe_raises env f (fst h) \<and> length rs = 9 \<and> (exit_code_for_results rs = 0 \<longleftrightarrow> host_ready env f (fst h))"
  using run_checks_result(1) [OF assms, of h] run_checks_result(2) [OF assms, of h] by (auto split: prod.split sum.split)

definition nested_answers :: "string list \<Rightarrow> cmd_result" where
  "nested_answers c = (if c = jailed_cmd then Completed 0 ''1'' [] else if take 2 c = [''jail'', ''-r''] then Spawn_error ''timeout''
     else Completed 0 ''1'' [])"

definition demo_doctor :: "string list list doctor_env" where
  "demo_doctor = \<lparr> dc_env = no_env, dc_tool = answering nested_answers, dc_kind = (\<lambda>_. Timed_out), dc_lim = 8, dc_system = ''FreeBSD'',
     dc_which = (\<lambda>_. Some ''/x''), dc_read_conf = (\<lambda>_. Conf_missing), dc_import_error = None, dc_pid = ''7'', dc_scratch = [''s''] \<rparr>"

lemma doctor_verdict_witness:
  "\<exists>e h'. run_checks demo_doctor ([], []) = (Inl e, h') \<and> probe_raises demo_doctor nested_answers []"
proof -
  have t: "dc_tool demo_doctor = answering nested_answers" by (simp add: demo_doctor_def)
  have p: "probe_raises demo_doctor nested_answers []"
  proof -
    have "on_freebsd demo_doctor" "dc_import_error demo_doctor = None" by (simp_all add: demo_doctor_def on_freebsd_def)
    moreover have "nested nested_answers"
      unfolding nested_def by (rule exI [of _ "''1''"], rule exI [of _ "[]"]) code_simp
    moreover have "let made = fs_mkdir (dc_lim demo_doctor) (dc_scratch demo_doctor) [] in
        fst (fs_mkdirs (dc_lim demo_doctor) (dc_scratch demo_doctor @ [''dev'']) (snd made)) = None \<and>
        answers_ok nested_answers (devfs_probe_cmd (dc_scratch demo_doctor) (probe_jail_name demo_doctor)) \<and>
        raised nested_answers [''jail'', ''-r'', probe_jail_name demo_doctor]"
      by code_simp
    ultimately show ?thesis by (simp add: probe_raises_def Let_def)
  qed
  show ?thesis using doctor_verdict [OF t, of "([], [])"] p by (auto split: prod.splits sum.splits)
qed

section \<open>The anchors of pf\<close>

lemma anchor_in_nat_anchor: "py_contains (quoted_jailrun ''nat-anchor'' []) s \<Longrightarrow> py_contains (quoted_jailrun ''anchor'' []) s"
proof -
  assume "py_contains (quoted_jailrun ''nat-anchor'' []) s"
  then obtain a b where "s = a @ quoted_jailrun ''nat-anchor'' [] @ b" by (auto simp: py_contains_iff)
  then have "s = (a @ ''nat-'') @ quoted_jailrun ''anchor'' [] @ b" by (simp add: quoted_jailrun_def)
  then show ?thesis unfolding py_contains_iff by blast
qed

text \<open>The check of \<^verbatim>\<open>pf.conf\<close> sees only the one anchor.  On FreeBSD, with a readable file, it is
  \<^verbatim>\<open>ok\<close> exactly if the text \<^verbatim>\<open>nat-anchor "jailrun\<close> occurs in it, anywhere: the filter anchor's text is
  part of that text.  So a file without any filter anchor, or one with both lines commented out, is
  reported as defining both, and no run of the check names the filter anchor alone as missing.\<close>

theorem doctor_misses_filter_anchor:
  assumes "on_freebsd env" and "dc_read_conf env h = Conf_text conf"
  shows "(cr_status (check_pf_anchor_hooks env h) = Check_ok \<longleftrightarrow> py_contains (quoted_jailrun ''nat-anchor'' []) conf)
    \<and> cr_detail (check_pf_anchor_hooks env h) \<noteq> ''/etc/pf.conf missing: '' @ quoted_jailrun ''anchor'' (''/*'' @ [DQUOTE])"
  using assms anchor_in_nat_anchor [of conf]
  by (auto simp: check_pf_anchor_hooks_def check_result_def quoted_jailrun_def Let_def)

definition nat_only :: "string list list doctor_env" where
  "nat_only = demo_doctor \<lparr> dc_read_conf := (\<lambda>_. Conf_text (''# '' @ quoted_jailrun ''nat-anchor'' (''/*'' @ [DQUOTE]))) \<rparr>"

lemma doctor_misses_filter_anchor_witness:
  "cr_status (check_pf_anchor_hooks nat_only ([], [])) = Check_ok"
proof -
  have "on_freebsd nat_only" "dc_read_conf nat_only ([], []) = Conf_text (''# '' @ quoted_jailrun ''nat-anchor'' (''/*'' @ [DQUOTE]))"
    by (simp_all add: nat_only_def demo_doctor_def on_freebsd_def)
  moreover have "py_contains (quoted_jailrun ''nat-anchor'' []) (''# '' @ quoted_jailrun ''nat-anchor'' (''/*'' @ [DQUOTE]))" by code_simp
  ultimately show ?thesis using doctor_misses_filter_anchor [of nat_only "([], [])"] by blast
qed

end
