(* ===== verification/CliArgs.thy ===== *)
theory CliArgs
  imports EnginePrep PyFloat
begin

text \<open>
  \<^verbatim>\<open>runtime/cli.py\<close>, the command line: the parsers of single values, the options and arguments of every
  subcommand as data, and the part of \<^verbatim>\<open>argparse\<close> that turns a command line into values by them.
  Where versions of \<^verbatim>\<open>argparse\<close> differ (a bare \<^verbatim>\<open>--\<close>, options that abbreviate several others), this is
  the behaviour of Python 3.10 and 3.11.
\<close>

section \<open>Single values\<close>

text \<open>A message of \<^verbatim>\<open>ArgumentTypeError\<close>, or the value.\<close>

definition kv_pair :: "string \<Rightarrow> string + string \<times> string" where
  "kv_pair s =
     (case py_cut (CHR ''='') s of
        None \<Rightarrow> Inl (''-e / --env expects KEY=VALUE, got: '' @ py_repr s)
      | Some (k, v) \<Rightarrow> if k = [] then Inl (''-e / --env key must not be empty, got: '' @ py_repr s) else Inr (k, v))"

definition volume_spec :: "string \<Rightarrow> string + string \<times> string \<times> bool" where
  "volume_spec s =
     (let parts = py_split (CHR '':'') s in
      if length parts < 2 \<or> length parts > 3 then Inl (''-v / --volume expects HOST:CONTAINER[:ro], got: '' @ py_repr s)
      else (let host = parts ! 0; ctr = parts ! 1 in
        if host = [] \<or> ctr = [] then Inl (''-v / --volume host and container paths must not be empty, got: '' @ py_repr s)
        else if length parts = 3 then
          (let flag = py_lower (parts ! 2) in
           if flag \<notin> {''ro'', ''rw''} then Inl (''-v / --volume mode must be 'ro' or 'rw', got: '' @ py_repr flag)
           else Inr (host, ctr, flag = ''ro''))
        else Inr (host, ctr, False)))"

definition creds_pair :: "string \<Rightarrow> string + string \<times> string" where
  "creds_pair s =
     (case py_cut (CHR '':'') s of
        None \<Rightarrow> Inl (''--creds expects USER:PASS, got: '' @ py_repr s)
      | Some (user, password) \<Rightarrow> if user = [] then Inl (''--creds user must not be empty, got: '' @ py_repr s) else Inr (user, password))"

definition publish_spec :: "string \<Rightarrow> string + nat \<times> nat \<times> string" where
  "publish_spec s =
     (let (rest, proto) = (case py_rcut (CHR ''/'') s of None \<Rightarrow> (s, ''tcp'') | Some (r, p) \<Rightarrow> (r, p)) in
      if proto \<notin> {''tcp'', ''udp''} then Inl (''protocol must be 'tcp' or 'udp', got: '' @ py_repr proto)
      else (case py_cut (CHR '':'') rest of
        None \<Rightarrow> Inl (''-p / --publish expects HOST_PORT:CTR_PORT[/PROTO], got: '' @ py_repr s)
      | Some (host_part, ctr_part) \<Rightarrow>
          (case (parse_nat host_part, parse_nat ctr_part) of
             (Some host_port, Some ctr_port) \<Rightarrow>
               if \<not> (1 \<le> host_port \<and> host_port \<le> 65535) \<or> \<not> (1 \<le> ctr_port \<and> ctr_port \<le> 65535)
               then Inl (''-p / --publish ports must be 1..65535, got: '' @ py_repr s)
               else Inr (host_port, ctr_port, proto)
           | _ \<Rightarrow> Inl (''-p / --publish ports must be numbers, got: '' @ py_repr s))))"

section \<open>Descriptions of parsers\<close>

datatype arg_value =
    AV_none
  | AV_bool bool
  | AV_text string
  | AV_float pyfloat
  | AV_pair string string
  | AV_volume string string bool
  | AV_publish nat nat string
  | AV_list "arg_value list"

datatype value_type = Text_type | Float_type | Pair_type | Volume_type | Creds_type | Publish_type

datatype opt_action = Store value_type "string list" | Append value_type | Store_true | Store_false | Show_help

record option_spec =
  os_flags :: "string list"
  os_dest :: string
  os_action :: opt_action
  os_default :: arg_value

datatype arity = One | Optional | One_or_more | Remainder | Subcommand

type_synonym positional = "string \<times> arity"

record arg_parser =
  ap_options :: "option_spec list"
  ap_positionals :: "positional list"

definition opt :: "string list \<Rightarrow> string \<Rightarrow> opt_action \<Rightarrow> arg_value \<Rightarrow> option_spec" where
  "opt flags dest act dflt = \<lparr> os_flags = flags, os_dest = dest, os_action = act, os_default = dflt \<rparr>"

definition switch :: "string list \<Rightarrow> string \<Rightarrow> option_spec" where
  "switch flags dest = opt flags dest Store_true (AV_bool False)"

definition help_option :: option_spec where
  "help_option = opt [''-h'', ''--help''] ''help'' Show_help AV_none"

definition arg_parser :: "option_spec list \<Rightarrow> positional list \<Rightarrow> arg_parser" where
  "arg_parser options positionals = \<lparr> ap_options = help_option # options, ap_positionals = positionals \<rparr>"

definition run_parser :: arg_parser where
  "run_parser = arg_parser
     [switch [''--rm''] ''rm'',
      opt [''-v'', ''--volume''] ''volumes'' (Append Volume_type) (AV_list []),
      opt [''-e'', ''--env''] ''env'' (Append Pair_type) (AV_list []),
      opt [''-w'', ''--workdir''] ''workdir'' (Store Text_type []) AV_none,
      opt [''--timeout''] ''timeout'' (Store Float_type []) AV_none,
      opt [''--network''] ''network'' (Store Text_type []) (AV_text ''none''),
      switch [''--allow-raw-sockets''] ''allow_raw_sockets'',
      opt [''--no-rctl''] ''rctl_enabled'' Store_false (AV_bool True),
      switch [''--allow-unrestricted-devfs''] ''allow_unrestricted_devfs'',
      opt [''--rctl-rule''] ''rctl_rules'' (Append Text_type) AV_none,
      opt [''--cpus''] ''cpus'' (Store Float_type []) AV_none,
      opt [''--memory''] ''memory'' (Store Text_type []) AV_none,
      switch [''-it''] ''interactive'',
      opt [''--name''] ''name'' (Store Text_type []) AV_none,
      switch [''-d'', ''--detach''] ''detach'',
      switch [''--read-only''] ''read_only'',
      opt [''--tmpfs''] ''tmpfs'' (Append Text_type) AV_none,
      opt [''-p'', ''--publish''] ''publish'' (Append Publish_type) AV_none]
     [(''image'', One), (''cmd'', Remainder)]"

definition exec_parser :: arg_parser where
  "exec_parser = arg_parser
     [opt [''-e'', ''--env''] ''env'' (Append Pair_type) (AV_list []),
      opt [''-w'', ''--workdir''] ''workdir'' (Store Text_type []) AV_none,
      opt [''--timeout''] ''timeout'' (Store Float_type []) AV_none,
      switch [''-d'', ''--detach''] ''detach'']
     [(''jail'', One), (''cmd'', Remainder)]"

definition pull_parser :: arg_parser where
  "pull_parser = arg_parser
     [opt [''--authfile''] ''authfile'' (Store Text_type []) AV_none,
      opt [''--creds''] ''creds'' (Store Creds_type []) AV_none]
     [(''image'', One)]"

definition ps_parser :: arg_parser where "ps_parser = arg_parser [switch [''-a'', ''--all''] ''all''] []"

definition logs_parser :: arg_parser where
  "logs_parser = arg_parser [switch [''-f'', ''--follow''] ''follow''] [(''jail'', One)]"

definition format_option :: "string \<Rightarrow> option_spec" where
  "format_option dflt = opt [''--format''] ''format'' (Store Text_type [''text'', ''json'']) (AV_text dflt)"

definition explain_parser :: arg_parser where
  "explain_parser = arg_parser
     [opt [''--manifest''] ''manifest'' (Store Text_type []) AV_none, format_option ''text'']
     [(''image'', Optional)]"

definition scan_parser :: arg_parser where "scan_parser = arg_parser [format_option ''text''] [(''images'', One_or_more)]"

definition help_parser :: arg_parser where "help_parser = arg_parser [] [(''topic'', Optional)]"

definition doctor_parser :: arg_parser where "doctor_parser = arg_parser [format_option ''text''] []"

definition gc_parser :: arg_parser where "gc_parser = arg_parser [switch [''--fix''] ''fix'', format_option ''text''] []"

definition jail_parser :: arg_parser where "jail_parser = arg_parser [] [(''jail'', One)]"

definition stop_parser :: arg_parser where "stop_parser = arg_parser [switch [''--rm''] ''rm''] [(''jail'', One)]"

definition inspect_parser :: arg_parser where "inspect_parser = arg_parser [format_option ''json''] [(''jail'', One)]"

definition commit_parser :: arg_parser where
  "commit_parser = arg_parser [] [(''jail'', One), (''image_ref'', Optional)]"

definition cp_parser :: arg_parser where "cp_parser = arg_parser [] [(''source'', One), (''dest'', One)]"

definition build_parser :: "(string \<times> arg_parser) list" where
  "build_parser =
     [(''run'', run_parser), (''exec'', exec_parser), (''pull'', pull_parser), (''ps'', ps_parser), (''logs'', logs_parser),
      (''explain'', explain_parser), (''scan'', scan_parser), (''version'', arg_parser [] []), (''help'', help_parser),
      (''doctor'', doctor_parser), (''gc'', gc_parser),
      (''freeze'', jail_parser), (''thaw'', jail_parser), (''hibernate'', jail_parser), (''restore'', jail_parser),
      (''stop'', stop_parser), (''rm'', jail_parser), (''wait'', jail_parser), (''inspect'', inspect_parser),
      (''commit'', commit_parser), (''stats'', jail_parser), (''cp'', cp_parser)]"

definition main_parser :: arg_parser where "main_parser = arg_parser [] [(''subcommand'', Subcommand)]"

section \<open>What each word of a command line is\<close>

text \<open>A parse that does not end with values: an error, after which the process exits with status 2, or
  help, after which it exits with status 0.\<close>

datatype parse_stop = Usage_error string | Help_shown

text \<open>An option is known or not, and may carry a value of its own.\<close>

datatype word_class = Is_arg | Is_dashes | Is_option "option_spec option" string "string option"

definition flag_table :: "arg_parser \<Rightarrow> (string \<times> option_spec) list" where
  "flag_table p = concat (map (\<lambda>o'. map (\<lambda>f. (f, o')) (os_flags o')) (ap_options p))"

definition option_tuples :: "arg_parser \<Rightarrow> string \<Rightarrow> (option_spec \<times> string \<times> string option) list" where
  "option_tuples p w =
     (if prefix ''--'' w
      then (let (start, explicit) = (case py_cut (CHR ''='') w of None \<Rightarrow> (w, None) | Some (a, b) \<Rightarrow> (a, Some b))
            in map (\<lambda>(f, o'). (o', f, explicit)) (filter (\<lambda>(f, o'). prefix start f) (flag_table p)))
      else List.map_filter (\<lambda>(f, o'). if f = take 2 w then Some (o', f, Some (drop 2 w))
                                 else if prefix w f then Some (o', f, None) else None) (flag_table p))"

definition negative_number :: "string \<Rightarrow> bool" where
  "negative_number w \<longleftrightarrow> prefix ''-'' w \<and>
     (all_digits (drop 1 w) \<or> (case py_cut (CHR ''.'') (drop 1 w) of None \<Rightarrow> False
        | Some (a, b) \<Rightarrow> (a = [] \<or> all_digits a) \<and> all_digits b))"

definition parse_optional :: "arg_parser \<Rightarrow> string \<Rightarrow> parse_stop + word_class" where
  "parse_optional p w =
     (if \<not> prefix ''-'' w then Inr Is_arg
      else (case map_of (flag_table p) w of
        Some o' \<Rightarrow> Inr (Is_option (Some o') w None)
      | None \<Rightarrow>
          if length w = 1 then Inr Is_arg
          else (case (case py_cut (CHR ''='') w of None \<Rightarrow> None
                      | Some (f, v) \<Rightarrow> map_option (\<lambda>o'. (o', f, v)) (map_of (flag_table p) f)) of
            Some (o', f, v) \<Rightarrow> Inr (Is_option (Some o') f (Some v))
          | None \<Rightarrow>
              (case option_tuples p w of
                 [] \<Rightarrow> if negative_number w then Inr Is_arg
                        else if CHR 0x20 \<in> set w then Inr Is_arg else Inr (Is_option None w None)
               | [(o', f, explicit)] \<Rightarrow> Inr (Is_option (Some o') f explicit)
               | _ \<Rightarrow> Inl (Usage_error (''ambiguous option: '' @ w))))))"

fun classify :: "arg_parser \<Rightarrow> string list \<Rightarrow> parse_stop + (string \<times> word_class) list" where
  "classify p [] = Inr []"
| "classify p (w # ws) =
     (if w = ''--'' then Inr ((w, Is_dashes) # map (\<lambda>v. (v, Is_arg)) ws)
      else try_bind (parse_optional p w) (\<lambda>c. try_bind (classify p ws) (\<lambda>cs. Inr ((w, c) # cs))))"

section \<open>Taking positional arguments\<close>

definition is_dashes :: "string \<times> word_class \<Rightarrow> bool" where "is_dashes wc \<longleftrightarrow> snd wc = Is_dashes"

definition is_plain :: "string \<times> word_class \<Rightarrow> bool" where "is_plain wc \<longleftrightarrow> snd wc = Is_arg"

definition is_option :: "string \<times> word_class \<Rightarrow> bool" where "is_option wc \<longleftrightarrow> \<not> is_dashes wc \<and> \<not> is_plain wc"

text \<open>The numbers of words one positional can take, in the order the regular expressions try them.\<close>

definition takes :: "arity \<Rightarrow> (string \<times> word_class) list \<Rightarrow> nat list" where
  "takes a ws =
     (let d = length (takeWhile is_dashes ws); after = drop d ws;
          tail = length (takeWhile is_dashes (drop 1 after));
          down = (\<lambda>most least. rev [least..<Suc most]);
          plain = (after \<noteq> [] \<and> is_plain (hd after))
      in case a of
           One \<Rightarrow> if plain then down (d + 1 + tail) (d + 1) else []
         | Optional \<Rightarrow> down (if plain then d + 1 + tail else d) 0
         | One_or_more \<Rightarrow> if plain then down (d + length (takeWhile (\<lambda>w. \<not> is_option w) after)) (d + 1) else []
         | Remainder \<Rightarrow> down (length ws) 0
         | Subcommand \<Rightarrow> if plain then down (length ws) (d + 1) else [])"

fun match_all :: "arity list \<Rightarrow> (string \<times> word_class) list \<Rightarrow> nat list option" where
  "match_all [] ws = Some []"
| "match_all (a # as) ws =
     (case List.map_filter (\<lambda>n. map_option ((#) n) (match_all as (drop n ws))) (takes a ws) of [] \<Rightarrow> None | ns # _ \<Rightarrow> Some ns)"

text \<open>As many of the positionals as can be matched, from the first on.\<close>

definition match_partial :: "positional list \<Rightarrow> (string \<times> word_class) list \<Rightarrow> nat list" where
  "match_partial ps ws =
     (case List.map_filter (\<lambda>n. match_all (map snd (take n ps)) ws) (rev [1..<Suc (length ps)]) of [] \<Rightarrow> [] | ns # _ \<Rightarrow> ns)"

definition positional_value :: "arity \<Rightarrow> string list \<Rightarrow> arg_value" where
  "positional_value a ws =
     (let args = (if a \<in> {Remainder, Subcommand} then ws else remove1 ''--'' ws)
      in case a of
           One \<Rightarrow> (case args of [] \<Rightarrow> AV_none | w # _ \<Rightarrow> AV_text w)
         | Optional \<Rightarrow> (case args of [] \<Rightarrow> AV_none | w # _ \<Rightarrow> AV_text w)
         | _ \<Rightarrow> AV_list (map AV_text args))"

type_synonym namespace = "(string \<times> arg_value) list"

definition getarg :: "namespace \<Rightarrow> string \<Rightarrow> arg_value" where
  "getarg ns k = (case map_of ns k of Some v \<Rightarrow> v | None \<Rightarrow> AV_none)"

fun take_positionals :: "positional list \<Rightarrow> nat list \<Rightarrow> (string \<times> word_class) list \<Rightarrow> namespace
    \<Rightarrow> namespace \<times> positional list \<times> (string \<times> word_class) list" where
  "take_positionals ((dest, a) # ps) (n # ns) ws names =
     take_positionals ps ns (drop n ws) ((dest, positional_value a (map fst (take n ws))) # names)"
| "take_positionals ps _ ws names = (names, ps, ws)"

definition consume_positionals :: "positional list \<Rightarrow> (string \<times> word_class) list \<Rightarrow> namespace
    \<Rightarrow> namespace \<times> positional list \<times> (string \<times> word_class) list" where
  "consume_positionals ps ws names = take_positionals ps (match_partial ps ws) ws names"

section \<open>Taking an option\<close>

definition convert :: "value_type \<Rightarrow> string \<Rightarrow> parse_stop + arg_value" where
  "convert ty w =
     (let lift = (\<lambda>f r. case r of Inl e \<Rightarrow> Inl (Usage_error e) | Inr v \<Rightarrow> Inr (f v)) in
      case ty of
        Text_type \<Rightarrow> Inr (AV_text w)
      | Float_type \<Rightarrow> (case float_of_text w of None \<Rightarrow> Inl (Usage_error (''invalid float value: '' @ py_repr w)) | Some x \<Rightarrow> Inr (AV_float x))
      | Pair_type \<Rightarrow> lift (\<lambda>(k, v). AV_pair k v) (kv_pair w)
      | Creds_type \<Rightarrow> lift (\<lambda>(k, v). AV_pair k v) (creds_pair w)
      | Volume_type \<Rightarrow> (case volume_spec w of Inl e \<Rightarrow> Inl (Usage_error e) | Inr (h, c, ro) \<Rightarrow> Inr (AV_volume h c ro))
      | Publish_type \<Rightarrow> (case publish_spec w of Inl e \<Rightarrow> Inl (Usage_error e) | Inr (h, c, p) \<Rightarrow> Inr (AV_publish h c p)))"

definition takes_value :: "opt_action \<Rightarrow> bool" where
  "takes_value act \<longleftrightarrow> (case act of Store _ _ \<Rightarrow> True | Append _ \<Rightarrow> True | _ \<Rightarrow> False)"

definition perform :: "option_spec \<Rightarrow> string \<Rightarrow> namespace \<Rightarrow> parse_stop + namespace" where
  "perform o' w ns =
     (case os_action o' of
        Show_help \<Rightarrow> Inl Help_shown
      | Store_true \<Rightarrow> Inr ((os_dest o', AV_bool True) # ns)
      | Store_false \<Rightarrow> Inr ((os_dest o', AV_bool False) # ns)
      | Store ty choices \<Rightarrow>
          try_bind (convert ty w) (\<lambda>v.
          if choices \<noteq> [] \<and> w \<notin> set choices then Inl (Usage_error (''invalid choice: '' @ py_repr w))
          else Inr ((os_dest o', v) # ns))
      | Append ty \<Rightarrow>
          try_bind (convert ty w) (\<lambda>v.
          Inr ((os_dest o', AV_list ((case getarg ns (os_dest o') of AV_list vs \<Rightarrow> vs | _ \<Rightarrow> []) @ [v])) # ns)))"

text \<open>Switches written together with a value or with further switches: the word is taken apart letter by
  letter into the actions to perform.  The number says how many of the next words were used.\<close>

fun option_steps :: "arg_parser \<Rightarrow> nat \<Rightarrow> option_spec \<Rightarrow> string \<Rightarrow> string option \<Rightarrow> (string \<times> word_class) list
    \<Rightarrow> parse_stop + (option_spec \<times> string) list \<times> nat" where
  "option_steps p n o' flag None rest =
     (if \<not> takes_value (os_action o') then Inr ([(o', [])], 0)
      else (case rest of
          (w, Is_arg) # _ \<Rightarrow> Inr ([(o', w)], 1)
        | _ \<Rightarrow> Inl (Usage_error ''expected one argument'')))"
| "option_steps p n o' flag (Some v) rest =
     (if takes_value (os_action o') then Inr ([(o', v)], 0)
      else (case (n, if take 1 (drop 1 flag) \<noteq> ''-'' \<and> v \<noteq> [] then map_of (flag_table p) (''-'' @ take 1 v) else None) of
          (Suc m, Some o2) \<Rightarrow>
            try_bind (option_steps p m o2 (''-'' @ take 1 v) (if drop 1 v = [] then None else Some (drop 1 v)) rest)
              (\<lambda>(steps, k). Inr ((o', []) # steps, k))
        | _ \<Rightarrow> Inl (Usage_error (''ignored explicit argument '' @ py_repr v))))"

fun perform_all :: "(option_spec \<times> string) list \<Rightarrow> namespace \<Rightarrow> parse_stop + namespace" where
  "perform_all [] ns = Inr ns"
| "perform_all ((o', w) # steps) ns = try_bind (perform o' w ns) (perform_all steps)"

definition consume_optional :: "arg_parser \<Rightarrow> option_spec \<Rightarrow> string \<Rightarrow> string option \<Rightarrow> (string \<times> word_class) list \<Rightarrow> namespace
    \<Rightarrow> parse_stop + namespace \<times> nat" where
  "consume_optional p o' flag explicit rest ns =
     try_bind (option_steps p (length (getenv_or explicit [])) o' flag explicit rest) (\<lambda>(steps, k).
     try_bind (perform_all steps ns) (\<lambda>ns'. Inr (ns', k)))"

section \<open>A whole command line\<close>

text \<open>The loop over the words: options are taken as they come, positionals as soon as a word that is no option
  is met, and what fits nowhere is left over.\<close>

function parse_loop :: "arg_parser \<Rightarrow> (string \<times> word_class) list \<Rightarrow> positional list \<Rightarrow> namespace \<Rightarrow> string list
    \<Rightarrow> parse_stop + namespace \<times> positional list \<times> string list" where
  "parse_loop p ws ps ns extras =
     (if \<not> list_ex is_option ws
      then (let (ns', ps', rest) = consume_positionals ps ws ns in Inr (ns', ps', extras @ map fst rest))
      else (case ws of
          [] \<Rightarrow> Inr (ns, ps, extras)
        | (w, Is_option None _ _) # rest \<Rightarrow> parse_loop p rest ps ns (extras @ [w])
        | (w, Is_option (Some o') flag explicit) # rest \<Rightarrow>
            (case consume_optional p o' flag explicit rest ns of
               Inl e \<Rightarrow> Inl e
             | Inr (ns', k) \<Rightarrow> parse_loop p (drop k rest) ps ns' extras)
        | _ \<Rightarrow>
            (let (ns', ps', rest) = consume_positionals ps ws ns in
             if length rest < length ws then parse_loop p rest ps' ns' extras
             else (let skipped = takeWhile (\<lambda>w. \<not> is_option w) ws in
                   parse_loop p (drop (Suc (length skipped - 1)) ws) ps' ns' (extras @ map fst skipped)))))"
  by pat_completeness auto
termination
  by (relation "measure (\<lambda>(p, ws, ps, ns, extras). length ws)") auto

definition required_positional :: "positional \<Rightarrow> bool" where "required_positional pa \<longleftrightarrow> snd pa \<noteq> Optional"

text \<open>\<^verbatim>\<open>parse_known_args\<close>.\<close>

definition parse_known :: "arg_parser \<Rightarrow> string list \<Rightarrow> parse_stop + namespace \<times> string list" where
  "parse_known p argv =
     try_bind (classify p argv) (\<lambda>ws.
     try_bind (parse_loop p ws (ap_positionals p) (map (\<lambda>o'. (os_dest o', os_default o')) (ap_options p)) []) (\<lambda>(ns, ps, extras).
     if list_ex required_positional ps then Inl (Usage_error ''the following arguments are required'')
     else Inr (ns, extras)))"

text \<open>\<^verbatim>\<open>_build_parser().parse_args(argv)\<close>: the subcommand and its values.\<close>

definition parse_args :: "string list \<Rightarrow> parse_stop + string \<times> namespace" where
  "parse_args argv =
     try_bind (parse_known main_parser argv) (\<lambda>(ns, extras).
     case getarg ns ''subcommand'' of
       AV_list (AV_text cmd # words) \<Rightarrow>
         (case map_of build_parser cmd of
            None \<Rightarrow> Inl (Usage_error (''invalid choice: '' @ py_repr cmd))
          | Some p \<Rightarrow>
              try_bind (parse_known p (map (\<lambda>v. case v of AV_text w \<Rightarrow> w | _ \<Rightarrow> []) words)) (\<lambda>(sub, sub_extras).
              if extras @ sub_extras \<noteq> [] then Inl (Usage_error (''unrecognized arguments: '' @ py_join '' '' (extras @ sub_extras)))
              else Inr (cmd, sub)))
     | _ \<Rightarrow> Inl (Usage_error ''the following arguments are required: COMMAND''))"

section \<open>Ports\<close>

definition publishable :: "nat \<Rightarrow> nat \<Rightarrow> string \<Rightarrow> bool" where
  "publishable h c p \<longleftrightarrow> 1 \<le> h \<and> h \<le> 65535 \<and> 1 \<le> c \<and> c \<le> 65535 \<and> p \<in> {''tcp'', ''udp''}"

lemma parse_nat_seps: "parse_nat s = Some n \<Longrightarrow> CHR ''/'' \<notin> set s \<and> CHR '':'' \<notin> set s"
  by (auto simp: parse_nat_def all_digits_def dest: is_digit_not_sep split: if_splits)

lemma publish_spec_read:
  assumes "publishable h c p" and "parse_nat hs = Some h" and "parse_nat cs = Some c"
  shows "publish_spec (hs @ '':'' @ cs @ ''/'' @ p) = Inr (h, c, p)" and "publish_spec (hs @ '':'' @ cs) = Inr (h, c, ''tcp'')"
proof -
  have n: "CHR '':'' \<notin> set hs" "CHR ''/'' \<notin> set (hs @ '':'' @ cs)" "CHR ''/'' \<notin> set p"
    using parse_nat_seps [OF assms(2)] parse_nat_seps [OF assms(3)] assms(1) by (auto simp: publishable_def)
  have c: "py_cut (CHR '':'') (hs @ '':'' @ cs) = Some (hs, cs)"
    using py_cut_append [of "CHR '':''" hs cs] n(1) by simp
  have r: "py_rcut (CHR ''/'') (hs @ '':'' @ cs @ ''/'' @ p) = Some (hs @ '':'' @ cs, p)"
    using py_rcut_append [of "CHR ''/''" p "hs @ '':'' @ cs"] n(3) by simp
  have r': "py_rcut (CHR ''/'') (hs @ '':'' @ cs) = None" using n(2) by (simp only: py_rcut_None not_False_eq_True)
  show "publish_spec (hs @ '':'' @ cs @ ''/'' @ p) = Inr (h, c, p)"
    unfolding publish_spec_def r using assms c by (simp add: publishable_def)
  show "publish_spec (hs @ '':'' @ cs) = Inr (h, c, ''tcp'')"
    unfolding publish_spec_def r' using assms c by (simp add: publishable_def)
qed

lemma publish_spec_accepted:
  assumes "publish_spec s = Inr (h, c, p)"
  obtains hs cs where "publishable h c p" "parse_nat hs = Some h" "parse_nat cs = Some c"
    "s = hs @ '':'' @ cs @ ''/'' @ p \<or> p = ''tcp'' \<and> s = hs @ '':'' @ cs"
proof -
  obtain rest proto where r: "(case py_rcut (CHR ''/'') s of None \<Rightarrow> (s, ''tcp'') | Some (r, q) \<Rightarrow> (r, q)) = (rest, proto)"
    by fastforce
  then have sr: "s = rest @ ''/'' @ proto \<or> proto = ''tcp'' \<and> s = rest"
    by (cases "py_rcut (CHR ''/'') s") (auto simp: py_rcut_Some)
  obtain hs cs where k: "py_cut (CHR '':'') rest = Some (hs, cs)" "parse_nat hs = Some h" "parse_nat cs = Some c" "proto = p"
      "publishable h c p"
    using assms unfolding publish_spec_def r Let_def publishable_def
    by (cases "py_cut (CHR '':'') rest") (auto split: if_splits option.splits)
  then have "rest = hs @ '':'' @ cs" by (auto simp: py_cut_Some)
  then show thesis using that [of hs cs] k sr by auto
qed

text \<open>C33: What \<^verbatim>\<open>--publish\<close> accepts, and as what.  A text is read as the host port \<^verbatim>\<open>h\<close>, the port \<^verbatim>\<open>c\<close> of the
  container and the protocol \<^verbatim>\<open>p\<close> exactly if both ports are between 1 and 65535, the protocol is \<^verbatim>\<open>tcp\<close> or \<^verbatim>\<open>udp\<close>, and
  the text is a numeral of \<^verbatim>\<open>h\<close>, a colon and a numeral of \<^verbatim>\<open>c\<close>, with a slash and \<^verbatim>\<open>p\<close> after it or, if that is
  \<^verbatim>\<open>tcp\<close>, without; everything else is refused.  In particular, what is printed in either form is
  read back as itself.\<close>

theorem publish_spec_bounds:
  "(publish_spec s = Inr (h, c, p) \<longleftrightarrow>
      1 \<le> h \<and> h \<le> 65535 \<and> 1 \<le> c \<and> c \<le> 65535 \<and> p \<in> {''tcp'', ''udp''}
      \<and> (\<exists>hs cs. parse_nat hs = Some h \<and> parse_nat cs = Some c
           \<and> (s = hs @ '':'' @ cs @ ''/'' @ p \<or> p = ''tcp'' \<and> s = hs @ '':'' @ cs)))
   \<and> (publishable h c p \<longrightarrow>
      publish_spec (show_nat h @ '':'' @ show_nat c @ ''/'' @ p) = Inr (h, c, p) \<and>
      publish_spec (show_nat h @ '':'' @ show_nat c) = Inr (h, c, ''tcp''))"
proof (intro conjI iffI impI)
  assume "publish_spec s = Inr (h, c, p)"
  then obtain hs cs where k: "publishable h c p" "parse_nat hs = Some h" "parse_nat cs = Some c"
    "s = hs @ '':'' @ cs @ ''/'' @ p \<or> p = ''tcp'' \<and> s = hs @ '':'' @ cs" by (rule publish_spec_accepted)
  then show "1 \<le> h" "h \<le> 65535" "1 \<le> c" "c \<le> 65535" "p \<in> {''tcp'', ''udp''}" by (simp_all add: publishable_def)
  show "\<exists>hs cs. parse_nat hs = Some h \<and> parse_nat cs = Some c
      \<and> (s = hs @ '':'' @ cs @ ''/'' @ p \<or> p = ''tcp'' \<and> s = hs @ '':'' @ cs)" using k by blast
next
  assume "1 \<le> h \<and> h \<le> 65535 \<and> 1 \<le> c \<and> c \<le> 65535 \<and> p \<in> {''tcp'', ''udp''}
      \<and> (\<exists>hs cs. parse_nat hs = Some h \<and> parse_nat cs = Some c
           \<and> (s = hs @ '':'' @ cs @ ''/'' @ p \<or> p = ''tcp'' \<and> s = hs @ '':'' @ cs))"
  then obtain hs cs where "publishable h c p" "parse_nat hs = Some h" "parse_nat cs = Some c"
    "s = hs @ '':'' @ cs @ ''/'' @ p \<or> p = ''tcp'' \<and> s = hs @ '':'' @ cs" by (auto simp: publishable_def)
  then show "publish_spec s = Inr (h, c, p)" using publish_spec_read by blast
next
  assume "publishable h c p"
  then show "publish_spec (show_nat h @ '':'' @ show_nat c @ ''/'' @ p) = Inr (h, c, p)"
    and "publish_spec (show_nat h @ '':'' @ show_nat c) = Inr (h, c, ''tcp'')"
    by (simp_all only: publish_spec_read parse_show_nat)
qed

lemma publish_spec_bounds_witness:
  "publish_spec (show_nat 8080 @ '':'' @ show_nat 80 @ ''/'' @ ''udp'') = Inr (8080, 80, ''udp'')
   \<and> publish_spec (show_nat 8080 @ '':'' @ show_nat 80) = Inr (8080, 80, ''tcp'') \<and> publish_spec ''70000:80'' \<noteq> Inr (70000, 80, ''tcp'')"
proof (intro conjI)
  have "publishable 8080 80 ''udp''" by (simp add: publishable_def)
  then show "publish_spec (show_nat 8080 @ '':'' @ show_nat 80 @ ''/'' @ ''udp'') = Inr (8080, 80, ''udp'')"
    and "publish_spec (show_nat 8080 @ '':'' @ show_nat 80) = Inr (8080, 80, ''tcp'')"
    using publish_spec_bounds [THEN conjunct2, THEN mp] by blast+
  show "publish_spec ''70000:80'' \<noteq> Inr (70000, 80, ''tcp'')"
    using publish_spec_bounds [of "''70000:80''" 70000 80 "''tcp''", THEN conjunct1] by simp
qed

section \<open>The words of a run's command\<close>

definition is_stop :: "parse_stop + 'a \<Rightarrow> bool" where "is_stop r \<longleftrightarrow> (case r of Inl _ \<Rightarrow> True | Inr _ \<Rightarrow> False)"

definition before_dashes :: "string list \<Rightarrow> string list" where "before_dashes ws = takeWhile (\<lambda>w. w \<noteq> ''--'') ws"

lemma parse_optional_not_dashes: "parse_optional p w = Inr c \<Longrightarrow> c \<noteq> Is_dashes"
  by (auto simp: parse_optional_def split: if_splits option.splits list.splits)

lemma classify_stops:
  "case classify p ws of
     Inl e \<Rightarrow> \<exists>w \<in> set (before_dashes ws). parse_optional p w = Inl e
   | Inr cs \<Rightarrow> (\<forall>w \<in> set (before_dashes ws). \<not> is_stop (parse_optional p w)) \<and> map fst cs = ws \<and>
       (case cs of [] \<Rightarrow> True | c # rest \<Rightarrow> (is_dashes c \<longleftrightarrow> fst c = ''--'') \<and> (is_dashes c \<longrightarrow> (\<forall>x \<in> set rest. is_plain x)))"
proof (induction ws)
  case (Cons w ws)
  show ?case
  proof (cases "w = ''--''")
    case True
    then show ?thesis by (simp add: before_dashes_def is_dashes_def is_plain_def comp_def)
  next
    case False
    then show ?thesis using Cons parse_optional_not_dashes [of p w]
      by (auto simp: before_dashes_def is_stop_def is_dashes_def split: sum.splits)
  qed
qed (simp add: before_dashes_def)

text \<open>The main parser takes a first word that is no option and everything after it.\<close>

lemma main_never_ambiguous: "\<not> is_stop (parse_optional main_parser w)"
proof -
  have t: "flag_table main_parser = [(''-h'', help_option), (''--help'', help_option)]"
    by (simp add: flag_table_def main_parser_def arg_parser_def help_option_def opt_def)
  have "length (option_tuples main_parser w) \<le> 1" if "prefix ''-'' w" "length w \<noteq> 1"
  proof (cases "prefix ''--'' w")
    case True
    obtain st x where s: "(case py_cut (CHR ''='') w of None \<Rightarrow> (w, None) | Some (a, b) \<Rightarrow> (a, Some b)) = (st, x)" by (rule prod.exhaust)
    have "\<not> prefix st ''-h''"
    proof -
      have "prefix ''--'' st"
        using s True by (auto simp: py_cut_Some prefix_def Cons_eq_append_conv append_eq_Cons_conv split: option.splits)
      then show ?thesis by (auto simp: prefix_def)
    qed
    then show ?thesis using True s by (simp add: option_tuples_def t)
  next
    case False
    then have "\<not> prefix w ''--help''" using that by (cases w rule: remdups_adj.cases) (auto simp: prefix_def)
    moreover have "take 2 w \<noteq> ''--help''" by (auto dest: arg_cong [of _ _ length])
    ultimately show ?thesis using False by (simp add: option_tuples_def t)
  qed
  then show ?thesis
    by (auto simp: parse_optional_def is_stop_def split: option.splits list.splits)
qed

lemma take_all [simp]: "takes Remainder ws = rev [0..<Suc (length ws)]"
  "takes Subcommand ((w, Is_arg) # ws) = rev [1..<Suc (Suc (length ws))]"
  by (simp_all add: takes_def is_dashes_def is_plain_def Let_def)


declare parse_loop.simps [simp del]

lemma map_filter_hd: "f x = Some y \<Longrightarrow> List.map_filter f (x # xs) = y # List.map_filter f xs"
  by (simp add: List.map_filter_simps)

lemma rev_upt_Suc: "m \<le> n \<Longrightarrow> rev [m..<Suc n] = n # rev [m..<n]"
  by simp

lemma match_rest [simp]: "match_all [Remainder] ws = Some [length ws]" "match_all [Subcommand] ((w, Is_arg) # ws) = Some [Suc (length ws)]"
proof -
  have "List.map_filter (\<lambda>n. map_option ((#) n) (match_all [] (drop n ws))) (rev [0..<Suc (length ws)])
      = [length ws] # List.map_filter (\<lambda>n. map_option ((#) n) (match_all [] (drop n ws))) (rev [0..<length ws])"
    by (subst rev_upt_Suc) (simp, rule map_filter_hd, simp)
  then show "match_all [Remainder] ws = Some [length ws]" by (simp del: upt_Suc)
  have "List.map_filter (\<lambda>n. map_option ((#) n) (match_all [] (drop n ((w, Is_arg) # ws)))) (rev [1..<Suc (Suc (length ws))])
      = [Suc (length ws)] # List.map_filter (\<lambda>n. map_option ((#) n) (match_all [] (drop n ((w, Is_arg) # ws)))) (rev [1..<Suc (length ws)])"
    by (subst rev_upt_Suc) (simp, rule map_filter_hd, simp)
  then show "match_all [Subcommand] ((w, Is_arg) # ws) = Some [Suc (length ws)]" by (simp del: upt_Suc)
qed

lemma match_partial_all:
  "match_all (map snd ps) ws = Some ns \<Longrightarrow> ps \<noteq> [] \<Longrightarrow> match_partial ps ws = ns"
  unfolding match_partial_def by (cases "length ps") (simp_all add: rev_upt_Suc map_filter_hd del: upt_Suc)

lemma match_run:
  assumes "takeWhile is_dashes cs = take t cs" "t \<le> length cs"
  shows "match_all [One, Remainder] ((img, Is_arg) # cs) = Some [Suc t, length cs - t]"
proof -
  have "takes One ((img, Is_arg) # cs) = rev [1..<Suc (Suc t)]"
    using assms by (simp add: takes_def is_dashes_def [of "(img, Is_arg)"] is_plain_def Let_def min_def)
  moreover have "List.map_filter (\<lambda>n. map_option ((#) n) (match_all [Remainder] (drop n ((img, Is_arg) # cs)))) (rev [1..<Suc (Suc t)])
      = [Suc t, length cs - t] # List.map_filter (\<lambda>n. map_option ((#) n) (match_all [Remainder] (drop n ((img, Is_arg) # cs)))) (rev [1..<Suc t])"
    by (subst rev_upt_Suc) (simp, rule map_filter_hd, simp)
  ultimately show ?thesis by (simp del: upt_Suc)
qed

text \<open>Where the first word is no option and the positionals take every word, the loop ends with them.\<close>

lemma parse_loop_positionals:
  assumes "is_plain w" "consume_positionals ps (w # ws) ns = (ns', [], [])"
  shows "parse_loop p (w # ws) ps ns extras = Inr (ns', [], extras)"
proof -
  have e: "parse_loop p [] [] ns' extras = Inr (ns', [], extras)"
    by (subst parse_loop.simps) (simp add: consume_positionals_def match_partial_def List.map_filter_simps)
  obtain x c where w: "w = (x, c)" by (cases w)
  then have "c = Is_arg" using assms(1) by (simp add: is_plain_def)
  then show ?thesis using assms(2) e by (subst parse_loop.simps) (simp add: w)
qed

definition defaults :: "arg_parser \<Rightarrow> namespace" where
  "defaults p = map (\<lambda>o'. (os_dest o', os_default o')) (ap_options p)"

lemma parse_known_main:
  assumes "\<not> prefix ''-'' cmd"
  shows "parse_known main_parser (cmd # ws) = Inr ((''subcommand'', AV_list (map AV_text (cmd # ws))) # defaults main_parser, [])"
proof -
  have c: "parse_optional main_parser cmd = Inr Is_arg" using assms by (simp add: parse_optional_def)
  moreover have "cmd \<noteq> ''--''" using assms by auto
  ultimately obtain cs where cs: "classify main_parser (cmd # ws) = Inr ((cmd, Is_arg) # cs)" "map fst cs = ws"
    using classify_stops [where p = main_parser and ws = ws] main_never_ambiguous by (fastforce simp: is_stop_def split: sum.splits)
  have "length cs = length ws" using cs(2) by (metis length_map)
  have "match_partial [(''subcommand'', Subcommand)] ((cmd, Is_arg) # cs) = [Suc (length cs)]"
    by (rule match_partial_all) simp_all
  then have "consume_positionals [(''subcommand'', Subcommand)] ((cmd, Is_arg) # cs) ns
      = ((''subcommand'', AV_list (map AV_text (cmd # ws))) # ns, [], [])" for ns
    using cs(2) by (simp add: consume_positionals_def positional_value_def)
  then have "parse_loop main_parser ((cmd, Is_arg) # cs) (ap_positionals main_parser) (defaults main_parser) []
      = Inr ((''subcommand'', AV_list (map AV_text (cmd # ws))) # defaults main_parser, [], [])"
    by (intro parse_loop_positionals) (simp_all add: is_plain_def main_parser_def arg_parser_def)
  then show ?thesis using cs(1) by (simp add: parse_known_def defaults_def)
qed

lemma parse_known_words:
  assumes "\<not> prefix ''-'' img" and "ap_positionals p = [(a, One), (b, Remainder)]"
  shows "case parse_known p (img # ws) of
      Inl e \<Rightarrow> \<exists>w \<in> set (before_dashes ws). parse_optional p w = Inl e
    | Inr (ns, extras) \<Rightarrow> (\<forall>w \<in> set (before_dashes ws). \<not> is_stop (parse_optional p w)) \<and> extras = [] \<and>
        ns = (b, AV_list (map AV_text (if take 1 ws = [''--''] then drop 1 ws else ws))) # (a, AV_text img) # defaults p"
proof -
  have i: "parse_optional p img = Inr Is_arg" "img \<noteq> ''--''" using assms(1) by (auto simp: parse_optional_def)
  show ?thesis
  proof (cases "classify p ws")
    case (Inl e)
    then show ?thesis using i classify_stops [where p = p and ws = ws] by (simp add: parse_known_def)
  next
    case (Inr cs)
    note c = classify_stops [where p = p and ws = ws, unfolded Inr sum.case]
    define t where "t = (if take 1 ws = [''--''] then 1 else 0 :: nat)"
    have t: "takeWhile is_dashes cs = take t cs" "t \<le> length cs"
    proof -
      show "t \<le> length cs" using c by (cases ws) (auto simp: t_def)
      show "takeWhile is_dashes cs = take t cs"
        using c by (cases cs; cases "tl cs") (auto simp: t_def is_dashes_def is_plain_def)
    qed
    have "match_partial [(a, One), (b, Remainder)] ((img, Is_arg) # cs) = [Suc t, length cs - t]"
      using match_run [OF t, of img] by (intro match_partial_all) simp_all
    moreover have "remove1 ''--'' (img # map fst (take t cs)) = [img]"
      using c i(2) by (cases ws; cases cs) (auto simp: t_def)
    moreover have "map fst (drop t cs) = (if take 1 ws = [''--''] then drop 1 ws else ws)"
      using c by (auto simp: t_def drop_map)
    ultimately have "consume_positionals [(a, One), (b, Remainder)] ((img, Is_arg) # cs) ns
        = ((b, AV_list (map AV_text (if take 1 ws = [''--''] then drop 1 ws else ws))) # (a, AV_text img) # ns, [], [])" for ns
      by (simp add: consume_positionals_def positional_value_def)
    then have "parse_loop p ((img, Is_arg) # cs) (ap_positionals p) (defaults p) []
        = Inr ((b, AV_list (map AV_text (if take 1 ws = [''--''] then drop 1 ws else ws))) # (a, AV_text img) # defaults p, [], [])"
      using assms(2) by (intro parse_loop_positionals) (simp_all add: is_plain_def)
    then show ?thesis using i c Inr by (simp add: parse_known_def defaults_def)
  qed
qed

text \<open>The command of \<^verbatim>\<open>jailrun run IMAGE COMMAND...\<close>.  The words after the image reach the jail as they
  are, also those that look like options of \<^verbatim>\<open>run\<close> itself, only a first \<^verbatim>\<open>--\<close> is dropped; unless a word
  before any \<^verbatim>\<open>--\<close> abbreviates two options of \<^verbatim>\<open>run\<close>: then the whole command line is refused, though
  the word belongs to the command.\<close>

theorem run_words_reach_command:
  assumes "\<not> prefix ''-'' img"
  shows "case parse_args (''run'' # img # cmd) of
      Inl e \<Rightarrow> \<exists>w \<in> set (before_dashes cmd). parse_optional run_parser w = Inl e
    | Inr (sub, ns) \<Rightarrow> (\<forall>w \<in> set (before_dashes cmd). \<not> is_stop (parse_optional run_parser w)) \<and> sub = ''run'' \<and>
        ns = (''cmd'', AV_list (map AV_text (if take 1 cmd = [''--''] then drop 1 cmd else cmd))) # (''image'', AV_text img) #
          defaults run_parser"
proof -
  have b: "map_of build_parser ''run'' = Some run_parser" by (simp add: build_parser_def)
  have m: "map (\<lambda>v. case v of AV_text w \<Rightarrow> w | _ \<Rightarrow> []) (map AV_text ws) = ws" for ws by (induction ws) simp_all
  have p: "ap_positionals run_parser = [(''image'', One), (''cmd'', Remainder)]" by (simp add: run_parser_def arg_parser_def)
  have "parse_args (''run'' # img # cmd) = try_bind (parse_known run_parser (img # cmd)) (\<lambda>(sub, sub_extras).
      if sub_extras \<noteq> [] then Inl (Usage_error (''unrecognized arguments: '' @ py_join '' '' sub_extras)) else Inr (''run'', sub))"
    using parse_known_main [of "''run''" "img # cmd"] m [of "img # cmd"] by (simp add: parse_args_def getarg_def b cong: if_cong)
  then show ?thesis using parse_known_words [OF assms p, of cmd] by (auto split: sum.splits)
qed

lemma run_words_reach_command_witness:
  "is_stop (parse_args [''run'', ''alpine'', ''srv'', ''--allow'']) \<and> \<not> is_stop (parse_args [''run'', ''alpine'', ''ls'', ''--rm''])"
proof
  have p: "\<not> prefix ''-'' ''alpine''" by simp
  have "is_stop (parse_optional run_parser ''--allow'')" by code_simp
  then show "is_stop (parse_args [''run'', ''alpine'', ''srv'', ''--allow''])"
    using run_words_reach_command [OF p, of "[''srv'', ''--allow'']"] by (auto simp: is_stop_def before_dashes_def split: sum.splits)
  have "list_all (\<lambda>w. \<not> is_stop (parse_optional run_parser w)) [''ls'', ''--rm'']" by code_simp
  then show "\<not> is_stop (parse_args [''run'', ''alpine'', ''ls'', ''--rm''])"
    using run_words_reach_command [OF p, of "[''ls'', ''--rm'']"] by (auto simp: is_stop_def before_dashes_def split: sum.splits)
qed

end
