(* ===== verification/Cli.thy ===== *)
theory Cli
  imports EngineExec EngineRoot Scan Doctor CliArgs
begin

text \<open>
  \<^verbatim>\<open>runtime/cli.py\<close>, the subcommands other than \<^verbatim>\<open>run\<close> and \<^verbatim>\<open>cp\<close>: what each does to the host and the
  ledger, what it prints, and its exit code; and \<^verbatim>\<open>runtime/_version.py\<close>.  An exception that the
  subcommand does not catch is a result of its own (the user sees a traceback).
\<close>

section \<open>The console\<close>

record 'w console =
  co_host :: "'w host"
  co_ledger :: db_file
  co_out :: string
  co_err :: string

type_synonym ('a, 'w) cmd = "'w console \<Rightarrow> (store_exc + 'a) \<times> 'w console"

text \<open>What a file that is being followed gives at each pass of the loop: its content when the next line is
  read, whether the jail is live when there was none, its content when the rest is read, and an
  interrupt.  The file is read as text: where the bytes that are read are none, that raises.\<close>

record watch =
  wt_text :: "store_exc + string"
  wt_live :: bool
  wt_rest :: "store_exc + string"
  wt_interrupt :: bool

record 'w cli_env =
  cl_engine :: "pyfloat option \<Rightarrow> 'w engine_env"
  cl_gc :: "'w host gc_env"
  cl_doctor :: "'w doctor_env"
  cl_prober :: "path \<Rightarrow> string \<Rightarrow> (json, 'w) act"
  cl_exc :: "store_exc \<Rightarrow> string"
  cl_runtime :: "string \<Rightarrow> bool"
  cl_replace :: "string \<Rightarrow> string"
  cl_watch :: "string \<Rightarrow> 'w console \<Rightarrow> nat \<Rightarrow> watch"
  cl_popen :: "string list \<Rightarrow> 'w host \<Rightarrow> (string + nat) \<times> 'w host"
  cl_pipe :: "string list \<Rightarrow> string list \<Rightarrow> 'w host \<Rightarrow> (string + cmd_result) \<times> 'w host"
  cl_now :: string
  cl_uuid :: string
  cl_job_file :: path
  cl_scan_ids :: "nat \<Rightarrow> string"

abbreviation base_env :: "'w cli_env \<Rightarrow> 'w engine_env" where "base_env env \<equiv> cl_engine env None"

definition finish :: "int \<Rightarrow> (int, 'w) cmd" where "finish rc c = (Inr rc, c)"

definition say :: "string \<Rightarrow> 'w console \<Rightarrow> 'w console" where "say s c = c \<lparr> co_out := co_out c @ s @ [NL] \<rparr>"

definition write_out :: "string \<Rightarrow> 'w console \<Rightarrow> 'w console" where "write_out s c = c \<lparr> co_out := co_out c @ s \<rparr>"

definition complain :: "string \<Rightarrow> 'w console \<Rightarrow> 'w console" where "complain s c = c \<lparr> co_err := co_err c @ s @ [NL] \<rparr>"

text \<open>Parts on the host alone, and on the ledger alone: each \<^verbatim>\<open>RunDB()\<close> is new.\<close>

definition on_co_host :: "('w host \<Rightarrow> 'a \<times> 'w host) \<Rightarrow> 'w console \<Rightarrow> 'a \<times> 'w console" where
  "on_co_host m c = (let (r, h) = m (co_host c) in (r, c \<lparr> co_host := h \<rparr>))"

definition on_ledger :: "'w cli_env \<Rightarrow> (db_faults \<Rightarrow> rundb \<Rightarrow> 'a \<times> rundb) \<Rightarrow> 'w console \<Rightarrow> 'a \<times> 'w console" where
  "on_ledger env m c =
     (let (r, d) = m (ee_faults (base_env env)) (open_run_ledger (ee_env (base_env env)) (co_ledger c))
      in (r, c \<lparr> co_ledger := ledger_after d (co_ledger c) \<rparr>))"

definition all_runs :: "'w cli_env \<Rightarrow> string option \<Rightarrow> 'w console \<Rightarrow> (string + run_row list) \<times> 'w console" where
  "all_runs env status = on_ledger env (\<lambda>fl. list_runs fl status)"

definition log_path_of :: "'w cli_env \<Rightarrow> string \<Rightarrow> 'w console \<Rightarrow> (string + string option) \<times> 'w console" where
  "log_path_of env jail = on_ledger env (\<lambda>fl. get_log_path fl jail)"

definition check_live :: "'w cli_env \<Rightarrow> string \<Rightarrow> 'w console \<Rightarrow> (bool \<times> string) \<times> 'w console" where
  "check_live env jail c =
     (let (r, h, f) = check_jail_live (base_env env) jail (co_host c, co_ledger c) in (r, c \<lparr> co_host := h, co_ledger := f \<rparr>))"

text \<open>The first row of the jail among the rows, newest first; and its dataset.\<close>

definition dataset_of :: "string \<Rightarrow> run_row list \<Rightarrow> string" where
  "dataset_of jail rows = (case List.find (\<lambda>r. rr_jail_name r = jail) rows of None \<Rightarrow> [] | Some r \<Rightarrow> rr_dataset r)"

definition plain_command :: "'w cli_env \<Rightarrow> string list \<Rightarrow> 'w console \<Rightarrow> cmd_result \<times> 'w console" where
  "plain_command env argv = on_co_host (ee_tool (base_env env) None [] argv)"

section \<open>ps and logs\<close>

definition ps_cells :: "run_row \<Rightarrow> string list" where
  "ps_cells r = [rr_jail_name r, rr_image r, rr_status r, rr_started_at r]"

definition PS_HEADERS :: "string list" where "PS_HEADERS = [''JAIL'', ''IMAGE'', ''STATUS'', ''STARTED'']"

definition render_ps_table :: "run_row list \<Rightarrow> string" where
  "render_ps_table rows =
     (let table = map ps_cells rows;
          widths = map (\<lambda>i. widest (py_len (PS_HEADERS ! i)) (map (\<lambda>row. row ! i) table)) [0..<4];
          fmt = (\<lambda>cells. py_join ''   '' (map2 py_ljust widths cells))
      in py_join [NL] (fmt PS_HEADERS # map fmt table))"

definition cmd_ps :: "'w cli_env \<Rightarrow> bool \<Rightarrow> (int, 'w) cmd" where
  "cmd_ps env everything c =
     (let (r, c1) = all_runs env (if everything then None else Some RUNNING) c;
          rows = (case r of Inl _ \<Rightarrow> [] | Inr rows \<Rightarrow> rows)
      in finish 0 (say (render_ps_table rows) c1))"

text \<open>Text files are read with \<^verbatim>\<open>\r\n\<close> and \<^verbatim>\<open>\r\<close> as line ends.\<close>

fun universal_newlines :: "string \<Rightarrow> string" where
  "universal_newlines [] = []"
| "universal_newlines (a # s) =
     (if a = CR then NL # universal_newlines (if take 1 s = [NL] then drop 1 s else s) else a # universal_newlines s)"

text \<open>The loop of \<^verbatim>\<open>wait\<close>, from the pass \<^verbatim>\<open>n\<close> on with the first \<^verbatim>\<open>pos\<close> characters read: the exception that
  ends it, if one does, and what it prints.  \<^const>\<open>None\<close> is a loop that does not end.\<close>

definition next_line :: "string \<Rightarrow> string" where
  "next_line s = (case py_cut NL s of None \<Rightarrow> s | Some (a, _) \<Rightarrow> a @ [NL])"

partial_function (option) wait_loop :: "(nat \<Rightarrow> watch) \<Rightarrow> nat \<Rightarrow> nat \<Rightarrow> (store_exc option \<times> string) option" where
  "wait_loop ticks n pos =
     (if wt_interrupt (ticks n) then Some (None, [])
      else (case wt_text (ticks n) of
          Inl e \<Rightarrow> Some (Some e, [])
        | Inr text \<Rightarrow>
            if next_line (drop pos text) \<noteq> []
            then Option.bind (wait_loop ticks (Suc n) (pos + length (next_line (drop pos text)))) (\<lambda>(e, out).
                   Some (e, next_line (drop pos text) @ out))
            else if wt_live (ticks n) then wait_loop ticks (Suc n) pos
            else (case wt_rest (ticks n) of
                Inl e \<Rightarrow> Some (Some e, [])
              | Inr text \<Rightarrow> Some (None, drop pos text))))"

text \<open>Only an interrupt is caught.\<close>

definition wait_end :: "store_exc option \<times> string \<Rightarrow> 'w console \<Rightarrow> (store_exc + int) \<times> 'w console" where
  "wait_end r c = (case fst r of None \<Rightarrow> finish 0 (write_out (snd r) c) | Some e \<Rightarrow> (Inl e, write_out (snd r) c))"

definition cmd_wait :: "'w cli_env \<Rightarrow> string \<Rightarrow> 'w console \<Rightarrow> ((store_exc + int) \<times> 'w console) option" where
  "cmd_wait env jail c =
     (case log_path_of env jail c of
        (Inl e, c1) \<Rightarrow> Some (Inl (Other_error e), c1)
      | (Inr p, c1) \<Rightarrow>
          if getenv_or p [] = [] then Some (finish 1 (complain (''jailrun wait: no log file found for '' @ py_repr jail) c1))
          else (case read_text (ee_lim (base_env env)) (fst (co_host c1)) (components (the p)) of
              Inl e \<Rightarrow> Some (Inl e, c1)
            | Inr _ \<Rightarrow> map_option (\<lambda>r. wait_end r c1) (wait_loop (cl_watch env jail c1) 0 0)))"

definition cmd_logs :: "'w cli_env \<Rightarrow> string \<Rightarrow> bool \<Rightarrow> 'w console \<Rightarrow> ((store_exc + int) \<times> 'w console) option" where
  "cmd_logs env jail follow_it c =
     (case log_path_of env jail c of
        (Inl e, c1) \<Rightarrow> Some (finish 1 (complain (''jailrun logs: could not read run-state db: '' @ e) c1))
      | (Inr p, c1) \<Rightarrow>
          if getenv_or p [] = [] then Some (finish 1 (complain (''jailrun logs: no log found for '' @ py_repr jail) c1))
          else (case read_text (ee_lim (base_env env)) (fst (co_host c1)) (components (the p)) of
              Inl e \<Rightarrow> Some (finish 1 (complain (''jailrun logs: could not read log file '' @ py_repr (the p) @ '': '' @ cl_exc env e) c1))
            | Inr s \<Rightarrow>
                (let c2 = write_out (universal_newlines (cl_replace env s)) c1
                 in if follow_it then cmd_wait env jail c2 else Some (finish 0 c2))))"

section \<open>stop and rm\<close>

text \<open>With \<^verbatim>\<open>--rm\<close> any failure to clean up is only reported.\<close>

definition stop_cleanup :: "'w cli_env \<Rightarrow> string \<Rightarrow> 'w console \<Rightarrow> 'w console" where
  "stop_cleanup env jail c =
     (case all_runs env None c of
        (Inl e, c1) \<Rightarrow> complain (''jailrun stop: dataset cleanup failed: '' @ e) c1
      | (Inr rows, c1) \<Rightarrow>
          if dataset_of jail rows = [] then c1
          else (case on_co_host (destroy_dataset (cl_gc env) (dataset_of jail rows)) c1 of
              ((ok, detail), c2) \<Rightarrow> if ok then c2 else complain (''jailrun stop: dataset destroy failed: '' @ detail) c2))"

definition record_killed :: "'w cli_env \<Rightarrow> string \<Rightarrow> 'w console \<Rightarrow> 'w console" where
  "record_killed env jail c = snd (on_ledger env (\<lambda>fl. record_exit fl (cl_now env) jail KILLED None) c)"

definition cmd_stop :: "'w cli_env \<Rightarrow> string \<Rightarrow> bool \<Rightarrow> (int, 'w) cmd" where
  "cmd_stop env jail rm c =
     (let ((live, message), c1) = check_live env jail c in
      if \<not> live then finish 1 (complain message c1)
      else (let (_, c2) = on_co_host (kill_jail (ee_kind (base_env env)) (ee_tool (base_env env) None []) jail) c1 in
        case plain_command env [''jail'', ''-r'', jail] c2 of
          (Spawn_error e, c3) \<Rightarrow>
            if ee_kind (base_env env) e = Timed_out then (Inl (Other_error ''TimeoutExpired''), c3)
            else finish 1 (complain (''jailrun stop: jail -r failed: '' @ e) c3)
        | (Completed _ _ _, c3) \<Rightarrow>
            (let c4 = record_killed env jail c3;
                 c5 = (if rm then stop_cleanup env jail c4 else c4)
             in finish 0 (say (''jailrun: stopped '' @ jail) c5))))"

definition cmd_rm :: "'w cli_env \<Rightarrow> string \<Rightarrow> (int, 'w) cmd" where
  "cmd_rm env jail c =
     (let ((live, message), c1) = check_live env jail c in
      if live
      then finish 1 (complain (''jailrun rm: '' @ py_repr jail @ '' is still running '' @ em_dash @ '' stop it first (`jailrun stop '' @ jail @ ''`)'') c1)
      else (case all_runs env None c1 of
          (Inl e, c2) \<Rightarrow> finish 1 (complain (''jailrun rm: could not read run-state db: '' @ e) c2)
        | (Inr rows, c2) \<Rightarrow>
            (let dataset = dataset_of jail rows in
             if dataset = [] then finish 1 (complain (''jailrun rm: no dataset found for '' @ py_repr jail) c2)
             else (case on_co_host (destroy_dataset (cl_gc env) dataset) c2 of
                 ((ok, detail), c3) \<Rightarrow>
                   if \<not> ok
                   then finish 1 (complain (''jailrun rm: could not destroy dataset '' @ py_repr dataset @ '': '' @ detail @ [NL] @
                          ''Try `jailrun gc --fix` for a more thorough cleanup.'') c3)
                   else finish 0 (say (''jailrun: removed '' @ jail @ '' ('' @ dataset @ '')'') c3)))))"

section \<open>commit, stats, inspect\<close>

definition cmd_commit :: "'w cli_env \<Rightarrow> string \<Rightarrow> string option \<Rightarrow> (int, 'w) cmd" where
  "cmd_commit env jail image_ref c =
     (case all_runs env None c of
        (Inl e, c1) \<Rightarrow> finish 1 (complain (''jailrun commit: could not read run-state db: '' @ e) c1)
      | (Inr rows, c1) \<Rightarrow>
          if dataset_of jail rows = [] then finish 1 (complain (''jailrun commit: no dataset found for '' @ py_repr jail) c1)
          else (case on_co_host (commit_image (ee_sha256 (base_env env)) (cl_now env) (cl_uuid env) (ee_tool (base_env env))
                      (ee_store (base_env env)) (dataset_of jail rows) image_ref) c1 of
              (Inl e, c2) \<Rightarrow>
                finish 1 (complain ((if st_backend (ee_store (base_env env)) \<noteq> Zfs then ''jailrun commit: ''
                                     else ''jailrun commit: failed: '') @ cl_exc env e) c2)
            | (Inr image_id, c2) \<Rightarrow>
                finish 0 (say (if getenv_or image_ref [] \<noteq> [] then the image_ref @ '' ('' @ image_id @ '')'' else image_id) c2)))"

text \<open>\<^verbatim>\<open>int(s)\<close> of ASCII text.\<close>

definition py_int :: "string \<Rightarrow> int option" where
  "py_int s =
     (let t = py_strip s; d = (if prefix ''-'' t \<or> prefix ''+'' t then drop 1 t else t)
      in map_option (\<lambda>ds. if prefix ''-'' t then - int (digits_value ds) else int (digits_value ds)) (digit_groups d))"

definition rctl_usage :: "string \<Rightarrow> (string \<times> string) list" where
  "rctl_usage out = List.map_filter (\<lambda>l. py_cut (CHR ''='') (py_strip l)) (py_splitlines out)"

definition usage_of :: "(string \<times> string) list \<Rightarrow> string \<Rightarrow> string" where
  "usage_of stats k = getenv_or (map_of (rev stats) k) ''0''"

definition fixed0_signed :: "rat \<Rightarrow> string" where
  "fixed0_signed x = (if x < 0 then ''-'' @ fixed0 (- x) else fixed0 x)"

definition stats_line :: "string \<Rightarrow> rat \<Rightarrow> string \<Rightarrow> int \<Rightarrow> string" where
  "stats_line jail mem_mib pids cpu_sec =
     py_ljust 10 jail @ '' '' @ py_rjust 6 (fixed0_signed mem_mib) @ ''MiB '' @ py_rjust 5 pids @ '' '' @ py_rjust 10 (show_int cpu_sec)"

definition cmd_stats :: "'w cli_env \<Rightarrow> string \<Rightarrow> (int, 'w) cmd" where
  "cmd_stats env jail c =
     (let ((live, message), c1) = check_live env jail c in
      if \<not> live then finish 1 (complain message c1)
      else (case plain_command env [''rctl'', ''-u'', ''jail:'' @ jail] c1 of
          (Spawn_error e, c2) \<Rightarrow> finish 1 (complain (''jailrun stats: rctl failed: '' @ e) c2)
        | (Completed _ out _, c2) \<Rightarrow>
            (let stats = rctl_usage out in
             case py_int (usage_of stats ''memoryuse'') of
               None \<Rightarrow> (Inl (value_error ''invalid literal for int()''), c2)
             | Some mem_bytes \<Rightarrow>
                 (case to_float (of_int mem_bytes / 1048576) of
                    Finite mem_mib \<Rightarrow>
                      (case py_int (usage_of stats ''cputime'') of
                         None \<Rightarrow> (Inl (value_error ''invalid literal for int()''), c2)
                       | Some cpu_sec \<Rightarrow>
                           finish 0 (say (stats_line jail mem_mib (usage_of stats ''maxproc'') cpu_sec)
                             (say ''JAIL       MEMORY    PIDS  CPUTIME(s)'' c2)))
                  | _ \<Rightarrow> (Inl (Other_error ''OverflowError''), c2)))))"

definition int_json :: "int option \<Rightarrow> json" where
  "int_json v = (case v of None \<Rightarrow> JNull | Some i \<Rightarrow> JNum (show_int i))"

definition row_info :: "run_row \<Rightarrow> json" where
  "row_info r = JObj [(''image'', JStr (rr_image r)), (''image_digest'', JStr (rr_image_digest r)), (''dataset'', JStr (rr_dataset r)),
     (''status'', JStr (rr_status r)), (''exit_code'', int_json (rr_exit_code r)), (''started_at'', JStr (rr_started_at r)),
     (''ended_at'', text_or_null (rr_ended_at r)), (''log_path'', text_or_null (rr_log_path r))]"

definition inspect_info :: "string \<Rightarrow> bool \<Rightarrow> string + run_row list \<Rightarrow> json" where
  "inspect_info jail live r = JObj ([(''jail_name'', JStr jail), (''live'', JBool live)] @
     (case r of
        Inl _ \<Rightarrow> [(''rundb'', JNull)]
      | Inr rows \<Rightarrow> (case List.find (\<lambda>x. rr_jail_name x = jail) rows of None \<Rightarrow> [] | Some x \<Rightarrow> [(''rundb'', row_info x)])))"

definition cmd_inspect :: "'w cli_env \<Rightarrow> string \<Rightarrow> (int, 'w) cmd" where
  "cmd_inspect env jail c =
     (let (names, c1) = on_co_host (list_live_jail_names (ee_tool (base_env env) None [])) c;
          live = (case names of None \<Rightarrow> False | Some ns \<Rightarrow> jail \<in> set ns);
          (r, c2) = all_runs env None c1
      in finish 0 (say (json_dump 0 (inspect_info jail live r)) c2))"

section \<open>Following a log\<close>

text \<open>A log of text that only grows, between any two times it is read, and a jail that is live until
  the pass \<^verbatim>\<open>gone\<close>.  Once the jail has been seen to be gone the log is complete, but not before: it may
  still grow between the last line that was read and the look at the jail.\<close>

definition log_until :: "nat \<Rightarrow> string \<Rightarrow> (nat \<Rightarrow> watch) \<Rightarrow> bool" where
  "log_until gone L ticks \<longleftrightarrow> (\<exists>text rest.
     (\<forall>n. \<not> wt_interrupt (ticks n) \<and> wt_text (ticks n) = Inr (text n) \<and> wt_rest (ticks n) = Inr (rest n)
        \<and> prefix (text n) (rest n) \<and> prefix (rest n) (text (Suc n))) \<and>
     (\<forall>n < gone. wt_live (ticks n)) \<and>
     (\<forall>n \<ge> gone. \<not> wt_live (ticks n) \<and> rest n = L))"

lemma next_line_prefix: "prefix (next_line s) s" and next_line_Nil: "next_line s = [] \<longleftrightarrow> s = []"
  by (auto simp: next_line_def py_cut_Some split: option.splits)

text \<open>What the loop prints before its last read is what it has read; the last read gives the rest.\<close>

lemma wait_loop_rest:
  assumes r: "\<And>n. \<not> wt_interrupt (ticks n) \<and> wt_text (ticks n) = Inr (shown n) \<and> wt_rest (ticks n) = Inr (whole n)
        \<and> prefix (shown n) (whole n) \<and> prefix (whole n) (shown (Suc n))"
    and live: "\<And>n. n < gone \<Longrightarrow> wt_live (ticks n)" and over: "\<And>n. gone \<le> n \<Longrightarrow> \<not> wt_live (ticks n) \<and> whole n = L"
    and pos: "pos \<le> length (shown n)"
  shows "wait_loop ticks n pos = Some (None, drop pos L)"
  using pos
proof (induction "(gone - n) + (length L - pos)" arbitrary: n pos rule: less_induct)
  case less
  let ?t = "shown n" and ?line = "next_line (drop pos (shown n))"
  have "prefix ?t (whole (n + k))" for k
  proof (induction k)
    case (Suc k)
    then show ?case using r [of "n + k"] r [of "n + Suc k"] by (metis add_Suc_right prefix_order.trans)
  qed (use r in simp)
  then have L: "prefix ?t L" using over [of "n + gone"] by (metis le_add2)
  then have len: "length ?t \<le> length L" by (rule prefix_length_le)
  have glen: "length ?t \<le> length (shown (Suc n))" using r [of n] by (meson prefix_length_le order_trans)
  show ?case
  proof (cases "?line = []")
    case True
    then have p: "pos = length ?t" using less.prems by (simp add: next_line_Nil)
    show ?thesis
    proof (cases "n < gone")
      case True
      then have "wait_loop ticks (Suc n) pos = Some (None, drop pos L)" using p glen by (intro less.hyps) simp_all
      then show ?thesis using r [of n] live [OF True] \<open>?line = []\<close> by (subst wait_loop.simps) simp
    next
      case False
      then show ?thesis using r [of n] over [of n] \<open>?line = []\<close> by (subst wait_loop.simps) simp
    qed
  next
    case False
    have pl: "prefix ?line (drop pos ?t)" by (rule next_line_prefix)
    then have ll: "length ?line \<le> length ?t - pos" using prefix_length_le by fastforce
    have more: "wait_loop ticks (Suc n) (pos + length ?line) = Some (None, drop (pos + length ?line) L)"
      using False ll less.prems len glen by (intro less.hyps) (auto simp: length_greater_0_conv [symmetric] simp del: length_greater_0_conv)
    have "?line @ drop (pos + length ?line) L = drop pos L"
    proof -
      obtain r where r: "L = ?t @ r" using L by (auto simp: prefix_def)
      obtain q where q: "drop pos ?t = ?line @ q" using pl by (auto simp: prefix_def)
      have d: "drop pos L = ?line @ q @ r" using less.prems q by (subst r) simp
      have "drop (length ?line) (drop pos L) = q @ r" unfolding d by simp
      then have "drop (pos + length ?line) L = q @ r" by (simp only: drop_drop add.commute [of pos])
      then show ?thesis using d by (simp only:)
    qed
    then show ?thesis using r [of n] False more by (subst wait_loop.simps) simp
  qed
qed

lemma wait_loop_log:
  assumes "log_until gone L ticks"
  shows "wait_loop ticks 0 0 = Some (None, L)"
proof -
  obtain shown whole where
    r: "\<And>n. \<not> wt_interrupt (ticks n) \<and> wt_text (ticks n) = Inr (shown n) \<and> wt_rest (ticks n) = Inr (whole n)
        \<and> prefix (shown n) (whole n) \<and> prefix (whole n) (shown (Suc n))"
    and live: "\<And>n. n < gone \<Longrightarrow> wt_live (ticks n)" and over: "\<And>n. gone \<le> n \<Longrightarrow> \<not> wt_live (ticks n) \<and> whole n = L"
    using assms unfolding log_until_def by blast
  have "wait_loop ticks 0 0 = Some (None, drop 0 L)" 
    by (rule wait_loop_rest [where shown = shown and whole = whole and gone = gone]) (fact r, fact live, fact over, simp)
  then show ?thesis by simp
qed

text \<open>C17: \<^verbatim>\<open>jailrun wait\<close> ends, and has then printed the whole log, every character once and in order: if the log
  of the jail can be read as text and only grows, the jail is live up to some pass of the loop and then
  seen to be gone, the log is complete by then, and nobody interrupts.  What the log still gets after
  the last line was read and before the jail was looked at is printed too.\<close>

theorem wait_prints_whole_log:
  assumes "log_path_of env jail c = (Inr (Some p), c1)" and "p \<noteq> []"
    and "read_text (ee_lim (base_env env)) (fst (co_host c1)) (components p) = Inr s"
    and "log_until gone L (cl_watch env jail c1)"
  shows "\<exists>c2. cmd_wait env jail c = Some (Inr 0, c2) \<and> co_out c2 = co_out c1 @ L \<and> co_err c2 = co_err c1"
  using assms(1-3) wait_loop_log [OF assms(4)]
  by (simp add: cmd_wait_def wait_end_def getenv_or_def finish_def write_out_def)

text \<open>A log with bytes that are no text: the loop ends with the exception, having printed the lines read
  before.\<close>

lemma wait_not_text:
  assumes "\<not> wt_interrupt (ticks n)" and "wt_text (ticks n) = Inl e"
  shows "wait_loop ticks n pos = Some (Some e, [])"
  using assms by (subst wait_loop.simps) simp

definition console :: "fs \<Rightarrow> run_row list \<Rightarrow> string list list console" where
  "console fs rows = \<lparr> co_host = (fs, []), co_ledger = \<lparr> df_table = Some rows, df_has_log_path = True \<rparr>, co_out = [], co_err = [] \<rparr>"

definition demo_row :: run_row where
  "demo_row = (start_row ''j'' ''i'' ''d'' ''zroot/r/1'' (Some ''/log'') ''t'')"

definition demo_gc_env :: "(string list \<Rightarrow> cmd_result) \<Rightarrow> string list list host gc_env" where
  "demo_gc_env f = \<lparr> ge_backend = None, ge_zpool = None, ge_mountpoint_base = None, ge_db_path = None, ge_faults = no_faults,
     ge_now = ''t'', ge_tool = answering f None [], ge_listdir = (\<lambda>_ _. Dir_missing), ge_rmtree = (\<lambda>_ w. (None, w)) \<rparr>"

definition quiet_watch :: "string \<Rightarrow> nat \<Rightarrow> watch" where
  "quiet_watch L n = \<lparr> wt_text = Inr L, wt_live = False, wt_rest = Inr L, wt_interrupt = False \<rparr>"

text \<open>A jail that writes \<^verbatim>\<open>L\<close> at its very end, after the last line was read.\<close>

definition late_watch :: "string \<Rightarrow> nat \<Rightarrow> watch" where
  "late_watch L n = \<lparr> wt_text = Inr (if n = 0 then [] else L), wt_live = False, wt_rest = Inr L, wt_interrupt = False \<rparr>"

definition demo_cli :: "(string list \<Rightarrow> cmd_result) \<Rightarrow> string list list cli_env" where
  "demo_cli f = \<lparr> cl_engine = (\<lambda>_. demo_env f), cl_gc = demo_gc_env f, cl_doctor = demo_doctor, cl_prober = (\<lambda>_ _. give (JObj [])),
     cl_exc = (\<lambda>_. ''exc''), cl_runtime = (\<lambda>_. True), cl_replace = (\<lambda>s. s), cl_watch = (\<lambda>_ _. quiet_watch ''a''),
     cl_popen = (\<lambda>_ h. (Inr 1, h)), cl_pipe = (\<lambda>_ _ h. (Inr (Completed 0 [] []), h)), cl_now = ''t'', cl_uuid = ''u'',
     cl_job_file = [''tmp'', ''job''], cl_scan_ids = show_nat \<rparr>"

definition log_tree :: fs where "log_tree = [([''log''], Reg ''a'')]"

lemmas demo_ledger = on_ledger_def demo_cli_def demo_env_def console_def get_conn_def open_run_ledger_def rundb_init_def
  no_faults_def makedirs_error_def create_table_def alter_error_def ledger_after_def DEFAULT_DB_PATH_def db_rows_def

lemma demo_log_path:
  "log_path_of (demo_cli f) ''j'' (console log_tree [demo_row]) = (Inr (Some ''/log''), console log_tree [demo_row])"
  by (simp add: log_path_of_def demo_row_def start_row_def get_log_path_def lookup_row_def demo_ledger Let_def)

lemma demo_log_read: "read_text (ee_lim (base_env (demo_cli f))) (fst (co_host (console log_tree [demo_row]))) (components ''/log'') = Inr ''a''"
proof -
  have "read_text 8 log_tree (components ''/log'') = Inr ''a''" by code_simp
  then show ?thesis by (simp add: demo_cli_def demo_env_def console_def)
qed

lemma quiet_log: "log_until 0 L (quiet_watch L)"
  unfolding log_until_def by (intro exI [of _ "\<lambda>_. L"]) (simp add: quiet_watch_def)

lemma late_log: "log_until 0 L (late_watch L)"
  unfolding log_until_def
  by (intro exI [of _ "\<lambda>n. if n = 0 then [] else L"] exI [of _ "\<lambda>_. L"]) (simp add: late_watch_def)

lemma wait_prints_whole_log_witness:
  "\<exists>c2. cmd_wait ((demo_cli all_fine) \<lparr> cl_watch := (\<lambda>_ _. late_watch ''bye'') \<rparr>) ''j'' (console log_tree [demo_row]) = Some (Inr 0, c2)
    \<and> co_out c2 = ''bye''"
proof -
  let ?e = "(demo_cli all_fine) \<lparr> cl_watch := (\<lambda>_ _. late_watch ''bye'') \<rparr>"
  have p: "log_path_of ?e ''j'' (console log_tree [demo_row]) = (Inr (Some ''/log''), console log_tree [demo_row])"
    using demo_log_path [of all_fine] by (simp add: log_path_of_def on_ledger_def)
  have r: "read_text (ee_lim (base_env ?e)) (fst (co_host (console log_tree [demo_row]))) (components ''/log'') = Inr ''a''"
    using demo_log_read [of all_fine] by simp
  have w: "log_until 0 ''bye'' (cl_watch ?e ''j'' (console log_tree [demo_row]))" using late_log by simp
  from wait_prints_whole_log [OF p _ r w] show ?thesis by (auto simp: console_def)
qed

text \<open>\<^verbatim>\<open>jailrun logs -f\<close> of a run that is over prints its log twice: what \<^verbatim>\<open>logs\<close> itself has printed, it
  then follows from the beginning.\<close>

theorem logs_follow_repeats_log:
  assumes "log_path_of env jail c = (Inr (Some p), c1)" and "p \<noteq> []"
    and "read_text (ee_lim (base_env env)) (fst (co_host c1)) (components p) = Inr s"
    and "universal_newlines (cl_replace env s) = L"
    and "log_path_of env jail (write_out L c1) = (Inr (Some p), write_out L c1)"
    and "log_until 0 L (cl_watch env jail (write_out L c1))"
  shows "\<exists>c2. cmd_logs env jail True c = Some (Inr 0, c2) \<and> co_out c2 = co_out c1 @ L @ L"
proof -
  have "wait_loop (cl_watch env jail (write_out L c1)) 0 0 = Some (None, L)" by (rule wait_loop_log [OF assms(6)])
  moreover have "co_host (write_out L c1) = co_host c1" by (simp add: write_out_def)
  ultimately show ?thesis
    using assms(1-5) by (simp add: cmd_logs_def cmd_wait_def wait_end_def getenv_or_def finish_def) (simp add: write_out_def)
qed

lemma logs_follow_repeats_log_witness:
  "\<exists>c2. cmd_logs (demo_cli all_fine) ''j'' True (console log_tree [demo_row]) = Some (Inr 0, c2) \<and> co_out c2 = ''aa''"
proof -
  let ?c = "write_out ''a'' (console log_tree [demo_row])"
  have u: "universal_newlines (cl_replace (demo_cli all_fine) ''a'') = ''a''" by (simp add: demo_cli_def CR_def)
  have p: "log_path_of (demo_cli all_fine) ''j'' ?c = (Inr (Some ''/log''), ?c)"
    by (simp add: write_out_def log_path_of_def demo_row_def start_row_def get_log_path_def lookup_row_def demo_ledger Let_def)
  have "log_until 0 ''a'' (cl_watch (demo_cli all_fine) ''j'' ?c)" using quiet_log by (simp add: demo_cli_def)
  from logs_follow_repeats_log [OF demo_log_path _ demo_log_read u p this] show ?thesis by (auto simp: console_def)
qed

section \<open>Jails that are not where they are said to be\<close>

text \<open>What reading the rows gives for a ledger file, and what it leaves.\<close>

definition runs_in :: "'w cli_env \<Rightarrow> string option \<Rightarrow> db_file \<Rightarrow> string + run_row list" where
  "runs_in env st f = fst (list_runs (ee_faults (base_env env)) st (open_run_ledger (ee_env (base_env env)) f))"

definition ledger_read :: "'w cli_env \<Rightarrow> db_file \<Rightarrow> db_file" where
  "ledger_read env f = ledger_after (snd (list_runs (ee_faults (base_env env)) None (open_run_ledger (ee_env (base_env env)) f))) f"

lemma list_runs_file: "snd (list_runs flt st d) = snd (get_conn flt d)"
  by (simp add: list_runs_def split: prod.split sum.split option.split)

lemma all_runs_eq: "all_runs env st c = (runs_in env st (co_ledger c), c \<lparr> co_ledger := ledger_read env (co_ledger c) \<rparr>)"
  by (simp add: all_runs_def on_ledger_def runs_in_def ledger_read_def list_runs_file split_beta Let_def)

lemma list_live_answering:
  "list_live_jail_names (answering f None []) h =
     ((case f [''jls'', ''-n'', ''name''] of Spawn_error _ \<Rightarrow> None
       | Completed rc out _ \<Rightarrow> if rc \<noteq> 0 then None else Some (List.map_filter (search_name False) (py_splitlines out))),
      (fst h, snd h @ [[''jls'', ''-n'', ''name'']]))"
  by (simp add: list_live_jail_names_def answering_def split: cmd_result.splits)

text \<open>\<^verbatim>\<open>jailrun rm\<close> where the jails cannot be listed.  A jail counts as not running then, and the dataset of
  its newest row in the ledger is destroyed, also if that row says \<^verbatim>\<open>running\<close> and the jail is live; the
  command ends as after the removal of a stopped jail.\<close>

theorem rm_unlisted_destroys_dataset:
  assumes "ee_tool (base_env env) = answering f" and "ge_tool (cl_gc env) = answering f None []"
    and "get_backend (cl_gc env) = ''zfs''"
    and "\<not> answers_ok f [''jls'', ''-n'', ''name'']" and "answers_ok f [''zfs'', ''destroy'', rr_dataset r]"
    and "runs_in env None (co_ledger c) = Inr rows"
    and "List.find (\<lambda>x. rr_jail_name x = jail) rows = Some r" and "rr_dataset r \<noteq> []"
  shows "\<exists>c2. cmd_rm env jail c = (Inr 0, c2) \<and>
    snd (co_host c2) = snd (co_host c) @ [[''jls'', ''-n'', ''name''], [''zfs'', ''destroy'', rr_dataset r]]"
proof -
  have j: "list_live_jail_names (answering f None []) h = (None, (fst h, snd h @ [[''jls'', ''-n'', ''name'']]))" for h
    using assms(4) by (simp add: list_live_answering answers_ok_def split: cmd_result.splits)
  have d: "dataset_of jail rows = rr_dataset r" using assms(7) by (simp add: dataset_of_def)
  have z: "destroy_dataset (cl_gc env) (rr_dataset r) h = ((True, ''zfs destroy succeeded''), (fst h, snd h @ [[''zfs'', ''destroy'', rr_dataset r]]))" for h
    using assms(2,3,5) by (simp add: destroy_dataset_def run_ok_def answering_def answers_ok_def split: cmd_result.splits)
  show ?thesis
    using assms(1,6,8) by (simp add: cmd_rm_def check_live_def check_jail_live_def j d z all_runs_eq on_co_host_def finish_def say_def Let_def)
qed

definition no_jls :: "string list \<Rightarrow> cmd_result" where
  "no_jls c = (if c = [''jls'', ''-n'', ''name''] then Completed 1 [] ''jls: busy'' else Completed 0 [] [])"

lemma rm_unlisted_destroys_dataset_witness:
  "\<exists>c2. cmd_rm (demo_cli no_jls) ''j'' (console [] [demo_row]) = (Inr 0, c2) \<and> rr_status demo_row = RUNNING \<and>
    snd (co_host c2) = [[''jls'', ''-n'', ''name''], [''zfs'', ''destroy'', ''zroot/r/1'']]"
proof -
  let ?e = "demo_cli no_jls" and ?c = "console [] [demo_row]"
  have t: "ee_tool (base_env ?e) = answering no_jls" "ge_tool (cl_gc ?e) = answering no_jls None []" "get_backend (cl_gc ?e) = ''zfs''"
    by (simp_all add: demo_cli_def demo_env_def demo_gc_env_def) code_simp
  have a: "\<not> answers_ok no_jls [''jls'', ''-n'', ''name'']" "answers_ok no_jls [''zfs'', ''destroy'', rr_dataset demo_row]"
    by (simp_all add: answers_ok_def no_jls_def)
  have r: "runs_in ?e None (co_ledger ?c) = Inr [demo_row]"
    by (simp add: runs_in_def list_runs_def newest_first_def demo_ledger Let_def)
  have f: "List.find (\<lambda>x. rr_jail_name x = ''j'') [demo_row] = Some demo_row" "rr_dataset demo_row \<noteq> []" "rr_dataset demo_row = ''zroot/r/1''"
    "rr_status demo_row = RUNNING" by (simp_all add: demo_row_def start_row_def)
  show ?thesis using rm_unlisted_destroys_dataset [OF t a r f(1,2)] f(3,4) by (auto simp: console_def)
qed

text \<open>\<^verbatim>\<open>jailrun stop\<close> of a live jail reports success whatever \<^verbatim>\<open>jail -r\<close> answers: for every exit status of it
  the command ends with 0 and the words \<^verbatim>\<open>stopped\<close>, and the ledger's row says \<^verbatim>\<open>killed\<close>, so a jail that could
  not be removed runs on as one that is over.\<close>

theorem stop_ignores_removal_status:
  assumes "check_live env jail c = ((True, message), c1)"
    and "on_co_host (kill_jail (ee_kind (base_env env)) (ee_tool (base_env env) None []) jail) c1 = (k, c2)"
    and "plain_command env [''jail'', ''-r'', jail] c2 = (Completed rc out err, c3)"
  shows "cmd_stop env jail False c = (Inr 0, say (''jailrun: stopped '' @ jail) (record_killed env jail c3))"
  using assms by (simp add: cmd_stop_def finish_def Let_def)

definition stuck_jail :: "string list \<Rightarrow> cmd_result" where
  "stuck_jail c = (if c = [''jls'', ''-n'', ''name''] then Completed 0 ''name=j'' []
     else if c = [''jail'', ''-r'', ''j''] then Completed 1 [] ''busy'' else Completed 0 [] [])"

lemma stop_ignores_removal_status_witness:
  "\<exists>c4. cmd_stop (demo_cli stuck_jail) ''j'' False (console [] [demo_row]) = (Inr 0, c4) \<and>
    map_option (map rr_status) (df_table (co_ledger c4)) = Some [KILLED] \<and> co_out c4 = ''jailrun: stopped j'' @ [NL]"
proof -
  let ?e = "demo_cli stuck_jail" and ?c = "console [] [demo_row]"
  have n: "List.map_filter (search_name False) (py_splitlines ''name=j'') = [''j'']" by code_simp
  let ?h1 = "([], [[''jls'', ''-n'', ''name'']])"
  have l: "check_live ?e ''j'' ?c = ((True, []), ?c \<lparr> co_host := ?h1 \<rparr>)"
    by (simp add: check_live_def check_jail_live_def list_live_answering stuck_jail_def n list_runs_def demo_ledger Let_def)
  let ?h2 = "([], [[''jls'', ''-n'', ''name''], kill_cmd ''j'' ''KILL''])"
  have k: "on_co_host (kill_jail (ee_kind (base_env ?e)) (ee_tool (base_env ?e) None []) ''j'') (?c \<lparr> co_host := ?h1 \<rparr>)
      = (Inr ''KILL delivered to j'', ?c \<lparr> co_host := ?h2 \<rparr>)"
    by (simp add: on_co_host_def kill_jail_def jail_signal_def kill_cmd_def demo_cli_def demo_env_def answering_def stuck_jail_def)
  have r: "plain_command ?e [''jail'', ''-r'', ''j''] (?c \<lparr> co_host := ?h2 \<rparr>)
      = (Completed 1 [] ''busy'', ?c \<lparr> co_host := ([], snd ?h2 @ [[''jail'', ''-r'', ''j'']]) \<rparr>)"
    by (simp add: plain_command_def on_co_host_def demo_cli_def demo_env_def answering_def stuck_jail_def)
  show ?thesis
    using stop_ignores_removal_status [OF l k r]
    by (simp add: say_def record_killed_def record_exit_def lookup_row_def update_exit_def set_rows_def status_check_def demo_row_def
        start_row_def demo_ledger Let_def)
qed

end
