(* ===== verification/CliTasks.thy ===== *)
theory CliTasks
  imports Cli
begin

text \<open>
  \<^verbatim>\<open>runtime/cli.py\<close>, the subcommands that report on images and on the host (\<^verbatim>\<open>explain\<close>, \<^verbatim>\<open>scan\<close>, \<^verbatim>\<open>pull\<close>,
  \<^verbatim>\<open>doctor\<close>, \<^verbatim>\<open>gc\<close>), those of \<^verbatim>\<open>lifecycle.py\<close>, \<^verbatim>\<open>help\<close> and \<^verbatim>\<open>version\<close> with \<^verbatim>\<open>runtime/_version.py\<close>.
\<close>

section \<open>The program's own surroundings\<close>

text \<open>The directory it is installed in, the working directory, \<^verbatim>\<open>sys.platform\<close>, the first word of
  \<^verbatim>\<open>sys.version\<close>, \<^verbatim>\<open>sys.executable\<close>, and the help texts that \<^verbatim>\<open>argparse\<close> makes: of the program, and of
  each subcommand.\<close>

record program =
  pg_dir :: string
  pg_cwd :: path
  pg_platform :: string
  pg_python :: string
  pg_executable :: string
  pg_usage :: "string option \<Rightarrow> string"

definition at_cwd :: "program \<Rightarrow> string \<Rightarrow> path" where
  "at_cwd prog s = (if is_absolute s then components s else pg_cwd prog @ components s)"

section \<open>The version\<close>

text \<open>The module remembers an answer of \<^verbatim>\<open>git\<close>, also an empty one.\<close>

definition git_describe :: "program \<Rightarrow> 'w tool \<Rightarrow> string option \<Rightarrow> 'w \<Rightarrow> string option \<times> string option \<times> 'w" where
  "git_describe prog t cache w =
     (case cache of
        Some v \<Rightarrow> (Some v, cache, w)
      | None \<Rightarrow>
          (case t [''git'', ''-C'', pg_dir prog, ''describe'', ''--tags'', ''--dirty=.dirty''] w of
             (Completed rc out _, w') \<Rightarrow> if rc = 0 then (Some (py_strip out), Some (py_strip out), w') else (None, None, w')
           | (Spawn_error _, w') \<Rightarrow> (None, None, w')))"

definition version_file :: "program \<Rightarrow> nat \<Rightarrow> fs \<Rightarrow> store_exc + string option" where
  "version_file prog links fs =
     (let p = components (pg_dir prog) @ [''VERSION''] in
      if \<not> path_exists links fs p then Inr None else try_bind (read_text links fs p) (\<lambda>s. Inr (Some (py_strip s))))"

definition jailrun_version ::
  "program \<Rightarrow> 'w runner \<Rightarrow> nat \<Rightarrow> string option \<Rightarrow> 'w host \<Rightarrow> (store_exc + string) \<times> string option \<times> 'w host" where
  "jailrun_version prog t links cache h =
     (let (v, cache', h') = git_describe prog (t None []) cache h in
      (if getenv_or v [] \<noteq> [] then Inr (the v)
       else try_bind (version_file prog links (fst h')) (\<lambda>f. Inr (if getenv_or f [] \<noteq> [] then the f else ''1.0.0a2'')),
       cache', h'))"

definition platform_info :: "program \<Rightarrow> 'w tool \<Rightarrow> 'w \<Rightarrow> string \<times> 'w" where
  "platform_info prog t w =
     (case t [''uname'', ''-sr''] w of
        (Completed _ out _, w') \<Rightarrow> (py_strip out @ ''  Python '' @ pg_python prog, w')
      | (Spawn_error _, w') \<Rightarrow> (pg_platform prog @ ''  Python '' @ pg_python prog, w'))"

definition version_banner :: "program \<Rightarrow> 'w runner \<Rightarrow> nat \<Rightarrow> string option \<Rightarrow> (string, 'w) act" where
  "version_banner prog t links cache h =
     (case jailrun_version prog t links cache h of
        (Inl e, _, h1) \<Rightarrow> (Inl e, h1)
      | (Inr v, _, h1) \<Rightarrow>
          (let (info, h2) = platform_info prog (t None []) h1
           in (Inr (py_join [NL] [''jailrun version '' @ v, ''platform: '' @ info,
                 ''runtime: FreeBSD jails + ZFS (freebsd-host only)'', ''host build: linux-host/Linux (development)'']), h2)))"

definition cmd_version :: "'w cli_env \<Rightarrow> program \<Rightarrow> string option \<Rightarrow> (int, 'w) cmd" where
  "cmd_version env prog cache c =
     (case on_co_host (version_banner prog (ee_tool (base_env env)) (ee_lim (base_env env)) cache) c of
        (Inl e, c1) \<Rightarrow> (Inl e, c1)
      | (Inr banner, c1) \<Rightarrow> finish 0 (say banner c1))"

text \<open>\<^verbatim>\<open>man\<close> writes to the terminal itself.\<close>

definition cmd_help :: "'w cli_env \<Rightarrow> program \<Rightarrow> string option \<Rightarrow> (int, 'w) cmd" where
  "cmd_help env prog topic c =
     (if getenv_or topic [] \<noteq> []
      then (if map_of build_parser (the topic) \<noteq> None then finish 0 (write_out (pg_usage prog topic) c)
            else finish 1 (complain (''jailrun: no such subcommand '' @ py_repr (the topic)) c))
      else (case plain_command env [''man'', pg_dir prog @ ''/runtime/../man/man1/jailrun.1''] c of
          (Completed rc _ _, c1) \<Rightarrow> finish rc c1
        | (Spawn_error _, c1) \<Rightarrow> finish 0 (write_out (pg_usage prog None) c1)))"

section \<open>Images\<close>

definition cmd_pull :: "'w cli_env \<Rightarrow> string \<Rightarrow> (string \<times> string) option \<Rightarrow> string option \<Rightarrow> (int, 'w) cmd" where
  "cmd_pull env img creds authfile c =
     (let e = base_env env in
      case on_co_host (then_do
             (store_resolve (ee_sha256 e) (ee_env e) (ee_tool e) (ee_lim e) (ee_store e) img creds authfile) (\<lambda>image_id.
           then_do (store_unpack (ee_sha256 e) (ee_env e) (ee_tool e) (ee_lim e) (ee_names e) (ee_wait e) (ee_store e) image_id) (\<lambda>_.
           give image_id))) c of
        (Inl x, c1) \<Rightarrow> finish 1 (complain (''jailrun pull: failed to pull '' @ py_repr img @ '': '' @ cl_exc env x) c1)
      | (Inr image_id, c1) \<Rightarrow> finish 0 (say (''jailrun pull: '' @ img @ '' -> '' @ image_id) c1))"

text \<open>The manifest of an image: its clone is made for it.\<close>

definition image_manifest :: "'w engine_env \<Rightarrow> string \<Rightarrow> (json, 'w) act" where
  "image_manifest env img =
     then_do (store_resolve (ee_sha256 env) (ee_env env) (ee_tool env) (ee_lim env) (ee_store env) img None None) (\<lambda>image_id.
     then_do (store_unpack (ee_sha256 env) (ee_env env) (ee_tool env) (ee_lim env) (ee_names env) (ee_wait env) (ee_store env) image_id) (\<lambda>snapshot_id.
     then_do (clone (ee_tool env) (ee_lim env) (ee_store env) (ee_run_id env) snapshot_id) (\<lambda>(rootfs_path, _).
     load_manifest (ee_probe_and_bake env) (ee_lim env) rootfs_path img None)))"

definition explain_manifest :: "string \<Rightarrow> json \<Rightarrow> (int, 'w) cmd" where
  "explain_manifest fmt manifest c =
     (case render_explain manifest fmt of Inl e \<Rightarrow> (Inl e, c) | Inr text \<Rightarrow> finish 0 (say text c))"

definition cmd_explain :: "'w cli_env \<Rightarrow> program \<Rightarrow> string option \<Rightarrow> string option \<Rightarrow> string \<Rightarrow> (int, 'w) cmd" where
  "cmd_explain env prog manifest img fmt c =
     (if getenv_or manifest [] \<noteq> [] then
        (case read_json (ee_lim (base_env env)) (fst (co_host c)) (at_cwd prog (the manifest)) of
           Inl (Tree_error e) \<Rightarrow> finish 1 (complain (''error: could not read manifest file '' @ py_repr (the manifest) @ '': '' @
               cl_exc env (Tree_error e)) c)
         | Inl e \<Rightarrow> finish 1 (complain (''error: '' @ py_repr (the manifest) @ '' is not valid JSON: '' @ cl_exc env e) c)
         | Inr m \<Rightarrow> explain_manifest fmt m c)
      else if getenv_or img [] \<noteq> [] then
        (case on_co_host (image_manifest (base_env env) (the img)) c of
           (Inl e, c1) \<Rightarrow> (Inl e, c1)
         | (Inr m, c1) \<Rightarrow> explain_manifest fmt m c1)
      else finish 1 (complain ''error: jailrun explain needs either --manifest FILE or an IMAGE argument'' c))"

text \<open>The images are scanned in turn, each in a clone of its own; one that fails is reported and left out.\<close>

fun scan_images :: "'w cli_env \<Rightarrow> nat \<Rightarrow> string list \<Rightarrow> 'w console \<Rightarrow> summary list \<times> 'w console" where
  "scan_images env n [] c = ([], c)"
| "scan_images env n (img # images) c =
     (case on_co_host (scan_image (base_env env \<lparr> ee_run_id := cl_scan_ids env n \<rparr>) (cl_prober env) img) c of
        (Inl e, c1) \<Rightarrow>
          scan_images env (Suc n) images (complain (''error: could not scan '' @ py_repr img @ '': '' @ cl_exc env e) c1)
      | (Inr s, c1) \<Rightarrow> (let (ss, c2) = scan_images env (Suc n) images c1 in (s # ss, c2)))"

definition cmd_scan :: "'w cli_env \<Rightarrow> string list \<Rightarrow> string \<Rightarrow> (int, 'w) cmd" where
  "cmd_scan env images fmt c =
     (let (summaries, c1) = scan_images env 0 images c
      in finish (if summaries = [] \<and> length summaries < length images then 1 else 0) (say (render_scan (aggregate summaries) fmt) c1))"

section \<open>The host\<close>

definition cmd_doctor :: "'w cli_env \<Rightarrow> string \<Rightarrow> (int, 'w) cmd" where
  "cmd_doctor env fmt c =
     (case on_co_host (run_checks (cl_doctor env)) c of
        (Inl e, c1) \<Rightarrow> (Inl e, c1)
      | (Inr results, c1) \<Rightarrow> finish (exit_code_for_results results) (say (render_checks results fmt) c1))"

definition orphan_json :: "orphan \<Rightarrow> json" where
  "orphan_json x = JObj [(''kind'', JStr (or_kind x)), (''identifier'', JStr (or_identifier x)), (''detail'', JStr (or_detail x)),
     (''fix_action'', JStr (or_fix_action x))]"

definition fix_json :: "fix_outcome \<Rightarrow> json" where
  "fix_json f = JObj [(''kind'', JStr (fo_kind f)), (''identifier'', JStr (fo_identifier f)), (''ok'', JBool (fo_ok f)),
     (''detail'', JStr (fo_detail f))]"

definition gc_json :: "gc_report \<Rightarrow> json" where
  "gc_json r = JObj [(''orphans'', JArr (map orphan_json (gr_orphans r))),
     (''fixes'', case gr_fixes r of None \<Rightarrow> JNull | Some fs \<Rightarrow> JArr (map fix_json fs)),
     (''notes'', JArr (map JStr (gr_notes r)))]"

definition render_gc :: "gc_report \<Rightarrow> string \<Rightarrow> string" where
  "render_gc r fmt = (if fmt = ''json'' then json_dump 0 (gc_json r) else render_gc_text (gr_orphans r) (gr_fixes r) (gr_notes r))"

definition cmd_gc :: "'w cli_env \<Rightarrow> bool \<Rightarrow> string \<Rightarrow> (int, 'w) cmd" where
  "cmd_gc env fix fmt c =
     (let (r, s) = run_gc (cl_gc env) fix \<lparr> gs_host = co_host c, gs_ledger = co_ledger c \<rparr>
      in finish (gc_exit_code (gr_orphans r) (gr_fixes r))
           (say (render_gc r fmt) (c \<lparr> co_host := gs_host s, co_ledger := gs_ledger s \<rparr>)))"

text \<open>The dictionaries of \<^verbatim>\<open>lifecycle.py\<close>, printed on a line.\<close>

definition answer_json :: "string + string \<Rightarrow> json" where
  "answer_json r = JObj (case r of
     Inr msg \<Rightarrow> [(''ok'', JBool True), (''msg'', JStr msg)] | Inl err \<Rightarrow> [(''ok'', JBool False), (''err'', JStr err)])"

definition signal_answer :: "(string + string) \<times> 'w console \<Rightarrow> (store_exc + int) \<times> 'w console" where
  "signal_answer rc = finish (case fst rc of Inl _ \<Rightarrow> 1 | Inr _ \<Rightarrow> 0) (say (json_line (answer_json (fst rc))) (snd rc))"

definition unavailable :: "string + unit \<Rightarrow> (int, 'w) cmd" where
  "unavailable r c = (case r of Inl e \<Rightarrow> finish 1 (say (''unavailable: '' @ e) c) | Inr _ \<Rightarrow> finish 0 c)"

definition cmd_lifecycle :: "'w cli_env \<Rightarrow> string \<Rightarrow> string \<Rightarrow> (int, 'w) cmd" where
  "cmd_lifecycle env verb jail c =
     (let kind = ee_kind (base_env env); t = ee_tool (base_env env) None [] in
      if verb = ''freeze'' then signal_answer (on_co_host (freeze kind t jail) c)
      else if verb = ''thaw'' then signal_answer (on_co_host (thaw kind t jail) c)
      else if verb = ''hibernate'' then unavailable (hibernate jail) c
      else unavailable (restore jail) c)"

section \<open>What \<^verbatim>\<open>explain\<close> leaves behind\<close>

lemma quiet_then:
  assumes "quiet m" and "\<And>x. quiet (k x)"
  shows "quiet (then_do m k)"
  unfolding quiet_def
proof
  fix h
  show "snd (snd (then_do m k h)) = snd h"
  proof (rule then_do_cases [of m h k])
    fix x h1 assume "m h = (Inr x, h1)" "then_do m k h = k x h1"
    moreover have "snd (snd (k x h1)) = snd h1" using assms(2) [of x] unfolding quiet_def by blast
    ultimately show ?thesis using quietD [OF assms(1)] by simp
  qed (use quietD [OF assms(1)] in auto)
qed

lemma quiet_if: "(b \<Longrightarrow> quiet m) \<Longrightarrow> (\<not> b \<Longrightarrow> quiet k) \<Longrightarrow> quiet (if b then m else k)"
  by simp

lemma load_manifest_quiet:
  assumes "\<And>p i. quiet (prober p i)"
  shows "quiet (load_manifest prober links rootfs_path img iid)"
proof -
  have l: "quiet (load_json links p)" for p by (simp add: quiet_def load_json_def)
  have s: "quiet (save_json links p v)" for p v unfolding save_json_def by (intro quiet_then) simp_all
  have o': "quiet (case o' of None \<Rightarrow> m | Some p \<Rightarrow> k p)" if "quiet m" "\<And>p. quiet (k p)" for o' :: "path option" and m :: "('a, string list list) act" and k
    using that by (simp split: option.split)
  show ?thesis unfolding load_manifest_def
    by (intro quiet_then quiet_if o' l s assms quiet_basic)
qed

definition clone_cmd :: "'w engine_env \<Rightarrow> string \<Rightarrow> string list" where
  "clone_cmd env snap = [''zfs'', ''clone'', ''-p'', ''-o'', ''mountpoint='' @ path_str (run_mountpoint (ee_store env) (ee_run_id env)), snap,
     st_runs_ds (ee_store env) @ ''/'' @ ee_run_id env]"

lemma clone_zfs_log:
  assumes "clone (answering f) links st run_id snap h = (Inr x, h')" and "st_backend st = Zfs"
  shows "\<exists>log. snd h' = snd h @ log @ [[''zfs'', ''clone'', ''-p'', ''-o'', ''mountpoint='' @ path_str (run_mountpoint st run_id), snap,
    st_runs_ds st @ ''/'' @ run_id]]"
  using assms
  by (auto simp: clone_def clone_zfs_def then_do_def zfs_snapshot_exists_def give_def raise_exc_def run_plain_answering on_tree_def
      split_beta Let_def split: if_splits sum.splits prod.splits option.splits)

lemma image_manifest_log:
  assumes "image_manifest env img h = (Inr m, h')" and "ee_tool env = answering f" and "st_backend (ee_store env) = Zfs"
    and "\<And>p i. quiet (ee_probe_and_bake env p i)"
  shows "\<exists>snap log. snd h' = log @ [clone_cmd env snap]"
proof -
  obtain snap p hdl h1 h2 where c: "clone (answering f) (ee_lim env) (ee_store env) (ee_run_id env) snap h1 = (Inr (p, hdl), h2)"
      and l: "load_manifest (ee_probe_and_bake env) (ee_lim env) p img None h2 = (Inr m, h')"
    using assms(1,2) by (auto simp: image_manifest_def then_do_def split: prod.splits sum.splits)
  have "snd h' = snd h2" using quietD [OF load_manifest_quiet [OF assms(4)] l] .
  then show ?thesis using clone_zfs_log [OF c assms(3)] by (auto simp: clone_cmd_def)
qed

text \<open>\<^verbatim>\<open>jailrun explain IMAGE\<close> on ZFS makes a clone of the image and nothing destroys it: whenever the
  manifest is found, making the clone is the last command of the whole subcommand (the prober and the
  bakery reading only).\<close>

theorem explain_leaves_clone:
  assumes "ee_tool (base_env env) = answering f" and "st_backend (ee_store (base_env env)) = Zfs"
    and "\<And>p i. quiet (ee_probe_and_bake (base_env env) p i)"
    and "image_manifest (base_env env) img (co_host c) = (Inr m, h)" and "img \<noteq> []"
  shows "\<exists>snap log. snd (co_host (snd (cmd_explain env prog None (Some img) fmt c))) = log @ [clone_cmd (base_env env) snap]"
proof -
  obtain snap log where "snd h = log @ [clone_cmd (base_env env) snap]" using image_manifest_log [OF assms(4,1,2,3)] by blast
  moreover have "co_host (snd (cmd_explain env prog None (Some img) fmt c)) = h"
    using assms(4,5) by (simp add: cmd_explain_def getenv_or_def on_co_host_def explain_manifest_def finish_def say_def split: sum.split)
  ultimately show ?thesis by blast
qed

definition zfs_cli :: "string list list cli_env" where
  "zfs_cli = demo_cli all_fine \<lparr> cl_engine := (\<lambda>_. demo_env all_fine \<lparr> ee_store := demo_store Zfs \<rparr>) \<rparr>"

definition demo_program :: program where
  "demo_program = \<lparr> pg_dir = ''/opt/jailrun'', pg_cwd = [], pg_platform = ''linux'', pg_python = ''3.11.2'', pg_executable = ''python3'',
     pg_usage = (\<lambda>_. ''usage'') \<rparr>"

definition demo_image_id :: string where "demo_image_id = replicate 64 (CHR ''a'')"

lemma explain_leaves_clone_witness:
  "\<exists>snap log. snd (co_host (snd (cmd_explain zfs_cli demo_program None (Some demo_image_id) ''text'' (console [] [])))) =
     log @ [clone_cmd (base_env zfs_cli) snap]"
proof -
  have "image_manifest (base_env zfs_cli) demo_image_id (co_host (console [] [])) =
      (Inr (JObj []), snd (image_manifest (base_env zfs_cli) demo_image_id (co_host (console [] []))))"
    by code_simp
  then show ?thesis
    by (intro explain_leaves_clone [where f = all_fine]) (simp_all add: zfs_cli_def demo_cli_def demo_env_def demo_store_def demo_image_id_def)
qed

section \<open>The reports as JSON\<close>

lemma int_text_show_int: "int_text (show_int i)"
proof (cases "i < 0")
  case True
  then show ?thesis
    using show_nat_hd [of "nat (- i)"] show_nat_digits [of "nat (- i)"] by (simp add: int_text_def show_int_def)
qed (simp add: show_int_def int_text_show_nat)

text \<open>A reader of the reports, who knows only the documented keys: each value by its key, and the record
  that the values are of.\<close>

definition want :: "string \<Rightarrow> (json \<Rightarrow> 'a option) \<Rightarrow> json \<Rightarrow> 'a option" where
  "want k rd v = (case v of JObj ms \<Rightarrow> (case jlookup k ms of None \<Rightarrow> None | Some x \<Rightarrow> rd x) | _ \<Rightarrow> None)"

definition want_text :: "json \<Rightarrow> string option" where "want_text v = (case v of JStr s \<Rightarrow> Some s | _ \<Rightarrow> None)"

definition want_bool :: "json \<Rightarrow> bool option" where "want_bool v = (case v of JBool b \<Rightarrow> Some b | _ \<Rightarrow> None)"

definition want_int :: "json \<Rightarrow> int option" where
  "want_int v = (case v of
     JNum t \<Rightarrow> if take 1 t = ''-'' then map_option (\<lambda>n. - int n) (parse_nat (drop 1 t)) else map_option int (parse_nat t)
   | _ \<Rightarrow> None)"

definition want_list :: "(json \<Rightarrow> 'a option) \<Rightarrow> json \<Rightarrow> 'a list option" where
  "want_list rd v = (case v of JArr vs \<Rightarrow> those (map rd vs) | _ \<Rightarrow> None)"

definition or_none :: "(json \<Rightarrow> 'a option) \<Rightarrow> json \<Rightarrow> 'a option option" where
  "or_none rd v = (case v of JNull \<Rightarrow> Some None | _ \<Rightarrow> map_option Some (rd v))"

definition read_orphan :: "json \<Rightarrow> orphan option" where
  "read_orphan v =
     Option.bind (want ''kind'' want_text v) (\<lambda>k. Option.bind (want ''identifier'' want_text v) (\<lambda>i.
     Option.bind (want ''detail'' want_text v) (\<lambda>d. Option.bind (want ''fix_action'' want_text v) (\<lambda>a.
     Some \<lparr> or_kind = k, or_identifier = i, or_detail = d, or_fix_action = a \<rparr>))))"

definition read_fix :: "json \<Rightarrow> fix_outcome option" where
  "read_fix v =
     Option.bind (want ''kind'' want_text v) (\<lambda>k. Option.bind (want ''identifier'' want_text v) (\<lambda>i.
     Option.bind (want ''ok'' want_bool v) (\<lambda>ok. Option.bind (want ''detail'' want_text v) (\<lambda>d.
     Some \<lparr> fo_kind = k, fo_identifier = i, fo_ok = ok, fo_detail = d \<rparr>))))"

definition read_gc_report :: "json \<Rightarrow> gc_report option" where
  "read_gc_report v =
     Option.bind (want ''orphans'' (want_list read_orphan) v) (\<lambda>os.
     Option.bind (want ''fixes'' (or_none (want_list read_fix)) v) (\<lambda>fs.
     Option.bind (want ''notes'' (want_list want_text) v) (\<lambda>ns.
     Some \<lparr> gr_orphans = os, gr_fixes = fs, gr_notes = ns \<rparr>)))"

definition read_status :: "json \<Rightarrow> check_status option" where
  "read_status v = Option.bind (want_text v)
     (map_of [(''ok'', Check_ok), (''fail'', Check_fail), (''skip'', Check_skip), (''info'', Check_info)])"

definition read_check :: "json \<Rightarrow> check_result option" where
  "read_check v =
     Option.bind (want ''name'' want_text v) (\<lambda>n. Option.bind (want ''status'' read_status v) (\<lambda>st.
     Option.bind (want ''detail'' want_text v) (\<lambda>d. Option.bind (want ''fix'' want_text v) (\<lambda>f.
     Some (check_result n st d f)))))"

definition read_row :: "string \<Rightarrow> json \<Rightarrow> run_row option" where
  "read_row jail v =
     Option.bind (want ''image'' want_text v) (\<lambda>img. Option.bind (want ''image_digest'' want_text v) (\<lambda>dg.
     Option.bind (want ''dataset'' want_text v) (\<lambda>ds. Option.bind (want ''status'' want_text v) (\<lambda>st.
     Option.bind (want ''exit_code'' (or_none want_int) v) (\<lambda>c. Option.bind (want ''started_at'' want_text v) (\<lambda>t.
     Option.bind (want ''ended_at'' (or_none want_text) v) (\<lambda>e. Option.bind (want ''log_path'' (or_none want_text) v) (\<lambda>lp.
     Some \<lparr> rr_jail_name = jail, rr_image = img, rr_image_digest = dg, rr_dataset = ds, rr_status = st, rr_exit_code = c,
            rr_started_at = t, rr_ended_at = e, rr_log_path = lp \<rparr>))))))))"

text \<open>\<^verbatim>\<open>inspect\<close>: \<^verbatim>\<open>rundb\<close> is null if the ledger could not be read, and missing if it has no row for the jail.\<close>

definition read_inspect :: "json \<Rightarrow> (string \<times> bool \<times> (unit + run_row option)) option" where
  "read_inspect v =
     Option.bind (want ''jail_name'' want_text v) (\<lambda>n. Option.bind (want ''live'' want_bool v) (\<lambda>live.
     map_option (\<lambda>r. (n, live, r))
       (if want ''rundb'' Some v = None then Some (Inr None)
        else want ''rundb'' (\<lambda>x. map_option (\<lambda>r. case r of None \<Rightarrow> Inl () | Some y \<Rightarrow> Inr (Some y)) (or_none (read_row n) x)) v)))"

definition read_answer :: "json \<Rightarrow> (string + string) option" where
  "read_answer v =
     Option.bind (want ''ok'' want_bool v) (\<lambda>ok.
     if ok then map_option Inr (want ''msg'' want_text v) else map_option Inl (want ''err'' want_text v))"

lemma jlookup_steps:
  "jlookup k [] = None" "jlookup k ((k', x) # ms) = (case jlookup k ms of None \<Rightarrow> if k' = k then Some x else None | Some y \<Rightarrow> Some y)"
  by (auto simp: jlookup_def map_add_def split: option.split)

lemma want_simps [simp]:
  "want k rd (JObj ((k', x) # ms)) = (if k' = k \<and> jlookup k ms = None then rd x else want k rd (JObj ms))"
  "want k rd (JObj []) = None" "want_text (JStr s) = Some s" "want_bool (JBool b) = Some b" "or_none rd JNull = Some None"
  by (simp_all add: want_def jlookup_steps want_text_def want_bool_def or_none_def split: option.split)

lemma or_none_text [simp]: "or_none want_text (text_or_null x) = Some x"
  by (simp add: or_none_def text_or_null_def split: option.split)

lemma want_int_show [simp]: "want_int (JNum (show_int i)) = Some i"
proof (cases "i < 0")
  case False
  have "take 1 (show_nat (nat i)) \<noteq> ''-''"
    using show_nat_digits [of "nat i"] by (cases "show_nat (nat i)") (auto simp: all_digits_def is_digit_def)
  then show ?thesis using False by (simp add: want_int_def show_int_def)
qed (simp add: want_int_def show_int_def)

lemma or_none_int [simp]: "or_none want_int (int_json x) = Some x"
  by (cases x) (simp_all add: int_json_def or_none_def)

lemma want_list_map:
  assumes "\<And>x. rd (enc x) = Some x"
  shows "want_list rd (JArr (map enc xs)) = Some xs"
proof -
  have "those (map (rd \<circ> enc) xs) = Some xs" by (induction xs) (simp_all add: assms)
  then show ?thesis by (simp add: want_list_def)
qed

lemma read_gc: "read_gc_report (gc_json r) = Some r"
proof -
  have o1: "want_list read_orphan (JArr (map orphan_json os)) = Some os" for os
    by (rule want_list_map) (simp add: read_orphan_def jlookup_steps orphan_json_def)
  have f: "want_list read_fix (JArr (map fix_json fs)) = Some fs" for fs
    by (rule want_list_map) (simp add: read_fix_def jlookup_steps fix_json_def)
  have n: "want_list want_text (JArr (map JStr ns)) = Some ns" for ns
    by (rule want_list_map) simp
  show ?thesis by (simp add: read_gc_report_def jlookup_steps gc_json_def o1 n or_none_def f split: option.split)
qed

lemma read_checks: "want_list read_check (JArr (map check_json cs)) = Some cs"
  by (rule want_list_map)
    (simp add: read_check_def jlookup_steps check_json_def read_status_def check_status_text_def check_result_def split: check_status.split)

lemma read_row_info: "read_row (rr_jail_name x) (row_info x) = Some x"
  by (simp add: read_row_def jlookup_steps row_info_def)

lemma read_inspect_info:
  "read_inspect (inspect_info jail live rows) = Some (jail, live,
     case rows of Inl _ \<Rightarrow> Inl () | Inr rs \<Rightarrow> Inr (List.find (\<lambda>x. rr_jail_name x = jail) rs))"
proof (cases rows)
  case (Inr rs)
  show ?thesis
  proof (cases "List.find (\<lambda>x. rr_jail_name x = jail) rs")
    case (Some x)
    then have j: "rr_jail_name x = jail" by (auto simp: find_Some_iff)
    have "or_none (read_row jail) (row_info x) = Some (Some x)"
      using read_row_info [of x] j by (simp add: or_none_def row_info_def)
    then show ?thesis using Inr Some by (simp add: read_inspect_def jlookup_steps inspect_info_def)
  qed (simp add: Inr read_inspect_def jlookup_steps inspect_info_def)
qed (simp add: read_inspect_def jlookup_steps inspect_info_def)

lemma reports_load:
  "json_loads (render_gc report ''json'') = Some (gc_json report)"
  "json_loads (render_checks checks ''json'') = Some (JArr (map check_json checks))"
  "json_loads (json_dump 0 (inspect_info jail live rows)) = Some (inspect_info jail live rows)"
  "json_loads (json_line (answer_json answer)) = Some (answer_json answer)"
proof -
  have "json_ok (gc_json report)"
    by (auto simp: gc_json_def orphan_json_def fix_json_def list_all_iff split: option.split)
  then show "json_loads (render_gc report ''json'') = Some (gc_json report)"
    by (simp add: render_gc_def json_loads_dump del: json_dump.simps)
  have "json_ok (JArr (map check_json checks))" by (simp add: check_json_def list_all_iff)
  then show "json_loads (render_checks checks ''json'') = Some (JArr (map check_json checks))"
    by (simp add: render_checks_def json_loads_dump del: json_dump.simps json_ok.simps)
  have "json_ok (inspect_info jail live rows)"
    by (simp add: inspect_info_def row_info_def int_json_def text_or_null_def int_text_show_int split: sum.split option.split)
  then show "json_loads (json_dump 0 (inspect_info jail live rows)) = Some (inspect_info jail live rows)"
    by (simp add: json_loads_dump del: json_dump.simps)
  have "json_ok (answer_json answer)" by (simp add: answer_json_def split: sum.split)
  then show "json_loads (json_line (answer_json answer)) = Some (answer_json answer)" by (simp add: json_loads_line)
qed

text \<open>C32: What the subcommands print as JSON tells a reader all there is to tell.  From the text alone, by
  the keys, the reader gets back the report of \<^verbatim>\<open>gc\<close> with every orphan, repair and note, the checks of
  \<^verbatim>\<open>doctor\<close> with their status, what \<^verbatim>\<open>inspect\<close> knows of a jail (its row in the ledger with every column, or
  that there is none, or that the ledger could not be read), and the answer to a signal.\<close>

theorem json_reports_read_back:
  "Option.bind (json_loads (render_gc report ''json'')) read_gc_report = Some report
   \<and> Option.bind (json_loads (render_checks checks ''json'')) (want_list read_check) = Some checks
   \<and> Option.bind (json_loads (json_dump 0 (inspect_info jail live rows))) read_inspect = Some (jail, live,
        case rows of Inl _ \<Rightarrow> Inl () | Inr rs \<Rightarrow> Inr (List.find (\<lambda>x. rr_jail_name x = jail) rs))
   \<and> Option.bind (json_loads (json_line (answer_json answer))) read_answer = Some answer"
proof -
  have "read_answer (answer_json answer) = Some answer"
    by (simp add: read_answer_def jlookup_steps answer_json_def split: sum.split)
  then show ?thesis unfolding reports_load by (simp add: read_gc read_checks read_inspect_info del: map_map)
qed

end
