(* ===== verification/CliRun.thy ===== *)
theory CliRun
  imports CliTasks
begin

text \<open>
  \<^verbatim>\<open>runtime/cli.py\<close>: \<^verbatim>\<open>run\<close> in the foreground and detached, with \<^verbatim>\<open>runtime/runner.py\<close> as the other end of a
  detached run; \<^verbatim>\<open>exec\<close>; \<^verbatim>\<open>cp\<close>; and \<^verbatim>\<open>main\<close>.  What a command in a jail writes goes to the terminal past the
  program and is not part of its output here.
\<close>

section \<open>The values of a command line\<close>

definition arg_text :: "namespace \<Rightarrow> string \<Rightarrow> string option" where
  "arg_text ns k = (case getarg ns k of AV_text s \<Rightarrow> Some s | _ \<Rightarrow> None)"

definition arg_true :: "namespace \<Rightarrow> string \<Rightarrow> bool" where
  "arg_true ns k \<longleftrightarrow> getarg ns k = AV_bool True"

definition arg_float :: "namespace \<Rightarrow> string \<Rightarrow> pyfloat option" where
  "arg_float ns k = (case getarg ns k of AV_float x \<Rightarrow> Some x | _ \<Rightarrow> None)"

definition arg_items :: "namespace \<Rightarrow> string \<Rightarrow> (arg_value \<Rightarrow> 'a option) \<Rightarrow> 'a list" where
  "arg_items ns k f = (case getarg ns k of AV_list vs \<Rightarrow> List.map_filter f vs | _ \<Rightarrow> [])"

definition text_item :: "arg_value \<Rightarrow> string option" where
  "text_item v = (case v of AV_text s \<Rightarrow> Some s | _ \<Rightarrow> None)"

definition pair_item :: "arg_value \<Rightarrow> (string \<times> string) option" where
  "pair_item v = (case v of AV_pair a b \<Rightarrow> Some (a, b) | _ \<Rightarrow> None)"

definition volume_item :: "arg_value \<Rightarrow> (string \<times> string \<times> bool) option" where
  "volume_item v = (case v of AV_volume a b r \<Rightarrow> Some (a, b, r) | _ \<Rightarrow> None)"

definition publish_item :: "arg_value \<Rightarrow> (nat \<times> nat \<times> string) option" where
  "publish_item v = (case v of AV_publish a b p \<Rightarrow> Some (a, b, p) | _ \<Rightarrow> None)"

text \<open>\<^verbatim>\<open>dict(pairs)\<close>: a key stands where it came first, with its last value.\<close>

definition py_dict :: "('a \<times> 'b) list \<Rightarrow> ('a \<times> 'b) list" where
  "py_dict kvs = map (\<lambda>k. (k, the (map_of (rev kvs) k))) (rev (remdups (rev (map fst kvs))))"

text \<open>No rules at all are \<^verbatim>\<open>None\<close>, the empty list here: the engine's own rules stand then.\<close>

definition rctl_rules_from_args :: "namespace \<Rightarrow> store_exc + string list" where
  "rctl_rules_from_args ns =
     (let rules = arg_items ns ''rctl_rules'' text_item;
          memory = (case arg_text ns ''memory'' of None \<Rightarrow> [] | Some m \<Rightarrow> [''memoryuse:sigkill='' @ m])
      in case arg_float ns ''cpus'' of
           None \<Rightarrow> Inr (rules @ memory)
         | Some x \<Rightarrow> (case float_int (float_scale x 3600) of
             Inl e \<Rightarrow> Inl (Other_error e)
           | Inr n \<Rightarrow> Inr (rules @ [''cputime:sigkill='' @ show_int n] @ memory)))"

definition opts_of_args :: "namespace \<Rightarrow> string list \<Rightarrow> string option \<Rightarrow> run_opts" where
  "opts_of_args ns rules jail_name =
     \<lparr> op_rm = arg_true ns ''rm'', op_volumes = arg_items ns ''volumes'' volume_item, op_env = py_dict (arg_items ns ''env'' pair_item),
       op_workdir = arg_text ns ''workdir'', op_network = getenv_or (arg_text ns ''network'') [],
       op_raw_sockets = arg_true ns ''allow_raw_sockets'', op_rctl_enabled = arg_true ns ''rctl_enabled'', op_rctl_rules = rules,
       op_unrestricted_devfs = arg_true ns ''allow_unrestricted_devfs'', op_image_id = None, op_jail_name = jail_name,
       op_publish = arg_items ns ''publish'' publish_item, op_tmpfs = arg_items ns ''tmpfs'' text_item,
       op_read_only = arg_true ns ''read_only'', op_interactive = arg_true ns ''interactive'' \<rparr>"

definition cmd_words :: "namespace \<Rightarrow> string list" where "cmd_words ns = arg_items ns ''cmd'' text_item"

definition image_arg :: "namespace \<Rightarrow> string" where "image_arg ns = getenv_or (arg_text ns ''image'') []"

definition jail_arg :: "namespace \<Rightarrow> string" where "jail_arg ns = getenv_or (arg_text ns ''jail'') []"

section \<open>run\<close>

text \<open>\<^verbatim>\<open>engine.run\<close> in a process of its own: no address is in use there yet.\<close>

definition new_process :: "'w console \<Rightarrow> 'w eng" where
  "new_process c = \<lparr> en_host = co_host c, en_ledger = co_ledger c, en_used_ips = [], en_vnet_next_ip = 0, en_handle = new_handle [] [] [] [],
     en_snapshot_id = None, en_jail_name = None, en_conf_path = None, en_jail_created = False, en_run_completed = False, en_log = None,
     en_jail_ip = None, en_vnet_host_if = None, en_vnet_jail_if = None, en_vnet_host_ip = None, en_vnet_jail_ip = None \<rparr>"

definition engine_run ::
  "'w cli_env \<Rightarrow> pyfloat option \<Rightarrow> run_opts \<Rightarrow> string \<Rightarrow> string list \<Rightarrow> 'w console \<Rightarrow> ((store_exc + int) \<times> 'w console) option" where
  "engine_run env timeout opts image_ref cmd c =
     map_option (\<lambda>(r, s). (r, c \<lparr> co_host := en_host s, co_ledger := en_ledger s \<rparr>))
       (run_async (cl_engine env timeout) opts image_ref cmd (new_process c))"

text \<open>The store's own exceptions are runtime errors, those of the operating system are not; which of the
  others are, \<^const>\<open>cl_runtime\<close> says.\<close>

definition is_runtime_error :: "'w cli_env \<Rightarrow> store_exc \<Rightarrow> bool" where
  "is_runtime_error env e = (case e of Tree_error (Os_error _) \<Rightarrow> False | Other_error m \<Rightarrow> cl_runtime env m | _ \<Rightarrow> True)"

definition cmd_run_foreground :: "'w cli_env \<Rightarrow> namespace \<Rightarrow> 'w console \<Rightarrow> ((store_exc + int) \<times> 'w console) option" where
  "cmd_run_foreground env ns c =
     (case rctl_rules_from_args ns of
        Inl e \<Rightarrow> Some (Inl e, c)
      | Inr rules \<Rightarrow>
          map_option (\<lambda>(r, c1). case r of
              Inl e \<Rightarrow> if is_runtime_error env e then finish 1 (complain (''jailrun run: refused: '' @ cl_exc env e) c1) else (Inl e, c1)
            | Inr rc \<Rightarrow> finish rc c1)
            (engine_run env (arg_float ns ''timeout'') (opts_of_args ns rules None) (image_arg ns) (cmd_words ns) c))"

section \<open>The job of a detached run\<close>

definition pyfloat_json :: "pyfloat \<Rightarrow> json" where
  "pyfloat_json x = JNum (case x of
     Finite r \<Rightarrow> if r < 0 then ''-'' @ float_repr (- r) else float_repr r
   | Infinite b \<Rightarrow> if b then ''-Infinity'' else ''Infinity''
   | Not_a_number \<Rightarrow> ''NaN'')"

definition list_or_null :: "json list \<Rightarrow> json" where "list_or_null vs = (if vs = [] then JNull else JArr vs)"

definition opts_json :: "run_opts \<Rightarrow> pyfloat option \<Rightarrow> json" where
  "opts_json o' timeout = JObj ([
     (''rm'', JBool (op_rm o')),
     (''volumes'', JArr (map (\<lambda>(a, b, r). JArr [JStr a, JStr b, JBool r]) (op_volumes o'))),
     (''env'', JObj (map (\<lambda>(k, v). (k, JStr v)) (op_env o'))),
     (''workdir'', text_or_null (op_workdir o')),
     (''interactive'', JBool (op_interactive o')),
     (''network'', JStr (op_network o')),
     (''allow_raw_sockets'', JBool (op_raw_sockets o')),
     (''rctl_enabled'', JBool (op_rctl_enabled o')),
     (''rctl_rules'', list_or_null (map JStr (op_rctl_rules o'))),
     (''allow_unrestricted_devfs'', JBool (op_unrestricted_devfs o')),
     (''jail_name'', text_or_null (op_jail_name o')),
     (''read_only'', JBool (op_read_only o')),
     (''tmpfs'', list_or_null (map JStr (op_tmpfs o'))),
     (''publish'', list_or_null (map (\<lambda>(h, p, t). JArr [jnat h, jnat p, JStr t]) (op_publish o')))] @
     (case timeout of None \<Rightarrow> [] | Some x \<Rightarrow> [(''timeout'', pyfloat_json x)]))"

definition job_json :: "string \<Rightarrow> string list \<Rightarrow> run_opts \<Rightarrow> pyfloat option \<Rightarrow> json" where
  "job_json image_ref cmd opts timeout =
     JObj [(''image_ref'', JStr image_ref), (''cmd'', JArr (map JStr cmd)), (''opts'', opts_json opts timeout)]"

text \<open>How the runner reads it back.  A value of another type than the writer gives it is an error at the
  start of the run here, while the engine comes upon it somewhere in it.\<close>

definition need :: "'a option \<Rightarrow> store_exc + 'a" where
  "need v = (case v of None \<Rightarrow> type_error | Some x \<Rightarrow> Inr x)"

definition job_option :: "(string \<times> json) list \<Rightarrow> string \<Rightarrow> json \<Rightarrow> json" where
  "job_option ms k d = (case jlookup k ms of None \<Rightarrow> d | Some v \<Rightarrow> v)"

definition bool_of :: "json \<Rightarrow> bool option" where "bool_of v = (case v of JBool b \<Rightarrow> Some b | _ \<Rightarrow> None)"

definition text_of :: "json \<Rightarrow> string option" where "text_of v = (case v of JStr s \<Rightarrow> Some s | _ \<Rightarrow> None)"

definition maybe_text :: "json \<Rightarrow> string option option" where
  "maybe_text v = (case v of JNull \<Rightarrow> Some None | JStr s \<Rightarrow> Some (Some s) | _ \<Rightarrow> None)"

definition items_of :: "(json \<Rightarrow> 'a option) \<Rightarrow> json \<Rightarrow> 'a list option" where
  "items_of f v = (case v of JNull \<Rightarrow> Some [] | JArr vs \<Rightarrow> those (map f vs) | _ \<Rightarrow> None)"

definition volume_of :: "json \<Rightarrow> (string \<times> string \<times> bool) option" where
  "volume_of v = (case v of JArr [JStr a, JStr b, JBool r] \<Rightarrow> Some (a, b, r) | _ \<Rightarrow> None)"

definition publish_of :: "json \<Rightarrow> (nat \<times> nat \<times> string) option" where
  "publish_of v = (case v of
     JArr [JNum h, JNum p, JStr t] \<Rightarrow> (case (parse_nat h, parse_nat p) of (Some h', Some p') \<Rightarrow> Some (h', p', t) | _ \<Rightarrow> None)
   | _ \<Rightarrow> None)"

definition env_of :: "json \<Rightarrow> (string \<times> string) list option" where
  "env_of v = (case v of
     JObj ms \<Rightarrow> map_option py_dict (those (map (\<lambda>(k, x). map_option (Pair k) (text_of x)) ms)) | _ \<Rightarrow> None)"

definition timeout_of :: "json option \<Rightarrow> pyfloat option option" where
  "timeout_of v = (case v of None \<Rightarrow> Some None | Some (JNum n) \<Rightarrow> map_option Some (float_of_text n) | _ \<Rightarrow> None)"

definition opts_of_json :: "(string \<times> json) list \<Rightarrow> store_exc + run_opts" where
  "opts_of_json ms =
     try_bind (need (bool_of (job_option ms ''rm'' (JBool False)))) (\<lambda>rm.
     try_bind (need (items_of volume_of (job_option ms ''volumes'' (JArr [])))) (\<lambda>volumes.
     try_bind (need (env_of (job_option ms ''env'' (JObj [])))) (\<lambda>env.
     try_bind (need (maybe_text (job_option ms ''workdir'' JNull))) (\<lambda>workdir.
     try_bind (need (text_of (job_option ms ''network'' (JStr ''none'')))) (\<lambda>network.
     try_bind (need (bool_of (job_option ms ''allow_raw_sockets'' (JBool False)))) (\<lambda>raw.
     try_bind (need (bool_of (job_option ms ''rctl_enabled'' (JBool True)))) (\<lambda>rctl.
     try_bind (need (items_of text_of (job_option ms ''rctl_rules'' JNull))) (\<lambda>rules.
     try_bind (need (bool_of (job_option ms ''allow_unrestricted_devfs'' (JBool False)))) (\<lambda>devfs.
     try_bind (need (maybe_text (job_option ms ''image_id'' JNull))) (\<lambda>image_id.
     try_bind (need (maybe_text (job_option ms ''jail_name'' JNull))) (\<lambda>jail_name.
     try_bind (need (items_of publish_of (job_option ms ''publish'' JNull))) (\<lambda>publish.
     try_bind (need (items_of text_of (job_option ms ''tmpfs'' JNull))) (\<lambda>tmpfs.
     try_bind (need (bool_of (job_option ms ''read_only'' (JBool False)))) (\<lambda>read_only.
     try_bind (need (bool_of (job_option ms ''interactive'' (JBool False)))) (\<lambda>interactive.
     Inr \<lparr> op_rm = rm, op_volumes = volumes, op_env = env, op_workdir = workdir, op_network = network, op_raw_sockets = raw,
       op_rctl_enabled = rctl, op_rctl_rules = rules, op_unrestricted_devfs = devfs, op_image_id = image_id, op_jail_name = jail_name,
       op_publish = publish, op_tmpfs = tmpfs, op_read_only = read_only, op_interactive = interactive \<rparr>)))))))))))))))"

definition run_of_json :: "json \<times> json \<times> json \<Rightarrow> store_exc + string \<times> string list \<times> run_opts \<times> pyfloat option" where
  "run_of_json job =
     (case job of (image_ref, cmd, opts) \<Rightarrow>
     (case opts of
       JObj ms \<Rightarrow>
         try_bind (need (text_of image_ref)) (\<lambda>i.
         try_bind (need (items_of text_of cmd)) (\<lambda>ws.
         try_bind (opts_of_json ms) (\<lambda>o'.
         try_bind (need (timeout_of (jlookup ''timeout'' ms))) (\<lambda>t.
         Inr (i, ws, o', t)))))
     | _ \<Rightarrow> attribute_error))"

definition job_of_json :: "json \<Rightarrow> store_exc + json \<times> json \<times> json" where
  "job_of_json job =
     try_bind (jitem ''image_ref'' job) (\<lambda>image_ref.
     try_bind (jitem ''cmd'' job) (\<lambda>cmd.
     try_bind (jitem ''opts'' job) (\<lambda>opts. Inr (image_ref, cmd, opts))))"

text \<open>The temporary file: its directory and random part are those of \<^const>\<open>cl_job_file\<close>, and the jail's name
  stands in between.\<close>

definition job_file :: "'w cli_env \<Rightarrow> string \<Rightarrow> path" where
  "job_file env jail_name =
     butlast (cl_job_file env) @ components (''jailrun-'' @ jail_name @ ''-'' @ last (cl_job_file env) @ ''.json'')"

definition name_in_use :: "string \<Rightarrow> string" where
  "name_in_use n = ''jailrun: name '' @ py_repr n @ '' is already in use by a running jail''"

definition name_in_ledger :: "string \<Rightarrow> string" where
  "name_in_ledger n = ''jailrun: name '' @ py_repr n @ '' is already in the run-state db as 'running' '' @ em_dash @
     '' run `jailrun gc --fix` first''"

text \<open>A name that was given is looked for among the live jails and the running rows.\<close>

definition name_taken :: "'w cli_env \<Rightarrow> string option \<Rightarrow> 'w console \<Rightarrow> string option \<times> 'w console" where
  "name_taken env given c =
     (if getenv_or given [] = [] then (None, c)
      else (let ((live, _), c1) = check_live env (the given) c in
        if live then (Some (name_in_use (the given)), c1)
        else (case all_runs env (Some RUNNING) c1 of
            (Inl _, c2) \<Rightarrow> (None, c2)
          | (Inr rows, c2) \<Rightarrow> (if list_ex (\<lambda>r. rr_jail_name r = the given) rows then Some (name_in_ledger (the given)) else None, c2))))"

definition start_runner :: "'w cli_env \<Rightarrow> program \<Rightarrow> string \<Rightarrow> path \<Rightarrow> (int, 'w) cmd" where
  "start_runner env prog jail_name job_path c =
     (case on_co_host (cl_popen env [pg_executable prog, ''-m'', ''runtime.runner'', path_str job_path]) c of
        (Inl e, c1) \<Rightarrow> (Inl (Other_error e), c1)
      | (Inr _, c1) \<Rightarrow> finish 0 (say jail_name c1))"

definition cmd_run_detached :: "'w cli_env \<Rightarrow> program \<Rightarrow> namespace \<Rightarrow> (int, 'w) cmd" where
  "cmd_run_detached env prog ns c =
     (let given = arg_text ns ''name'';
          jail_name = (if getenv_or given [] = [] then ''jailrun-'' @ take 16 (cl_uuid env) else the given)
      in case name_taken env given c of
           (Some message, c1) \<Rightarrow> finish 1 (complain message c1)
         | (None, c1) \<Rightarrow>
             (case rctl_rules_from_args ns of
                Inl e \<Rightarrow> (Inl e, c1)
              | Inr rules \<Rightarrow>
                  (let job = job_json (image_arg ns) (cmd_words ns) (opts_of_args ns rules (Some jail_name)) (arg_float ns ''timeout'')
                   in case on_co_host (on_tree (fs_write (ee_lim (base_env env)) (json_line job) (job_file env jail_name))) c1 of
                        (Inl e, c2) \<Rightarrow> (Inl e, c2)
                      | (Inr _, c2) \<Rightarrow> start_runner env prog jail_name (job_file env jail_name) c2)))"

definition cmd_run :: "'w cli_env \<Rightarrow> program \<Rightarrow> namespace \<Rightarrow> 'w console \<Rightarrow> ((store_exc + int) \<times> 'w console) option" where
  "cmd_run env prog ns c =
     (if arg_true ns ''detach'' then Some (cmd_run_detached env prog ns c) else cmd_run_foreground env ns c)"

section \<open>The runner\<close>

definition unlink_job :: "'w cli_env \<Rightarrow> path \<Rightarrow> 'w console \<Rightarrow> 'w console" where
  "unlink_job env p c = snd (on_co_host (on_tree (fs_unlink (ee_lim (base_env env)) p)) c)"

definition runner_end :: "'w cli_env \<Rightarrow> path \<Rightarrow> (store_exc + int) \<times> 'w console \<Rightarrow> (store_exc + int) \<times> 'w console" where
  "runner_end env p rc =
     (case rc of
        (Inl e, c) \<Rightarrow> finish 1 (unlink_job env p (complain (''runner: '' @ cl_exc env e) c))
      | (Inr code, c) \<Rightarrow> finish code (unlink_job env p c))"

definition runner_main :: "'w cli_env \<Rightarrow> string list \<Rightarrow> 'w console \<Rightarrow> ((store_exc + int) \<times> 'w console) option" where
  "runner_main env argv c =
     (case argv of
        _ # job_path # _ \<Rightarrow>
          (case read_json (ee_lim (base_env env)) (fst (co_host c)) (components job_path) of
             Inl e \<Rightarrow> Some (finish 1 (complain (''runner: cannot load job '' @ py_repr job_path @ '': '' @ cl_exc env e) c))
           | Inr job \<Rightarrow>
               (case job_of_json job of
                  Inl e \<Rightarrow> Some (Inl e, c)
                | Inr parts \<Rightarrow>
                    map_option (runner_end env (components job_path))
                      (case run_of_json parts of
                         Inl e \<Rightarrow> Some (Inl e, c)
                       | Inr (image_ref, cmd, opts, timeout) \<Rightarrow> engine_run env timeout opts image_ref cmd c)))
      | _ \<Rightarrow> Some (finish 1 (complain ''usage: python3 -m runtime.runner <job-file>'' c)))"

section \<open>exec\<close>

text \<open>The arguments again are those of \<^const>\<open>jexec_argv\<close>, but no shell stands in for a missing command.
  The log is opened for appending, or left alone.\<close>

definition append_log :: "'w cli_env \<Rightarrow> string \<Rightarrow> 'w console \<Rightarrow> 'w console" where
  "append_log env jail c =
     (case log_path_of env jail c of
        (Inl _, c1) \<Rightarrow> c1
      | (Inr p, c1) \<Rightarrow>
          if getenv_or p [] = [] then c1
          else snd (on_co_host (on_tree (fs_touch (ee_lim (base_env env)) (components (the p)))) c1))"

definition cmd_exec_detached :: "'w cli_env \<Rightarrow> namespace \<Rightarrow> (int, 'w) cmd" where
  "cmd_exec_detached env ns c =
     (let jail = jail_arg ns; ((live, message), c1) = check_live env jail c in
      if \<not> live then finish 1 (complain message c1)
      else (case on_co_host (cl_popen env (jexec_argv jail (cmd_words ns) (py_dict (arg_items ns ''env'' pair_item)) (arg_text ns ''workdir'')))
                   (append_log env jail c1) of
          (Inl e, c2) \<Rightarrow> (Inl (Other_error e), c2)
        | (Inr pid, c2) \<Rightarrow> finish 0 (say (''jailrun exec: detached PID '' @ show_nat pid) c2)))"

definition cmd_exec :: "'w cli_env \<Rightarrow> namespace \<Rightarrow> (int, 'w) cmd" where
  "cmd_exec env ns c =
     (let jail = jail_arg ns; ((live, message), c1) = check_live env jail c in
      if \<not> live then finish 1 (complain message c1)
      else if arg_true ns ''detach'' then cmd_exec_detached env ns c1
      else (case on_co_host (exec_run (cl_engine env (arg_float ns ''timeout'')) jail (cmd_words ns)
                   (py_dict (arg_items ns ''env'' pair_item)) (arg_text ns ''workdir'')) c1 of
          (Inl e, c2) \<Rightarrow> finish 1 (complain (''jailrun exec: failed: '' @ cl_exc env e) c2)
        | (Inr rc, c2) \<Rightarrow> finish rc c2))"

section \<open>cp\<close>

text \<open>\<^verbatim>\<open>JAIL_NAME:path\<close>, or a path of the host.\<close>

definition parse_spec :: "string \<Rightarrow> string option \<times> string" where
  "parse_spec spec =
     (case py_cut (CHR '':'') spec of
        Some (jail, p) \<Rightarrow> if jail \<noteq> [] \<and> p \<noteq> [] then (Some jail, p) else (None, spec)
      | None \<Rightarrow> (None, spec))"

text \<open>\<^verbatim>\<open>os.path.dirname\<close> or \<^verbatim>\<open>"."\<close>, and \<^verbatim>\<open>os.path.join\<close> with a name.\<close>

definition parent_or_dot :: "string \<Rightarrow> string" where
  "parent_or_dot p =
     (case py_rcut (CHR ''/'') p of
        None \<Rightarrow> ''.''
      | Some (head, _) \<Rightarrow> if list_all (\<lambda>ch. ch = CHR ''/'') head then head @ ''/'' else py_rstrip_char (CHR ''/'') head)"

definition join_name :: "string \<Rightarrow> string \<Rightarrow> string" where
  "join_name d name = (if d = [] \<or> py_endswith d ''/'' then d @ name else d @ ''/'' @ name)"

text \<open>\<^verbatim>\<open>os.rename\<close>: a file replaces what is no directory, a directory an empty one.\<close>

definition move_tree :: "path \<Rightarrow> path \<Rightarrow> fs \<Rightarrow> fs" where
  "move_tree a b fs = map (\<lambda>(q, n). (if prefix a q then b @ drop (length a) q else q, n)) (drop_tree b fs)"

definition fs_rename :: "nat \<Rightarrow> path \<Rightarrow> path \<Rightarrow> fs \<Rightarrow> fs_result" where
  "fs_rename links p p' fs =
     (case (locate links fs p, locate links fs p') of
        (Some a, Some b) \<Rightarrow>
          (case look fs a of
             None \<Rightarrow> (Some (Os_error ''ENOENT''), fs)
           | Some n \<Rightarrow>
               if a = b then (None, fs)
               else if n = Dir then
                 (if prefix a b then (Some (Os_error ''EINVAL''), fs)
                  else (case look fs b of
                      None \<Rightarrow> (None, move_tree a b fs)
                    | Some Dir \<Rightarrow> if child_names fs b = [] then (None, move_tree a b fs) else (Some (Os_error ''ENOTEMPTY''), fs)
                    | Some _ \<Rightarrow> (Some (Os_error ''ENOTDIR''), fs)))
               else if look fs b = Some Dir then (Some (Os_error ''EISDIR''), fs)
               else (None, move_tree a b fs))
      | _ \<Rightarrow> (Some (Os_error ''ENOENT''), fs))"

text \<open>A pipe of two commands, of which only the status of the second one counts.\<close>

definition pipe :: "'w cli_env \<Rightarrow> string list \<Rightarrow> string list \<Rightarrow> (unit, 'w) act" where
  "pipe env first second h =
     (case cl_pipe env first second h of
        (Inl e, h') \<Rightarrow> (Inl (Other_error e), h')
      | (Inr (Spawn_error e), h') \<Rightarrow> (Inl (Other_error e), h')
      | (Inr (Completed rc _ _), h') \<Rightarrow> (if rc = 0 then Inr () else Inl (Command_failed rc second), h'))"

text \<open>The archive holds the whole path below the jail's root, and one component of it is cut off.\<close>

definition copy_from_jail :: "'w cli_env \<Rightarrow> program \<Rightarrow> string \<Rightarrow> string \<Rightarrow> string \<Rightarrow> (unit, 'w) act" where
  "copy_from_jail env prog jail src dst =
     (let links = ee_lim (base_env env); dst_parent = parent_or_dot dst; rel_src = py_lstrip_char (CHR ''/'') src;
          src_base = py_after_last (CHR ''/'') rel_src; dst_base = py_after_last (CHR ''/'') dst;
          extracted = at_cwd prog (join_name dst_parent src_base) in
      then_do (if dst_parent \<noteq> ''.'' then on_tree (fs_mkdirs links (at_cwd prog dst_parent)) else give ()) (\<lambda>_.
      then_do (pipe env [''jexec'', jail, ''tar'', ''-C'', ''/'', ''-cf'', ''-'', rel_src]
                 [''tar'', ''xf'', ''-'', ''--strip-components'', ''1'', ''-C'', dst_parent]) (\<lambda>_.
      if src_base = dst_base then give ()
      else then_do (tree_exists links extracted) (\<lambda>there.
           if there then on_tree (fs_rename links extracted (at_cwd prog dst)) else give ()))))"

definition spawned :: "'w cli_env \<Rightarrow> string list \<Rightarrow> (unit, 'w) act" where
  "spawned env argv h =
     (case ee_tool (base_env env) None [] argv h of
        (Spawn_error e, h') \<Rightarrow> (Inl (Other_error e), h') | (Completed _ _ _, h') \<Rightarrow> (Inr (), h'))"

definition copy_to_jail :: "'w cli_env \<Rightarrow> string \<Rightarrow> string \<Rightarrow> string \<Rightarrow> (unit, 'w) act" where
  "copy_to_jail env jail src dst =
     (let src_dir = parent_or_dot src; src_base = py_after_last (CHR ''/'') src; dst_parent = parent_or_dot dst;
          dst_base = py_after_last (CHR ''/'') dst in
      then_do (if dst_parent \<noteq> ''.'' then spawned env [''jexec'', jail, ''mkdir'', ''-p'', dst_parent] else give ()) (\<lambda>_.
      then_do (pipe env [''tar'', ''-C'', src_dir, ''-cf'', ''-'', src_base] [''jexec'', jail, ''tar'', ''xf'', ''-'', ''-C'', dst_parent]) (\<lambda>_.
      if src_base = dst_base then give () else spawned env [''jexec'', jail, ''mv'', join_name dst_parent src_base, dst])))"

text \<open>Either direction, for a jail that is live.\<close>

definition copied :: "'w cli_env \<Rightarrow> string \<Rightarrow> string \<Rightarrow> (unit, 'w) act \<Rightarrow> (int, 'w) cmd" where
  "copied env jail where_to m c =
     (let ((live, message), c1) = check_live env jail c in
      if \<not> live then finish 1 (complain message c1)
      else (case on_co_host m c1 of
          (Inl e, c2) \<Rightarrow> finish 1 (complain (''jailrun cp: failed to copy '' @ where_to @ '' jail: '' @ cl_exc env e) c2)
        | (Inr _, c2) \<Rightarrow> finish 0 c2))"

definition cmd_cp :: "'w cli_env \<Rightarrow> program \<Rightarrow> string \<Rightarrow> string \<Rightarrow> (int, 'w) cmd" where
  "cmd_cp env prog src dst c =
     (case (parse_spec src, parse_spec dst) of
        ((Some _, _), (Some _, _)) \<Rightarrow> finish 1 (complain ''jailrun cp: cannot copy between two jails'' c)
      | ((None, _), (None, _)) \<Rightarrow> finish 1 (complain ''jailrun cp: one path must include JAIL_NAME:'' c)
      | ((Some jail, src_path), (None, dst_path)) \<Rightarrow> copied env jail ''from'' (copy_from_jail env prog jail src_path dst_path) c
      | ((None, src_path), (Some jail, dst_path)) \<Rightarrow> copied env jail ''to'' (copy_to_jail env jail src_path dst_path) c)"

section \<open>main\<close>

text \<open>The version is looked up when the module is loaded.  What \<^verbatim>\<open>argparse\<close> itself prints, with its exit status
  2 for an error and 0 for help, is not modelled.\<close>

definition run_subcommand ::
  "'w cli_env \<Rightarrow> program \<Rightarrow> string option \<Rightarrow> string \<Rightarrow> namespace \<Rightarrow> 'w console \<Rightarrow> ((store_exc + int) \<times> 'w console) option" where
  "run_subcommand env prog cache cmd ns c =
     (let jail = jail_arg ns; fmt = getenv_or (arg_text ns ''format'') [] in
      if cmd = ''run'' then cmd_run env prog ns c
      else if cmd = ''exec'' then Some (cmd_exec env ns c)
      else if cmd = ''pull'' then
        Some (cmd_pull env (image_arg ns) (case getarg ns ''creds'' of AV_pair u p \<Rightarrow> Some (u, p) | _ \<Rightarrow> None) (arg_text ns ''authfile'') c)
      else if cmd = ''ps'' then Some (cmd_ps env (arg_true ns ''all'') c)
      else if cmd = ''logs'' then cmd_logs env jail (arg_true ns ''follow'') c
      else if cmd = ''stop'' then Some (cmd_stop env jail (arg_true ns ''rm'') c)
      else if cmd = ''rm'' then Some (cmd_rm env jail c)
      else if cmd = ''wait'' then cmd_wait env jail c
      else if cmd = ''inspect'' then Some (cmd_inspect env jail c)
      else if cmd = ''commit'' then Some (cmd_commit env jail (arg_text ns ''image_ref'') c)
      else if cmd = ''stats'' then Some (cmd_stats env jail c)
      else if cmd = ''cp'' then Some (cmd_cp env prog (getenv_or (arg_text ns ''source'') []) (getenv_or (arg_text ns ''dest'') []) c)
      else if cmd = ''explain'' then Some (cmd_explain env prog (arg_text ns ''manifest'') (arg_text ns ''image'') fmt c)
      else if cmd = ''scan'' then Some (cmd_scan env (arg_items ns ''images'' text_item) fmt c)
      else if cmd = ''version'' then Some (cmd_version env prog cache c)
      else if cmd = ''help'' then Some (cmd_help env prog (arg_text ns ''topic'') c)
      else if cmd = ''doctor'' then Some (cmd_doctor env fmt c)
      else if cmd = ''gc'' then Some (cmd_gc env (arg_true ns ''fix'') fmt c)
      else if cmd \<in> {''freeze'', ''thaw'', ''hibernate'', ''restore''} then Some (cmd_lifecycle env cmd jail c)
      else Some (finish 1 (write_out (pg_usage prog None) c)))"

definition main :: "'w cli_env \<Rightarrow> program \<Rightarrow> string list \<Rightarrow> 'w console \<Rightarrow> ((store_exc + int) \<times> 'w console) option" where
  "main env prog argv c =
     (case jailrun_version prog (ee_tool (base_env env)) (ee_lim (base_env env)) None (co_host c) of
        (Inl e, _, h) \<Rightarrow> Some (Inl e, c \<lparr> co_host := h \<rparr>)
      | (Inr _, cache, h) \<Rightarrow>
          (let c1 = c \<lparr> co_host := h \<rparr> in
           case parse_args argv of
             Inl (Usage_error _) \<Rightarrow> Some (finish 2 c1)
           | Inl Help_shown \<Rightarrow> Some (finish 0 c1)
           | Inr (cmd, ns) \<Rightarrow> run_subcommand env prog cache cmd ns c1))"

end
