(* ===== verification/CliProofs.thy ===== *)
theory CliProofs
  imports CliRun
begin

text \<open>
  What the command line makes of the components below it: the job of a detached run, the addresses of
  runs in processes of their own, the end of every subcommand, and \<^verbatim>\<open>cp\<close>.
\<close>

section \<open>The job of a detached run\<close>

lemma those_map: "(\<And>x. x \<in> set xs \<Longrightarrow> f (g x) = Some x) \<Longrightarrow> those (map f (map g xs)) = Some xs"
  by (induction xs) simp_all

lemma items_of_list [simp]:
  "(\<And>x. x \<in> set xs \<Longrightarrow> f (g x) = Some x) \<Longrightarrow> items_of f (list_or_null (map g xs)) = Some xs"
  "(\<And>x. x \<in> set xs \<Longrightarrow> f (g x) = Some x) \<Longrightarrow> items_of f (JArr (map g xs)) = Some xs"
  using those_map [of xs f g] by (simp_all add: items_of_def list_or_null_def)

lemma scalar_of [simp]:
  "text_of (JStr s) = Some s" "bool_of (JBool b) = Some b" "maybe_text (text_or_null t) = Some t" "maybe_text JNull = Some None"
  "volume_of (case v of (a, b, r) \<Rightarrow> JArr [JStr a, JStr b, JBool r]) = Some v"
  "publish_of (case p of (h, c, t) \<Rightarrow> JArr [jnat h, jnat c, JStr t]) = Some p"
  by (simp_all add: text_of_def bool_of_def maybe_text_def text_or_null_def volume_of_def publish_of_def jnat_def
      split: option.split prod.split)

lemma py_dict_keys: "distinct (map fst (py_dict kvs))"
  by (simp add: py_dict_def comp_def)

lemma py_dict_distinct: "distinct (map fst kvs) \<Longrightarrow> py_dict kvs = kvs"
  using map_of_is_SomeI [of "rev kvs"]
  by (force simp: py_dict_def distinct_remdups_id comp_def rev_map [symmetric] intro!: map_idI)

lemma env_of_members: "distinct (map fst kvs) \<Longrightarrow> env_of (JObj (map (\<lambda>(k, v). (k, JStr v)) kvs)) = Some kvs"
  using those_map [of kvs "\<lambda>(k, x). map_option (Pair k) (text_of x)" "\<lambda>(k, v). (k, JStr v)"]
  by (auto simp: env_of_def py_dict_distinct)

lemma opts_read_back:
  assumes "distinct (map fst (op_env o'))" and "op_image_id o' = None" and "opts_json o' None = JObj ms"
  shows "opts_of_json ms = Inr o'" and "jlookup ''timeout'' ms = None"
proof -
  have m: "job_option ms k d = job_option (case opts_json o' None of JObj ms \<Rightarrow> ms | _ \<Rightarrow> []) k d" for k d by (simp add: assms(3))
  show "opts_of_json ms = Inr o'"
    using assms(1,2) unfolding opts_of_json_def m
    by (simp add: opts_json_def job_option_def jlookup_def need_def env_of_members)
  have "ms = (case opts_json o' None of JObj ms \<Rightarrow> ms | _ \<Rightarrow> [])" by (simp add: assms(3))
  then show "jlookup ''timeout'' ms = None" by (simp add: opts_json_def jlookup_def)
qed

lemma job_read_back:
  assumes "distinct (map fst (op_env o'))" and "op_image_id o' = None"
  shows "\<exists>parts. job_of_json (job_json image_ref cmd o' None) = Inr parts \<and> run_of_json parts = Inr (image_ref, cmd, o', None)"
proof -
  obtain ms where ms: "opts_json o' None = JObj ms" by (simp add: opts_json_def)
  show ?thesis
    using opts_read_back [OF assms ms]
    by (simp add: job_of_json_def job_json_def run_of_json_def jitem_def jlookup_def need_def timeout_of_def ms)
qed

lemma job_ok: "json_ok (job_json image_ref cmd o' None)"
  by (auto simp: job_json_def opts_json_def list_or_null_def text_or_null_def jnat_def int_text_show_nat list_all_iff
      split: option.split prod.split)

lemma split_first: "x \<noteq> c \<Longrightarrow> \<exists>p ps. py_split c (x # xs) = (x # p) # ps"
  by (auto split: list.split)

lemma plain_job_file:
  assumes "plain_path (cl_job_file env)"
  shows "plain_path (job_file env n)"
proof -
  let ?s = "''jailrun-'' @ n @ ''-'' @ last (cl_job_file env) @ ''.json''"
  have "CHR ''/'' \<notin> set c" if "c \<in> set (components s)" for c s
    using that py_split_pieces [of c "CHR ''/''" s] by (auto simp: components_def)
  moreover have "components ?s \<noteq> []"
  proof -
    obtain p ps where "py_split (CHR ''/'') ?s = (CHR ''j'' # p) # ps"
      using split_first [of "CHR ''j''" "CHR ''/''" "drop 1 ?s"] by auto
    then show ?thesis by (simp add: components_def)
  qed
  moreover have "c \<noteq> [] \<and> c \<noteq> ''.''" if "c \<in> set (components s)" for c s
    using that by (simp add: components_def)
  ultimately show ?thesis
    using assms by (auto simp: plain_path_def job_file_def list_all_iff dest: in_set_butlastD)
qed

lemma co_out_quiet [simp]:
  "co_out (snd (check_live env jail c)) = co_out c" "co_out (snd (all_runs env st c)) = co_out c" "co_out (snd (on_co_host m c)) = co_out c"
  by (simp_all add: check_live_def all_runs_def on_ledger_def on_co_host_def split_beta Let_def)

lemma name_taken_out:
  assumes "name_taken env given c = (r, c1)"
  shows "co_out c1 = co_out c"
proof -
  have "co_out (snd (name_taken env given c)) = co_out c"
    by (simp add: name_taken_def Let_def split_beta split: sum.split)
  then show ?thesis using assms by simp
qed

lemma detached_run_cases:
  assumes "cmd_run_detached env prog ns c = (Inr 0, c2)"
  obtains n rules c1 fs1 pid where "rctl_rules_from_args ns = Inr rules"
    and "getenv_or (arg_text ns ''name'') [] \<noteq> [] \<longrightarrow> arg_text ns ''name'' = Some n" and "co_out c1 = co_out c"
    and "fs_write (ee_lim (base_env env)) (json_line (job_json (image_arg ns) (cmd_words ns) (opts_of_args ns rules (Some n)) (arg_float ns ''timeout'')))
           (job_file env n) (fst (co_host c1)) = (None, fs1)"
    and "fst (cl_popen env [pg_executable prog, ''-m'', ''runtime.runner'', path_str (job_file env n)] (fs1, snd (co_host c1))) = Inr pid"
    and "c2 = say n (c1 \<lparr> co_host := snd (cl_popen env [pg_executable prog, ''-m'', ''runtime.runner'', path_str (job_file env n)]
           (fs1, snd (co_host c1))) \<rparr>)"
proof -
  define n where "n = (if getenv_or (arg_text ns ''name'') [] = [] then ''jailrun-'' @ take 16 (cl_uuid env) else the (arg_text ns ''name''))"
  obtain c1 where t: "name_taken env (arg_text ns ''name'') c = (None, c1)"
    using assms by (auto simp: cmd_run_detached_def Let_def finish_def split: prod.splits option.splits)
  obtain rules where r: "rctl_rules_from_args ns = Inr rules"
    using assms t by (auto simp: cmd_run_detached_def Let_def split: sum.splits)
  let ?w = "fs_write (ee_lim (base_env env)) (json_line (job_json (image_arg ns) (cmd_words ns) (opts_of_args ns rules (Some n)) (arg_float ns ''timeout'')))
           (job_file env n) (fst (co_host c1))"
  obtain fs1 where w: "?w = (None, fs1)"
    using assms t r by (auto simp: cmd_run_detached_def Let_def on_co_host_def on_tree_def n_def split: prod.splits option.splits)
  have s: "start_runner env prog n (job_file env n) (c1 \<lparr> co_host := (fs1, snd (co_host c1)) \<rparr>) = (Inr 0, c2)"
    using assms t r w by (simp add: cmd_run_detached_def Let_def on_co_host_def on_tree_def flip: n_def)
  obtain pid where p: "fst (cl_popen env [pg_executable prog, ''-m'', ''runtime.runner'', path_str (job_file env n)] (fs1, snd (co_host c1))) = Inr pid"
    and c2: "c2 = say n (c1 \<lparr> co_host := snd (cl_popen env [pg_executable prog, ''-m'', ''runtime.runner'', path_str (job_file env n)]
           (fs1, snd (co_host c1))) \<rparr>)"
    using s by (auto simp: start_runner_def on_co_host_def finish_def split: prod.splits sum.splits)
  have nm: "getenv_or (arg_text ns ''name'') [] \<noteq> [] \<longrightarrow> arg_text ns ''name'' = Some n"
    by (auto simp: n_def getenv_or_def split: option.splits)
  show thesis by (rule that [OF r nm name_taken_out [OF t] w p c2])
qed

text \<open>C3: What \<^verbatim>\<open>jailrun run -d\<close> starts is the run that the command line asks for.  If the command ends well,
  the name it has printed is the one given, if one was; and the runner, given the file it has left,
  runs the engine on the same image and command with the very options of the foreground run but for
  that name, and then removes the file.  (Without \<^verbatim>\<open>--timeout\<close>; starting a process leaves the files as
  they are.)\<close>

theorem detached_run_is_the_run:
  assumes "cmd_run_detached env prog ns c = (Inr 0, c2)" and "arg_float ns ''timeout'' = None"
    and "plain_path (cl_job_file env)" and "\<And>argv h. fst (snd (cl_popen env argv h)) = fst h"
  shows "\<exists>n rules. co_out c2 = co_out c @ n @ [NL] \<and> (getenv_or (arg_text ns ''name'') [] \<noteq> [] \<longrightarrow> arg_text ns ''name'' = Some n)
    \<and> rctl_rules_from_args ns = Inr rules
    \<and> runner_main env [''runner'', path_str (job_file env n)] c2 =
        map_option (runner_end env (job_file env n))
          (engine_run env None (opts_of_args ns rules (Some n)) (image_arg ns) (cmd_words ns) c2)"
proof (rule detached_run_cases [OF assms(1)])
  fix n rules c1 fs1 pid
  let ?o = "opts_of_args ns rules (Some n)"
  assume r: "rctl_rules_from_args ns = Inr rules" and nm: "getenv_or (arg_text ns ''name'') [] \<noteq> [] \<longrightarrow> arg_text ns ''name'' = Some n"
    and out: "co_out c1 = co_out c"
    and w: "fs_write (ee_lim (base_env env)) (json_line (job_json (image_arg ns) (cmd_words ns) ?o (arg_float ns ''timeout'')))
           (job_file env n) (fst (co_host c1)) = (None, fs1)"
    and c2: "c2 = say n (c1 \<lparr> co_host := snd (cl_popen env [pg_executable prog, ''-m'', ''runtime.runner'', path_str (job_file env n)]
           (fs1, snd (co_host c1))) \<rparr>)"
  have t: "fst (co_host c2) = fs1" using assms(4) by (simp add: c2 say_def)
  have rd: "read_json (ee_lim (base_env env)) fs1 (job_file env n) = Inr (job_json (image_arg ns) (cmd_words ns) ?o None)"
    using write_read [OF w] json_loads_line [OF job_ok] assms(2) by (simp add: read_json_def)
  have pp: "components (path_str (job_file env n)) = job_file env n"
    by (rule components_path_str [OF plain_job_file [OF assms(3)]])
  have "distinct (map fst (op_env ?o))" "op_image_id ?o = None" by (simp_all add: opts_of_args_def py_dict_keys)
  from job_read_back [OF this] obtain parts
    where "job_of_json (job_json (image_arg ns) (cmd_words ns) ?o None) = Inr parts" "run_of_json parts = Inr (image_arg ns, cmd_words ns, ?o, None)"
    by blast
  then have "runner_main env [''runner'', path_str (job_file env n)] c2 =
      map_option (runner_end env (job_file env n)) (engine_run env None ?o (image_arg ns) (cmd_words ns) c2)"
    by (simp add: runner_main_def pp t rd)
  moreover have "co_out c2 = co_out c @ n @ [NL]" by (simp add: c2 say_def out)
  ultimately show ?thesis using r nm by blast
qed

definition demo_ns :: namespace where
  "demo_ns = [(''image'', AV_text ''alpine''), (''cmd'', AV_list [AV_text ''ls'']), (''name'', AV_none), (''network'', AV_text ''none''),
     (''rctl_enabled'', AV_bool True)]"

lemma detached_run_is_the_run_witness:
  "\<exists>n rules c2. cmd_run_detached (demo_cli all_fine) demo_program demo_ns (console tmp_tree []) = (Inr 0, c2) \<and> co_out c2 = n @ [NL]
    \<and> runner_main (demo_cli all_fine) [''runner'', path_str (job_file (demo_cli all_fine) n)] c2 =
        map_option (runner_end (demo_cli all_fine) (job_file (demo_cli all_fine) n))
          (engine_run (demo_cli all_fine) None (opts_of_args demo_ns rules (Some n)) ''alpine'' [''ls''] c2)"
proof -
  let ?e = "demo_cli all_fine" and ?c = "console tmp_tree []"
  have "fst (cmd_run_detached ?e demo_program demo_ns ?c) = Inr 0" by code_simp
  then obtain c2 where r: "cmd_run_detached ?e demo_program demo_ns ?c = (Inr 0, c2)" by (metis prod.collapse)
  have t: "arg_float demo_ns ''timeout'' = None" by code_simp
  have p: "plain_path (cl_job_file ?e)" by (simp add: demo_cli_def plain_path_def)
  have q: "fst (snd (cl_popen ?e argv h)) = fst h" for argv h by (simp add: demo_cli_def)
  have i: "image_arg demo_ns = ''alpine''" "cmd_words demo_ns = [''ls'']" "co_out ?c = []" by code_simp+
  show ?thesis using detached_run_is_the_run [OF r t p q] unfolding i using r by auto
qed

section \<open>The addresses of two runs\<close>

text \<open>A run of this program whose jail is up, in the state \<^verbatim>\<open>s\<close>: everything before the command.\<close>

definition jail_up ::
  "'w engine_env \<Rightarrow> run_opts \<Rightarrow> string \<Rightarrow> 'w console \<Rightarrow> network_spec option \<Rightarrow> string \<Rightarrow> 'w eng \<Rightarrow> bool" where
  "jail_up env opts image_ref c spec jail_name s \<longleftrightarrow>
     (\<exists>ok image_id s0 cmd_env. before_try env opts image_ref (fresh_locals (new_process c)) = (Inr (spec, ok, image_id), s0) \<and>
        make_jail env opts image_ref spec ok image_id s0 = (Inr (jail_name, cmd_env), s))"

lemma setup_network_address:
  assumes "setup_network env opts spec n s = (Inr u, s')" and "en_used_ips s = []" and "en_jail_ip s = None"
  shows "en_jail_ip s' = (case spec of None \<Rightarrow> None | Some _ \<Rightarrow> Some (pool_ip 2))"
proof -
  obtain s1 s2 where a: "(case spec of None \<Rightarrow> done_with () | Some sp \<Rightarrow> setup_allow env n sp) s = (Inr (), s1)"
    and v: "when_so (op_network opts = ''vnet'') (setup_vnet env n) s1 = (Inr (), s2)" and p: "setup_publish env opts n s2 = (Inr u, s')"
    using assms(1) unfolding setup_network_def by (auto elim!: bind_Inr)
  have "ips s2 = ips s1" using v keepsD [OF run_ips.keeps_vnet] by (auto simp: when_so_def done_with_def split: if_splits)
  moreover have "ips s' = ips s2" by (rule keepsD [OF run_ips.keeps_publish p])
  moreover have "en_jail_ip s1 = (case spec of None \<Rightarrow> None | Some _ \<Rightarrow> Some (pool_ip 2))"
  proof (cases spec)
    case None
    then show ?thesis using a assms(3) by (simp add: done_with_def)
  next
    case (Some sp)
    then have "setup_allow env n sp s = (Inr (), s1)" using a by simp
    then obtain ext x y s3 s4 ip s5 where e: "on_net env detect_ext_if s = (Inr (Some ext), s3)" and i: "take_jail_ip s3 = (Inr ip, s4)"
      and g: "on_net env (\<lambda>nv. apply_network nv n ip (render_pf_anchor n ip ext x y)) s4 = (Inr (), s1)"
      unfolding setup_allow_def
      by (auto elim!: bind_Inr simp: of_result_def done_with_def fail_with_def split: option.splits)
    have u: "ips s3 = ips s" using run_ips.view_on_net [of env detect_ext_if s] e by simp
    have "alloc_jail_ip [] DEFAULT_POOL 24 = Some (pool_ip 2)" using alloc_jail_ip_lowest_free [of "[]" "pool_ip 2"] by auto
    moreover have "en_used_ips s3 = []" using u assms(2) by (simp add: ips_def)
    ultimately have "en_jail_ip s4 = Some (pool_ip 2)" using i by (auto simp: take_jail_ip_def)
    moreover have "ips s1 = ips s4" using run_ips.view_on_net g by (metis snd_conv)
    ultimately show ?thesis using Some by (simp add: ips_def)
  qed
  ultimately show ?thesis by (simp add: ips_def)
qed

lemma make_jail_address:
  assumes "make_jail env opts image_ref spec ok i s = (Inr (n, e), s')" and "ips s = ([], None, None)"
  shows "en_jail_ip s' = (case spec of None \<Rightarrow> None | Some _ \<Rightarrow> Some (pool_ip 2))"
proof -
  obtain lx s1 s2 s3 s4 where fill: "fill_root env opts image_ref i s = (Inr (e, lx), s1)" and name: "name_jail opts s1 = (Inr n, s2)"
    and net: "setup_network env opts spec n s2 = (Inr (), s3)" and start: "start_jail env opts spec ok lx n s3 = (Inr (), s4)"
    and equip: "equip_jail env opts image_ref lx n s4 = (Inr (), s')"
    using assms(1) unfolding make_jail_def by (auto elim!: bind_Inr simp: done_with_def)
  have "ips s1 = ([], None, None)" using keepsD [OF run_ips.keeps_fill fill] assms(2) by simp
  then have "en_used_ips s2 = []" "en_jail_ip s2 = None" using name by (auto simp: name_jail_def ips_def Let_def)
  from setup_network_address [OF net this] show ?thesis
    using keepsD [OF ips_start start] keepsD [OF ips_equip equip] by (simp add: ips_def)
qed

lemma jail_up_address:
  assumes "jail_up env opts image_ref c (Some sp) n s"
  shows "en_jail_ip s = Some (pool_ip 2)"
proof -
  obtain ok i s0 e where b: "before_try env opts image_ref (fresh_locals (new_process c)) = (Inr (Some sp, ok, i), s0)"
    and m: "make_jail env opts image_ref (Some sp) ok i s0 = (Inr (n, e), s)"
    using assms by (auto simp: jail_up_def)
  have "ips s0 = ([], None, None)"
    using keepsD [OF ips_before b] by (simp add: ips_def fresh_locals_def new_process_def)
  from make_jail_address [OF m this] show ?thesis by simp
qed

text \<open>C26: Two runs at a time share one address.  Each \<^verbatim>\<open>jailrun run\<close> with an allow-list, from a process of its
  own, gives its jail \<^verbatim>\<open>10.99.0.2\<close>, also where the host already has a jail up with that address: the set
  of used addresses does not outlive the process.  And the teardown of the first run takes that
  address off the interface, under the second one.\<close>

theorem runs_share_one_address:
  assumes "jail_up env1 opts1 ref1 c1 (Some sp1) n1 s1" and "jail_up env2 opts2 ref2 c2 (Some sp2) n2 s2"
    and "co_host c2 = en_host s1" and "\<not> raised f (flush_cmd n1)"
  shows "en_jail_ip s1 = Some ''10.99.0.2'' \<and> en_jail_ip s2 = Some ''10.99.0.2''
    \<and> remove_alias_cmd ''10.99.0.2'' \<in> set (teardown_commands f st opts1 s1)"
proof -
  have p: "pool_ip 2 = ''10.99.0.2''" by code_simp
  have "en_jail_name s1 = Some n1" using assms(1) make_jail_started(1) by (auto simp: jail_up_def)
  then show ?thesis
    using jail_up_address [OF assms(1)] jail_up_address [OF assms(2)] assms(4)
    by (simp add: p teardown_commands_def network_log_def Let_def)
qed

text \<open>The first address of a process, for evaluation.\<close>

definition next_address :: "string list \<Rightarrow> string option" where
  "next_address used = alloc_jail_ip used DEFAULT_POOL 24"

lemma next_address_first [code]:
  "next_address [] = Some (pool_ip 2)" "next_address (x # used) = alloc_jail_ip (x # used) DEFAULT_POOL 24"
  using alloc_jail_ip_lowest_free [of "[]" "pool_ip 2"] by (auto simp: next_address_def)

lemma take_jail_ip_next [code]:
  "take_jail_ip s =
     (case next_address (en_used_ips s) of
        None \<Rightarrow> (Inl (value_error ''jail IP pool 10.99.0.0/24 exhausted (all in use)''), s)
      | Some ip \<Rightarrow> (Inr ip, s \<lparr> en_used_ips := ip # en_used_ips s, en_jail_ip := Some ip \<rparr>))"
  by (simp add: take_jail_ip_def next_address_def)

definition routed :: "string list \<Rightarrow> cmd_result" where
  "routed c = (if c = [''route'', ''-n'', ''get'', ''default''] then Completed 0 (''interface: em0'' @ [NL]) [] else Completed 0 [] [])"

definition allow_opts :: "string \<Rightarrow> run_opts" where
  "allow_opts n = demo_opts \<lparr> op_network := ''allow=h'', op_jail_name := Some n \<rparr>"

definition net_tree :: fs where "net_tree = [([''tmp''], Dir), ([''bin''], Dir), ([''etc''], Dir), ([''etc'', ''pf.conf''], Reg [])]"

definition demo_net_env :: "string list list engine_env" where "demo_net_env = demo_env routed \<lparr> ee_resolver := (\<lambda>_. Inr [''9.9.9.9'']) \<rparr>"

definition jail_of :: "'w engine_env \<Rightarrow> run_opts \<Rightarrow> string \<Rightarrow> 'w console \<Rightarrow> (network_spec option \<times> string \<times> 'w eng) option" where
  "jail_of env opts image_ref c =
     (case before_try env opts image_ref (fresh_locals (new_process c)) of
        (Inl _, _) \<Rightarrow> None
      | (Inr (spec, ok, i), s0) \<Rightarrow>
          (case make_jail env opts image_ref spec ok i s0 of (Inl _, _) \<Rightarrow> None | (Inr (n, _), s) \<Rightarrow> Some (spec, n, s)))"

lemma jail_up_of: "jail_of env opts image_ref c = Some (spec, n, s) \<Longrightarrow> jail_up env opts image_ref c spec n s"
  by (auto simp: jail_of_def jail_up_def split: prod.splits sum.splits)

definition first_jail :: "(network_spec option \<times> string \<times> string list list eng) option" where
  "first_jail = jail_of demo_net_env (allow_opts ''a'') ''thinbase:x'' (console net_tree [])"

definition second_console :: "string list list console" where
  "second_console = (console net_tree []) \<lparr> co_host := en_host (snd (snd (the first_jail))) \<rparr>"

definition second_jail :: "(network_spec option \<times> string \<times> string list list eng) option" where
  "second_jail = jail_of (demo_net_env \<lparr> ee_run_id := ''r2'' \<rparr>) (allow_opts ''b'') ''thinbase:x'' second_console"

lemma both_jails:
  "map_option (\<lambda>(spec, n, _). (spec \<noteq> None, n)) first_jail = Some (True, ''a'')"
  "map_option (\<lambda>(spec, n, _). (spec \<noteq> None, n)) second_jail = Some (True, ''b'')"
  by code_simp+

lemma runs_share_one_address_witness:
  "\<exists>s1 s2. jail_up demo_net_env (allow_opts ''a'') ''thinbase:x'' (console net_tree []) (fst (the first_jail)) ''a'' s1
    \<and> jail_up (demo_net_env \<lparr> ee_run_id := ''r2'' \<rparr>) (allow_opts ''b'') ''thinbase:x'' second_console (fst (the second_jail)) ''b'' s2
    \<and> en_jail_ip s1 = Some ''10.99.0.2'' \<and> en_jail_ip s2 = Some ''10.99.0.2''"
proof -
  obtain sp1 s1 where 1: "first_jail = Some (Some sp1, ''a'', s1)" using both_jails(1) by auto
  obtain sp2 s2 where 2: "second_jail = Some (Some sp2, ''b'', s2)" using both_jails(2) by auto
  have u1: "jail_up demo_net_env (allow_opts ''a'') ''thinbase:x'' (console net_tree []) (Some sp1) ''a'' s1"
    using 1 unfolding first_jail_def by (rule jail_up_of)
  have u2: "jail_up (demo_net_env \<lparr> ee_run_id := ''r2'' \<rparr>) (allow_opts ''b'') ''thinbase:x'' second_console (Some sp2) ''b'' s2"
    using 2 unfolding second_jail_def by (rule jail_up_of)
  have c: "co_host second_console = en_host s1" by (simp add: second_console_def 1)
  have f: "\<not> raised routed (flush_cmd ''a'')" by (simp add: raised_def routed_def flush_cmd_def)
  have "fst (the first_jail) = Some sp1" "fst (the second_jail) = Some sp2" by (simp_all add: 1 2)
  then show ?thesis using runs_share_one_address [OF u1 u2 c f] u1 u2 by metis
qed

section \<open>The end of a command\<close>

lemma run_async_ends: "\<not> op_interactive opts \<Longrightarrow> run_async env opts image_ref cmd s \<noteq> None"
  by (auto simp: run_async_def try_block_def run_command_def Let_def split: prod.split sum.split)

lemma run_ends:
  assumes "arg_true ns ''detach'' \<or> \<not> arg_true ns ''interactive''"
  shows "cmd_run env prog ns c \<noteq> None"
proof -
  have "engine_run env t (opts_of_args ns rules n) i w c \<noteq> None" if "\<not> arg_true ns ''interactive''" for t rules n i w
  proof -
    have "\<not> op_interactive (opts_of_args ns rules n)" using that by (simp add: opts_of_args_def)
    from run_async_ends [OF this] show ?thesis by (simp add: engine_run_def)
  qed
  then show ?thesis using assms
    by (simp add: cmd_run_def cmd_run_foreground_def option.map_disc_iff del: not_None_eq split: sum.split) blast
qed



end
