(* ===== verification/Copy.thy ===== *)
theory Copy
  imports CliRun
begin

text \<open>
  \<^verbatim>\<open>jailrun cp\<close> out of a jail: where the file ends up.  What \<^verbatim>\<open>tar\<close> does is given by its manual: with
  \<^verbatim>\<open>--strip-components 1\<close> a member is extracted under its path without the first component, or not
  at all if nothing is left of it.
\<close>

section \<open>Paths as text\<close>

definition plain_name :: "string \<Rightarrow> bool" where
  "plain_name c \<longleftrightarrow> c \<noteq> [] \<and> c \<noteq> ''.'' \<and> c \<noteq> DOTDOT \<and> CHR ''/'' \<notin> set c \<and> CHR '':'' \<notin> set c"

definition plain_names :: "path \<Rightarrow> bool" where "plain_names p \<longleftrightarrow> p \<noteq> [] \<and> list_all plain_name p"

lemma join_snoc: "p \<noteq> [] \<Longrightarrow> py_join s (p @ [x]) = py_join s p @ s @ x"
proof (induction p)
  case (Cons y p)
  then show ?case by (cases p) simp_all
qed simp

lemma path_str_snoc: "p \<noteq> [] \<Longrightarrow> path_str (p @ [x]) = path_str p @ ''/'' @ x"
  by (simp add: path_str_def join_snoc)

lemma path_str_last:
  assumes "plain_names p"
  obtains s where "path_str p = s @ ''/'' @ last p" and "CHR ''/'' \<notin> set (last p)" and "last p \<noteq> []"
proof -
  have "plain_name (last p)" and p: "p \<noteq> []" using assms by (auto simp: plain_names_def list_all_iff)
  moreover have "path_str p = (if butlast p = [] then [] else path_str (butlast p)) @ ''/'' @ last p"
    using p path_str_snoc [of "butlast p" "last p"] by (cases p rule: rev_cases) (auto simp: path_str_def)
  ultimately show thesis using that by (simp add: plain_name_def)
qed

lemma base_of_path: "plain_names p \<Longrightarrow> py_after_last (CHR ''/'') (path_str p) = last p"
  using py_rcut_append by (auto elim!: path_str_last simp: py_after_last_def)

lemma no_colon: "plain_names p \<Longrightarrow> CHR '':'' \<notin> set (path_str p)"
proof -
  have "CHR '':'' \<notin> set (py_join ''/'' p)" if "list_all plain_name p" for p
    using that by (induction "''/''" p rule: py_join.induct) (auto simp: plain_name_def)
  then show "plain_names p \<Longrightarrow> ?thesis" by (simp add: path_str_def plain_names_def)
qed

lemma components_path: "plain_names p \<Longrightarrow> components (path_str p) = p"
  by (rule components_path_str) (auto simp: plain_names_def plain_name_def plain_path_def list_all_iff)

lemma at_cwd_path: "plain_names p \<Longrightarrow> at_cwd prog (path_str p) = p"
  by (simp add: at_cwd_def components_path is_absolute_def) (simp add: path_str_def)

lemma strip_path: "plain_names p \<Longrightarrow> py_lstrip_char (CHR ''/'') (path_str p) = py_join ''/'' p"
proof -
  assume "plain_names p"
  then obtain c cs ps where "p = (c # cs) # ps" "c \<noteq> CHR ''/''"
    by (cases p; cases "hd p") (auto simp: plain_names_def plain_name_def)
  then show ?thesis by (cases ps) (simp_all add: py_lstrip_char_def path_str_def)
qed

lemma base_of_rel: "plain_names p \<Longrightarrow> py_after_last (CHR ''/'') (py_join ''/'' p) = last p"
proof (cases p rule: rev_cases)
  case (snoc q x)
  assume "plain_names p"
  then have "CHR ''/'' \<notin> set x" by (simp add: snoc plain_names_def plain_name_def)
  then show ?thesis
    using py_rcut_append [of "CHR ''/''" x "py_join ''/'' q"]
    by (cases "q = []") (simp_all add: snoc join_snoc py_after_last_def py_rcut_None [THEN iffD2])
qed (simp add: plain_names_def)

lemma dir_of_path:
  assumes "plain_names (d @ [b])" and "d \<noteq> []"
  shows "parent_or_dot (path_str (d @ [b])) = path_str d" and "join_name (path_str d) s = path_str (d @ [s])"
proof -
  have d: "plain_names d" and b: "CHR ''/'' \<notin> set b" using assms by (simp_all add: plain_names_def plain_name_def)
  obtain t where l: "path_str d = t @ ''/'' @ last d" "CHR ''/'' \<notin> set (last d)" "last d \<noteq> []" by (rule path_str_last [OF d])
  obtain xs x where x: "last d = xs @ [x]" "x \<noteq> CHR ''/''" using l(2,3) by (cases "last d" rule: rev_cases) auto
  have r: "py_rcut (CHR ''/'') (path_str (d @ [b])) = Some (path_str d, b)"
    using py_rcut_append [OF b] by (simp add: path_str_snoc assms(2))
  show "parent_or_dot (path_str (d @ [b])) = path_str d"
    using x by (simp add: parent_or_dot_def r l(1) py_rstrip_char_def)
  show "join_name (path_str d) s = path_str (d @ [s])"
    using x by (simp add: join_name_def path_str_snoc assms(2)) (simp add: l(1) py_endswith_def suffix_def)
qed

section \<open>The tree\<close>

lemma real_dir_child:
  assumes "real_dir fs d" and "b \<noteq> DOTDOT"
  shows "locate links fs (d @ [b]) = Some (d @ [b])"
    and "\<forall>t. look fs (d @ [b]) \<noteq> Some (Symlink t) \<Longrightarrow> path_exists links fs (d @ [b]) \<longleftrightarrow> look fs (d @ [b]) \<noteq> None"
proof -
  have d: "look fs d = Some Dir" using assms(1) by (simp add: real_dir_def)
  show "locate links fs (d @ [b]) = Some (d @ [b])"
    using follow_root [OF assms(1), of links] d assms(2) by (simp add: locate_def)
  assume "\<forall>t. look fs (d @ [b]) \<noteq> Some (Symlink t)"
  then have "follow links fs (d @ [b]) = Some (d @ [b])"
    using resolve_from_snoc [of links fs "[]" d d b] follow_root [OF assms(1), of links] d assms(2) by (simp add: follow_def)
  then show "path_exists links fs (d @ [b]) \<longleftrightarrow> look fs (d @ [b]) \<noteq> None" by (simp add: path_exists_def stat_def)
qed

lemma mkdirs_real:
  assumes "real_dir fs d"
  shows "fs_mkdirs links d fs = (None, fs)"
proof (cases d rule: rev_cases)
  case (snoc e b)
  have "real_dir fs e" "b \<noteq> DOTDOT" using assms by (auto simp: real_dir_def snoc)
  from real_dir_child(1) [OF this] have "locate links fs d = Some d" by (simp add: snoc)
  moreover have "path_is_dir links fs d" "look fs d \<noteq> None"
    using follow_root [OF assms, of links] assms by (simp_all add: path_is_dir_def stat_def real_dir_def)
  ultimately show ?thesis by (subst fs_mkdirs.simps) (simp add: fs_mkdir_def)
qed (simp add: fs_mkdirs.simps)

lemma look_move_tree:
  assumes "a \<noteq> []" and "b \<noteq> []" and "\<not> prefix b a"
  shows "look (move_tree a b fs) b = look fs a"
proof -
  have key: "(if prefix a q then b @ drop (length a) q else q) = b \<longleftrightarrow> q = a" if "\<not> prefix b q" for q
    using that by (auto simp: prefix_def)
  have "map_of (map (\<lambda>(q, n). (if prefix a q then b @ drop (length a) q else q, n)) (filter (\<lambda>(q, _). \<not> prefix b q) al)) b = map_of al a"
    for al :: fs
  proof (induction al)
    case (Cons e al)
    obtain q n where "e = (q, n)" by (cases e)
    then show ?case using Cons key [of q] assms(3) by auto
  qed simp
  then show ?thesis using assms by (simp add: look_def move_tree_def drop_tree_def)
qed

lemma rename_file:
  assumes "real_dir fs d" and "a \<noteq> DOTDOT" "b \<noteq> DOTDOT" "a \<noteq> b"
    and "look fs (d @ [a]) = Some (Reg x)" and "look fs (d @ [b]) = None"
  shows "\<exists>fs'. fs_rename links (d @ [a]) (d @ [b]) fs = (None, fs') \<and> look fs' (d @ [b]) = Some (Reg x)"
  using assms real_dir_child(1) [OF assms(1,2), of links] real_dir_child(1) [OF assms(1,3), of links]
    look_move_tree [of "d @ [a]" "d @ [b]" fs]
  by (simp add: fs_rename_def)

text \<open>A regular file extracted below a directory, with the directories on its way.\<close>

definition extracted_under :: "path \<Rightarrow> path \<Rightarrow> string \<Rightarrow> fs \<Rightarrow> fs" where
  "extracted_under d member x fs =
     (let q = drop 1 member in
      if q = [] then fs else put (d @ q) (Reg x) (fold (\<lambda>k. put (d @ take k q) Dir) [1..<length q] fs))"

lemma look_fold_put: "look (fold (\<lambda>k. put (f k) Dir) ks fs) r = (if r \<noteq> [] \<and> r \<in> f ` set ks then Some Dir else look fs r)"
  by (induction ks arbitrary: fs) auto

lemma look_extracted:
  assumes "r \<notin> (\<lambda>k. d @ take k (drop 1 member)) ` {1..<length (drop 1 member)}"
  shows "look (extracted_under d member x fs) r = (if drop 1 member \<noteq> [] \<and> r = d @ drop 1 member then Some (Reg x) else look fs r)"
  using assms by (auto simp: extracted_under_def look_fold_put Let_def)

lemma look_extracted_name:
  assumes "b \<noteq> hd (drop 1 member) \<or> length member \<le> 2"
  shows "look (extracted_under d member x fs) (d @ [b]) = (if length member = 2 \<and> b = last member then Some (Reg x) else look fs (d @ [b]))"
proof -
  let ?q = "drop 1 member"
  have n: "d @ [b] \<notin> (\<lambda>k. d @ take k ?q) ` {1..<length ?q}"
  proof
    assume "d @ [b] \<in> (\<lambda>k. d @ take k ?q) ` {1..<length ?q}"
    then obtain k where k: "1 \<le> k" "k < length ?q" "[b] = take k ?q" by auto
    then have "b = hd ?q" by (metis hd_take list.sel(1) less_le_trans zero_less_one)
    then show False using assms k by auto
  qed
  have "?q = [b] \<longleftrightarrow> length member = 2 \<and> b = last member"
    by (cases member; cases "drop 1 member"; auto)
  then show ?thesis unfolding look_extracted [OF n] by auto
qed

lemma real_dir_extracted:
  assumes "real_dir fs d"
  shows "real_dir (extracted_under d member x fs) d"
proof -
  have "look (extracted_under d member x fs) p = look fs p" if "prefix p d" for p
  proof (rule look_extracted [THEN trans])
    show "p \<notin> (\<lambda>k. d @ take k (drop 1 member)) ` {1..<length (drop 1 member)}" using that by (auto simp: prefix_def)
    show "(if drop 1 member \<noteq> [] \<and> p = d @ drop 1 member then Some (Reg x) else look fs p) = look fs p" using that by (auto simp: prefix_def)
  qed
  then show ?thesis using assms by (simp add: real_dir_def)
qed

section \<open>Copying out of a jail\<close>

lemma copy_from_jail_tree:
  assumes names: "plain_names member" "plain_names (d @ [b])" "d \<noteq> []" "b \<notin> set member" "distinct member"
    and tree: "real_dir fs d" "look fs (d @ [b]) = None" "look fs (d @ [last member]) = None"
    and tar: "\<And>h. cl_pipe env [''jexec'', jail, ''tar'', ''-C'', ''/'', ''-cf'', ''-'', py_join ''/'' member]
          [''tar'', ''xf'', ''-'', ''--strip-components'', ''1'', ''-C'', path_str d] h
        = (Inr (Completed 0 [] []), (extracted_under d member x (fst h), snd h))"
  shows "\<exists>fs'. copy_from_jail env prog jail (path_str member) (path_str (d @ [b])) (fs, w) = (Inr (), (fs', w))
    \<and> look fs' (d @ [b]) = (if length member = 2 then Some (Reg x) else None)"
proof -
  let ?fs = "extracted_under d member x fs" and ?a = "last member" and ?l = "ee_lim (base_env env)"
  have m: "member \<noteq> []" using names(1) by (simp add: plain_names_def)
  have d: "plain_names d" and dd: "b \<noteq> DOTDOT" using names(2,3) by (simp_all add: plain_names_def plain_name_def)
  have a: "plain_name ?a" using names(1) m by (auto simp: plain_names_def list_all_iff)
  then have da: "plain_names (d @ [?a])" using d by (simp add: plain_names_def)
  have dot: "path_str d \<noteq> ''.''" by (simp add: path_str_def)
  have ab: "?a \<noteq> b" using names(4) m last_in_set by fastforce
  have h: "?a \<noteq> hd (drop 1 member) \<or> length member \<le> 2"
  proof (cases "length member \<le> 2")
    case False
    then obtain p q r rs where e: "member = p # q # r # rs" by (cases member; cases "tl member"; cases "tl (tl member)") auto
    have "q \<notin> set (r # rs)" using names(5) e by simp
    moreover have "last (r # rs) \<in> set (r # rs)" by (rule last_in_set) simp
    ultimately have "?a \<noteq> q" unfolding e by (metis last_ConsR list.distinct(1))
    then show ?thesis by (simp add: e)
  qed simp
  have hb: "b \<noteq> hd (drop 1 member) \<or> length member \<le> 2"
    using names(4) by (cases "drop 1 member") (auto dest: arg_cong [of _ _ set] simp: in_set_dropD [of _ 1])
  have la: "look ?fs (d @ [?a]) = (if length member = 2 then Some (Reg x) else None)" using look_extracted_name [OF h] tree(3) by simp
  have lb: "look ?fs (d @ [b]) = None" using look_extracted_name [OF hb] tree(2) ab by auto
  have rd: "real_dir ?fs d" by (rule real_dir_extracted [OF tree(1)])
  have e: "path_exists ?l ?fs (d @ [?a]) \<longleftrightarrow> length member = 2"
    using real_dir_child(2) [OF rd, of ?a ?l] la a by (auto simp: plain_name_def split: if_splits)
  have run: "copy_from_jail env prog jail (path_str member) (path_str (d @ [b])) (fs, w) =
      (if length member = 2 then on_tree (fs_rename ?l (d @ [?a]) (d @ [b])) (?fs, w) else give () (?fs, w))"
    using mkdirs_real [OF tree(1), of ?l] dot ab e
    by (simp add: copy_from_jail_def Let_def strip_path [OF names(1)] base_of_rel [OF names(1)] base_of_path [OF names(2)]
        dir_of_path [OF names(2,3)] at_cwd_path [OF d] at_cwd_path [OF names(2)] at_cwd_path [OF da] pipe_def tar then_do_def on_tree_def
        tree_exists_def give_def)
  show ?thesis
  proof (cases "length member = 2")
    case True
    obtain fs2 where "fs_rename ?l (d @ [?a]) (d @ [b]) ?fs = (None, fs2)" "look fs2 (d @ [b]) = Some (Reg x)"
      using rename_file [OF rd _ dd ab, of x ?l] la lb a True by (auto simp: plain_name_def)
    then show ?thesis using run True by (simp add: on_tree_def)
  next
    case False
    then show ?thesis using run lb by (simp add: give_def)
  qed
qed

text \<open>C27: \<^verbatim>\<open>jailrun cp JAIL:/path /dir/name\<close> reports success and delivers the file only if the path in the jail has
  exactly two components.  The archive's members carry the whole path, of which one component is cut
  off: a file at the top of the jail is not extracted at all, and a deeper one ends up in further
  directories below \<^verbatim>\<open>/dir\<close>; in both cases there is nothing to rename, nothing at the destination,
  and the exit status is 0.\<close>

theorem cp_out_needs_two_components:
  assumes live: "check_live env jail c = ((True, msg), c1)" and jail: "jail \<noteq> []" "CHR '':'' \<notin> set jail"
    and names: "plain_names member" "plain_names (d @ [b])" "d \<noteq> []" "b \<notin> set member" "distinct member"
    and tree: "real_dir (fst (co_host c1)) d" "look (fst (co_host c1)) (d @ [b]) = None" "look (fst (co_host c1)) (d @ [last member]) = None"
    and tar: "\<And>h. cl_pipe env [''jexec'', jail, ''tar'', ''-C'', ''/'', ''-cf'', ''-'', py_join ''/'' member]
          [''tar'', ''xf'', ''-'', ''--strip-components'', ''1'', ''-C'', path_str d] h
        = (Inr (Completed 0 [] []), (extracted_under d member x (fst h), snd h))"
  shows "\<exists>c2. cmd_cp env prog (jail @ '':'' @ path_str member) (path_str (d @ [b])) c = (Inr 0, c2)
    \<and> look (fst (co_host c2)) (d @ [b]) = (if length member = 2 then Some (Reg x) else None)"
proof -
  have s: "parse_spec (jail @ CHR '':'' # path_str member) = (Some jail, path_str member)"
    using jail by (simp add: parse_spec_def) (simp add: path_str_def)
  have t: "parse_spec (path_str (d @ [b])) = (None, path_str (d @ [b]))"
    using no_colon [OF names(2)] by (simp add: parse_spec_def py_cut_None [THEN iffD2])
  obtain fs' where f: "copy_from_jail env prog jail (path_str member) (path_str (d @ [b])) (co_host c1) = (Inr (), (fs', snd (co_host c1)))"
    "look fs' (d @ [b]) = (if length member = 2 then Some (Reg x) else None)"
    using copy_from_jail_tree [OF names tree tar, of prog "snd (co_host c1)"] by auto
  show ?thesis using f by (simp add: cmd_cp_def s t copied_def live on_co_host_def finish_def)
qed

definition tar_cli :: "path \<Rightarrow> path \<Rightarrow> string list list cli_env" where
  "tar_cli d member = demo_cli stuck_jail \<lparr> cl_pipe := (\<lambda>_ _ h. (Inr (Completed 0 [] []), (extracted_under d member ''x'' (fst h), snd h))) \<rparr>"

lemma cp_out_needs_two_components_witness:
  "\<exists>c2. cmd_cp (tar_cli [''tmp''] [''etc'', ''rc.d'', ''sshd'']) demo_program ''j:/etc/rc.d/sshd'' ''/tmp/copy'' (console tmp_tree []) = (Inr 0, c2)
    \<and> look (fst (co_host c2)) [''tmp'', ''copy''] = None"
proof -
  let ?m = "[''etc'', ''rc.d'', ''sshd'']" and ?d = "[''tmp'']" and ?c = "console tmp_tree []"
  let ?e = "tar_cli ?d ?m"
  have n: "List.map_filter (search_name False) (py_splitlines ''name=j'') = [''j'']" by code_simp
  let ?c1 = "?c \<lparr> co_host := (tmp_tree, [[''jls'', ''-n'', ''name'']]) \<rparr>"
  have l: "check_live ?e ''j'' ?c = ((True, []), ?c1)"
    by (simp add: check_live_def check_jail_live_def list_live_answering stuck_jail_def n list_runs_def tar_cli_def demo_ledger Let_def)
  have names: "plain_names ?m" "plain_names (?d @ [''copy''])" "?d \<noteq> []" "''copy'' \<notin> set ?m" "distinct ?m"
    by (simp_all add: plain_names_def plain_name_def DOTDOT_def)
  have t: "real_dir (fst (co_host ?c1)) ?d" "look (fst (co_host ?c1)) (?d @ [''copy'']) = None" "look (fst (co_host ?c1)) (?d @ [last ?m]) = None"
    by (auto simp: real_dir_def tmp_tree_def look_def DOTDOT_def prefix_Cons)
  have tar: "cl_pipe ?e a b' h = (Inr (Completed 0 [] []), (extracted_under ?d ?m ''x'' (fst h), snd h))" for a b' h
    by (simp add: tar_cli_def)
  show ?thesis using cp_out_needs_two_components [OF l _ _ names t tar] by (simp add: path_str_def)
qed

end
