(* ===== verification/BakeJson.thy ===== *)
theory BakeJson
  imports Bakery EngineRoot
begin

text \<open>
  \<^verbatim>\<open>bakery/bakery.py\<close> on manifests as they are in the program, namely decoded JSON: what the bakery reads
  of one, how it writes its results back, and the pipeline of the engine, the probe followed by the
  bakery with the store's own \<^verbatim>\<open>register_base\<close>.  A path that is no text is an error when the manifest
  is read here, and some time later in the code.
\<close>

section \<open>Writing into a dictionary\<close>

text \<open>\<^verbatim>\<open>d[k] = v\<close>: in place, or at the end.\<close>

definition jput :: "string \<Rightarrow> json \<Rightarrow> (string \<times> json) list \<Rightarrow> (string \<times> json) list" where
  "jput k v ms = (if k \<in> fst ` set ms then map (\<lambda>(k', x). (k', if k' = k then v else x)) ms else ms @ [(k, v)])"

lemma jlookup_jput [simp]: "jlookup k' (jput k v ms) = (if k' = k then Some v else jlookup k' ms)"
proof -
  have "map_of (map (\<lambda>(k', x). (k', if k' = k then v else x)) al) k' =
      (if k' = k then (if k \<in> fst ` set al then Some v else None) else map_of al k')" for al :: "(string \<times> json) list"
    by (induction al) force+
  from this [of "rev ms"] show ?thesis by (force simp: jput_def jlookup_def rev_map)
qed

lemma only_keys_jput [simp]: "only_keys ks (jput k v ms) \<longleftrightarrow> only_keys ks ms \<and> k \<in> set ks"
  by (force simp: jput_def only_keys_def list_all_iff)

lemma member_jput [simp]:
  "required k ok (jput k' v ms) \<longleftrightarrow> (if k = k' then ok v else required k ok ms)"
  "optional k ok (jput k' v ms) \<longleftrightarrow> (if k = k' then ok v else optional k ok ms)"
  by (simp_all add: required_def optional_def)

section \<open>Binaries\<close>

definition as_text :: "json \<Rightarrow> string option" where
  "as_text v = (case v of JStr s \<Rightarrow> Some s | _ \<Rightarrow> None)"

definition key_text :: "string \<Rightarrow> (string \<times> json) list \<Rightarrow> string option" where
  "key_text k ms = Option.bind (jlookup k ms) as_text"

definition provider_of :: "(string \<times> json) list \<Rightarrow> store_exc + string option" where
  "provider_of ms =
     (case jlookup ''provider'' ms of
        None \<Rightarrow> Inr None
      | Some v \<Rightarrow> if \<not> jtruth v then Inr None else (case v of JStr s \<Rightarrow> Inr (Some s) | _ \<Rightarrow> type_error))"

definition native_of_json :: "json \<Rightarrow> store_exc + native_info option" where
  "native_of_json v =
     (if \<not> jtruth v then Inr None
      else (case v of
          JObj ms \<Rightarrow> try_bind (provider_of ms) (\<lambda>p. Inr (Some
            \<lparr> nv_provider = p, nv_artifact_path = key_text ''artifact_path'' ms, nv_verification = key_text ''verification'' ms,
              nv_other = map (\<lambda>(k, _). (k, [])) ms \<rparr>))
        | _ \<Rightarrow> attribute_error))"

text \<open>Nothing else of a binary is looked at unless its status is native.\<close>

definition binary_of_json :: "json \<Rightarrow> store_exc + bk_binary" where
  "binary_of_json v =
     (case v of
        JObj ms \<Rightarrow>
          (let status = key_text ''status'' ms in
           try_bind (case jlookup ''path'' ms of None \<Rightarrow> Inr None | Some (JStr p) \<Rightarrow> Inr (Some p) | Some _ \<Rightarrow> type_error) (\<lambda>p.
           try_bind (if status = Some ''native'' then native_of_json (case jlookup ''native'' ms of None \<Rightarrow> JNull | Some x \<Rightarrow> x) else Inr None) (\<lambda>nv.
           Inr \<lparr> bb_path = p, bb_status = status, bb_native = nv \<rparr>)))
      | _ \<Rightarrow> attribute_error)"

text \<open>What \<^verbatim>\<open>fill_artifact_paths\<close> has assigned.\<close>

definition put_text :: "string \<Rightarrow> string option \<Rightarrow> (string \<times> json) list \<Rightarrow> (string \<times> json) list" where
  "put_text k v ms = (case v of None \<Rightarrow> ms | Some s \<Rightarrow> jput k (JStr s) ms)"

definition put_native :: "native_info \<Rightarrow> json \<Rightarrow> json" where
  "put_native nv v =
     (case v of
        JObj ms \<Rightarrow> JObj (put_text ''verification'' (nv_verification nv) (put_text ''artifact_path'' (nv_artifact_path nv) ms))
      | _ \<Rightarrow> v)"

definition put_binary :: "bk_binary \<Rightarrow> bk_binary \<Rightarrow> json \<Rightarrow> json" where
  "put_binary b b' v =
     (if b' = b then v
      else (case (v, bb_native b') of
          (JObj ms, Some nv) \<Rightarrow>
            JObj (put_text ''status'' (bb_status b') (jput ''native'' (put_native nv (case jlookup ''native'' ms of None \<Rightarrow> JNull | Some x \<Rightarrow> x)) ms))
        | _ \<Rightarrow> v))"

section \<open>The plan\<close>

definition kind_text :: "provider_kind \<Rightarrow> string" where
  "kind_text k = (case k of K_pkg \<Rightarrow> ''pkg'' | K_port \<Rightarrow> ''port'' | K_build \<Rightarrow> ''build'')"

definition step_json :: "provision_step \<Rightarrow> json" where
  "step_json s = JObj [(''kind'', JStr (kind_text (ps_kind s))), (''target'', JStr (ps_target s)),
     (''artifact_path'', JStr (ps_artifact_path s)), (''notes'', JStr (ps_notes s))]"

definition plan_json :: "provision_step list \<Rightarrow> json" where
  "plan_json steps = JObj [(''steps'', JArr (map step_json steps))]"

text \<open>The digest is taken over the same dictionary with its keys in order.\<close>

definition sorted_step_json :: "provision_step \<Rightarrow> json" where
  "sorted_step_json s = JObj [(''artifact_path'', JStr (ps_artifact_path s)), (''kind'', JStr (kind_text (ps_kind s))),
     (''notes'', JStr (ps_notes s)), (''target'', JStr (ps_target s))]"

definition plan_digest :: "(string \<Rightarrow> string) \<Rightarrow> provision_step list \<Rightarrow> string" where
  "plan_digest sha256 steps = sha256 (json_line (JObj [(''steps'', JArr (map sorted_step_json steps))]))"

definition meta_json :: "bakery_meta \<Rightarrow> json" where
  "meta_json meta = JObj [(''base_name'', JStr (bm_base_name meta)), (''snapshot_id'', text_or_null (bm_snapshot_id meta)),
     (''plan'', plan_json (bm_plan meta)), (''warnings'', JArr (map JStr (bm_warnings meta)))]"

section \<open>Baking\<close>

definition put_binaries :: "bk_binary list \<Rightarrow> bk_binary list \<Rightarrow> json list \<Rightarrow> json list" where
  "put_binaries bks bks' vs = map (\<lambda>((b, b'), v). put_binary b b' v) (zip (zip bks bks') vs)"

text \<open>A manifest without binaries has no plan, so the list is there whenever it is written back.\<close>

definition put_manifest :: "bk_binary list \<Rightarrow> json list \<Rightarrow> bk_manifest \<Rightarrow> (string \<times> json) list \<Rightarrow> (string \<times> json) list" where
  "put_manifest bks vs m' ms =
     (case mf_bakery m' of
        None \<Rightarrow> ms
      | Some meta \<Rightarrow> jput ''_bakery'' (meta_json meta) (jput ''binaries'' (JArr (put_binaries bks (mf_binaries m') vs)) ms))"

definition bake_json ::
  "registry \<Rightarrow> (provision_step list \<Rightarrow> string) \<Rightarrow> ('w \<Rightarrow> string \<Rightarrow> string + bool)
   \<Rightarrow> (string \<Rightarrow> string \<Rightarrow> 'w \<Rightarrow> (string + string) \<times> 'w) \<Rightarrow> json \<Rightarrow> 'w \<Rightarrow> (store_exc + json) \<times> 'w" where
  "bake_json rg hexdigest exists register manifest w =
     (case manifest of
        JObj ms \<Rightarrow>
          (case try_bind (manifest_binaries manifest) (\<lambda>vs. try_bind (try_map binary_of_json vs) (\<lambda>bks. Inr (vs, bks))) of
             Inl e \<Rightarrow> (Inl e, w)
           | Inr (vs, bks) \<Rightarrow>
               (case bake rg hexdigest exists register \<lparr> mf_binaries = bks, mf_bakery = None \<rparr> w of
                  (Inl exc, w') \<Rightarrow> (Inl (Other_error exc), w')
                | (Inr m', w') \<Rightarrow> (Inr (JObj (put_manifest bks vs m' ms)), w')))
      | _ \<Rightarrow> (attribute_error, w))"

section \<open>The schema is kept\<close>

lemma binary_of_schema:
  assumes "binary_schema v"
  obtains ms b where "v = JObj ms" "binary_of_json v = Inr b" "bb_path b \<noteq> None" "bb_status b = key_text ''status'' ms"
    "bb_native b \<noteq> None \<Longrightarrow> \<exists>nms. jlookup ''native'' ms = Some (JObj nms) \<and> native_schema (JObj nms)
       \<and> nv_verification (the (bb_native b)) = key_text ''verification'' nms"
proof -
  from assms obtain ms p a s nv where v: "v = JObj ms" "jlookup ''path'' ms = Some (JStr p)" "jlookup ''status'' ms = Some (JStr s)"
      "jget ''native'' JNull v = Inr nv" "or_null native_schema nv"
    by (rule binary_schemaD)
  have nv: "(case jlookup ''native'' ms of None \<Rightarrow> JNull | Some x \<Rightarrow> x) = nv" using v(1,4) by (simp add: jget_def)
  have n: "\<exists>r. native_of_json nv = Inr r \<and> (r \<noteq> None \<longrightarrow> (\<exists>nms. jlookup ''native'' ms = Some (JObj nms) \<and> native_schema (JObj nms)
       \<and> nv_verification (the r) = key_text ''verification'' nms))"
  proof (cases "nv = JNull")
    case True
    then show ?thesis by (simp add: native_of_json_def)
  next
    case False
    then have sc: "native_schema nv" using v(5) by (simp add: or_null_def)
    then obtain nms pr where n: "nv = JObj nms" "jlookup ''provider'' nms = Some (JStr pr)" by (rule native_schemaD)
    then have "jlookup ''native'' ms = Some (JObj nms)" using nv by (auto split: option.splits)
    then show ?thesis using n sc by (auto simp: native_of_json_def provider_of_def)
  qed
  then obtain r where r: "native_of_json nv = Inr r" "r \<noteq> None \<longrightarrow> (\<exists>nms. jlookup ''native'' ms = Some (JObj nms)
      \<and> native_schema (JObj nms) \<and> nv_verification (the r) = key_text ''verification'' nms)" by blast
  let ?b = "\<lparr> bb_path = Some p, bb_status = Some s, bb_native = (if s = ''native'' then r else None) \<rparr>"
  have k: "key_text ''status'' ms = Some s" using v(3) by (simp add: key_text_def as_text_def)
  have "binary_of_json v = Inr ?b"
    using v(1,2) k r(1) nv by (simp add: binary_of_json_def)
  then show thesis using that [of ms ?b] v(1) k r(2) by (auto split: if_splits)
qed

lemma put_binary_schema:
  assumes "binary_schema v" and "binary_of_json v = Inr b" and "fill_binary rg exists plan b = Inr b'"
  shows "binary_schema (put_binary b b' v)"
proof (cases "b' = b")
  case True
  then show ?thesis using assms(1) by (simp add: put_binary_def)
next
  case False
  from binary_of_schema [OF assms(1)] obtain ms where v: "v = JObj ms" "bb_status b = key_text ''status'' ms"
    "bb_native b \<noteq> None \<Longrightarrow> \<exists>nms. jlookup ''native'' ms = Some (JObj nms) \<and> native_schema (JObj nms)
       \<and> nv_verification (the (bb_native b)) = key_text ''verification'' nms"
    using assms(2) by (metis sum.inject(2))
  from assms(3) False obtain a nv there where b: "bb_status b = Some ''native''" "bb_native b = Some nv" "b' = refill there a b nv"
    by (auto elim: fill_binary_cases)
  then obtain nv' where b': "bb_native b' = Some nv'" "bb_status b' = Some ''native''" "nv_artifact_path nv' = Some a"
      "nv_verification nv' \<in> {nv_verification nv, Some ''exists''}"
    by (simp add: refill_def)
  then obtain nms where n: "jlookup ''native'' ms = Some (JObj nms)" "native_schema (JObj nms)"
      "nv_verification nv = key_text ''verification'' nms" using v(3) b(2) by auto
  have "native_schema (put_native nv' (JObj nms))"
    using n(2,3) b'(3,4)
    by (auto simp: put_native_def put_text_def native_schema_def key_text_def as_text_def is_object_def is_text_def one_of_def or_null_def
        optional_def required_def split: option.splits json.splits)
  then show ?thesis
    using assms(1) False b'(1,2) n(1) v(1)
    by (auto simp: put_binary_def put_text_def binary_schema_def is_object_def or_null_def one_of_def)
qed

lemma meta_schema: "bakery_schema (meta_json meta)"
  by (simp add: bakery_schema_def meta_json_def plan_json_def is_object_def only_keys_def optional_def jlookup_def is_text_def is_array_def
      or_null_def text_or_null_def list_all_iff split: option.split)

lemma bake_filled:
  assumes "bake rg hexdigest exists register m w = (Inr m', w')" and "mf_bakery m = None"
  shows "m' = m \<or> (\<exists>ex meta. fill_artifact_paths rg ex (mf_binaries m) (fst (build_plan rg (mf_binaries m))) = Inr (mf_binaries m')
    \<and> mf_bakery m' = Some meta)"
  using assms by (auto simp: bake_def annotate_def Let_def split: prod.splits if_splits sum.splits)

lemma put_binaries_schema:
  assumes "list_all binary_schema vs" and "try_map binary_of_json vs = Inr bks"
    and "fill_artifact_paths rg exists bks plan = Inr bks'"
  shows "list_all binary_schema (put_binaries bks bks' vs)"
  using assms
proof (induction vs arbitrary: bks bks')
  case (Cons v vs)
  then show ?case
    by (auto simp: put_binaries_def fill_artifact_paths_def split: sum.splits) (rule put_binary_schema)
qed (simp add: put_binaries_def)

lemma binaries_of_schema:
  assumes "list_all binary_schema vs"
  obtains bks where "try_map binary_of_json vs = Inr bks" "\<forall>b \<in> set bks. bb_path b \<noteq> None"
proof -
  have "\<exists>bks. try_map binary_of_json vs = Inr bks \<and> (\<forall>b \<in> set bks. bb_path b \<noteq> None)"
    using assms
  proof (induction vs)
    case (Cons v vs)
    then obtain b where "binary_of_json v = Inr b" "bb_path b \<noteq> None" by (auto elim: binary_of_schema)
    then show ?case using Cons by auto
  qed simp
  then show thesis using that by blast
qed

lemma bake_may_raise:
  assumes "bake rg hexdigest exists register m w = (Inl exc, w')" and "\<forall>b \<in> set (mf_binaries m). bb_path b \<noteq> None"
  shows "\<exists>p. exists w' p = Inl exc"
  using assms fill_total [OF assms(2), of rg]
  by (auto simp: bake_def annotate_def Let_def split: prod.splits if_splits sum.splits) (metis Inl_inject sum.distinct(1))+

text \<open>What baking gives of a manifest of the schema.\<close>

definition baked_well :: "('w \<Rightarrow> string \<Rightarrow> string + bool) \<Rightarrow> (string \<times> json) list \<Rightarrow> store_exc + json \<Rightarrow> 'w \<Rightarrow> bool" where
  "baked_well exists ms r w' \<longleftrightarrow>
     (case r of
        Inl e \<Rightarrow> \<exists>p exc. e = Other_error exc \<and> exists w' p = Inl exc
      | Inr m' \<Rightarrow> \<exists>ms'. m' = JObj ms' \<and> manifest_schema (JObj ms')
          \<and> (\<forall>k. k \<noteq> ''binaries'' \<and> k \<noteq> ''_bakery'' \<longrightarrow> jlookup k ms' = jlookup k ms)
          \<and> (\<exists>vs vs'. jlookup ''binaries'' ms = Some (JArr vs) \<and> jlookup ''binaries'' ms' = Some (JArr vs') \<and> length vs' = length vs))"

lemma baked_schema:
  assumes "manifest_schema (JObj ms)" and "bake_json rg hexdigest exists register (JObj ms) w = (r, w')"
  shows "baked_well exists ms r w'"
proof -
  from assms(1) obtain vs where vs: "jlookup ''binaries'' ms = Some (JArr vs)" "list_all binary_schema vs"
    by (rule manifest_schemaD) auto
  from vs(2) obtain bks where bks: "try_map binary_of_json vs = Inr bks" "\<forall>b \<in> set bks. bb_path b \<noteq> None"
    by (rule binaries_of_schema)
  have len: "length bks = length vs" using try_map_InrD [OF bks(1)] by (simp add: list_all2_lengthD)
  let ?m = "\<lparr> mf_binaries = bks, mf_bakery = None \<rparr>"
  obtain res w1 where b: "bake rg hexdigest exists register ?m w = (res, w1)" by (rule prod.exhaust)
  show ?thesis
  proof (cases res)
    case (Inl exc)
    then have "\<exists>p. exists w1 p = Inl exc" using bake_may_raise [of rg hexdigest exists register ?m w exc w1] b bks(2) by simp
    moreover have "r = Inl (Other_error exc)" "w' = w1"
      using assms(2) vs(1) bks(1) b Inl by (simp_all add: bake_json_def manifest_binaries_def jget_def jiter_def)
    ultimately show ?thesis by (simp add: baked_well_def)
  next
    case (Inr m')
    have eq: "r = Inr (JObj (put_manifest bks vs m' ms))"
      using assms(2) vs(1) bks(1) b Inr by (simp add: bake_json_def manifest_binaries_def jget_def jiter_def)
    from bake_filled [of rg hexdigest exists register ?m w m' w1] b Inr
    consider "m' = ?m" | ex meta where "fill_artifact_paths rg ex bks (fst (build_plan rg bks)) = Inr (mf_binaries m')" "mf_bakery m' = Some meta"
      by auto
    then show ?thesis
    proof cases
      case 1
      then show ?thesis using eq assms(1) vs(1) by (auto simp: put_manifest_def baked_well_def)
    next
      case 2
      have "list_all binary_schema (put_binaries bks (mf_binaries m') vs)" by (rule put_binaries_schema [OF vs(2) bks(1) 2(1)])
      moreover have l: "length (put_binaries bks (mf_binaries m') vs) = length vs"
        using len try_map_InrD [OF 2(1) [unfolded fill_artifact_paths_def]] by (simp add: put_binaries_def list_all2_lengthD)
      moreover have "bakery_schema (meta_json meta)" by (rule meta_schema)
      ultimately have "manifest_schema (JObj (put_manifest bks vs m' ms))"
        using assms(1) 2(2) by (auto simp: put_manifest_def manifest_schema_def is_object_def is_array_def)
      then show ?thesis using eq vs(1) 2(2) l by (simp add: put_manifest_def baked_well_def)
    qed
  qed
qed


section \<open>The pipeline of the engine\<close>

text \<open>The bakery's store registers the base; \<^verbatim>\<open>show_exc\<close> is \<^verbatim>\<open>str\<close> of an exception.\<close>

definition register_native ::
  "'w engine_env \<Rightarrow> (store_exc \<Rightarrow> string) \<Rightarrow> string \<Rightarrow> string \<Rightarrow> 'w host \<Rightarrow> (string + string) \<times> 'w host" where
  "register_native env show_exc name provision_cmd h =
     (case register_base (ee_sha256 env) (ee_tool env) (ee_lim env) (ee_store env) name provision_cmd h of
        (Inl e, h') \<Rightarrow> (Inl (show_exc e), h')
      | (Inr snapshot_id, h') \<Rightarrow> (Inr snapshot_id, h'))"

text \<open>\<^verbatim>\<open>denied\<close>: the paths that the system refuses to look at, and what it raises.\<close>

definition look_for :: "'w engine_env \<Rightarrow> (string \<Rightarrow> string option) \<Rightarrow> 'w host \<Rightarrow> string \<Rightarrow> string + bool" where
  "look_for env denied h p =
     (case denied p of Some exc \<Rightarrow> Inl exc | None \<Rightarrow> Inr (path_exists (ee_lim env) (fst h) (components p)))"

definition host_bake ::
  "'w engine_env \<Rightarrow> (store_exc \<Rightarrow> string) \<Rightarrow> (string \<Rightarrow> string option) \<Rightarrow> registry \<Rightarrow> json \<Rightarrow> (json, 'w) act" where
  "host_bake env show_exc denied rg =
     bake_json rg (plan_digest (ee_sha256 env)) (look_for env denied) (register_native env show_exc)"

definition probe_and_bake ::
  "'w engine_env \<Rightarrow> (store_exc \<Rightarrow> string) \<Rightarrow> (string \<Rightarrow> string option) \<Rightarrow> (string \<Rightarrow> string option) \<Rightarrow> (path \<Rightarrow> bool) \<Rightarrow> registry
   \<Rightarrow> path \<Rightarrow> string \<Rightarrow> (json, 'w) act" where
  "probe_and_bake env show_exc denied providers xbit rg rootfs_path image_ref h =
     (case probe providers xbit (ee_lim env) (fst h) rootfs_path (path_str rootfs_path) image_ref [] of
        Inl e \<Rightarrow> (Inl (Other_error e), h)
      | Inr m \<Rightarrow> host_bake env show_exc denied rg (probe_json m) h)"

lemma probe_and_bake_schema:
  assumes "probe_and_bake env show_exc denied providers xbit rg root img h = (Inr m, h')"
  shows "manifest_schema m"
proof -
  from assms obtain pm where pm: "probe providers xbit (ee_lim env) (fst h) root (path_str root) img [] = Inr pm"
      "host_bake env show_exc denied rg (probe_json pm) h = (Inr m, h')"
    by (auto simp: probe_and_bake_def split: sum.splits)
  have "manifest_schema (probe_json pm)" using probe_json_schema probe_guessed [OF pm(1)] by blast
  moreover obtain ms where "probe_json pm = JObj ms" by (simp add: probe_json_def)
  ultimately show ?thesis
    using pm(2) baked_schema [of ms rg "plan_digest (ee_sha256 env)" "look_for env denied" "register_native env show_exc" h "Inr m" h']
    by (auto simp: host_bake_def baked_well_def)
qed

text \<open>C11: The engine only ever sees manifests of the schema, if the caches hold only such: whatever the
  image contains, the manifest that loading gives, from a cache or from the probe and the bakery, is
  of the schema, so that filling the root with it fails in no other way than the file system does.\<close>

theorem loaded_manifest_valid:
  assumes "\<And>p v. p = clone_cache root \<or> cache_file image_id = Some p \<Longrightarrow> read_json (ee_lim env) (fst h) p = Inr v \<Longrightarrow> manifest_schema v"
    and "load_manifest (probe_and_bake env show_exc denied providers xbit rg) (ee_lim env) root img image_id h = (Inr m, h')"
  shows "manifest_schema m \<and> well_shaped (fst (assemble_native_shadow lim r m base h''))"
proof -
  have "manifest_schema m"
    using assms(2) assms(1) [of "clone_cache root" m] assms(1) [of _ m]
    by (auto simp: load_manifest_def then_do_def tree_exists_def load_json_def give_def probe_and_bake_schema
        split: prod.splits sum.splits option.splits if_splits)
  then show ?thesis using shadow_shaped [of m lim r base] unfolding shaped_def by blast
qed

definition demo_members :: "(string \<times> json) list" where
  "demo_members = [(''image'', JStr ''alpine''),
     (''binaries'', JArr [JObj [(''path'', JStr ''/usr/bin/cmake''), (''abi'', JStr ''linux''), (''status'', JStr ''native''),
        (''native'', JObj [(''provider'', JStr ''pkg:cmake''), (''verification'', JStr ''guessed'')])]]),
     (''linuxulator'', JObj [(''required'', JBool False)])]"

lemma demo_members_schema: "manifest_schema (JObj demo_members)"
  by code_simp

text \<open>A store that answers, on a host that can be looked at and on one whose directory cannot be searched.\<close>

definition demo_bake_json :: "(string \<Rightarrow> string + bool) \<Rightarrow> (store_exc + json) \<times> unit" where
  "demo_bake_json there = bake_json demo_registry (\<lambda>_. ''h'') (\<lambda>_. there) (\<lambda>n s w. (Inr ''snap'', w)) (JObj demo_members) ()"


definition demo_pipeline :: "(json, string list list) act" where
  "demo_pipeline = load_manifest
     (probe_and_bake (demo_env all_fine) (\<lambda>_. []) (\<lambda>_. None) (\<lambda>_. None) (\<lambda>_. True) demo_registry) (ee_lim (demo_env all_fine)) [''r''] ''alpine'' None"

lemma fs_write_any: "fst (fs_write lim c p fs) = fst (fs_write lim [] p fs)"
  by (simp add: fs_write_def split: option.split node.split)

definition demo_baked :: "(json, string list list) act" where
  "demo_baked = probe_and_bake (demo_env all_fine) (\<lambda>_. []) (\<lambda>_. None) (\<lambda>_. None) (\<lambda>_. True) demo_registry [''r''] ''alpine''"

lemma demo_steps:
  "\<not> isl (fst (demo_baked (demo_root, [])))" "fst (snd (demo_baked (demo_root, []))) = demo_root"
  "\<not> path_exists 8 demo_root (clone_cache [''r''])"
  "fst (fs_mkdirs 8 (butlast (clone_cache [''r''])) demo_root) = None"
  "fst (fs_write 8 [] (clone_cache [''r'']) (snd (fs_mkdirs 8 (butlast (clone_cache [''r''])) demo_root))) = None"
  by code_simp+

lemma demo_pipeline_gives: "\<exists>m h'. demo_pipeline (demo_root, []) = (Inr m, h')"
proof -
  obtain m h1 where b: "demo_baked (demo_root, []) = (Inr m, (demo_root, h1))"
    using demo_steps(1,2) by (cases "demo_baked (demo_root, [])"; cases "fst (demo_baked (demo_root, []))") auto
  obtain fs1 where d: "fs_mkdirs 8 (butlast (clone_cache [''r''])) demo_root = (None, fs1)"
    using demo_steps(4) by (metis prod.collapse)
  have "fst (fs_write 8 (json_dump 0 m) (clone_cache [''r'']) fs1) = None"
    using demo_steps(5) unfolding d by (simp add: fs_write_any [of 8 "json_dump 0 m"])
  then obtain fs2 where "fs_write 8 (json_dump 0 m) (clone_cache [''r'']) fs1 = (None, fs2)" by (metis prod.collapse)
  then have "save_json 8 (clone_cache [''r'']) m (demo_root, h1) = (Inr (), (fs2, h1))"
    using d by (simp add: save_json_def then_do_def on_tree_def)
  moreover have "ee_lim (demo_env all_fine) = 8" by (simp add: demo_env_def)
  ultimately show ?thesis
    using b demo_steps(3) by (simp add: demo_pipeline_def demo_baked_def load_manifest_def then_do_def give_def cache_file_def tree_exists_def)
qed

lemma demo_no_cache: "isl (read_json (ee_lim (demo_env all_fine)) demo_root (clone_cache [''r'']))"
  by code_simp

lemma loaded_manifest_valid_witness: "\<exists>m h'. demo_pipeline (demo_root, []) = (Inr m, h') \<and> manifest_schema m"
proof -
  obtain m h' where m: "demo_pipeline (demo_root, []) = (Inr m, h')" using demo_pipeline_gives by blast
  have c: "manifest_schema v" if "p = clone_cache [''r''] \<or> cache_file None = Some p"
    "read_json (ee_lim (demo_env all_fine)) (fst (demo_root, [])) p = Inr v" for p v
    using that demo_no_cache by (auto simp: cache_file_def)
  have "manifest_schema m \<and> well_shaped (fst (assemble_native_shadow 0 [] m None (demo_root, [])))"
    by (rule loaded_manifest_valid [OF _ m [unfolded demo_pipeline_def]]) (rule c)
  then show ?thesis using m by blast
qed

end
