(* ===== verification/Registry.thy ===== *)
theory Registry
  imports BakeJson Backfill CliTasks
begin

text \<open>
  \<^verbatim>\<open>providers/__init__.py\<close>, which loads the registry tables, \<^verbatim>\<open>providers/registry.schema.json\<close> as predicates,
  and the script that validates the tables in continuous integration,
  \<^verbatim>\<open>.github/scripts/validate_provider_data.py\<close>.  The theorems tie the three to the consumers of the
  tables: on validated tables the backfill never fails, and what it writes validates again.
\<close>

section \<open>Loading\<close>

record tables =
  tb_provider_map :: "(string \<times> json) list"
  tb_pkg_artifacts :: "(string \<times> json) list"
  tb_port_artifacts :: "(string \<times> json) list"
  tb_multi_pkgs :: "json list"
  tb_multi_suffix :: "(string \<times> json) list"
  tb_flavors :: "(string \<times> json) list"

definition load_table :: "nat \<Rightarrow> fs \<Rightarrow> path \<Rightarrow> string \<Rightarrow> store_exc + json" where
  "load_table links fs dir filename = read_json links fs (dir @ [filename])"

text \<open>\<^verbatim>\<open>dict(v)\<close>, of pairs only where their keys are text; and \<^verbatim>\<open>frozenset(v)\<close>.\<close>

definition as_dict :: "json \<Rightarrow> store_exc + (string \<times> json) list" where
  "as_dict v =
     (case v of
        JObj ms \<Rightarrow> Inr ms
      | JArr vs \<Rightarrow> try_map (\<lambda>x. case x of JArr [JStr k, y] \<Rightarrow> Inr (k, y) | _ \<Rightarrow> type_error) vs
      | _ \<Rightarrow> type_error)"

definition hashable :: "json \<Rightarrow> bool" where
  "hashable v \<longleftrightarrow> (case v of JObj _ \<Rightarrow> False | JArr _ \<Rightarrow> False | _ \<Rightarrow> True)"

definition as_frozenset :: "json \<Rightarrow> store_exc + json list" where
  "as_frozenset v = try_bind (jiter v) (\<lambda>vs. if list_all hashable vs then Inr vs else type_error)"

definition load_tables :: "nat \<Rightarrow> fs \<Rightarrow> path \<Rightarrow> store_exc + tables" where
  "load_tables links fs dir =
     try_bind (load_table links fs dir ''provider-map.json'') (\<lambda>providers.
     try_bind (load_table links fs dir ''pkg-artifacts.json'') (\<lambda>pkgs.
     try_bind (load_table links fs dir ''port-artifacts.json'') (\<lambda>ports.
     try_bind (load_table links fs dir ''multi-binary-pkgs.json'') (\<lambda>multi.
     try_bind (load_table links fs dir ''multi-binary-suffix.json'') (\<lambda>suffix.
     try_bind (load_table links fs dir ''coreutils-flavor.json'') (\<lambda>flavor.
     try_bind (try_bind (jitem ''providers'' providers) as_dict) (\<lambda>provider_map.
     try_bind (try_bind (jitem ''artifacts'' pkgs) as_dict) (\<lambda>pkg_artifacts.
     try_bind (try_bind (jitem ''artifacts'' ports) as_dict) (\<lambda>port_artifacts.
     try_bind (try_bind (jitem ''packages'' multi) as_frozenset) (\<lambda>multi_pkgs.
     try_bind (try_bind (jitem ''suffixes'' suffix) as_dict) (\<lambda>multi_suffix.
     try_bind (try_bind (jitem ''flavors'' flavor) as_dict) (\<lambda>flavors.
     Inr \<lparr> tb_provider_map = provider_map, tb_pkg_artifacts = pkg_artifacts, tb_port_artifacts = port_artifacts,
           tb_multi_pkgs = multi_pkgs, tb_multi_suffix = multi_suffix, tb_flavors = flavors \<rparr>))))))))))))"

text \<open>What the probe, the bakery and the backfill take from them.\<close>

definition keys_of :: "(string \<times> json) list \<Rightarrow> string list" where
  "keys_of ms = rev (remdups (rev (map fst ms)))"

definition registry_of :: "tables \<Rightarrow> registry" where
  "registry_of tb =
     \<lparr> rg_pkg_artifacts = (\<lambda>k. key_text k (tb_pkg_artifacts tb)), rg_port_artifacts = (\<lambda>k. key_text k (tb_port_artifacts tb)),
       rg_multi_pkgs = List.map_filter as_text (tb_multi_pkgs tb), rg_multi_suffix = (\<lambda>k. key_text k (tb_multi_suffix tb)) \<rparr>"

definition provider_items :: "tables \<Rightarrow> (string \<times> string) list" where
  "provider_items tb = List.map_filter (\<lambda>k. map_option (Pair k) (key_text k (tb_provider_map tb))) (keys_of (tb_provider_map tb))"

section \<open>The schema\<close>

text \<open>A number without a fraction counts as an integer, however it is written.\<close>

definition is_integer :: "json \<Rightarrow> bool" where
  "is_integer v \<longleftrightarrow>
     (case v of
        JNum n \<Rightarrow> int_text n \<or> (case float_of_text n of Some (Finite r) \<Rightarrow> r = of_int \<lfloor>r\<rfloor> | _ \<Rightarrow> False)
      | _ \<Rightarrow> False)"

definition at_least_one :: "json \<Rightarrow> bool" where
  "at_least_one v \<longleftrightarrow>
     (case v of
        JNum n \<Rightarrow> if int_text n then \<not> prefix ''-'' n \<and> \<not> zero_number n
                  else (case float_of_text n of Some (Finite r) \<Rightarrow> 1 \<le> r | _ \<Rightarrow> False)
      | _ \<Rightarrow> False)"

definition text_like :: "(string \<Rightarrow> bool) \<Rightarrow> json \<Rightarrow> bool" where
  "text_like ok v \<longleftrightarrow> (case v of JStr s \<Rightarrow> ok s | _ \<Rightarrow> False)"

text \<open>The values that count, as \<^verbatim>\<open>additionalProperties\<close> with a schema.\<close>

definition all_members :: "(json \<Rightarrow> bool) \<Rightarrow> (string \<times> json) list \<Rightarrow> bool" where
  "all_members ok ms \<longleftrightarrow> list_all (\<lambda>k. case jlookup k ms of None \<Rightarrow> True | Some v \<Rightarrow> ok v) (map fst ms)"

text \<open>The regular expression of providers is the one of \<^const>\<open>parse_provider\<close>, searched for from the start of
  the text.\<close>

definition provider_pattern :: "string \<Rightarrow> bool" where
  "provider_pattern s \<longleftrightarrow> list_ex (\<lambda>k. match_kind k s \<noteq> None) [K_pkg, K_port, K_build]"

definition table_schema :: "string \<Rightarrow> (json \<Rightarrow> bool) \<Rightarrow> json \<Rightarrow> bool" where
  "table_schema field ok = is_object (\<lambda>ms.
     only_keys [''schema_version'', field] ms \<and> required ''schema_version'' (\<lambda>v. is_integer v \<and> at_least_one v) ms \<and> required field ok ms)"

definition provider_map_schema :: "json \<Rightarrow> bool" where
  "provider_map_schema = table_schema ''providers'' (is_object (all_members (text_like provider_pattern)))"

definition artifacts_schema :: "json \<Rightarrow> bool" where
  "artifacts_schema = table_schema ''artifacts'' (is_object (all_members (text_like (prefix ''/''))))"

definition multi_binary_pkgs_schema :: "json \<Rightarrow> bool" where
  "multi_binary_pkgs_schema = table_schema ''packages'' (\<lambda>v. is_array is_text v \<and> (case v of JArr vs \<Rightarrow> distinct vs | _ \<Rightarrow> False))"

definition multi_binary_suffix_schema :: "json \<Rightarrow> bool" where
  "multi_binary_suffix_schema = table_schema ''suffixes'' (is_object (all_members is_text))"

definition coreutils_flavor_schema :: "json \<Rightarrow> bool" where
  "coreutils_flavor_schema = table_schema ''flavors'' (is_object (all_members (one_of [''gnu'', ''bsd''])))"

definition generated_schema :: "json \<Rightarrow> bool" where
  "generated_schema = is_object (\<lambda>ms.
     only_keys [''host'', ''freebsd_version'', ''checked_at'', ''method''] ms \<and> required ''host'' is_text ms \<and>
     required ''freebsd_version'' is_text ms \<and> required ''checked_at'' is_text ms \<and> required ''method'' is_text ms)"

definition evidence_schema :: "json \<Rightarrow> bool" where
  "evidence_schema = is_object (\<lambda>ms.
     only_keys [''method'', ''result'', ''source'', ''smoke_cmd'', ''exit_code''] ms \<and> required ''method'' is_text ms \<and>
     required ''result'' (one_of [''present'', ''absent'', ''unresolved'']) ms \<and> required ''source'' is_text ms \<and>
     optional ''smoke_cmd'' (is_array is_text) ms \<and> optional ''exit_code'' is_integer ms)"

definition entry_schema :: "json \<Rightarrow> bool" where
  "entry_schema = is_object (\<lambda>ms.
     only_keys [''provider'', ''artifact_path'', ''verification'', ''evidence''] ms \<and>
     required ''provider'' (text_like provider_pattern) ms \<and> required ''artifact_path'' (or_null is_text) ms \<and>
     required ''verification'' (one_of [''guessed'', ''exists'', ''runs'', ''behaves'', ''proven'']) ms \<and>
     required ''evidence'' evidence_schema ms)"

definition verification_schema :: "json \<Rightarrow> bool" where
  "verification_schema = is_object (\<lambda>ms.
     only_keys [''schema_version'', ''generated'', ''entries''] ms \<and>
     required ''schema_version'' (\<lambda>v. is_integer v \<and> at_least_one v) ms \<and>
     required ''generated'' generated_schema ms \<and> required ''entries'' (is_object (all_members entry_schema)) ms)"

section \<open>The validation script\<close>

text \<open>What it has printed, and the exception it ends with, if any.\<close>

type_synonym check = "string list \<times> (store_exc + unit)"

definition validation_error :: "store_exc" where "validation_error = Other_error ''ValidationError''"

definition assertion :: "bool \<Rightarrow> string \<Rightarrow> store_exc + unit" where
  "assertion ok message = (if ok then Inr () else Inl (Other_error (''AssertionError: '' @ message)))"

definition and_then :: "check \<Rightarrow> check \<Rightarrow> check" where
  "and_then a b = (case snd a of Inl e \<Rightarrow> a | Inr _ \<Rightarrow> (fst a @ fst b, snd b))"

definition FILE_TO_SCHEMA_DEF :: "(string \<times> string \<times> (json \<Rightarrow> bool)) list" where
  "FILE_TO_SCHEMA_DEF =
     [(''provider-map.json'', ''provider_map'', provider_map_schema),
      (''pkg-artifacts.json'', ''pkg_artifacts'', artifacts_schema),
      (''port-artifacts.json'', ''port_artifacts'', artifacts_schema),
      (''multi-binary-pkgs.json'', ''multi_binary_pkgs'', multi_binary_pkgs_schema),
      (''multi-binary-suffix.json'', ''multi_binary_suffix'', multi_binary_suffix_schema),
      (''coreutils-flavor.json'', ''coreutils_flavor'', coreutils_flavor_schema),
      (''verification.json'', ''verification'', verification_schema)]"

definition validate_file :: "nat \<Rightarrow> fs \<Rightarrow> path \<Rightarrow> string \<times> string \<times> (json \<Rightarrow> bool) \<Rightarrow> check" where
  "validate_file links fs dir f =
     (case f of (filename, def_name, ok) \<Rightarrow>
        if filename = ''verification.json'' \<and> \<not> path_exists links fs (dir @ [filename])
        then ([''skip: providers/'' @ filename @ '' not generated yet (run `python3 -m providers.backfill` on FreeBSD)''], Inr ())
        else (case load_table links fs dir filename of
            Inl e \<Rightarrow> ([], Inl e)
          | Inr v \<Rightarrow> if ok v then ([''OK: providers/'' @ filename @ '' validates against $defs/'' @ def_name], Inr ())
                     else ([], Inl validation_error)))"

definition validate_files :: "nat \<Rightarrow> fs \<Rightarrow> path \<Rightarrow> (string \<times> string \<times> (json \<Rightarrow> bool)) list \<Rightarrow> check" where
  "validate_files links fs dir files = foldr (\<lambda>f rest. and_then (validate_file links fs dir f) rest) files ([], Inr ())"

definition outside :: "string list \<Rightarrow> (string \<Rightarrow> bool) \<Rightarrow> string list" where "outside ks known = filter (\<lambda>k. \<not> known k) ks"

definition shown_list :: "string list \<Rightarrow> string" where "shown_list ss = json_repr (JArr (map JStr ss))"

definition check_loader :: "tables \<Rightarrow> store_exc + unit" where
  "check_loader tb =
     (let suffix_orphans = outside (keys_of (tb_multi_suffix tb)) (\<lambda>k. JStr k \<in> set (tb_multi_pkgs tb));
          orphans = outside (keys_of (tb_flavors tb)) (\<lambda>k. k \<in> set (keys_of (tb_provider_map tb))) in
      try_bind (assertion (tb_provider_map tb \<noteq> []) ''PROVIDER_MAP is empty or wrong type'') (\<lambda>_.
      try_bind (assertion (tb_pkg_artifacts tb \<noteq> []) ''PKG_ARTIFACTS is empty or wrong type'') (\<lambda>_.
      try_bind (assertion (tb_port_artifacts tb \<noteq> []) ''PORT_ARTIFACTS is empty or wrong type'') (\<lambda>_.
      try_bind (assertion (suffix_orphans = []) (''MULTI_BINARY_SUFFIX keys not in MULTI_BINARY_PKGS: '' @ shown_list suffix_orphans)) (\<lambda>_.
      try_bind (assertion (tb_flavors tb \<noteq> []) ''COREUTILS_FLAVOR is empty or wrong type'') (\<lambda>_.
      assertion (orphans = []) (''COREUTILS_FLAVOR has keys not present in PROVIDER_MAP: '' @ shown_list orphans)))))))"

text \<open>The evidence file against the loaded map.\<close>

definition entry_provider :: "json \<Rightarrow> store_exc + json" where "entry_provider v = jget ''provider'' JNull v"

definition drifted :: "tables \<Rightarrow> (string \<times> json) list \<Rightarrow> store_exc + string list" where
  "drifted tb entries =
     try_bind (try_map (\<lambda>k. try_bind (entry_provider (the (jlookup k entries))) (\<lambda>p. Inr (k, p))) (keys_of entries)) (\<lambda>kps.
     Inr (map fst (filter (\<lambda>(k, p). Some p \<noteq> jlookup k (tb_provider_map tb)) kps)))"

definition check_verification :: "tables \<Rightarrow> json \<Rightarrow> store_exc + nat" where
  "check_verification tb doc =
     try_bind (try_bind (jget ''entries'' (JObj []) doc) (\<lambda>v. case v of JObj ms \<Rightarrow> Inr ms | _ \<Rightarrow> attribute_error)) (\<lambda>entries.
     let orphans = outside (keys_of entries) (\<lambda>k. k \<in> set (keys_of (tb_provider_map tb))) in
     try_bind (assertion (orphans = []) (''verification.json has keys not in PROVIDER_MAP: '' @ shown_list orphans)) (\<lambda>_.
     try_bind (drifted tb entries) (\<lambda>drift.
     try_bind (assertion (drift = []) (''verification.json provider strings diverge from provider-map.json: '' @
         py_join '', '' (map (\<lambda>k. k @ ''='' @ json_str (case entry_provider (the (jlookup k entries)) of Inr p \<Rightarrow> p | Inl _ \<Rightarrow> JNull) @
           ''!='' @ json_str (the (jlookup k (tb_provider_map tb)))) drift))) (\<lambda>_.
     Inr (length (keys_of entries))))))"

definition check_evidence_file :: "nat \<Rightarrow> fs \<Rightarrow> path \<Rightarrow> tables \<Rightarrow> check" where
  "check_evidence_file links fs dir tb =
     (if \<not> path_exists links fs (dir @ [''verification.json'']) then ([], Inr ())
      else (case try_bind (load_table links fs dir ''verification.json'') (check_verification tb) of
          Inl e \<Rightarrow> ([], Inl e)
        | Inr n \<Rightarrow> ([''OK: providers/verification.json consistent with PROVIDER_MAP ('' @ show_nat n @ '' entries)''], Inr ())))"

definition loader_summary :: "tables \<Rightarrow> string" where
  "loader_summary tb =
     (let count = (\<lambda>ms. show_nat (length (keys_of ms))) in
      ''OK: providers loader exposes non-empty PROVIDER_MAP ('' @ count (tb_provider_map tb) @ ''), PKG_ARTIFACTS ('' @ count (tb_pkg_artifacts tb) @
      ''), PORT_ARTIFACTS ('' @ count (tb_port_artifacts tb) @ ''), MULTI_BINARY_PKGS ('' @ show_nat (length (remdups (tb_multi_pkgs tb))) @
      ''), MULTI_BINARY_SUFFIX ('' @ count (tb_multi_suffix tb) @ ''), COREUTILS_FLAVOR ('' @ count (tb_flavors tb) @ '')'')"

text \<open>The tables that the probe and the bakery export are the loader's own objects, by their imports.\<close>

definition validate_provider_data :: "nat \<Rightarrow> fs \<Rightarrow> path \<Rightarrow> check" where
  "validate_provider_data links fs dir =
     and_then (validate_files links fs dir FILE_TO_SCHEMA_DEF)
       (case load_tables links fs dir of
          Inl e \<Rightarrow> ([], Inl e)
        | Inr tb \<Rightarrow>
            (case check_loader tb of
               Inl e \<Rightarrow> ([], Inl e)
             | Inr _ \<Rightarrow> and_then (check_evidence_file links fs dir tb)
                 ([loader_summary tb, ''OK: probe.probe / bakery.bakery re-export the same providers objects''], Inr ())))"

section \<open>The document of the backfill\<close>

definition evidence_json :: "evidence \<Rightarrow> json" where
  "evidence_json ev = JObj ([(''method'', JStr (ev_method ev)), (''result'', JStr (ev_result ev)), (''source'', JStr (ev_source ev))] @
     (case ev_smoke_cmd ev of None \<Rightarrow> [] | Some cmd \<Rightarrow> [(''smoke_cmd'', JArr (map JStr cmd))]) @
     (case ev_exit_code ev of None \<Rightarrow> [] | Some rc \<Rightarrow> [(''exit_code'', JNum (show_int rc))]))"

definition entry_json :: "backfill_entry \<Rightarrow> json" where
  "entry_json e = JObj [(''provider'', JStr (bf_provider e)), (''artifact_path'', text_or_null (bf_artifact_path e)),
     (''verification'', JStr (bf_verification e)), (''evidence'', evidence_json (bf_evidence e))]"

definition host_json :: "host_record \<Rightarrow> json" where
  "host_json hi = JObj [(''host'', JStr (hi_host hi)), (''freebsd_version'', JStr (hi_freebsd_version hi)),
     (''checked_at'', JStr (hi_checked_at hi)), (''method'', JStr (hi_method hi))]"

definition entries_json :: "backfill_doc \<Rightarrow> (string \<times> json) list" where
  "entries_json d = map (\<lambda>(n, e). (n, entry_json e)) d"

definition document_json :: "verification_json \<Rightarrow> json" where
  "document_json doc = JObj [(''schema_version'', JNum (show_int (vj_schema_version doc))), (''generated'', host_json (vj_generated doc)),
     (''entries'', JObj (entries_json (vj_entries doc)))]"

section \<open>Validated tables\<close>

lemma and_then_ok: "snd (and_then a b) = Inr () \<longleftrightarrow> snd a = Inr () \<and> snd b = Inr ()"
  by (auto simp: and_then_def split: sum.split)

lemma validate_files_ok: "snd (validate_files links fs dir files) = Inr () \<longleftrightarrow> (\<forall>f \<in> set files. snd (validate_file links fs dir f) = Inr ())"
  by (induction files) (simp_all add: validate_files_def and_then_ok)

lemma validated_table:
  assumes "snd (validate_files links fs dir FILE_TO_SCHEMA_DEF) = Inr ()" and "(filename, def_name, ok) \<in> set FILE_TO_SCHEMA_DEF"
    and "filename \<noteq> ''verification.json''"
  obtains v where "load_table links fs dir filename = Inr v" "ok v"
proof -
  have "snd (validate_file links fs dir (filename, def_name, ok)) = Inr ()"
    using assms(1,2) unfolding validate_files_ok by blast
  then show thesis using assms(3) that by (auto simp: validate_file_def split: sum.splits if_splits)
qed

lemma table_schemaD: "table_schema field ok v \<Longrightarrow> \<exists>x. jitem field v = Inr x \<and> ok x"
  by (auto simp: table_schema_def is_object_def required_def jitem_def split: json.splits option.splits)

lemma is_objectD: "is_object ok v \<Longrightarrow> \<exists>ms. v = JObj ms \<and> ok ms"
  by (cases v) (simp_all add: is_object_def)

lemma table_of_schema: "table_schema field (is_object ok) v \<Longrightarrow> \<exists>ms. try_bind (jitem field v) as_dict = Inr ms \<and> ok ms"
  by (drule table_schemaD) (auto simp: as_dict_def dest!: is_objectD)

lemma text_array: "is_array is_text v \<Longrightarrow> \<exists>ss. v = JArr (map JStr ss)"
proof -
  have "is_text x \<longleftrightarrow> (\<exists>s. x = JStr s)" for x by (cases x) (simp_all add: is_text_def)
  then show "is_array is_text v \<Longrightarrow> ?thesis" by (cases v) (auto simp: is_array_def list_all_iff ex_map_conv)
qed

lemma validated_tables:
  assumes "snd (validate_files links fs dir FILE_TO_SCHEMA_DEF) = Inr ()"
  obtains tb where "load_tables links fs dir = Inr tb" "all_members (text_like provider_pattern) (tb_provider_map tb)"
    "all_members (text_like (prefix ''/'')) (tb_pkg_artifacts tb)" "all_members (text_like (prefix ''/'')) (tb_port_artifacts tb)"
proof -
  have loaded: "\<exists>v. load_table links fs dir f = Inr v \<and> ok v" if "(f, d, ok) \<in> set FILE_TO_SCHEMA_DEF" "f \<noteq> ''verification.json''" for f d ok
    using validated_table [OF assms that] by blast
  obtain v1 where 1: "load_table links fs dir ''provider-map.json'' = Inr v1" "provider_map_schema v1"
    using loaded [of "''provider-map.json''" "''provider_map''" provider_map_schema] by (auto simp: FILE_TO_SCHEMA_DEF_def)
  obtain v2 where 2: "load_table links fs dir ''pkg-artifacts.json'' = Inr v2" "artifacts_schema v2"
    using loaded [of "''pkg-artifacts.json''" "''pkg_artifacts''" artifacts_schema] by (auto simp: FILE_TO_SCHEMA_DEF_def)
  obtain v3 where 3: "load_table links fs dir ''port-artifacts.json'' = Inr v3" "artifacts_schema v3"
    using loaded [of "''port-artifacts.json''" "''port_artifacts''" artifacts_schema] by (auto simp: FILE_TO_SCHEMA_DEF_def)
  obtain v4 where 4: "load_table links fs dir ''multi-binary-pkgs.json'' = Inr v4" "multi_binary_pkgs_schema v4"
    using loaded [of "''multi-binary-pkgs.json''" "''multi_binary_pkgs''" multi_binary_pkgs_schema] by (auto simp: FILE_TO_SCHEMA_DEF_def)
  obtain v5 where 5: "load_table links fs dir ''multi-binary-suffix.json'' = Inr v5" "multi_binary_suffix_schema v5"
    using loaded [of "''multi-binary-suffix.json''" "''multi_binary_suffix''" multi_binary_suffix_schema] by (auto simp: FILE_TO_SCHEMA_DEF_def)
  obtain v6 where 6: "load_table links fs dir ''coreutils-flavor.json'' = Inr v6" "coreutils_flavor_schema v6"
    using loaded [of "''coreutils-flavor.json''" "''coreutils_flavor''" coreutils_flavor_schema] by (auto simp: FILE_TO_SCHEMA_DEF_def)
  have "\<exists>vs. try_bind (jitem ''packages'' v4) as_frozenset = Inr vs"
    using table_schemaD [OF 4(2) [unfolded multi_binary_pkgs_schema_def]]
    by (auto simp: as_frozenset_def jiter_def hashable_def list_all_iff dest!: text_array)
  with table_of_schema [OF 1(2) [unfolded provider_map_schema_def]] table_of_schema [OF 2(2) [unfolded artifacts_schema_def]]
    table_of_schema [OF 3(2) [unfolded artifacts_schema_def]] table_of_schema [OF 5(2) [unfolded multi_binary_suffix_schema_def]]
    table_of_schema [OF 6(2) [unfolded coreutils_flavor_schema_def]]
  obtain m1 m2 m3 m4 m5 m6 where
    "try_bind (jitem ''providers'' v1) as_dict = Inr m1" "all_members (text_like provider_pattern) m1"
    "try_bind (jitem ''artifacts'' v2) as_dict = Inr m2" "all_members (text_like (prefix ''/'')) m2"
    "try_bind (jitem ''artifacts'' v3) as_dict = Inr m3" "all_members (text_like (prefix ''/'')) m3"
    "try_bind (jitem ''packages'' v4) as_frozenset = Inr m4" "try_bind (jitem ''suffixes'' v5) as_dict = Inr m5"
    "try_bind (jitem ''flavors'' v6) as_dict = Inr m6" by blast
  then show thesis
    using that 1(1) 2(1) 3(1) 4(1) 5(1) 6(1) by (simp add: load_tables_def)
qed

section \<open>The backfill on validated tables\<close>

lemma keys_of_distinct: "distinct (keys_of ms)" and set_keys_of: "set (keys_of ms) = fst ` set ms"
  by (simp_all add: keys_of_def)

lemma keys_of_id: "distinct (map fst ms) \<Longrightarrow> keys_of ms = map fst ms"
  by (simp add: keys_of_def distinct_remdups_id)

lemma all_members_text:
  assumes "all_members (text_like ok) ms" and "k \<in> set (keys_of ms)"
  obtains s where "jlookup k ms = Some (JStr s)" "ok s"
proof -
  have "jlookup k ms \<noteq> None" using assms(2) by (auto simp: jlookup_def map_of_eq_None_iff set_keys_of)
  then obtain v where v: "jlookup k ms = Some v" by blast
  moreover have "text_like ok v" using assms v by (auto simp: all_members_def list_all_iff set_keys_of dest!: bspec [of _ _ k])
  ultimately show thesis using that by (cases v) (simp_all add: text_like_def)
qed

lemma provider_items_text:
  assumes "all_members (text_like ok) (tb_provider_map tb)"
  shows "map fst (provider_items tb) = keys_of (tb_provider_map tb)"
    and "(k, p) \<in> set (provider_items tb) \<Longrightarrow> jlookup k (tb_provider_map tb) = Some (JStr p) \<and> ok p"
proof -
  have some: "\<exists>s. key_text k (tb_provider_map tb) = Some s \<and> jlookup k (tb_provider_map tb) = Some (JStr s) \<and> ok s"
    if "k \<in> set (keys_of (tb_provider_map tb))" for k
    by (rule all_members_text [OF assms that]) (simp add: as_text_def key_text_def)
  have "map fst (List.map_filter (\<lambda>k. map_option (Pair k) (key_text k (tb_provider_map tb))) ks) = ks"
    if "set ks \<subseteq> set (keys_of (tb_provider_map tb))" for ks
    using that
  proof (induction ks)
    case (Cons k ks)
    then show ?case using some [of k] by (auto simp: List.map_filter_def)
  qed (simp add: List.map_filter_def)
  then show "map fst (provider_items tb) = keys_of (tb_provider_map tb)" by (simp add: provider_items_def)
  show "jlookup k (tb_provider_map tb) = Some (JStr p) \<and> ok p" if "(k, p) \<in> set (provider_items tb)"
  proof -
    have "k \<in> set (keys_of (tb_provider_map tb))" "key_text k (tb_provider_map tb) = Some p"
      using that by (auto simp: provider_items_def List.map_filter_def)
    then show ?thesis using some [of k] by auto
  qed
qed

lemma provider_pattern_parses: "provider_pattern p \<Longrightarrow> \<exists>k t. parse_provider p = Inr (k, t)"
  by (auto simp: provider_pattern_def parse_provider_def split: option.splits)

lemma collect_entry_total: "provider_pattern p \<Longrightarrow> \<exists>e. collect_entry rg exists (n, p) = Inr (n, e)"
  by (drule provider_pattern_parses)
    (auto simp: collect_entry_def resolve_artifact_def Let_def split: provider_kind.split sum.split prod.split option.split)

text \<open>What every entry has, collected or run.\<close>

definition evidenced :: "tables \<Rightarrow> string \<times> backfill_entry \<Rightarrow> bool" where
  "evidenced tb ne \<longleftrightarrow> (case ne of (n, e) \<Rightarrow>
     jlookup n (tb_provider_map tb) = Some (JStr (bf_provider e)) \<and> provider_pattern (bf_provider e) \<and>
     bf_verification e \<in> {''guessed'', ''exists'', ''runs''} \<and> ev_result (bf_evidence e) \<in> {''present'', ''absent'', ''unresolved''})"

lemma collected_ok:
  assumes "all_members (text_like provider_pattern) (tb_provider_map tb)" and "collect rg exists (provider_items tb) = Inr d"
  shows "list_all (evidenced tb) d" and "distinct (map fst d)" and "set (map fst d) = set (keys_of (tb_provider_map tb))"
proof -
  note items = provider_items_text [OF assms(1)]
  show "list_all (evidenced tb) d"
    unfolding list_all_iff
  proof
    fix x assume x: "x \<in> set d"
    obtain n e where ne: "x = (n, e)" by (cases x)
    obtain p where p: "(n, p) \<in> set (provider_items tb)" "collect_entry rg exists (n, p) = Inr (n, e)"
      using collect_entries [OF assms(2)] x unfolding ne by blast
    from p(2) have "bf_provider e = p" "bf_verification e \<in> {''guessed'', ''exists''}"
      "ev_result (bf_evidence e) \<in> {''present'', ''absent'', ''unresolved''}"
      by (auto elim!: collect_entry_result split: option.splits)
    then show "evidenced tb x" using items(2) [OF p(1)] ne by (auto simp: evidenced_def)
  qed
  have k: "map fst d = map fst (sort_key fst (provider_items tb))" by (rule collect_keys [OF assms(2)])
  have "mset (map fst d) = mset (map fst (provider_items tb))" unfolding k by simp
  then show "distinct (map fst d)" "set (map fst d) = set (keys_of (tb_provider_map tb))"
    using items(1) keys_of_distinct by (metis mset_eq_imp_distinct_iff) (metis \<open>mset (map fst d) = _\<close> items(1) mset_eq_setD)
qed

lemma verify_runs_ok:
  assumes "list_all (evidenced tb) d"
  shows "list_all (evidenced tb) (fst (verify_runs runner d w))" and "map fst (fst (verify_runs runner d w)) = map fst d"
  using assms
  by (induction runner d w rule: verify_runs.induct) (auto simp: evidenced_def smoke_result_def Let_def split: prod.splits)

lemma entry_schema_json: "evidenced tb (n, e) \<Longrightarrow> entry_schema (entry_json e)"
  by (auto simp: evidenced_def entry_schema_def entry_json_def evidence_schema_def evidence_json_def is_object_def only_keys_def required_def
      optional_def jlookup_def text_like_def or_null_def text_or_null_def is_text_def one_of_def is_array_def list_all_iff is_integer_def
      int_text_show_int split: option.split)

lemma lookup_entries:
  assumes "distinct (map fst d)" and "(n, e) \<in> set d"
  shows "jlookup n (entries_json d) = Some (entry_json e)"
proof -
  have "map_of (rev d) n = Some e" using assms by (intro map_of_is_SomeI) (simp_all add: rev_map [symmetric])
  then show ?thesis by (simp add: jlookup_def entries_json_def rev_map map_of_map)
qed

lemma keys_of_entries: "distinct (map fst d) \<Longrightarrow> keys_of (entries_json d) = map fst d"
  by (simp add: keys_of_id entries_json_def comp_def case_prod_unfold)

lemma document_valid:
  assumes "list_all (evidenced tb) d" and "distinct (map fst d)"
  shows "verification_schema (document_json (render d info))"
proof -
  have "all_members entry_schema (entries_json d)"
    using assms(1) entry_schema_json [of tb] lookup_entries [OF assms(2)]
    by (fastforce simp: all_members_def list_all_iff entries_json_def [of d] split: option.split)
  moreover have "generated_schema (host_json i)" for i
    by (simp add: generated_schema_def host_json_def is_object_def only_keys_def required_def jlookup_def is_text_def)
  moreover have "is_integer (JNum (show_int 1)) \<and> at_least_one (JNum (show_int 1))" by code_simp
  ultimately show ?thesis
    by (simp add: verification_schema_def document_json_def render_def is_object_def only_keys_def required_def jlookup_def)
qed

lemma document_consistent:
  assumes "list_all (evidenced tb) d" and "distinct (map fst d)" and "set (map fst d) = set (keys_of (tb_provider_map tb))"
  shows "check_verification tb (document_json (render d info)) = Inr (length (keys_of (tb_provider_map tb)))"
proof -
  let ?es = "entries_json d"
  have e: "entry_provider (the (jlookup n ?es)) = Inr (JStr (bf_provider e))" "jlookup n (tb_provider_map tb) = Some (JStr (bf_provider e))"
    if "(n, e) \<in> set d" for n e
    using that assms(1) lookup_entries [OF assms(2) that]
    by (auto simp: entry_provider_def jget_def entry_json_def jlookup_def list_all_iff evidenced_def)
  have "drifted tb ?es = Inr []"
  proof -
    have "try_map (\<lambda>k. try_bind (entry_provider (the (jlookup k ?es))) (\<lambda>p. Inr (k, p))) (map fst d) =
        Inr (map (\<lambda>k. (k, the (jlookup k (tb_provider_map tb)))) (map fst d))"
      using e by (intro try_map_all_Inr) force
    moreover have "filter (\<lambda>(k, p). Some p \<noteq> jlookup k (tb_provider_map tb)) (map (\<lambda>k. (k, the (jlookup k (tb_provider_map tb)))) (map fst d)) = []"
      using e by (force simp: filter_empty_conv)
    ultimately show ?thesis by (simp add: drifted_def keys_of_entries [OF assms(2)])
  qed
  moreover have "outside (keys_of ?es) (\<lambda>k. k \<in> set (keys_of (tb_provider_map tb))) = []"
    using assms(3) by (auto simp: outside_def keys_of_entries [OF assms(2)] filter_empty_conv)
  moreover have "length (keys_of ?es) = length (keys_of (tb_provider_map tb))"
    using assms(2,3) keys_of_distinct by (metis keys_of_entries distinct_card)
  moreover have "jget ''entries'' (JObj []) (document_json (render d info)) = Inr (JObj ?es)"
    by (simp add: jget_def document_json_def render_def jlookup_def)
  ultimately show ?thesis by (simp add: check_verification_def assertion_def)
qed

text \<open>C18: Tables that pass validation serve the whole registry.  If the script accepts the files, the loader
  loads them; the backfill then resolves every entry of the provider map, whatever exists on the host;
  and the evidence it writes, before or after the smoke runs and whatever these give, is of the schema
  of evidence files and consistent with the map, so that the script accepts it in turn.\<close>

theorem validated_registry_backfills:
  assumes "snd (validate_files links fs dir FILE_TO_SCHEMA_DEF) = Inr ()"
  shows "\<exists>tb d. load_tables links fs dir = Inr tb \<and> collect (registry_of tb) exists (provider_items tb) = Inr d
    \<and> (\<forall>d' \<in> {d, fst (verify_runs runner d w)}. verification_schema (document_json (render d' info))
        \<and> check_verification tb (document_json (render d' info)) = Inr (length (keys_of (tb_provider_map tb))))"
proof -
  obtain tb where tb: "load_tables links fs dir = Inr tb" "all_members (text_like provider_pattern) (tb_provider_map tb)"
    by (rule validated_tables [OF assms])
  have "\<forall>x \<in> set (sort_key fst (provider_items tb)). \<exists>y. collect_entry (registry_of tb) exists x = Inr y"
    using provider_items_text(2) [OF tb(2)] collect_entry_total by fastforce
  from try_map_total [OF this] obtain d where d: "collect (registry_of tb) exists (provider_items tb) = Inr d"
    by (auto simp: collect_def)
  note c = collected_ok [OF tb(2) d] and r = verify_runs_ok [OF collected_ok(1) [OF tb(2) d], of runner w]
  have "verification_schema (document_json (render d' info))
      \<and> check_verification tb (document_json (render d' info)) = Inr (length (keys_of (tb_provider_map tb)))"
    if "d' \<in> {d, fst (verify_runs runner d w)}" for d'
  proof -
    have "list_all (evidenced tb) d'" "distinct (map fst d')" "set (map fst d') = set (keys_of (tb_provider_map tb))"
      using that c r(1) arg_cong [OF r(2), of distinct] arg_cong [OF r(2), of set] by auto
    then show ?thesis using document_valid document_consistent by blast
  qed
  then show ?thesis using tb(1) d by blast
qed

definition table_json :: "string \<Rightarrow> json \<Rightarrow> json" where
  "table_json field v = JObj [(''schema_version'', JNum ''1''), (field, v)]"

definition demo_files :: "(string \<times> json) list" where
  "demo_files =
     [(''provider-map.json'', table_json ''providers'' (JObj [(''cmake'', JStr ''pkg:cmake''), (''ld'', JStr ''pkg:binutils'')])),
      (''pkg-artifacts.json'', table_json ''artifacts'' (JObj [(''cmake'', JStr ''/usr/local/bin/cmake'')])),
      (''port-artifacts.json'', table_json ''artifacts'' (JObj [(''d/x'', JStr ''/x'')])),
      (''multi-binary-pkgs.json'', table_json ''packages'' (JArr [JStr ''binutils''])),
      (''multi-binary-suffix.json'', table_json ''suffixes'' (JObj [])),
      (''coreutils-flavor.json'', table_json ''flavors'' (JObj [(''ld'', JStr ''gnu'')]))]"

definition files_tree :: "(string \<times> string) list \<Rightarrow> fs" where
  "files_tree files = ([''p''], Dir) # map (\<lambda>(f, c). ([''p'', f], Reg c)) files"

lemma look_files_tree: "look (files_tree files) [''p'', f] = map_option Reg (map_of files f)"
proof -
  have "map_of (map (\<lambda>(f, c). ([''p'', f], Reg c)) al) [''p'', f] = map_option Reg (map_of al f)" for al :: "(string \<times> string) list"
    by (induction al) auto
  then show ?thesis by (simp add: look_def files_tree_def)
qed

lemma follow_files_tree:
  assumes "f \<noteq> DOTDOT"
  shows "follow 8 (files_tree files) [''p'', f] = Some [''p'', f]"
proof -
  have p: "look (files_tree files) [''p''] = Some Dir" by (simp add: look_def files_tree_def)
  then have "real_dir (files_tree files) [''p'']" by (auto simp: real_dir_def DOTDOT_def prefix_Cons)
  from follow_root [OF this, of 8] have "resolve_from True 8 (files_tree files) [] [''p''] = Some [''p'']" by (simp add: follow_def)
  from resolve_from_snoc [OF this p assms] show ?thesis by (simp add: look_files_tree follow_def)
qed

definition demo_registry_tree :: fs where
  "demo_registry_tree = files_tree (map (\<lambda>(f, v). (f, json_line v)) demo_files)"

lemma demo_files_ok: "list_all (\<lambda>(f, v). json_ok v \<and> f \<noteq> DOTDOT) demo_files"
  by code_simp

lemma demo_table: "map_of demo_files f = Some v \<Longrightarrow> load_table 8 demo_registry_tree [''p''] f = Inr v"
proof -
  assume m: "map_of demo_files f = Some v"
  then have "json_ok v" "f \<noteq> DOTDOT" using demo_files_ok by (auto simp: list_all_iff dest: map_of_SomeD)
  moreover have "map_of (map (\<lambda>(f, v). (f, json_line v)) demo_files) f = Some (json_line v)" using m by (simp add: map_of_map)
  ultimately show ?thesis
    by (simp add: load_table_def read_json_def read_text_def demo_registry_tree_def json_loads_line follow_files_tree look_files_tree)
qed

lemma demo_no_evidence: "\<not> path_exists 8 demo_registry_tree ([''p''] @ [''verification.json''])"
proof -
  have "map_of (map (\<lambda>(f, v). (f, json_line v)) demo_files) ''verification.json'' = None" by (simp add: map_of_map demo_files_def)
  then show ?thesis by (simp add: path_exists_def stat_def demo_registry_tree_def follow_files_tree look_files_tree DOTDOT_def)
qed

lemma demo_schemas: "list_all (\<lambda>(f, d, ok). f \<noteq> ''verification.json'' \<longrightarrow> ok (the (map_of demo_files f)) \<and> map_of demo_files f \<noteq> None) FILE_TO_SCHEMA_DEF"
  by code_simp

lemma demo_validates: "snd (validate_files 8 demo_registry_tree [''p''] FILE_TO_SCHEMA_DEF) = Inr ()"
  unfolding validate_files_ok
proof
  fix x assume x: "x \<in> set FILE_TO_SCHEMA_DEF"
  obtain f d ok where fd: "x = (f, d, ok)" by (cases x)
  show "snd (validate_file 8 demo_registry_tree [''p''] x) = Inr ()"
  proof (cases "f = ''verification.json''")
    case True
    then show ?thesis using demo_no_evidence fd by (simp add: validate_file_def)
  next
    case False
    then obtain v where "map_of demo_files f = Some v" "ok v" using demo_schemas x fd by (auto simp: list_all_iff)
    then show ?thesis using False demo_table fd by (simp add: validate_file_def)
  qed
qed

lemma validated_registry_backfills_witness:
  "\<exists>tb d. load_tables 8 demo_registry_tree [''p''] = Inr tb \<and> collect (registry_of tb) (\<lambda>_. True) (provider_items tb) = Inr d
    \<and> map fst d = [''cmake'', ''ld'']
    \<and> verification_schema (document_json (render (fst (verify_runs (logged_runner (\<lambda>_. 0)) d []))
        \<lparr> hi_host = ''h'', hi_freebsd_version = ''15'', hi_checked_at = ''t'', hi_method = ''path-exists'' \<rparr>))"
proof -
  let ?info = "\<lparr> hi_host = ''h'', hi_freebsd_version = ''15'', hi_checked_at = ''t'', hi_method = ''path-exists'' \<rparr>"
  from validated_registry_backfills [OF demo_validates, of "\<lambda>_. True" "logged_runner (\<lambda>_. 0)" "[]" ?info]
  obtain tb d where tb: "load_tables 8 demo_registry_tree [''p''] = Inr tb" "collect (registry_of tb) (\<lambda>_. True) (provider_items tb) = Inr d"
    "verification_schema (document_json (render (fst (verify_runs (logged_runner (\<lambda>_. 0)) d [])) ?info))" by blast
  have pm: "tb_provider_map tb = [(''cmake'', JStr ''pkg:cmake''), (''ld'', JStr ''pkg:binutils'')]"
    using tb(1) demo_table by (auto simp: load_tables_def demo_files_def table_json_def jitem_def jlookup_def as_dict_def as_frozenset_def jiter_def hashable_def)
  have "provider_items tb = [(''cmake'', ''pkg:cmake''), (''ld'', ''pkg:binutils'')]"
    unfolding provider_items_def pm by code_simp
  then have "map fst d = map fst (sort_key fst [(''cmake'', ''pkg:cmake''), (''ld'', ''pkg:binutils'')])"
    using collect_keys [OF tb(2)] by simp
  also have "\<dots> = [''cmake'', ''ld'']" by code_simp
  finally have m: "map fst d = [''cmake'', ''ld'']" .
  show ?thesis by (intro exI conjI) (fact tb(1), fact tb(2), fact m, fact tb(3))
qed

end
