(* ===== verification/Mains.thy ===== *)
theory Mains
  imports Registry CliRun
begin

text \<open>
  The programs beside \<^verbatim>\<open>jailrun\<close> itself: the command lines of \<^verbatim>\<open>probe/probe.py\<close> and \<^verbatim>\<open>bakery/bakery.py\<close>, the
  script \<^verbatim>\<open>.github/scripts/validate_manifest_schema.py\<close>, and the stand-ins that \<^verbatim>\<open>runtime/engine.py\<close> and
  \<^verbatim>\<open>bakery/bakery.py\<close> take where a module cannot be imported (\<^verbatim>\<open>runtime/_mocks.py\<close>).
\<close>

section \<open>Stand-ins\<close>

definition not_implemented :: "string \<Rightarrow> ('a, 'w) act" where
  "not_implemented message = raise_exc (Other_error (''NotImplementedError: '' @ message))"

definition S3_missing :: "string \<Rightarrow> string" where
  "S3_missing operation = ''store.'' @ operation @ '' not implemented '' @ em_dash @ '' S3 not yet built.''"

definition mock_resolve :: "string \<Rightarrow> (string, 'w) act" where
  "mock_resolve image_ref = not_implemented (''store.resolve not implemented '' @ em_dash @ '' S3 (store/) not yet built. '' @
     ''Run on freebsd-host once store/ seam is available.'')"

definition mock_unpack :: "string \<Rightarrow> (string, 'w) act" where
  "mock_unpack image_id = not_implemented (S3_missing ''unpack'')"

definition mock_register_base :: "string \<Rightarrow> string \<Rightarrow> (string, 'w) act" where
  "mock_register_base name script = not_implemented (S3_missing ''register_base'')"

definition mock_base_mountpoint :: "string \<Rightarrow> (path, 'w) act" where
  "mock_base_mountpoint snapshot_id = not_implemented (S3_missing ''base_mountpoint'')"

definition mock_clone :: "string \<Rightarrow> (path \<times> handle, 'w) act" where
  "mock_clone snapshot_id = not_implemented (S3_missing ''clone'')"

definition mock_mount :: "handle \<Rightarrow> (string \<times> string \<times> bool) list \<Rightarrow> (unit, 'w) act" where
  "mock_mount hdl binds = not_implemented (S3_missing ''mount'')"

definition mock_destroy :: "handle \<Rightarrow> (unit, 'w) act" where
  "mock_destroy hdl = not_implemented (S3_missing ''destroy'')"

definition mock_probe :: "path \<Rightarrow> string \<Rightarrow> (json, 'w) act" where
  "mock_probe rootfs_path image_ref = not_implemented (''probe.probe not implemented '' @ em_dash @ '' S2 (probe/) not yet built.'')"

definition mock_bake :: "json \<Rightarrow> (json, 'w) act" where
  "mock_bake manifest = not_implemented (''bakery.bake not implemented '' @ em_dash @ '' S4 (bakery/) not yet built.'')"

text \<open>The one that answers: the store of the bakery.\<close>

definition mock_store_register :: "(string \<Rightarrow> string) \<Rightarrow> string \<Rightarrow> string \<Rightarrow> 'w \<Rightarrow> (string + string) \<times> 'w" where
  "mock_store_register sha256 name script w = (Inr (''zroot/jailrun/bases/'' @ take 16 (sha256 script)), w)"

section \<open>Command lines\<close>

definition probe_parser :: arg_parser where
  "probe_parser = arg_parser
     [opt [''--image''] ''image'' (Store Text_type []) (AV_text []), opt [''--snapshot''] ''snapshot'' (Store Text_type []) (AV_text []),
      opt [''--out''] ''out'' (Store Text_type []) (AV_text ''-'')] [(''rootfs'', One)]"

definition bakery_parser :: arg_parser where
  "bakery_parser = arg_parser
     [switch [''--plan-only''] ''plan_only'', opt [''--output'', ''-o''] ''output'' (Store Text_type []) (AV_text ''-'')] [(''manifest'', One)]"

text \<open>\<^verbatim>\<open>parser.parse_args()\<close>, without subcommands, and what a usage error and \<^verbatim>\<open>--help\<close> end with.\<close>

definition with_args :: "arg_parser \<Rightarrow> string list \<Rightarrow> (namespace \<Rightarrow> (int, 'w) cmd) \<Rightarrow> (int, 'w) cmd" where
  "with_args p argv body c =
     (case parse_known p argv of
        Inl (Usage_error _) \<Rightarrow> finish 2 c
      | Inl Help_shown \<Rightarrow> finish 0 c
      | Inr (ns, extras) \<Rightarrow> if extras \<noteq> [] then finish 2 c else body ns c)"

text \<open>The text to the given file, or to the output if the name is a dash.\<close>

definition emit :: "'w cli_env \<Rightarrow> program \<Rightarrow> string \<Rightarrow> string \<Rightarrow> ('w console \<Rightarrow> 'w console) \<Rightarrow> (int, 'w) cmd" where
  "emit env prog out txt written c =
     (if out = ''-'' then finish 0 (say txt c)
      else (case on_co_host (on_tree (fs_write (ee_lim (base_env env)) txt (at_cwd prog out))) c of
          (Inl e, c1) \<Rightarrow> (Inl e, c1)
        | (Inr _, c1) \<Rightarrow> finish 0 (written c1)))"

definition members_of :: "json \<Rightarrow> (string \<times> json) list" where
  "members_of v = (case v of JObj ms \<Rightarrow> ms | _ \<Rightarrow> [])"

definition dated :: "string \<Rightarrow> json \<Rightarrow> json" where
  "dated now manifest = JObj (jput ''generated_at'' (JStr now) (members_of manifest))"

definition given_text :: "namespace \<Rightarrow> string \<Rightarrow> string" where
  "given_text ns k = getenv_or (arg_text ns k) []"

definition probe_main ::
  "'w cli_env \<Rightarrow> program \<Rightarrow> (string \<Rightarrow> string option) \<Rightarrow> (path \<Rightarrow> bool) \<Rightarrow> string list \<Rightarrow> (int, 'w) cmd" where
  "probe_main env prog providers xbit argv = with_args probe_parser argv (\<lambda>ns c.
     case probe providers xbit (ee_lim (base_env env)) (fst (co_host c)) (at_cwd prog (given_text ns ''rootfs'')) (given_text ns ''rootfs'')
            (given_text ns ''image'') (given_text ns ''snapshot'') of
       Inl e \<Rightarrow> (Inl (Other_error e), c)
     | Inr m \<Rightarrow> emit env prog (given_text ns ''out'') (json_dump 0 (dated (cl_now env) (probe_json m)))
                 (complain (''Manifest written to '' @ given_text ns ''out'')) c)"

text \<open>\<^verbatim>\<open>build_plan\<close> of a decoded manifest.\<close>

definition plan_of_json :: "registry \<Rightarrow> json \<Rightarrow> store_exc + provision_step list" where
  "plan_of_json rg manifest =
     try_bind (manifest_binaries manifest) (\<lambda>vs.
     try_bind (try_map binary_of_json vs) (\<lambda>bks. Inr (pl_steps (fst (build_plan rg bks)))))"

definition bakery_cli :: "'w cli_env \<Rightarrow> program \<Rightarrow> (string \<Rightarrow> string option) \<Rightarrow> registry \<Rightarrow> string list \<Rightarrow> (int, 'w) cmd" where
  "bakery_cli env prog denied rg argv = with_args bakery_parser argv (\<lambda>ns c.
     case read_json (ee_lim (base_env env)) (fst (co_host c)) (at_cwd prog (given_text ns ''manifest'')) of
       Inl e \<Rightarrow> (Inl e, c)
     | Inr manifest \<Rightarrow>
         if arg_true ns ''plan_only'' then
           (case plan_of_json rg manifest of Inl e \<Rightarrow> (Inl e, c) | Inr steps \<Rightarrow> finish 0 (say (json_dump 0 (plan_json steps)) c))
         else (case on_co_host (host_bake (base_env env) (cl_exc env) denied rg manifest) c of
             (Inl e, c1) \<Rightarrow> (Inl e, c1)
           | (Inr updated, c1) \<Rightarrow> emit env prog (given_text ns ''output'') (json_dump 0 updated) (\<lambda>c. c) c1))"

section \<open>The check of the manifest schema\<close>

definition fake_elf :: "nat \<Rightarrow> string" where
  "fake_elf osabi = ELFMAG @ map char_of [2, 1, 1, osabi] @ replicate 8 (CHR 0x00) @ map char_of [2, 0, 62, 0 :: nat] @ replicate 44 (CHR 0x00)"

definition ci_rootfs :: "path \<Rightarrow> path" where "ci_rootfs td = td @ [''rootfs'']"

definition no_provider_manifest :: json where
  "no_provider_manifest = JObj [(''image'', JStr ''ci-smoke:latest''),
     (''binaries'', JArr [JObj [(''path'', JStr ''/usr/bin/some-linux-only-tool''), (''abi'', JStr ''linux''), (''status'', JStr ''linuxulator'')]]),
     (''linuxulator'', JObj [(''required'', JBool True), (''gaps'', JArr []), (''risk'', JStr ''low'')])]"

definition validated :: "json \<Rightarrow> (unit, 'w) act" where
  "validated v = (if manifest_schema v then give () else raise_exc validation_error)"

definition ci_probe :: "(string \<Rightarrow> string option) \<Rightarrow> (path \<Rightarrow> bool) \<Rightarrow> nat \<Rightarrow> path \<Rightarrow> (json, 'w) act" where
  "ci_probe providers xbit links td h =
     (case probe providers xbit links (fst h) (ci_rootfs td) (path_str (ci_rootfs td)) ''ci-smoke:latest'' [] of
        Inl e \<Rightarrow> (Inl (Other_error e), h)
      | Inr m \<Rightarrow> (Inr (dated ''2026-01-01T00:00:00+00:00'' (probe_json m)), h))"

definition ci_checks :: "(json \<Rightarrow> (json, 'w) act) \<Rightarrow> json \<Rightarrow> (string list, 'w) act" where
  "ci_checks baker manifest =
     then_do (validated manifest) (\<lambda>_.
     then_do (baker no_provider_manifest) (\<lambda>baked.
     then_do (validated baked) (\<lambda>_.
     then_do (if jlookup ''_bakery'' (members_of baked) = None then give ()
              else raise_exc (Other_error ''AssertionError: bake() should not add _bakery when plan.steps is empty'')) (\<lambda>_.
     give [''OK: probe() output validates against the schema'',
           ''OK: bake() early-return (no native providers) output validates against the schema'',
           ''OK: bake() did not touch the real Store for a no-provider manifest'']))))"

definition validate_manifest_schema ::
  "(string \<Rightarrow> string option) \<Rightarrow> (path \<Rightarrow> bool) \<Rightarrow> nat \<Rightarrow> (json \<Rightarrow> (json, 'w) act) \<Rightarrow> path \<Rightarrow> (string list, 'w) act" where
  "validate_manifest_schema providers xbit links baker td =
     (let bin = ci_rootfs td @ [''usr'', ''bin''] in
      then_do (on_tree (fs_mkdirs links bin)) (\<lambda>_.
      then_do (on_tree (fs_write links (fake_elf 0) (bin @ [''python3'']))) (\<lambda>_.
      then_do (on_tree (fs_write links (fake_elf 3) (bin @ [''some-linux-only-tool'']))) (\<lambda>_.
      then_do (ci_probe providers xbit links td) (ci_checks baker)))))"

section \<open>What they print\<close>

lemma dated_schema:
  assumes "manifest_schema m"
  shows "manifest_schema (dated now m)"
proof -
  from assms obtain ms where m: "m = JObj ms" by (rule manifest_schemaD)
  show ?thesis using assms by (simp add: m dated_def members_of_def manifest_schema_def is_object_def is_text_def)
qed

text \<open>What the probe prints is a manifest of the schema, with the time in it, for a reader of JSON.\<close>

lemma dated_probe_manifest:
  assumes "probe providers xbit links fs rootfs_path dir img snap = Inr m"
  shows "manifest_schema (dated now (probe_json m)) \<and> json_loads (json_dump 0 (dated now (probe_json m))) = Some (dated now (probe_json m))"
proof -
  have "manifest_schema (probe_json m)" using probe_json_schema probe_guessed [OF assms] by blast
  moreover have "json_ok (dated now (probe_json m))"
    using probe_json_ok [of m] by (cases "probe_json m") (auto simp: dated_def members_of_def jput_def list_all_iff)
  ultimately show ?thesis by (simp add: dated_schema json_loads_dump)
qed

text \<open>Once the probe has answered, the script cannot fail, and the real bakery leaves the host alone.\<close>

lemma ci_manifest_check_passes:
  assumes "ci_probe providers xbit links td h = (Inr manifest, h')"
  shows "\<exists>lines. ci_checks (host_bake env show_exc denied rg) manifest h' = (Inr lines, h')"
proof -
  from assms obtain m where m: "probe providers xbit links (fst h) (ci_rootfs td) (path_str (ci_rootfs td)) ''ci-smoke:latest'' [] = Inr m"
      "manifest = dated ''2026-01-01T00:00:00+00:00'' (probe_json m)"
    by (auto simp: ci_probe_def split: sum.splits)
  have "manifest_schema (probe_json m)" using probe_json_schema probe_guessed [OF m(1)] by blast
  then have v: "manifest_schema manifest" unfolding m(2) by (rule dated_schema)
  have b: "try_map binary_of_json [JObj [(''path'', JStr ''/usr/bin/some-linux-only-tool''), (''abi'', JStr ''linux''), (''status'', JStr ''linuxulator'')]]
      = Inr [\<lparr> bb_path = Some ''/usr/bin/some-linux-only-tool'', bb_status = Some ''linuxulator'', bb_native = None \<rparr>]"
    by code_simp
  have "host_bake env show_exc denied rg no_provider_manifest h' = (Inr no_provider_manifest, h')"
    using b by (simp add: host_bake_def bake_json_def no_provider_manifest_def manifest_binaries_def jget_def jiter_def jlookup_def
        bake_def build_plan_def plan_binary_def empty_plan_def put_manifest_def del: try_map.simps)
  moreover have "manifest_schema no_provider_manifest" "jlookup ''_bakery'' (members_of no_provider_manifest) = None" by code_simp+
  ultimately show ?thesis using v by (simp add: ci_checks_def then_do_def validated_def give_def)
qed

end
