(* ===== verification/Bench.thy ===== *)
theory Bench
  imports Registry Scan
begin

text \<open>
  \<^verbatim>\<open>bench/bench.py\<close>: the two manifests it compares, how a run is given one of them, and the summary of
  its samples.  The timing itself and the printing are not modelled.
\<close>

section \<open>The two arms\<close>

definition jpop :: "string \<Rightarrow> (string \<times> json) list \<Rightarrow> (string \<times> json) list" where
  "jpop k ms = filter (\<lambda>(k', _). k' \<noteq> k) ms"

definition downgrade :: "json \<Rightarrow> store_exc + json" where
  "downgrade v =
     (case v of
        JObj ms \<Rightarrow> Inr (if key_text ''status'' ms = Some ''native''
                       then JObj (jput ''native'' JNull (jput ''status'' (JStr ''linuxulator'') ms)) else v)
      | _ \<Rightarrow> attribute_error)"

definition force_linuxulator :: "json \<Rightarrow> store_exc + json" where
  "force_linuxulator manifest =
     try_bind (manifest_binaries manifest) (\<lambda>vs.
     try_bind (try_map downgrade vs) (\<lambda>vs'.
     try_bind (jget ''linuxulator'' (JObj []) manifest) (\<lambda>block.
     try_bind (as_dict block) (\<lambda>lx.
     case manifest of
       JObj ms \<Rightarrow>
         (let ms1 = (if vs = [] then ms else jput ''binaries'' (JArr vs') ms)
          in Inr (JObj (jpop ''_bakery'' (jput ''linuxulator'' (JObj (jput ''required'' (JBool True) lx)) ms1))))
     | _ \<Rightarrow> attribute_error))))"

text \<open>The real manifest, of a clone that is destroyed again.\<close>

definition real_manifest :: "'w engine_env \<Rightarrow> string \<Rightarrow> (json, 'w) act" where
  "real_manifest env image_ref =
     then_do (store_resolve (ee_sha256 env) (ee_env env) (ee_tool env) (ee_lim env) (ee_store env) image_ref None None) (\<lambda>image_id.
     then_do (store_unpack (ee_sha256 env) (ee_env env) (ee_tool env) (ee_lim env) (ee_names env) (ee_wait env) (ee_store env) image_id) (\<lambda>snapshot_id.
     then_do (clone (ee_tool env) (ee_lim env) (ee_store env) (ee_run_id env) snapshot_id) (\<lambda>(rootfs_path, hdl) h.
       let (r, h1) = load_manifest (ee_probe_and_bake env) (ee_lim env) rootfs_path image_ref None h;
           (d, _, h2) = destroy (ee_tool env) (ee_lim env) (ee_store env) hdl h1
       in (case d of Inl e \<Rightarrow> (Inl e, h2) | Inr _ \<Rightarrow> (r, h2)))))"

text \<open>What the patched \<^verbatim>\<open>clone\<close> does with a new clone, and what the run that got it makes of that.\<close>

definition seed_clone :: "nat \<Rightarrow> json \<Rightarrow> path \<Rightarrow> (unit, 'w) act" where
  "seed_clone links manifest rootfs_path =
     then_do (on_tree (fs_mkdirs links (rootfs_path @ [''.jailrun''])))
       (\<lambda>_. on_tree (fs_write links (json_line manifest) (clone_cache rootfs_path)))"

definition arm_manifest :: "'w engine_env \<Rightarrow> json \<Rightarrow> string \<Rightarrow> string \<Rightarrow> path \<Rightarrow> (json, 'w) act" where
  "arm_manifest env manifest image_ref image_id rootfs_path =
     then_do (seed_clone (ee_lim env) manifest rootfs_path) (\<lambda>_.
     load_manifest (ee_probe_and_bake env) (ee_lim env) rootfs_path image_ref (Some image_id))"

section \<open>The summary\<close>

text \<open>\<^verbatim>\<open>statistics.median\<close>, and the last of the cut points of \<^verbatim>\<open>statistics.quantiles(samples, n=20)\<close>.\<close>

definition median_s :: "rat list \<Rightarrow> rat" where
  "median_s samples =
     (let data = sort samples; n = length data in
      if odd n then data ! (n div 2) else fl (fl (data ! (n div 2 - 1) + data ! (n div 2)) / 2))"

definition last_vigintile :: "rat list \<Rightarrow> rat" where
  "last_vigintile samples =
     (let data = sort samples; ld = length data; m = ld + 1; j = min (max (19 * m div 20) 1) (ld - 1);
          delta = int (19 * m) - int (20 * j)
      in fl (fl (fl (data ! (j - 1) * of_int (20 - delta)) + fl (data ! j * of_int delta)) / 20))"

definition p95_s :: "rat list \<Rightarrow> rat option" where
  "p95_s samples = (case samples of [] \<Rightarrow> None | [x] \<Rightarrow> Some x | _ \<Rightarrow> Some (last_vigintile samples))"

definition seconds_json :: "rat option \<Rightarrow> json" where
  "seconds_json x = (case x of None \<Rightarrow> JNull | Some r \<Rightarrow> JNum (float_repr r))"

definition summarize_samples :: "string \<Rightarrow> rat list \<Rightarrow> json" where
  "summarize_samples label samples = JObj
     [(''label'', JStr label), (''n'', jnat (length samples)), (''samples_s'', JArr (map (\<lambda>x. seconds_json (Some x)) samples)),
      (''median_s'', seconds_json (if samples = [] then None else Some (median_s samples))), (''p95_s'', seconds_json (p95_s samples))]"

section \<open>What the arms are\<close>

lemma jlookup_jpop [simp]: "jlookup k' (jpop k ms) = (if k' = k then None else jlookup k' ms)"
proof -
  have "map_of (filter (\<lambda>(k', _). k' \<noteq> k) al) k' = (if k' = k then None else map_of al k')" for al :: "(string \<times> json) list"
    by (induction al) auto
  from this [of "rev ms"] show ?thesis by (simp add: jpop_def jlookup_def rev_filter)
qed

lemma member_jpop [simp]:
  "required k ok (jpop k' ms) \<longleftrightarrow> k \<noteq> k' \<and> required k ok ms"
  "optional k ok (jpop k' ms) \<longleftrightarrow> k = k' \<or> optional k ok ms"
  by (simp_all add: required_def optional_def)

lemma only_keys_jpop: "only_keys ks ms \<Longrightarrow> only_keys ks (jpop k ms)"
  by (auto simp: only_keys_def jpop_def list_all_iff)

lemma jlookup_nothing: "jlookup k [] = None"
  by (simp add: jlookup_def)

lemma downgrade_schema:
  assumes "binary_schema v"
  obtains v' where "downgrade v = Inr v'" "binary_schema v'" "shadow_target base v' = Inr None"
proof -
  from assms obtain ms s where v: "v = JObj ms" "jlookup ''status'' ms = Some (JStr s)" by (rule binary_schemaD)
  let ?v = "if s = ''native'' then JObj (jput ''native'' JNull (jput ''status'' (JStr ''linuxulator'') ms)) else v"
  have "downgrade v = Inr ?v" using v by (simp add: downgrade_def key_text_def as_text_def)
  moreover have "binary_schema ?v"
    using assms unfolding v(1) by (simp add: binary_schema_def is_object_def or_null_def one_of_def)
  moreover have "shadow_target base ?v = Inr None" using v by (simp add: shadow_target_def jget_def)
  ultimately show thesis by (rule that)
qed

lemma downgraded_list:
  assumes "list_all binary_schema vs"
  obtains vs' where "try_map downgrade vs = Inr vs'" "list_all binary_schema vs'" "length vs' = length vs"
    "\<forall>v \<in> set vs'. \<forall>base. shadow_target base v = Inr None"
proof -
  have "\<exists>vs'. try_map downgrade vs = Inr vs' \<and> list_all binary_schema vs' \<and> length vs' = length vs
      \<and> (\<forall>v \<in> set vs'. \<forall>base. shadow_target base v = Inr None)"
    using assms
  proof (induction vs)
    case (Cons v vs)
    then obtain vs' where vs': "try_map downgrade vs = Inr vs'" "list_all binary_schema vs'" "length vs' = length vs"
        "\<forall>v \<in> set vs'. \<forall>base. shadow_target base v = Inr None" by auto
    from Cons.prems have "binary_schema v" by simp
    then have "\<exists>v'. downgrade v = Inr v' \<and> binary_schema v' \<and> shadow_target base v' = Inr None" for base by (rule downgrade_schema) blast
    then obtain v' where "downgrade v = Inr v'" "binary_schema v'" "\<forall>base. shadow_target base v' = Inr None" by (metis sum.inject(2))
    then show ?case using vs' by auto
  qed simp
  then show thesis using that by blast
qed

lemma shadow_entries_nothing: "\<forall>v \<in> set vs. shadow_target base v = Inr None \<Longrightarrow> shadow_entries links rootfs_path base vs = give ()"
  by (induction vs) (auto simp: shadow_entry_def then_do_def give_def of_sum_def fun_eq_iff)

text \<open>C31: The Linux arm of the benchmark is Linux throughout.  From a manifest of the schema the benchmark
  makes another of the schema, which asks for the Linux ABI; with it a run mounts no base and links no
  native program into its root, whatever base it is given: it makes the directory for them and stops.\<close>

theorem linux_arm_has_no_native:
  assumes "manifest_schema m"
  shows "\<exists>m'. force_linuxulator m = Inr m' \<and> manifest_schema m' \<and> needs_linuxulator m' = Inr True
    \<and> try_bind (jget ''_bakery'' (JObj []) m') (jget ''snapshot_id'' JNull) = Inr JNull
    \<and> (\<forall>base. assemble_native_shadow links rootfs_path m' base = on_tree (fs_mkdirs links (shadow_dir rootfs_path)))"
proof -
  from assms obtain ms vs lx r where m: "m = JObj ms" "jlookup ''binaries'' ms = Some (JArr vs)" "list_all binary_schema vs"
      "jlookup ''linuxulator'' ms = Some (JObj lx)"
    by (rule manifest_schemaD)
  obtain vs' where vs': "try_map downgrade vs = Inr vs'" "list_all binary_schema vs'" "length vs' = length vs"
      "\<forall>v \<in> set vs'. \<forall>base. shadow_target base v = Inr None"
    by (rule downgraded_list [OF m(3)])
  define ms1 where "ms1 = (if vs = [] then ms else jput ''binaries'' (JArr vs') ms)"
  define m' where "m' = JObj (jpop ''_bakery'' (jput ''linuxulator'' (JObj (jput ''required'' (JBool True) lx)) ms1))"
  have f: "force_linuxulator m = Inr m'"
    using m vs'(1) by (simp add: force_linuxulator_def manifest_binaries_def jget_def jiter_def as_dict_def m'_def ms1_def)
  have b: "jlookup ''binaries'' ms1 = Some (JArr vs')" using m(2) vs'(3) by (auto simp: ms1_def)
  have "manifest_schema m'"
    using assms vs'(2) m(1,2,4)
    by (auto simp: m'_def ms1_def only_keys_jpop manifest_schema_def linuxulator_schema_def is_object_def is_array_def is_boolean_def required_def [of "''linuxulator''"])
  moreover have "needs_linuxulator m' = Inr True" by (simp add: m'_def needs_linuxulator_def jget_def)
  moreover have "try_bind (jget ''_bakery'' (JObj []) m') (jget ''snapshot_id'' JNull) = Inr JNull"
    by (simp add: m'_def jget_def jlookup_nothing)
  moreover have "assemble_native_shadow links rootfs_path m' base = on_tree (fs_mkdirs links (shadow_dir rootfs_path))" for base
    using b shadow_entries_nothing [of vs' base links rootfs_path] vs'(4)
    by (auto simp: m'_def assemble_native_shadow_def manifest_binaries_def jget_def jiter_def then_do_def of_sum_def give_def fun_eq_iff
        split: prod.split sum.split)
  ultimately show ?thesis using f by blast
qed

lemma linux_arm_has_no_native_witness:
  "\<exists>m'. force_linuxulator (JObj demo_members) = Inr m' \<and> manifest_schema m' \<and> needs_linuxulator m' = Inr True
    \<and> try_bind (jget ''_bakery'' (JObj []) m') (jget ''snapshot_id'' JNull) = Inr JNull
    \<and> (\<forall>base. assemble_native_shadow 8 [''r''] m' base = (on_tree (fs_mkdirs 8 (shadow_dir [''r''])) :: (unit, unit) act))"
  using linux_arm_has_no_native [OF demo_members_schema, of 8 "[''r'']"] by blast

section \<open>Which manifest an arm runs with\<close>

text \<open>C30: A manifest kept for the image decides over the benchmark's.  A run whose clone was given one
  of the benchmark's manifests works with that manifest, exactly as it was made, unless the persistent
  cache has a file for the image: then both arms run with the manifest of that file, whichever they
  were given.\<close>

theorem cached_manifest_decides_arm:
  assumes "seed_clone (ee_lim env) manifest rootfs_path h = (Inr (), h1)" and "json_ok manifest" and "image_id \<noteq> []"
  shows "arm_manifest env manifest image_ref image_id rootfs_path h =
    ((if path_exists (ee_lim env) (fst h1) (persistent_cache image_id)
      then read_json (ee_lim env) (fst h1) (persistent_cache image_id) else Inr manifest), h1)"
proof -
  obtain fs1 fs2 where w: "fs_write (ee_lim env) (json_line manifest) (clone_cache rootfs_path) fs1 = (None, fs2)" "fst h1 = fs2"
    using assms(1) by (auto simp: seed_clone_def then_do_def on_tree_def split: prod.splits sum.splits option.splits)
  have "path_exists (ee_lim env) (fst h1) (clone_cache rootfs_path)"
    "read_json (ee_lim env) (fst h1) (clone_cache rootfs_path) = Inr manifest"
    using write_exists [OF w(1)] write_read [OF w(1)] json_loads_line [OF assms(2)] w(2) by (simp_all add: read_json_def)
  then show ?thesis
    using assms(1,3)
    by (simp add: arm_manifest_def load_manifest_def then_do_def tree_exists_def load_json_def cache_file_def give_def)
qed

text \<open>Both arms of a host that has the image's manifest in its cache.\<close>

definition arm_tree :: fs where
  "arm_tree = [([''var''], Dir), ([''var'', ''cache''], Dir), ([''var'', ''cache'', ''jailrun''], Dir),
     ([''var'', ''cache'', ''jailrun'', ''manifests''], Dir),
     (persistent_cache ''i'', Reg ''{}''), ([''r''], Dir)]"

definition seeded :: "bool \<Rightarrow> (store_exc + unit) \<times> fs \<times> string list list" where
  "seeded b = seed_clone 8 (JBool b) [''r''] (arm_tree, [])"

lemma seeded_fine:
  "fst (seeded b) = Inr ()" "path_exists 8 (fst (snd (seeded b))) (persistent_cache ''i'')"
  "read_text 8 (fst (snd (seeded b))) (persistent_cache ''i'') = Inr ''{}''"
  by (cases b; code_simp)+

lemma empty_document: "json_loads ''{}'' = Some (JObj [])"
  by code_simp

lemma cached_manifest_decides_arm_witness:
  "\<exists>h1 h2. arm_manifest (demo_env all_fine) (JBool True) ''alpine'' ''i'' [''r''] (arm_tree, []) = (Inr (JObj []), h1)
    \<and> arm_manifest (demo_env all_fine) (JBool False) ''alpine'' ''i'' [''r''] (arm_tree, []) = (Inr (JObj []), h2)"
proof -
  have e: "ee_lim (demo_env all_fine) = 8" by (simp add: demo_env_def)
  have s: "seed_clone (ee_lim (demo_env all_fine)) (JBool b) [''r''] (arm_tree, []) = (Inr (), snd (seeded b))" for b
    using seeded_fine(1) [of b] by (simp add: e seeded_def prod_eq_iff)
  have "arm_manifest (demo_env all_fine) (JBool b) ''alpine'' ''i'' [''r''] (arm_tree, []) = (Inr (JObj []), snd (seeded b))" for b
    using cached_manifest_decides_arm [OF s [of b], of "''i''" "''alpine''"] seeded_fine [of b] empty_document
    by (simp add: e read_json_def)
  then show ?thesis by blast
qed

end
