(* ===== verification/LiveTests.thy ===== *)
theory LiveTests
  imports CliRun
begin

text \<open>
  The programs that drive a real host: \<^verbatim>\<open>bench/soak.py\<close>, \<^verbatim>\<open>scripts/soak_runner.py\<close>, \<^verbatim>\<open>bench/signal_resilience.py\<close> and
  \<^verbatim>\<open>bench/network_allow_live.py\<close>, from their commands to their verdicts.  Progress lines and times are left out;
  runs side by side are the list of their outcomes in the order in which they end.
\<close>

section \<open>Commands\<close>

type_synonym answer = "int \<times> string \<times> string"

text \<open>\<^verbatim>\<open>subprocess.run(argv, capture_output=True, text=True)\<close>, an exception where there is no exit status.\<close>

definition captured :: "'w runner \<Rightarrow> string list \<Rightarrow> (answer, 'w) act" where
  "captured t argv h =
     (case t None [] argv h of
        (Spawn_error x, h') \<Rightarrow> (Inl (Other_error x), h')
      | (Completed rc out err, h') \<Rightarrow> (Inr (rc, out, err), h'))"

definition with_answer :: "'w runner \<Rightarrow> string list \<Rightarrow> (answer \<Rightarrow> 'a) \<Rightarrow> ('a, 'w) act" where
  "with_answer t argv f = then_do (captured t argv) (\<lambda>a. give (f a))"

definition JAILRUN :: "string \<Rightarrow> string list" where "JAILRUN executable = [executable, ''-m'', ''runtime.cli'']"

definition TEST_IMAGE :: string where "TEST_IMAGE = ''alpine:latest''"

section \<open>The soak tests\<close>

definition soak_argv :: "string \<Rightarrow> nat \<Rightarrow> string list" where
  "soak_argv executable i = JAILRUN executable @ [''run'', ''--rm'', TEST_IMAGE, ''--'', ''sh'', ''-c'', ''echo run-'' @ show_nat i]"

definition single_run :: "'w runner \<Rightarrow> string \<Rightarrow> nat \<Rightarrow> (nat \<times> int, 'w) act" where
  "single_run t executable i = with_answer t (soak_argv executable i) (\<lambda>(rc, _). (i, rc))"

definition jails_of :: "answer \<Rightarrow> string list" where
  "jails_of a = filter (\<lambda>l. py_contains ''jailrun-'' l) (py_splitlines (fst (snd a)))"

definition datasets_of :: "answer \<Rightarrow> string list" where
  "datasets_of a =
     map py_strip (filter (\<lambda>l. py_strip l \<noteq> [] \<and> py_strip l \<noteq> ''jailrun/runs'') (py_splitlines (fst (snd a))))"

definition check_leaks :: "'w runner \<Rightarrow> (string list \<times> string list, 'w) act" where
  "check_leaks t =
     then_do (with_answer t [''jls'', ''-n'', ''name''] jails_of) (\<lambda>jails.
     with_answer t [''zfs'', ''list'', ''-H'', ''-o'', ''name'', ''-r'', ''jailrun/runs''] (\<lambda>a. (jails, datasets_of a)))"

fun soak_runs :: "'w runner \<Rightarrow> string \<Rightarrow> nat list \<Rightarrow> (nat, 'w) act" where
  "soak_runs t executable [] = give 0"
| "soak_runs t executable (i # is) =
     then_do (single_run t executable i) (\<lambda>(_, rc).
     then_do (soak_runs t executable is) (\<lambda>failed. give (if rc \<noteq> 0 then Suc failed else failed)))"

text \<open>\<^verbatim>\<open>main\<close>, the runs in the order in which they end.\<close>

definition soak_main :: "'w runner \<Rightarrow> string \<Rightarrow> nat list \<Rightarrow> (int, 'w) act" where
  "soak_main t executable order =
     then_do (check_leaks t) (\<lambda>(jails, datasets).
     then_do (soak_runs t executable order) (\<lambda>failed.
     then_do (check_leaks t) (\<lambda>(jails', datasets').
     give (if int (length jails') - int (length jails) \<noteq> 0 \<or> int (length datasets') - int (length datasets) \<noteq> 0 \<or> failed \<noteq> 0
           then 1 else 0))))"

text \<open>\<^verbatim>\<open>soak_runner.py\<close>: the options of its runs, which call the engine directly, and its count of leaks.\<close>

definition SOAK_IMAGE_ID :: string where
  "SOAK_IMAGE_ID = ''706d6345edecb4af082185dff46e47a704f512d7a613577fbbf2a1d53e6fedc6''"

definition SOAK_OPTS :: run_opts where
  "SOAK_OPTS = \<lparr> op_rm = True, op_volumes = [], op_env = [], op_workdir = None, op_network = ''none'', op_raw_sockets = False,
     op_rctl_enabled = True, op_rctl_rules = [], op_unrestricted_devfs = False, op_image_id = Some SOAK_IMAGE_ID, op_jail_name = None,
     op_publish = [], op_tmpfs = [], op_read_only = False, op_interactive = False \<rparr>"

definition soak_run_one :: "'w engine_env \<Rightarrow> nat \<Rightarrow> 'w eng \<Rightarrow> (bool \<times> 'w eng) option" where
  "soak_run_one env i s =
     map_option (\<lambda>(r, s'). (\<not> is_error r, s')) (run_async env SOAK_OPTS TEST_IMAGE [''echo'', ''ok-'' @ show_nat i] s)"

definition runner_leaks :: "'w runner \<Rightarrow> (string list \<times> string list \<times> string list, 'w) act" where
  "runner_leaks t =
     then_do (with_answer t [''jail'', ''-q'', ''name''] (\<lambda>a. filter (\<lambda>l. py_contains ''jailrun'' l) (py_splitlines (fst (snd a))))) (\<lambda>jails.
     then_do (with_answer t [''zfs'', ''list'', ''-r'', ''jailrun/runs'', ''-H'', ''-o'', ''name'']
                (\<lambda>a. filter (\<lambda>l. l \<noteq> ''jailrun/runs'') (py_splitlines (fst (snd a))))) (\<lambda>datasets.
     with_answer t [''mount''] (\<lambda>a. (jails, datasets, filter (\<lambda>l. py_contains ''jailrun/runs/'' l) (py_splitlines (fst (snd a)))))))"

section \<open>Signals\<close>

definition find_orphan_jails :: "'w runner \<Rightarrow> (string list, 'w) act" where
  "find_orphan_jails t = with_answer t [''jail'', ''-q'', ''name''] (\<lambda>(rc, out, _).
     if rc \<noteq> 0 then [] else filter (\<lambda>n. py_contains ''test-signal'' n) (py_fields out))"

definition count_pf_anchors :: "'w runner \<Rightarrow> string \<Rightarrow> (nat, 'w) act" where
  "count_pf_anchors t pat = with_answer t [''pfctl'', ''-a'', ''jailrun'', ''-s'', ''anchor'', ''-P''] (\<lambda>(rc, out, _).
     if rc \<noteq> 0 then 0 else length (filter (\<lambda>a. py_contains pat a) (py_fields out)))"

text \<open>\<^verbatim>\<open>re.findall(r"\b10\.99\S+", text)\<close>; the flag says that a letter, digit or underscore comes before.\<close>

definition word_char :: "char \<Rightarrow> bool" where "word_char c \<longleftrightarrow> is_alnum c \<or> c = CHR ''_''"

function find_words :: "string \<Rightarrow> bool \<Rightarrow> string \<Rightarrow> string list" where
  "find_words pat inside [] = []"
| "find_words pat inside (c # cs) =
     (let w = takeWhile (\<lambda>x. \<not> is_ws x) (c # cs) in
      if \<not> inside \<and> prefix pat w \<and> length pat < length w then w # find_words pat True (dropWhile (\<lambda>x. \<not> is_ws x) cs)
      else find_words pat (word_char c) cs)"
  by pat_completeness auto
termination
  by (relation "measure (\<lambda>(_, _, s). length s)") (simp_all add: length_dropWhile_le less_Suc_eq_le)

definition find_lo1_aliases :: "'w runner \<Rightarrow> (string list, 'w) act" where
  "find_lo1_aliases t = with_answer t [''ifconfig'', ''lo1''] (\<lambda>(_, out, _). find_words ''10.99'' False out)"

definition stage_name :: "nat \<Rightarrow> string" where "stage_name now = ''test-signal-'' @ show_nat now"

definition stage_argv :: "nat \<Rightarrow> string list" where
  "stage_argv now = [''sudo'', ''python3'', ''-m'', ''runtime.cli'', ''run'', ''--rm'', TEST_IMAGE, ''--name'', stage_name now, ''--'', ''sleep'', ''30'']"

text \<open>After the run was killed: what is left, the removal of the jails found, and the verdict.\<close>

fun remove_orphans :: "'w runner \<Rightarrow> string list \<Rightarrow> (unit, 'w) act" where
  "remove_orphans t [] = give ()"
| "remove_orphans t (j # js) = then_do (captured t [''sudo'', ''jail'', ''-r'', j]) (\<lambda>_. remove_orphans t js)"

definition stage_verdict :: "'w runner \<Rightarrow> nat \<Rightarrow> (bool, 'w) act" where
  "stage_verdict t now =
     then_do (find_orphan_jails t) (\<lambda>orphans.
     then_do (count_pf_anchors t (stage_name now)) (\<lambda>anchors.
     then_do (find_lo1_aliases t) (\<lambda>aliases.
     then_do (remove_orphans t orphans) (\<lambda>_.
     give (orphans = [] \<and> anchors = 0 \<and> aliases = [])))))"

section \<open>The network\<close>

fun interface_line :: "string list \<Rightarrow> string" where
  "interface_line [] = ''vtnet0''"
| "interface_line (l # ls) = (if py_contains ''interface:'' l then last (py_fields l) else interface_line ls)"

definition detect_test_if :: "'w runner \<Rightarrow> (string, 'w) act" where
  "detect_test_if t = with_answer t [''route'', ''-n'', ''get'', ''default''] (\<lambda>(_, out, _). interface_line (py_splitlines out))"

definition run_jailrun :: "'w runner \<Rightarrow> string \<Rightarrow> string list \<Rightarrow> (answer, 'w) act" where
  "run_jailrun t executable args = captured t (JAILRUN executable @ args)"

definition nc_args :: "string \<Rightarrow> string \<Rightarrow> string \<Rightarrow> string list" where
  "nc_args seconds host port =
     [''run'', ''--rm'', ''--network'', ''allow=173.194.73.101:443'', TEST_IMAGE, ''--'', ''nc'', ''-z'', ''-w'', seconds, host, port]"

definition test_network_allow :: "'w runner \<Rightarrow> string \<Rightarrow> (bool, 'w) act" where
  "test_network_allow t executable =
     then_do (detect_test_if t) (\<lambda>_.
     then_do (captured t [''grep'', ''-q'', ''nat-anchor '' @ [CHR 0x22] @ ''jailrun'', ''/etc/pf.conf'']) (\<lambda>(hooks, _).
     if hooks \<noteq> 0 then give False
     else then_do (run_jailrun t executable (nc_args ''5'' ''173.194.73.101'' ''443'')) (\<lambda>(reached, _).
     if reached \<noteq> 0 then give False
     else then_do (run_jailrun t executable (nc_args ''3'' ''8.8.8.8'' ''443'')) (\<lambda>(blocked, _).
     if blocked = 0 then give False
     else then_do (run_jailrun t executable [''ps'']) (\<lambda>_. give True)))))"

section \<open>The command line of the signal test\<close>

text \<open>The name of its jail, which the test writes behind the image, reaches the jail as its command, and the
  jail has the name of any other run: what the test looks for afterwards cannot be there.\<close>

lemma signal_test_names_nothing:
  "case parse_args (drop 4 (stage_argv 7)) of
     Inl _ \<Rightarrow> False
   | Inr (sub, ns) \<Rightarrow> sub = ''run'' \<and> getarg ns ''name'' = AV_none
       \<and> getarg ns ''cmd'' = AV_list (map AV_text [''--name'', ''test-signal-7'', ''--'', ''sleep'', ''30''])"
  by code_simp

end
