(* ===== verification/Spec2Isabelle.thy ===== *)
theory Spec2Isabelle
  imports Gc EngineRun RunGc Probe Backfill CliProofs Copy Mains Bench LiveTests
begin

text \<open>
  \<^bold>\<open>A verification library for jailrun.\<close>

  jailrun runs OCI images in FreeBSD jails.  An image is pulled and unpacked by the store
  (\<^verbatim>\<open>store/store.py\<close>), classified by the probe (\<^verbatim>\<open>probe/probe.py\<close>), given native replacements by
  the bakery (\<^verbatim>\<open>bakery/bakery.py\<close>, tables in \<^verbatim>\<open>providers/\<close>), cloned and mounted by the store, put
  on the network by \<^verbatim>\<open>runtime/netpolicy.py\<close> and \<^verbatim>\<open>runtime/netops.py\<close>, started by the engine
  (\<^verbatim>\<open>runtime/engine.py\<close>), recorded in the run ledger (\<^verbatim>\<open>runtime/rundb.py\<close>), and what a crash
  leaves behind is found and removed by the garbage collector (\<^verbatim>\<open>runtime/gc.py\<close>).  The command
  line (\<^verbatim>\<open>runtime/cli.py\<close>) drives all of them, directly or through the runner of a detached run
  (\<^verbatim>\<open>runtime/runner.py\<close>), and reports with \<^verbatim>\<open>runtime/explain.py\<close>, \<^verbatim>\<open>runtime/scan.py\<close> and
  \<^verbatim>\<open>runtime/doctor.py\<close>.

  \<^bold>\<open>How the program is modelled.\<close>  Text is a list of bytes (the characters of \<^typ>\<open>string\<close>,
  read as UTF-8); predicates like \<^verbatim>\<open>isspace\<close>, \<^verbatim>\<open>isalnum\<close> and \<^verbatim>\<open>isdigit\<close> are those of ASCII.  A
  function that raises returns a sum, \<^const>\<open>Inl\<close> the exception.  State is passed explicitly.  A
  loop that may not end is a \<^verbatim>\<open>partial_function\<close> whose value is then \<^const>\<open>None\<close>, and that it ends is a
  theorem.  The programs jailrun calls (zfs, jail, jls, pfctl, mount_nullfs, tar, man, ...), DNS,
  SHA-256, random identifiers and the clock are arguments of the definitions that use them: a
  command is a function from an argument list and a host to an outcome and a host.  Log lines are
  left out.  Names follow the sources, with a suffix or prefix where Isabelle has the name already.

  \<^bold>\<open>The theories: foundations.\<close>

  \<^item> \<^verbatim>\<open>Prelude\<close>: Python's string methods, decimal numbers, results of fallible code, external
    commands, and the lemmas about them that the other theories share.

  \<^item> \<^verbatim>\<open>FileSys\<close>: a tree of directories, files and symbolic links with the path resolution of the
    kernel and of \<^verbatim>\<open>Path.resolve()\<close>, and the file operations of the sources.  A resolution follows
    at most \<^verbatim>\<open>lim\<close> links, which is the kernel's own bound; no lemma fixes it.

  \<^item> \<^verbatim>\<open>Json\<close>: the reader and the two layouts of the writer of Python's \<^verbatim>\<open>json\<close>; every well-formed value is
    read back from either.  \<^verbatim>\<open>PyFloat\<close>: doubles as rational numbers with their rounding, reading and
    printing.

  \<^bold>\<open>The store, the probe and the bakery.\<close>

  \<^item> \<^verbatim>\<open>StoreMerge\<close> (\<^verbatim>\<open>store/store.py\<close>, layers): whiteouts, merging a layer into a root, all layers of
    an image.  Lemmas: nothing outside the root changes, up to two exceptions that are shown to
    be real, and a merge is the overlay of the layer.  The locale \<^verbatim>\<open>tree_store\<close> is what
    confinement needs of a tree.

  \<^item> \<^verbatim>\<open>StoreRun\<close> (\<^verbatim>\<open>store/store.py\<close>, runs): configuration, handles, clones, bind mounts, unmounting,
    destruction, bases, commits.  Lemmas: mounts stay inside the root, the order of unmounting,
    the exact command sequences of destruction and base registration.  The locale
    \<^verbatim>\<open>build_once\<close> is the contract of a result that is built once and marked.

  \<^item> \<^verbatim>\<open>StoreOci\<close> (\<^verbatim>\<open>store/store.py\<close>, images): the OCI cache and image ids, pulling, lock files, the
    extraction of layers on the host or in a jail of its own, and unpacking on both backends.
    Lemmas: what an id says of an image, the life of the extraction jail, and that credentials
    are in no error.

  \<^item> \<^verbatim>\<open>Probe\<close> (\<^verbatim>\<open>probe/probe.py\<close>): ELF headers, the search for executables, classification, risk and
    the manifest.  \<^verbatim>\<open>Manifest\<close>: the JSON schema of manifests as a predicate, and that every manifest
    of the probe satisfies it.

  \<^item> \<^verbatim>\<open>Bakery\<close> (\<^verbatim>\<open>bakery/bakery.py\<close>): provider strings, the provisioning plan, its shell script
    (with what a POSIX shell reads in it), the manifest update and \<^verbatim>\<open>bake\<close>.

  \<^item> \<^verbatim>\<open>Backfill\<close> (\<^verbatim>\<open>providers/backfill.py\<close>): the verification of the whole registry, and that it
    resolves artifacts as the bakery does.

  \<^item> \<^verbatim>\<open>BakeJson\<close>: the bakery on decoded manifests, and the pipeline of the engine, the probe followed by the
    bakery with the store's \<^verbatim>\<open>register_base\<close>.  Lemmas: it keeps the schema, so that what the engine loads
    is of the schema.

  \<^item> \<^verbatim>\<open>Registry\<close> (\<^verbatim>\<open>providers/__init__.py\<close>, \<^verbatim>\<open>registry.schema.json\<close>, \<^verbatim>\<open>validate_provider_data.py\<close>): the loader of the
    registry tables, the schema of their files, the script that validates them, and the document of
    the backfill.  Lemmas: on validated tables nothing that uses them fails.  Elsewhere the tables are an
    argument.

  \<^item> \<^verbatim>\<open>Mains\<close>: the command lines of the probe and of the bakery, \<^verbatim>\<open>validate_manifest_schema.py\<close>, and the
    stand-ins for missing modules (\<^verbatim>\<open>runtime/_mocks.py\<close>).  \<^verbatim>\<open>Bench\<close> (\<^verbatim>\<open>bench/bench.py\<close>): the manifests of its two
    arms, how a run is given one of them, and the summary of its samples.  \<^verbatim>\<open>LiveTests\<close>: the commands and the
    verdicts of the programs that drive a real host (\<^verbatim>\<open>bench/soak.py\<close>, \<^verbatim>\<open>scripts/soak_runner.py\<close>,
    \<^verbatim>\<open>bench/signal_resilience.py\<close>, \<^verbatim>\<open>bench/network_allow_live.py\<close>).

  \<^bold>\<open>The network, the ledger and the garbage collector.\<close>

  \<^item> \<^verbatim>\<open>NetPolicy\<close> (\<^verbatim>\<open>runtime/netpolicy.py\<close>): the policy language, resolution of the allow-list,
    address allocation, and the pf rules of a jail, as text and as rules with pf's evaluation.
    Lemmas: round trip and strictness of the parser, and that the rules let out exactly what
    the policy allows.

  \<^item> \<^verbatim>\<open>NetOps\<close> (\<^verbatim>\<open>runtime/netops.py\<close>): the command sequences that apply and remove a policy, VNET
    and published ports.

  \<^item> \<^verbatim>\<open>RunDb\<close> (\<^verbatim>\<open>runtime/rundb.py\<close>): the \<^verbatim>\<open>runs\<close> table with its key and CHECK, the lazily opened
    connection with its schema migration, and the four operations.  What sqlite or the
    operating system refuses is an input.  Lemmas: the schema invariant, what is written is
    what is read, and which failures are swallowed.  The locale \<^verbatim>\<open>run_ledger\<close> is the contract the
    operations give their callers.

  \<^item> \<^verbatim>\<open>Gc\<close> (\<^verbatim>\<open>runtime/gc.py\<close>): what is live, the reconciliation of jails, rows and datasets, the
    repair, its report and exit code.  Lemmas: exactly what is flagged, what repair runs and
    when it succeeds, and that two rounds of repair leave a working host clean.

  \<^bold>\<open>The engine\<close> (\<^verbatim>\<open>runtime/engine.py\<close>).

  \<^item> \<^verbatim>\<open>Lifecycle\<close> (\<^verbatim>\<open>runtime/lifecycle.py\<close>): signals to all processes of a jail.  \<^verbatim>\<open>EnginePrep\<close>: nested
    jails, the manifest with its caches, the native shadow directory, \<^verbatim>\<open>jail.conf\<close>, administrative
    commands and resource limits.

  \<^item> \<^verbatim>\<open>Engine\<close>: \<^verbatim>\<open>_run_async\<close> as a chain of steps on the record \<^verbatim>\<open>eng\<close>, its \<^verbatim>\<open>finally\<close> block included.  The
    locale \<^verbatim>\<open>run_frame\<close> is what a step that leaves a part of that record alone gives to a chain of
    such steps.  \<^verbatim>\<open>EngineRun\<close>: whole runs, namely the addresses they give back, the exact commands
    of the teardown, and what the caller and the ledger learn.  \<^verbatim>\<open>EngineRoot\<close>: what an image or a
    manifest can make of the root of a run, and the manifest cache.  \<^verbatim>\<open>RunGc\<close>: a run as the garbage
    collector sees it, before it is recorded, while its command goes on, and when it is over.

  \<^item> \<^verbatim>\<open>EngineExec\<close>: the session with a terminal, pass by pass, with the conditions under which it ends;
    live jails; commands in a live jail; and the forwarding of signals as a step relation with
    its invariant.

  \<^bold>\<open>The reports and the command line.\<close>

  \<^item> \<^verbatim>\<open>Explain\<close>, \<^verbatim>\<open>Scan\<close>, \<^verbatim>\<open>Doctor\<close> (\<^verbatim>\<open>runtime/explain.py\<close>, \<^verbatim>\<open>scan.py\<close>, \<^verbatim>\<open>doctor.py\<close>): each report as text and as
    JSON.  Lemmas: on which input a report exists and what it counts, that ranking by rounded
    percentages is ranking by exact shares below \<^verbatim>\<open>2^26\<close> binaries (where two different shares
    are two different doubles), and what exit code 0 of \<^verbatim>\<open>doctor\<close> says of the host.

  \<^item> \<^verbatim>\<open>CliArgs\<close>: the options and arguments of every subcommand as data, and \<^verbatim>\<open>argparse\<close>, which belongs to the
    standard library, as far as it turns a command line into values (that of Python 3.10 and
    3.11).  \<^verbatim>\<open>Cli\<close>, \<^verbatim>\<open>CliTasks\<close>, \<^verbatim>\<open>CliRun\<close>: one definition for each \<^verbatim>\<open>_cmd_\<close> function, over the record \<^verbatim>\<open>console\<close>
    (host, ledger, output, error output); \<^verbatim>\<open>_version.py\<close>; the runner; and \<^verbatim>\<open>main\<close>.

  \<^item> \<^verbatim>\<open>CliProofs\<close>, \<^verbatim>\<open>Copy\<close>: what the command line makes of the components below it.  A detached run is the run
    that was asked for, through the job file and back; two runs at a time have one address; every
    subcommand ends but for the ones that follow something; which files \<^verbatim>\<open>cp\<close> delivers.

  \<^bold>\<open>Bounds.\<close>  The only fuel is the number of links a path resolution follows, an argument of every
  definition that resolves a path, and the length of the text in the reader of \<^verbatim>\<open>Json\<close>, which is proved
  enough for what the writer makes.  Other loops are recursions on data, or end by the theorems
  above.

  \<^bold>\<open>What is not modelled.\<close>  The packaging of the program (\<^verbatim>\<open>scripts/build_zipapp.py\<close>), the clock and the
  fixed sequence of runs of the benchmark, the killing in the signal test, and the unit tests; logging; the raw mode of the terminal; help
  texts; the mode, owner and times of a file and hard links.  What \<^verbatim>\<open>tar\<close> extracts is an argument.  Two
  processes at a time appear where a theorem names both; else an operation runs alone, and what
  happens between two commands is part of the host's answer.
\<close>

end
